(* ===== verification/Prelude.thy ===== *)
theory Prelude
  imports Complex_Main "HOL-Library.Sublist"
begin

text \<open>
  Shared vocabulary of the development: results with an error (\<open>'e + 'a\<close>, the raise of the
  source on the left), the Python string and list operations the components use, and the list
  lemmas that several components rest on.

  Conventions of the whole development. Python \<open>int\<close> is \<open>int\<close> (or \<open>nat\<close> where the code
  keeps it non-negative), \<open>str\<close> is \<open>string\<close> (ASCII; the case and blank tables below are the
  ASCII part of Python's), \<open>datetime\<close> is the number of microseconds since the epoch (\<open>int\<close>,
  exact, as in CPython), \<open>float\<close> seconds are \<open>rat\<close> (exact; binary rounding is not modelled),
  and an identifier (UUID) is a \<open>nat\<close>.
\<close>

named_theorems inv_rules
  "preservation rules: an operation keeps the invariant of its component"

named_theorems op_defs
  "definitions of operations that are unfolded to evaluate or case-split them"

section \<open>Names of the model's types\<close>

type_synonym micros = int
type_synonym secs = rat
type_synonym ident = nat

section \<open>Results\<close>

fun and_then :: "'e + 'a \<Rightarrow> ('a \<Rightarrow> 'e + 'b) \<Rightarrow> 'e + 'b" where
  "and_then (Inl e) f = Inl e"
| "and_then (Inr x) f = f x"

definition guard :: "bool \<Rightarrow> 'e \<Rightarrow> 'e + unit" where
  "guard ok e = (if ok then Inr () else Inl e)"

lemma and_then_Inr_iff:
  "and_then r f = Inr y \<longleftrightarrow> (\<exists>x. r = Inr x \<and> f x = Inr y)"
  by (cases r) auto

lemma and_then_InrE:
  assumes "and_then r f = Inr y"
  obtains x where "r = Inr x" and "f x = Inr y"
  using assms by (cases r) auto

lemma and_then_Inl_iff:
  "and_then r f = Inl e \<longleftrightarrow> r = Inl e \<or> (\<exists>x. r = Inr x \<and> f x = Inl e)"
  by (cases r) auto

lemma guard_Inr [simp]: "guard ok e = Inr u \<longleftrightarrow> ok"
  by (simp add: guard_def)

lemma guard_Inl [simp]: "guard ok e = Inl e' \<longleftrightarrow> \<not> ok \<and> e' = e"
  by (auto simp: guard_def)

lemma and_then_assoc: "and_then (and_then r f) g = and_then r (\<lambda>x. and_then (f x) g)"
  by (cases r) auto

fun is_ok :: "'e + 'a \<Rightarrow> bool" where
  "is_ok (Inl _) = False"
| "is_ok (Inr _) = True"

lemma is_ok_iff: "is_ok r \<longleftrightarrow> (\<exists>x. r = Inr x)"
  by (cases r) auto

section \<open>Python strings\<close>

definition lower_char :: "char \<Rightarrow> char" where
  "lower_char c =
     (if 65 \<le> (of_char c :: nat) \<and> (of_char c :: nat) \<le> 90
      then char_of ((of_char c :: nat) + 32) else c)"

definition py_lower :: "string \<Rightarrow> string" where
  "py_lower s = map lower_char s"

definition is_blank :: "char \<Rightarrow> bool" where
  "is_blank c \<longleftrightarrow> (let n = (of_char c :: nat) in n = 32 \<or> (9 \<le> n \<and> n \<le> 13) \<or> (28 \<le> n \<and> n \<le> 31))"

definition py_lstrip :: "string \<Rightarrow> string" where
  "py_lstrip s = dropWhile is_blank s"

definition py_strip :: "string \<Rightarrow> string" where
  "py_strip s = rev (dropWhile is_blank (rev (py_lstrip s)))"

text \<open>\<open>s.rstrip(c)\<close> and \<open>s.strip(c)\<close> for one character, \<open>s.startswith(p)\<close>, \<open>p in s\<close>.\<close>

definition rstrip_char :: "char \<Rightarrow> string \<Rightarrow> string" where
  "rstrip_char c s = rev (dropWhile (\<lambda>x. x = c) (rev s))"

definition strip_char :: "char \<Rightarrow> string \<Rightarrow> string" where
  "strip_char c s = rstrip_char c (dropWhile (\<lambda>x. x = c) s)"

definition starts_with :: "string \<Rightarrow> string \<Rightarrow> bool" where
  "starts_with p s \<longleftrightarrow> take (length p) s = p"

fun contains :: "string \<Rightarrow> string \<Rightarrow> bool" where
  "contains p [] = (p = [])"
| "contains p (c # s) = (starts_with p (c # s) \<or> contains p s)"

definition blank_str :: "string \<Rightarrow> bool" where
  "blank_str s \<longleftrightarrow> py_strip s = []"

lemma dropWhile_all_iff: "dropWhile P xs = [] \<longleftrightarrow> list_all P xs"
  by (induction xs) auto

lemma list_all_dropWhile: "list_all P (dropWhile P xs) = list_all P xs"
  by (induction xs) auto

lemma blank_str_iff: "blank_str s \<longleftrightarrow> list_all is_blank s"
proof -
  have "blank_str s \<longleftrightarrow> list_all is_blank (dropWhile is_blank s)"
    by (simp only: blank_str_def py_strip_def py_lstrip_def rev_is_Nil_conv dropWhile_all_iff list_all_rev)
  then show ?thesis by (simp only: list_all_dropWhile)
qed

lemma starts_with_iff: "starts_with p s \<longleftrightarrow> (\<exists>r. s = p @ r)"
  by (auto simp: starts_with_def) (metis append_take_drop_id)

lemma starts_with_append [simp]: "starts_with p (p @ s)"
  by (simp add: starts_with_def)

lemma contains_iff: "contains p s \<longleftrightarrow> (\<exists>a b. s = a @ p @ b)"
proof (induction s)
  case Nil
  then show ?case by auto
next
  case (Cons c s)
  have "(\<exists>a b. c # s = a @ p @ b) \<longleftrightarrow> (\<exists>r. c # s = p @ r) \<or> (\<exists>a b. s = a @ p @ b)"
    (is "?L \<longleftrightarrow> ?R1 \<or> ?R2")
  proof
    assume ?L
    then obtain a b where ab: "c # s = a @ p @ b" by blast
    show "?R1 \<or> ?R2"
    proof (cases a)
      case Nil
      with ab show ?thesis by auto
    next
      case (Cons x a')
      with ab have "s = a' @ p @ b" by simp
      then show ?thesis by blast
    qed
  next
    assume "?R1 \<or> ?R2"
    then show ?L
    proof
      assume ?R1
      then show ?L by (metis append_Nil)
    next
      assume ?R2
      then obtain a b where "s = a @ p @ b" by blast
      then have "c # s = (c # a) @ p @ b" by simp
      then show ?L by blast
    qed
  qed
  then show ?case using Cons by (simp add: starts_with_iff)
qed

lemma rstrip_char_no_end:
  assumes "rstrip_char c s = t @ [x]"
  shows "x \<noteq> c"
proof -
  from assms have "rev (rstrip_char c s) = x # rev t" by simp
  then have "dropWhile (\<lambda>x. x = c) (rev s) = x # rev t" by (simp add: rstrip_char_def)
  then show "x \<noteq> c" by (simp add: dropWhile_eq_Cons_conv)
qed

lemma rstrip_char_idem: "rstrip_char c (rstrip_char c s) = rstrip_char c s"
  by (simp add: rstrip_char_def)

lemma py_lower_append: "py_lower (a @ b) = py_lower a @ py_lower b"
  by (simp add: py_lower_def)

lemma lower_char_idem [simp]: "lower_char (lower_char c) = lower_char c"
proof (cases "65 \<le> (of_char c :: nat) \<and> (of_char c :: nat) \<le> 90")
  case True
  then have "(of_char (char_of ((of_char c :: nat) + 32) :: char) :: nat) = of_char c + 32"
    by (simp add: take_bit_eq_mod)
  with True show ?thesis by (simp add: lower_char_def)
next
  case False
  then have "lower_char c = c" by (auto simp: lower_char_def)
  then show ?thesis by simp
qed

lemma py_lower_idem [simp]: "py_lower (py_lower s) = py_lower s"
  by (simp add: py_lower_def comp_def)

section \<open>Numbers in text\<close>

text \<open>\<open>str(n)\<close>, two-digit formatting, and \<open>int(s)\<close> (blanks, a sign, digits with single underscores
  between them); \<open>None\<close> is the \<open>ValueError\<close>.\<close>

definition digit_char :: "nat \<Rightarrow> char" where
  "digit_char d = char_of (48 + d)"

definition is_digit :: "char \<Rightarrow> bool" where
  "is_digit c \<longleftrightarrow> 48 \<le> (of_char c :: nat) \<and> (of_char c :: nat) \<le> 57"

definition digit_val :: "char \<Rightarrow> nat" where
  "digit_val c = of_char c - 48"

fun show_nat :: "nat \<Rightarrow> string" where
  "show_nat n = (if n < 10 then [digit_char n] else show_nat (n div 10) @ [digit_char (n mod 10)])"

declare show_nat.simps [simp del]

definition two_digits :: "nat \<Rightarrow> string" where
  "two_digits n = (if n < 10 then CHR ''0'' # show_nat n else show_nat n)"

fun digits_acc :: "nat \<Rightarrow> string \<Rightarrow> nat option" where
  "digits_acc a [] = Some a"
| "digits_acc a [c] = (if is_digit c then Some (10 * a + digit_val c) else None)"
| "digits_acc a (c # d # cs) =
     (if is_digit c then digits_acc (10 * a + digit_val c) (d # cs)
      else if c = CHR ''_'' \<and> is_digit d then digits_acc (10 * a + digit_val d) cs
      else None)"

fun py_nat :: "string \<Rightarrow> nat option" where
  "py_nat [] = None"
| "py_nat (c # cs) = (if is_digit c then digits_acc (digit_val c) cs else None)"

definition py_int :: "string \<Rightarrow> int option" where
  "py_int s =
     (case py_strip s of
        [] \<Rightarrow> None
      | c # r \<Rightarrow>
          if c = CHR ''-'' then map_option (\<lambda>n. - int n) (py_nat r)
          else if c = CHR ''+'' then map_option int (py_nat r)
          else map_option int (py_nat (c # r)))"

lemma of_digit_char: "d < 10 \<Longrightarrow> (of_char (digit_char d) :: nat) = 48 + d"
  by (simp add: digit_char_def take_bit_eq_mod)

lemma digit_char_digit [simp]: "d < 10 \<Longrightarrow> is_digit (digit_char d)"
  by (simp add: is_digit_def of_digit_char)

lemma digit_val_char [simp]: "d < 10 \<Longrightarrow> digit_val (digit_char d) = d"
  by (simp add: digit_val_def of_digit_char)

lemma digit_not_blank: "is_digit c \<Longrightarrow> \<not> is_blank c"
  by (auto simp: is_digit_def is_blank_def Let_def)

lemma digit_not_sign: "is_digit c \<Longrightarrow> c \<noteq> CHR ''-'' \<and> c \<noteq> CHR ''+''"
  by (auto simp: is_digit_def)

lemma py_strip_no_blank: "list_all (\<lambda>c. \<not> is_blank c) s \<Longrightarrow> py_strip s = s"
proof -
  assume a: "list_all (\<lambda>c. \<not> is_blank c) s"
  have drop: "dropWhile is_blank t = t" if "list_all (\<lambda>c. \<not> is_blank c) t" for t
    using that by (cases t) auto
  from drop [OF a] drop [of "rev s"] a show ?thesis by (simp add: py_strip_def py_lstrip_def list_all_iff)
qed

lemma py_int_digits:
  "list_all is_digit (c # cs) \<Longrightarrow> py_int (c # cs) = map_option int (digits_acc (digit_val c) cs)"
proof -
  assume d: "list_all is_digit (c # cs)"
  then have "py_strip (c # cs) = c # cs"
    by (intro py_strip_no_blank) (auto simp: list_all_iff dest: digit_not_blank)
  with d digit_not_sign [of c] show ?thesis by (simp add: py_int_def)
qed

lemma show_nat_eq: "show_nat n = (if n < 10 then [digit_char n] else show_nat (n div 10) @ [digit_char (n mod 10)])"
  by (rule show_nat.simps)

lemma show_nat_nonempty: "show_nat n \<noteq> []"
  by (subst show_nat_eq) simp

lemma digit_char_inj: "a < 10 \<Longrightarrow> b < 10 \<Longrightarrow> digit_char a = digit_char b \<Longrightarrow> a = b"
  by (metis digit_val_char)

lemma show_nat_inj: "show_nat m = show_nat n \<Longrightarrow> m = n"
proof (induction m arbitrary: n rule: less_induct)
  case (less m)
  show ?case
  proof (cases "m < 10")
    case True
    show ?thesis
    proof (cases "n < 10")
      case True
      with \<open>m < 10\<close> less.prems digit_char_inj show ?thesis by (simp add: show_nat_eq [of m] show_nat_eq [of n])
    next
      case False
      then have "length (show_nat n) \<noteq> 1" using show_nat_nonempty by (subst show_nat_eq) simp
      with \<open>m < 10\<close> less.prems show ?thesis by (simp add: show_nat_eq [of m]) (metis length_Cons list.size(3))
    qed
  next
    case False
    then have m: "show_nat m = show_nat (m div 10) @ [digit_char (m mod 10)]" by (subst show_nat_eq) simp
    have "\<not> n < 10"
    proof
      assume "n < 10"
      then have "length (show_nat n) = 1" by (subst show_nat_eq) simp
      with m less.prems show_nat_nonempty [of "m div 10"] show False by simp
    qed
    then have "show_nat n = show_nat (n div 10) @ [digit_char (n mod 10)]" by (subst show_nat_eq) simp
    with m less.prems have "show_nat (m div 10) = show_nat (n div 10)" and "digit_char (m mod 10) = digit_char (n mod 10)"
      by simp_all
    with False less.IH [of "m div 10" "n div 10"] digit_char_inj [of "m mod 10" "n mod 10"]
    have "m div 10 = n div 10" and "m mod 10 = n mod 10" by simp_all
    then show ?thesis by (metis div_mult_mod_eq)
  qed
qed

lemma py_int_two_digits: "n < 100 \<Longrightarrow> py_int (two_digits n) = Some (int n)"
proof -
  assume n: "n < 100"
  have "two_digits n = [digit_char (n div 10), digit_char (n mod 10)]"
  proof -
    have "CHR ''0'' = digit_char 0" by code_simp
    then show ?thesis
      using n by (simp add: two_digits_def show_nat.simps [of n] show_nat.simps [of "n div 10"])
  qed
  with n show ?thesis by (simp add: py_int_digits)
qed

section \<open>Python lists\<close>

text \<open>\<open>xs[i]\<close>: a negative index counts from the end, an index out of range raises.\<close>

definition py_get :: "'a list \<Rightarrow> int \<Rightarrow> 'a option" where
  "py_get xs i =
     (let n = int (length xs); j = (if i < 0 then n + i else i)
      in if 0 \<le> j \<and> j < n then Some (xs ! nat j) else None)"

lemma py_get_in_range: "0 \<le> i \<Longrightarrow> i < int (length xs) \<Longrightarrow> py_get xs i = Some (xs ! nat i)"
  by (simp add: py_get_def)

lemma py_get_mem: "py_get xs i = Some x \<Longrightarrow> x \<in> set xs"
  by (auto simp: py_get_def Let_def split: if_splits)

text \<open>\<open>xs[-n:]\<close> for a positive \<open>n\<close>, the last \<open>n\<close> elements.\<close>

definition last_n :: "nat \<Rightarrow> 'a list \<Rightarrow> 'a list" where
  "last_n n xs = drop (length xs - n) xs"

lemma length_last_n [simp]: "length (last_n n xs) = min n (length xs)"
  by (simp add: last_n_def)

lemma set_last_n: "set (last_n n xs) \<subseteq> set xs"
  by (simp add: last_n_def set_drop_subset)

lemma last_n_snoc: "0 < n \<Longrightarrow> last_n n (xs @ [x]) = last_n (n - 1) xs @ [x]"
  by (cases "n \<le> length xs") (auto simp: last_n_def Suc_diff_le)

section \<open>Dictionaries as association lists\<close>

text \<open>
  A Python dict keeps its insertion order: storing under a key that is present changes the value
  in place, storing under a new key appends.
\<close>

fun dict_put :: "'k \<Rightarrow> 'v \<Rightarrow> ('k \<times> 'v) list \<Rightarrow> ('k \<times> 'v) list" where
  "dict_put k v [] = [(k, v)]"
| "dict_put k v ((k', v') # d) = (if k' = k then (k, v) # d else (k', v') # dict_put k v d)"

definition dict_pop :: "'k \<Rightarrow> ('k \<times> 'v) list \<Rightarrow> ('k \<times> 'v) list" where
  "dict_pop k d = filter (\<lambda>e. fst e \<noteq> k) d"

lemma map_of_dict_put [simp]: "map_of (dict_put k v d) = (map_of d)(k \<mapsto> v)"
  by (induction d) (auto simp: fun_eq_iff)

lemma map_of_dict_pop [simp]: "map_of (dict_pop k d) = (map_of d)(k := None)"
  by (induction d) (auto simp: dict_pop_def fun_eq_iff)

lemma keys_dict_put: "fst ` set (dict_put k v d) = insert k (fst ` set d)"
proof (induction d)
  case Nil
  then show ?case by simp
next
  case (Cons e d)
  then show ?case by (cases e) (simp add: insert_commute)
qed

lemma distinct_dict_put: "distinct (map fst d) \<Longrightarrow> distinct (map fst (dict_put k v d))"
proof (induction d)
  case Nil
  then show ?case by simp
next
  case (Cons e d)
  obtain k' v' where e: "e = (k', v')" by (cases e)
  have "k' \<noteq> k \<Longrightarrow> k' \<notin> fst ` set (dict_put k v d)"
    using Cons.prems by (simp add: e keys_dict_put)
  with Cons show ?case by (auto simp: e)
qed

lemma distinct_dict_pop: "distinct (map fst d) \<Longrightarrow> distinct (map fst (dict_pop k d))"
  by (simp add: dict_pop_def distinct_map_filter)

section \<open>Lists\<close>

lemma count_filter_split:
  "length (filter P xs) + length (filter (\<lambda>x. \<not> P x) xs) = length xs"
  by (induction xs) auto

lemma sum_list_map_nonneg: "(\<And>x. x \<in> set xs \<Longrightarrow> 0 \<le> (f x :: 'a :: ordered_comm_monoid_add)) \<Longrightarrow> 0 \<le> sum_list (map f xs)"
  by (induction xs) auto

lemma find_Some_mem: "List.find P xs = Some x \<Longrightarrow> x \<in> set xs \<and> P x"
  by (induction xs) (auto split: if_splits)

lemma find_None_iff_all: "List.find P xs = None \<longleftrightarrow> (\<forall>x \<in> set xs. \<not> P x)"
  by (induction xs) auto

lemma find_key_unique: "distinct (map f xs) \<Longrightarrow> x \<in> set xs \<Longrightarrow> List.find (\<lambda>y. f y = f x) xs = Some x"
  by (induction xs) (auto simp: rev_image_eqI)

end
