(* ===== verification/Interfaces.thy ===== *)
theory Interfaces
  imports Prelude
begin

text \<open>
  The contracts between components, stated as locales. Each is interpreted in the theory of the
  component that provides it:
  \<^item> \<open>backoff_schedule\<close>: a retry delay by attempt number (SDK retry scheduler, login
    lockout, agent retry policy, retry policy of the HTTP client);
  \<^item> \<open>bounded_fifo\<close>: a bounded queue drained in batches (SDK memory queue, agent memory
    queue, the queue of a realtime connection);
  \<^item> \<open>event_store\<close>: durable storage of undelivered events (SDK persistent queue, agent
    SQLite store);
  \<^item> \<open>window_limiter\<close>: a sliding-window limiter (login attempts by address, e-mail sends,
    realtime connection attempts).
\<close>

section \<open>Retry schedules\<close>

locale backoff_schedule =
  fixes delay :: "nat \<Rightarrow> secs"
    and steps :: nat
    and cap :: secs
  assumes delay_pos: "1 \<le> n \<Longrightarrow> 0 < delay n"
    and delay_mono: "1 \<le> m \<Longrightarrow> m \<le> n \<Longrightarrow> delay m \<le> delay n"
    and delay_hold: "steps \<le> n \<Longrightarrow> 1 \<le> n \<Longrightarrow> delay n = cap"
begin

lemma delay_le_cap: "1 \<le> n \<Longrightarrow> delay n \<le> cap"
proof -
  assume n: "1 \<le> n"
  have "delay n \<le> delay (max n steps)" using n by (intro delay_mono) auto
  also have "\<dots> = cap" using n by (intro delay_hold) auto
  finally show ?thesis .
qed

lemma cap_pos: "0 < cap"
  using delay_pos [of "max 1 steps"] delay_hold [of "max 1 steps"] by simp

text \<open>After \<open>n\<close> failed attempts the total time waited is at most \<open>n\<close> times the cap.\<close>

lemma total_wait_le: "sum_list (map delay [1..<Suc n]) \<le> of_nat n * cap"
proof (induction n)
  case 0
  then show ?case by simp
next
  case (Suc n)
  have "sum_list (map delay [1..<Suc (Suc n)]) = sum_list (map delay [1..<Suc n]) + delay (Suc n)"
    by simp
  also have "\<dots> \<le> of_nat n * cap + cap"
    using Suc delay_le_cap [of "Suc n"] by (intro add_mono) auto
  finally show ?case by (simp add: algebra_simps)
qed

end

section \<open>Bounded queues\<close>

fun drain :: "(nat \<Rightarrow> 'q \<Rightarrow> 'a list \<times> 'q) \<Rightarrow> nat \<Rightarrow> nat \<Rightarrow> 'q \<Rightarrow> 'a list" where
  "drain take_batch n 0 q = []"
| "drain take_batch n (Suc k) q = fst (take_batch n q) @ drain take_batch n k (snd (take_batch n q))"

locale bounded_fifo =
  fixes items :: "'q \<Rightarrow> 'a list"
    and capacity :: "'q \<Rightarrow> nat"
    and put :: "'a \<Rightarrow> 'q \<Rightarrow> 'q"
    and take_batch :: "nat \<Rightarrow> 'q \<Rightarrow> 'a list \<times> 'q"
  assumes put_capacity: "capacity (put x q) = capacity q"
    and put_room: "length (items q) < capacity q \<Longrightarrow> items (put x q) = items q @ [x]"
    and put_bound: "0 < capacity q \<Longrightarrow> length (items q) \<le> capacity q \<Longrightarrow> length (items (put x q)) \<le> capacity q"
    and batch_capacity: "capacity (snd (take_batch n q)) = capacity q"
    and batch_taken: "fst (take_batch n q) = take n (items q)"
    and batch_left: "items (snd (take_batch n q)) = drop n (items q)"
begin

lemma batch_partition: "fst (take_batch n q) @ items (snd (take_batch n q)) = items q"
  by (simp add: batch_taken batch_left)

lemma batch_bound: "length (items q) \<le> capacity q \<Longrightarrow> length (items (snd (take_batch n q))) \<le> capacity q"
  by (simp add: batch_left)

text \<open>Draining in batches hands over the queue in its order, without loss or repetition.\<close>

lemma drain_eq: "drain take_batch n k q = take (k * n) (items q)"
proof (induction k arbitrary: q)
  case 0
  then show ?case by simp
next
  case (Suc k)
  have "drain take_batch n (Suc k) q = take n (items q) @ take (k * n) (drop n (items q))"
    by (simp add: Suc batch_taken batch_left)
  also have "\<dots> = take (n + k * n) (items q)" by (simp add: take_add)
  finally show ?case by simp
qed

lemma drain_complete: "length (items q) \<le> k * n \<Longrightarrow> drain take_batch n k q = items q"
  by (simp add: drain_eq)

text \<open>While there is room for all of them, everything put comes out again, first in first out.\<close>

lemma fold_put_items:
  "length (items q) + length xs \<le> capacity q \<Longrightarrow> items (fold put xs q) = items q @ xs"
proof (induction xs arbitrary: q)
  case Nil
  then show ?case by simp
next
  case (Cons x xs)
  then have "items (put x q) = items q @ [x]" by (intro put_room) simp
  with Cons show ?case by (simp add: put_capacity)
qed

lemma fifo_roundtrip:
  "items q = [] \<Longrightarrow> length xs \<le> capacity q \<Longrightarrow> length xs \<le> k * n \<Longrightarrow>
   drain take_batch n k (fold put xs q) = xs"
  by (simp add: fold_put_items drain_complete)

end

section \<open>Durable stores of undelivered events\<close>

datatype ('t, 'i, 'p) store_op =
    St_enqueue 't 'i 'p
  | St_retry 'i nat 't
  | St_remove 'i

fun run_store ::
  "('t \<Rightarrow> 'i \<Rightarrow> 'p \<Rightarrow> 's \<Rightarrow> 's) \<Rightarrow> ('i \<Rightarrow> nat \<Rightarrow> 't \<Rightarrow> 's \<Rightarrow> 's) \<Rightarrow> ('i \<Rightarrow> 's \<Rightarrow> 's)
   \<Rightarrow> ('t, 'i, 'p) store_op list \<Rightarrow> 's \<Rightarrow> 's" where
  "run_store enq retry rem [] s = s"
| "run_store enq retry rem (St_enqueue t i p # ops) s = run_store enq retry rem ops (enq t i p s)"
| "run_store enq retry rem (St_retry i n t # ops) s = run_store enq retry rem ops (retry i n t s)"
| "run_store enq retry rem (St_remove i # ops) s = run_store enq retry rem ops (rem i s)"

locale event_store =
  fixes enq :: "'t \<Rightarrow> 'i \<Rightarrow> 'p \<Rightarrow> 's \<Rightarrow> 's"
    and retry :: "'i \<Rightarrow> nat \<Rightarrow> 't \<Rightarrow> 's \<Rightarrow> 's"
    and rem :: "'i \<Rightarrow> 's \<Rightarrow> 's"
    and due :: "'t \<Rightarrow> nat \<Rightarrow> 's \<Rightarrow> ('i \<times> 'p) list"
    and pending :: "'s \<Rightarrow> 'i \<Rightarrow> 'p option"
    and wf :: "'s \<Rightarrow> bool"
  assumes enq_self: "wf s \<Longrightarrow> pending (enq t i p s) i \<noteq> None"
    and enq_other: "wf s \<Longrightarrow> j \<noteq> i \<Longrightarrow> pending (enq t i p s) j = pending s j"
    and retry_pending: "wf s \<Longrightarrow> pending (retry i n t s) = pending s"
    and rem_pending: "wf s \<Longrightarrow> pending (rem i s) = (pending s)(i := None)"
    and due_pending: "wf s \<Longrightarrow> (i, p) \<in> set (due t n s) \<Longrightarrow> pending s i = Some p"
    and due_distinct: "wf s \<Longrightarrow> distinct (map fst (due t n s))"
    and due_limit: "length (due t n s) \<le> n"
    and wf_enq: "wf s \<Longrightarrow> wf (enq t i p s)"
    and wf_retry: "wf s \<Longrightarrow> wf (retry i n t s)"
    and wf_rem: "wf s \<Longrightarrow> wf (rem i s)"
begin

lemma run_wf: "wf s \<Longrightarrow> wf (run_store enq retry rem ops s)"
proof (induction ops arbitrary: s)
  case Nil
  then show ?case by simp
next
  case (Cons op ops)
  then show ?case by (cases op) (auto intro: wf_enq wf_retry wf_rem)
qed

text \<open>An event leaves the store only by its own removal: nothing else loses it.\<close>

lemma survives:
  assumes "wf s" and "pending s i \<noteq> None" and "St_remove i \<notin> set ops"
  shows "pending (run_store enq retry rem ops s) i \<noteq> None"
  using assms
proof (induction ops arbitrary: s)
  case Nil
  then show ?case by simp
next
  case (Cons op ops)
  show ?case
  proof (cases op)
    case (St_enqueue t j p)
    have "pending (enq t j p s) i \<noteq> None"
      using Cons.prems enq_self enq_other by (cases "i = j") auto
    with Cons St_enqueue show ?thesis by (simp add: wf_enq)
  next
    case (St_retry j n t)
    with Cons show ?thesis by (simp add: wf_retry retry_pending)
  next
    case (St_remove j)
    with Cons show ?thesis by (auto simp: wf_rem rem_pending)
  qed
qed

lemma removed: "wf s \<Longrightarrow> pending (rem i s) i = None"
  by (simp add: rem_pending)

end

section \<open>Sliding-window limiters\<close>

text \<open>
  One key of a limiter: \<open>attempt now s\<close> is the answer and the new state, \<open>hits s\<close> the
  recorded attempts. \<open>grants\<close> runs a list of attempts and collects the times of those that were
  allowed.
\<close>

fun grants :: "(secs \<Rightarrow> 's \<Rightarrow> bool \<times> 's) \<Rightarrow> secs list \<Rightarrow> 's \<Rightarrow> secs list" where
  "grants attempt [] s = []"
| "grants attempt (t # ts) s =
     (let (ok, s') = attempt t s in (if ok then t # grants attempt ts s' else grants attempt ts s'))"

definition in_window :: "secs \<Rightarrow> secs \<Rightarrow> secs \<Rightarrow> bool" where
  "in_window w now t \<longleftrightarrow> now - w < t \<and> t \<le> now"

locale window_limiter =
  fixes attempt :: "secs \<Rightarrow> 's \<Rightarrow> bool \<times> 's"
    and hits :: "'s \<Rightarrow> secs list"
    and width :: secs
    and limit :: nat
  assumes width_pos: "0 < width"
    and keeps: "attempt now s = (ok, s') \<Longrightarrow>
      filter (\<lambda>t. now - width < t) (hits s') = filter (\<lambda>t. now - width < t) (hits s)
      \<or> filter (\<lambda>t. now - width < t) (hits s') = filter (\<lambda>t. now - width < t) (hits s) @ [now]"
    and records: "attempt now s = (True, s') \<Longrightarrow>
      filter (\<lambda>t. now - width < t) (hits s') = filter (\<lambda>t. now - width < t) (hits s) @ [now]
      \<and> length (filter (\<lambda>t. now - width < t) (hits s')) \<le> limit"
begin

text \<open>
  Along a run whose times do not go back, the recorded hits dominate the grants above any bound
  that is not older than the current window (\<open>covers\<close>), so each grant closes a window with at
  most \<open>limit\<close> grants in it (\<open>tight\<close>).
\<close>

definition covers :: "secs \<Rightarrow> secs list \<Rightarrow> 's \<Rightarrow> bool" where
  "covers now gs s \<longleftrightarrow> (\<forall>b \<ge> now - width.
     length (filter (\<lambda>t. b < t) gs) \<le> length (filter (\<lambda>t. b < t) (hits s)))"

definition tight :: "secs list \<Rightarrow> bool" where
  "tight gs \<longleftrightarrow> (\<forall>xs g ys. gs = xs @ g # ys \<longrightarrow>
     length (filter (\<lambda>t. g - width < t) (xs @ [g])) \<le> limit)"

lemma above_bound: "now - width \<le> b \<Longrightarrow>
    filter (\<lambda>t. b < t) xs = filter (\<lambda>t. b < t) (filter (\<lambda>t. now - width < t) xs)"
  by (induction xs) auto

lemma covers_step:
  assumes c: "covers now gs s" and le: "now \<le> t" and a: "attempt t s = (ok, s')"
  shows "covers t (if ok then gs @ [t] else gs) s'"
  unfolding covers_def
proof (intro allI impI)
  fix b
  assume b: "t - width \<le> b"
  have old: "length (filter (\<lambda>x. b < x) gs) \<le> length (filter (\<lambda>x. b < x) (hits s))"
    using c b le unfolding covers_def by simp
  let ?f = "filter (\<lambda>x. b < x)" and ?w = "filter (\<lambda>x. t - width < x)"
  have hs: "?f (hits s) = ?f (?w (hits s))" "?f (hits s') = ?f (?w (hits s'))"
    by (rule above_bound [OF b])+
  show "length (?f (if ok then gs @ [t] else gs)) \<le> length (?f (hits s'))"
  proof (cases ok)
    case True
    with a records [of t s s'] have "?w (hits s') = ?w (hits s) @ [t]" by simp
    then have "?f (hits s') = ?f (hits s) @ ?f [t]" unfolding hs by simp
    with True old show ?thesis by simp
  next
    case False
    have "?w (hits s') = ?w (hits s) \<or> ?w (hits s') = ?w (hits s) @ [t]" by (rule keeps [OF a])
    then have "?f (hits s') = ?f (hits s) \<or> ?f (hits s') = ?f (hits s) @ ?f [t]"
      unfolding hs by (auto simp del: filter_filter)
    with False old show ?thesis by auto
  qed
qed

lemma tight_snoc:
  assumes "tight gs" and "covers t (gs @ [t]) s'" and "length (filter (\<lambda>x. t - width < x) (hits s')) \<le> limit"
  shows "tight (gs @ [t])"
proof -
  have last: "length (filter (\<lambda>x. t - width < x) (gs @ [t])) \<le> limit"
    using assms(2,3) unfolding covers_def by force
  show ?thesis
    unfolding tight_def
  proof (intro allI impI)
    fix xs g ys
    assume eq: "gs @ [t] = xs @ g # ys"
    show "length (filter (\<lambda>x. g - width < x) (xs @ [g])) \<le> limit"
    proof (cases ys rule: rev_cases)
      case Nil
      with eq have "gs @ [t] = xs @ [g]" and "g = t" by simp_all
      with last show ?thesis by simp
    next
      case (snoc ys' y)
      with eq have "gs = xs @ g # ys'" by simp
      with assms(1) show ?thesis unfolding tight_def by blast
    qed
  qed
qed

lemma grants_tight:
  assumes "sorted (now # ts)" and "covers now gs s" and "tight gs"
  shows "tight (gs @ grants attempt ts s)"
  using assms
proof (induction ts arbitrary: now gs s)
  case Nil
  then show ?case by simp
next
  case (Cons t ts)
  obtain ok s' where a: "attempt t s = (ok, s')" by (cases "attempt t s")
  let ?gs = "if ok then gs @ [t] else gs"
  have c: "covers t ?gs s'" using Cons.prems by (intro covers_step [OF _ _ a]) auto
  moreover have "tight ?gs"
    using Cons.prems(3) c records [of t s s'] a by (cases ok) (auto intro: tight_snoc)
  ultimately have "tight (?gs @ grants attempt ts s')"
    using Cons.prems(1) by (intro Cons.IH) auto
  then show ?case by (cases ok) (simp_all add: a)
qed

theorem grants_per_window:
  assumes "sorted ts"
  shows "length (filter (in_window width u) (grants attempt ts s)) \<le> limit"
proof -
  have "covers (hd (ts @ [0])) [] s" and "tight []" by (auto simp: covers_def tight_def)
  moreover have "sorted (hd (ts @ [0]) # ts) \<or> ts = []" using assms by (cases ts) auto
  ultimately have t: "tight (grants attempt ts s)"
    using grants_tight [of "hd (ts @ [0])" ts "[]" s] by (auto simp: tight_def)
  let ?G = "grants attempt ts s"
  show ?thesis
  proof (cases "\<exists>g \<in> set ?G. in_window width u g")
    case False
    then have "filter (in_window width u) ?G = []" by (simp add: filter_empty_conv)
    then show ?thesis by simp
  next
    case True
    then obtain xs g ys where G: "?G = xs @ g # ys" and g: "in_window width u g"
      and rest: "\<forall>y \<in> set ys. \<not> in_window width u y"
      using split_list_last_prop [of ?G "in_window width u"] by blast
    have "filter (in_window width u) ?G = filter (in_window width u) (xs @ [g])"
      using rest by (simp add: G filter_empty_conv)
    also have "length \<dots> \<le> length (filter (\<lambda>t. g - width < t) (xs @ [g]))"
    proof -
      have "filter (in_window width u) (xs @ [g])
          = filter (in_window width u) (filter (\<lambda>t. g - width < t) (xs @ [g]))"
        using g by (auto simp: in_window_def intro!: filter_cong)
      then show ?thesis by (metis length_filter_le)
    qed
    also have "\<dots> \<le> limit" using t G unfolding tight_def by blast
    finally show ?thesis .
  qed
qed

end

end
