(* ===== verification/Sdk_Breaker.thy ===== *)
theory Sdk_Breaker
  imports Interfaces
begin

text \<open>
  The small components of the Python SDK's reliability layer
  (\<open>sdk/python/costorah/reliability\<close>): the circuit breaker, the retry scheduler and its
  classification of HTTP statuses, the telemetry counters and the compression decision.
  The lock around each breaker operation makes it atomic, so an operation is one function on the
  breaker's record; \<open>time.monotonic()\<close> is the argument \<open>now\<close>.
\<close>

section \<open>Circuit breaker\<close>

datatype circuit_state = CB_CLOSED | CB_OPEN | CB_HALF_OPEN

record breaker =
  failure_threshold :: int
  recovery_timeout :: secs
  half_open_max_calls :: int
  cb_state :: circuit_state
  consecutive_failures :: int
  opened_at :: "secs option"
  half_open_in_flight :: int
  half_open_successes :: int

datatype breaker_error = FailureThresholdNotPositive | HalfOpenMaxCallsNotPositive

definition breaker_init :: "int \<Rightarrow> secs \<Rightarrow> int \<Rightarrow> breaker_error + breaker" where
  "breaker_init threshold recovery max_calls =
     (if threshold \<le> 0 then Inl FailureThresholdNotPositive
      else if max_calls \<le> 0 then Inl HalfOpenMaxCallsNotPositive
      else Inr \<lparr>failure_threshold = threshold, recovery_timeout = recovery,
                half_open_max_calls = max_calls, cb_state = CB_CLOSED,
                consecutive_failures = 0, opened_at = None,
                half_open_in_flight = 0, half_open_successes = 0\<rparr>)"

definition cb_current :: "secs \<Rightarrow> breaker \<Rightarrow> breaker" where
  "cb_current now b =
     (case opened_at b of
        None \<Rightarrow> b
      | Some t0 \<Rightarrow>
          if cb_state b = CB_OPEN \<and> now - t0 \<ge> recovery_timeout b
          then b\<lparr>cb_state := CB_HALF_OPEN, half_open_in_flight := 0, half_open_successes := 0\<rparr>
          else b)"

definition cb_allow :: "secs \<Rightarrow> breaker \<Rightarrow> bool \<times> breaker" where
  "cb_allow now b0 =
     (let b = cb_current now b0
      in case cb_state b of
           CB_CLOSED \<Rightarrow> (True, b)
         | CB_OPEN \<Rightarrow> (False, b)
         | CB_HALF_OPEN \<Rightarrow>
             if half_open_in_flight b < half_open_max_calls b
             then (True, b\<lparr>half_open_in_flight := half_open_in_flight b + 1\<rparr>)
             else (False, b))"

definition cb_success :: "breaker \<Rightarrow> breaker" where
  "cb_success b =
     (if cb_state b = CB_HALF_OPEN then
        (let b' = b\<lparr>half_open_successes := half_open_successes b + 1\<rparr>
         in if half_open_successes b' \<ge> half_open_max_calls b'
            then b'\<lparr>cb_state := CB_CLOSED, consecutive_failures := 0, opened_at := None\<rparr>
            else b')
      else b\<lparr>consecutive_failures := 0\<rparr>)"

definition cb_failure :: "secs \<Rightarrow> breaker \<Rightarrow> breaker" where
  "cb_failure now b =
     (if cb_state b = CB_HALF_OPEN
      then b\<lparr>cb_state := CB_OPEN, opened_at := Some now,
             half_open_in_flight := 0, half_open_successes := 0\<rparr>
      else (let b' = b\<lparr>consecutive_failures := consecutive_failures b + 1\<rparr>
            in if consecutive_failures b' \<ge> failure_threshold b'
               then b'\<lparr>cb_state := CB_OPEN, opened_at := Some now\<rparr>
               else b'))"

subsection \<open>Invariant\<close>

definition cb_inv :: "breaker \<Rightarrow> bool" where
  "cb_inv b \<longleftrightarrow>
     0 < failure_threshold b \<and> 0 < half_open_max_calls b \<and>
     0 \<le> consecutive_failures b \<and>
     0 \<le> half_open_in_flight b \<and> half_open_in_flight b \<le> half_open_max_calls b \<and>
     0 \<le> half_open_successes b \<and>
     (cb_state b = CB_CLOSED \<longrightarrow> consecutive_failures b < failure_threshold b) \<and>
     (cb_state b = CB_HALF_OPEN \<longrightarrow> half_open_successes b < half_open_max_calls b) \<and>
     (cb_state b = CB_OPEN \<longrightarrow> opened_at b \<noteq> None)"

lemma breaker_init_inv: "breaker_init n r m = Inr b \<Longrightarrow> cb_inv b"
  by (auto simp: breaker_init_def cb_inv_def split: if_splits)

lemma cb_current_inv [inv_rules]: "cb_inv b \<Longrightarrow> cb_inv (cb_current now b)"
  by (auto simp: cb_inv_def cb_current_def split: option.splits)

lemma cb_allow_inv [inv_rules]: "cb_inv b \<Longrightarrow> cb_inv (snd (cb_allow now b))"
  using cb_current_inv [of b now]
  by (auto simp: cb_allow_def cb_inv_def Let_def split: circuit_state.splits)

lemma cb_success_inv [inv_rules]: "cb_inv b \<Longrightarrow> cb_inv (cb_success b)"
  by (auto simp: cb_inv_def cb_success_def Let_def)

lemma cb_failure_inv [inv_rules]: "cb_inv b \<Longrightarrow> cb_inv (cb_failure now b)"
  by (auto simp: cb_inv_def cb_failure_def Let_def)

subsection \<open>Runs\<close>

datatype cb_op = Cb_state secs | Cb_allow secs | Cb_success | Cb_failure secs

text \<open>A run of breaker operations: the final breaker and the answers of \<open>allow_request\<close>.\<close>

fun cb_step :: "cb_op \<Rightarrow> breaker \<Rightarrow> bool list \<times> breaker" where
  "cb_step (Cb_state t) b = ([], cb_current t b)"
| "cb_step (Cb_allow t) b = (let (ok, b') = cb_allow t b in ([ok], b'))"
| "cb_step Cb_success b = ([], cb_success b)"
| "cb_step (Cb_failure t) b = ([], cb_failure t b)"

fun cb_run :: "cb_op list \<Rightarrow> breaker \<Rightarrow> bool list \<times> breaker" where
  "cb_run [] b = ([], b)"
| "cb_run (op # ops) b =
     (let (a, b') = cb_step op b; (as, b'') = cb_run ops b' in (a @ as, b''))"

lemma cb_step_inv: "cb_inv b \<Longrightarrow> cb_inv (snd (cb_step op b))"
  by (cases op) (auto simp: split_def Let_def intro: inv_rules)

lemma cb_run_inv: "cb_inv b \<Longrightarrow> cb_inv (snd (cb_run ops b))"
  by (induction ops arbitrary: b) (auto simp: split_def Let_def intro: cb_step_inv)

lemma cb_step_config:
  "failure_threshold (snd (cb_step op b)) = failure_threshold b \<and>
   recovery_timeout (snd (cb_step op b)) = recovery_timeout b \<and>
   half_open_max_calls (snd (cb_step op b)) = half_open_max_calls b"
  by (cases op) (auto simp: cb_current_def cb_allow_def cb_success_def cb_failure_def Let_def
      split: option.splits circuit_state.splits)

lemma cb_run_config:
  "failure_threshold (snd (cb_run ops b)) = failure_threshold b \<and>
   recovery_timeout (snd (cb_run ops b)) = recovery_timeout b \<and>
   half_open_max_calls (snd (cb_run ops b)) = half_open_max_calls b"
  by (induction ops arbitrary: b) (auto simp: split_def Let_def cb_step_config)

subsection \<open>Opening, blocking and recovering\<close>

text \<open>An open breaker answers no until the recovery timeout has passed, then lets a probe through.\<close>

lemma cb_open_blocks:
  "cb_state b = CB_OPEN \<Longrightarrow> opened_at b = Some t0 \<Longrightarrow> now - t0 < recovery_timeout b \<Longrightarrow>
   cb_allow now b = (False, b)"
  by (simp add: cb_allow_def cb_current_def Let_def)

lemma cb_open_recovers:
  "cb_inv b \<Longrightarrow> cb_state b = CB_OPEN \<Longrightarrow> opened_at b = Some t0 \<Longrightarrow> now - t0 \<ge> recovery_timeout b \<Longrightarrow>
   fst (cb_allow now b) \<and> cb_state (snd (cb_allow now b)) = CB_HALF_OPEN"
  by (simp add: cb_allow_def cb_current_def cb_inv_def Let_def)

text \<open>From closed, the breaker opens exactly at the threshold of consecutive failures.\<close>

lemma cb_failures_closed:
  "cb_state b = CB_CLOSED \<Longrightarrow> consecutive_failures b + int (length ts) < failure_threshold b \<Longrightarrow>
   cb_state (snd (cb_run (map Cb_failure ts) b)) = CB_CLOSED \<and>
   consecutive_failures (snd (cb_run (map Cb_failure ts) b)) = consecutive_failures b + int (length ts)"
proof (induction ts arbitrary: b)
  case Nil
  then show ?case by simp
next
  case (Cons t ts)
  let ?b = "cb_failure t b"
  have "cb_state ?b = CB_CLOSED" and "consecutive_failures ?b = consecutive_failures b + 1"
    and "failure_threshold ?b = failure_threshold b"
    using Cons.prems by (auto simp: cb_failure_def Let_def)
  with Cons.IH [of ?b] Cons.prems show ?case by (simp add: split_def Let_def)
qed

subsection \<open>Probes\<close>

text \<open>
  While the breaker stays half-open the probes it lets through are counted and never exceed the
  budget left.
\<close>

lemma cb_half_open_exhausted:
  "cb_state b = CB_HALF_OPEN \<Longrightarrow> half_open_max_calls b \<le> half_open_in_flight b \<Longrightarrow>
   cb_allow now b = (False, b) \<and> cb_current now b = b"
  by (simp add: cb_allow_def cb_current_def Let_def split: option.splits)

fun cb_asks :: "cb_op \<Rightarrow> bool" where
  "cb_asks (Cb_state _) = True"
| "cb_asks (Cb_allow _) = True"
| "cb_asks _ = False"

lemma cb_wedged_run:
  assumes "cb_state b = CB_HALF_OPEN" and "half_open_max_calls b \<le> half_open_in_flight b"
    and "list_all cb_asks ops"
  shows "snd (cb_run ops b) = b \<and> list_all Not (fst (cb_run ops b))"
  using assms(3)
proof (induction ops)
  case Nil
  then show ?case by simp
next
  case (Cons op ops)
  have "snd (cb_step op b) = b \<and> list_all Not (fst (cb_step op b))"
    using Cons.prems cb_half_open_exhausted [OF assms(1,2)] by (cases op) auto
  with Cons show ?case by (auto simp: split_def Let_def)
qed

lemma cb_half_open_asks:
  assumes "cb_state b = CB_HALF_OPEN" and "list_all cb_asks ops"
  shows "cb_state (snd (cb_run ops b)) = CB_HALF_OPEN \<and>
     int (length (filter (\<lambda>a. a) (fst (cb_run ops b)))) = half_open_in_flight (snd (cb_run ops b)) - half_open_in_flight b"
  using assms
proof (induction ops arbitrary: b)
  case Nil
  then show ?case by simp
next
  case (Cons op ops)
  have s: "cb_state (snd (cb_step op b)) = CB_HALF_OPEN \<and>
     int (length (filter (\<lambda>a. a) (fst (cb_step op b)))) = half_open_in_flight (snd (cb_step op b)) - half_open_in_flight b"
    using Cons.prems
    by (cases op) (auto simp: cb_allow_def cb_current_def Let_def split: option.splits)
  with Cons.IH [of "snd (cb_step op b)"] Cons.prems show ?case
    by (auto simp: split_def Let_def)
qed

section \<open>Retry scheduler\<close>

definition DEFAULT_BACKOFF_SECONDS :: "secs list" where
  "DEFAULT_BACKOFF_SECONDS = [1, 2, 4, 8, 16, 30, 60, 120, 300]"

definition NEVER_RETRY :: "int set" where
  "NEVER_RETRY = {400, 401, 403, 404}"

definition RETRYABLE :: "int set" where
  "RETRYABLE = {408, 429, 500, 502, 503, 504}"

definition is_retryable :: "int option \<Rightarrow> bool" where
  "is_retryable status =
     (case status of
        None \<Rightarrow> True
      | Some code \<Rightarrow>
          if code \<in> NEVER_RETRY then False
          else if code \<in> RETRYABLE then True
          else code \<ge> 500)"

lemma is_retryable_iff:
  "is_retryable (Some code) \<longleftrightarrow> code \<ge> 500 \<or> code = 408 \<or> code = 429"
  by (auto simp: is_retryable_def NEVER_RETRY_def RETRYABLE_def)

datatype retry_error = EmptyBackoff

definition retry_scheduler_init :: "secs list \<Rightarrow> retry_error + secs list" where
  "retry_scheduler_init backoff = (if backoff = [] then Inl EmptyBackoff else Inr backoff)"

definition next_delay :: "secs list \<Rightarrow> int \<Rightarrow> secs option" where
  "next_delay schedule attempt =
     (let index = min (max attempt 1 - 1) (int (length schedule) - 1)
      in py_get schedule index)"

lemma next_delay_total: "retry_scheduler_init backoff = Inr sched \<Longrightarrow> \<exists>d. next_delay sched n = Some d"
proof -
  assume "retry_scheduler_init backoff = Inr sched"
  then have "sched \<noteq> []" by (auto simp: retry_scheduler_init_def split: if_splits)
  then have "0 \<le> min (max n 1 - 1) (int (length sched) - 1)"
    and "min (max n 1 - 1) (int (length sched) - 1) < int (length sched)"
    by (cases sched; simp)+
  then show ?thesis unfolding next_delay_def Let_def by (auto simp: py_get_in_range)
qed

lemma next_delay_nth:
  "sched \<noteq> [] \<Longrightarrow> next_delay sched (int n) = Some (sched ! min (n - 1) (length sched - 1))"
proof -
  assume ne: "sched \<noteq> []"
  have i: "min (max (int n) 1 - 1) (int (length sched) - 1) = int (min (n - 1) (length sched - 1))"
    using ne by (cases sched) (auto simp: min_def max_def)
  show ?thesis unfolding next_delay_def Let_def i using ne
    by (subst py_get_in_range) (auto simp: min_def neq_Nil_conv)
qed

text \<open>A sorted schedule of positive delays is a backoff schedule that holds its last value.\<close>

lemma schedule_backoff:
  assumes "sched \<noteq> []" and "sorted sched" and "\<forall>d \<in> set sched. 0 < d"
  shows "backoff_schedule (\<lambda>n. the (next_delay sched (int n))) (length sched) (last sched)"
proof
  fix n :: nat
  assume "1 \<le> n"
  have "min (n - 1) (length sched - 1) < length sched" using assms(1) by (cases sched) auto
  then have "sched ! min (n - 1) (length sched - 1) \<in> set sched" by (rule nth_mem)
  with assms(3) show "0 < the (next_delay sched (int n))"
    by (simp add: next_delay_nth [OF assms(1)])
next
  fix m n :: nat
  assume "1 \<le> m" and "m \<le> n"
  then show "the (next_delay sched (int m)) \<le> the (next_delay sched (int n))"
    using assms(1,2) by (auto simp: next_delay_nth [OF assms(1)] intro!: sorted_nth_mono) (cases sched; simp)
next
  fix n :: nat
  assume "length sched \<le> n" and "1 \<le> n"
  then show "the (next_delay sched (int n)) = last sched"
    using assms(1) by (auto simp: next_delay_nth [OF assms(1)] last_conv_nth min_def intro!: arg_cong [where f = "(!) sched"])
qed

interpretation sdk_retry:
  backoff_schedule "\<lambda>n. the (next_delay DEFAULT_BACKOFF_SECONDS (int n))" 9 300
proof -
  have "length DEFAULT_BACKOFF_SECONDS = 9" and "last DEFAULT_BACKOFF_SECONDS = 300"
    and "sorted DEFAULT_BACKOFF_SECONDS" and "\<forall>d \<in> set DEFAULT_BACKOFF_SECONDS. 0 < d"
    and "DEFAULT_BACKOFF_SECONDS \<noteq> []"
    by (simp_all add: DEFAULT_BACKOFF_SECONDS_def)
  then show "backoff_schedule (\<lambda>n. the (next_delay DEFAULT_BACKOFF_SECONDS (int n))) 9 300"
    using schedule_backoff [of DEFAULT_BACKOFF_SECONDS] by metis
qed

section \<open>Telemetry counters\<close>

record telemetry =
  tm_retry_count :: nat
  tm_latencies :: "rat list"
  tm_compression_ratio :: "rat option"
  tm_last_batch_size :: nat
  tm_sent_total :: nat
  tm_failed_total :: nat
  tm_started_at :: secs

definition telemetry_init :: "secs \<Rightarrow> telemetry" where
  "telemetry_init now = \<lparr>tm_retry_count = 0, tm_latencies = [], tm_compression_ratio = None,
     tm_last_batch_size = 0, tm_sent_total = 0, tm_failed_total = 0, tm_started_at = now\<rparr>"

definition record_retry :: "telemetry \<Rightarrow> telemetry" where
  "record_retry m = m\<lparr>tm_retry_count := tm_retry_count m + 1\<rparr>"

definition record_upload :: "rat \<Rightarrow> nat \<Rightarrow> bool \<Rightarrow> telemetry \<Rightarrow> telemetry" where
  "record_upload latency batch_size ok m =
     (let lats = tm_latencies m @ [latency];
          lats' = (if length lats > 1000 then last_n 1000 lats else lats);
          m' = m\<lparr>tm_latencies := lats', tm_last_batch_size := batch_size\<rparr>
      in if ok then m'\<lparr>tm_sent_total := tm_sent_total m' + batch_size\<rparr>
         else m'\<lparr>tm_failed_total := tm_failed_total m' + batch_size\<rparr>)"

definition record_compression :: "rat \<Rightarrow> telemetry \<Rightarrow> telemetry" where
  "record_compression r m = m\<lparr>tm_compression_ratio := Some r\<rparr>"

definition avg_upload_latency :: "telemetry \<Rightarrow> rat" where
  "avg_upload_latency m =
     (if tm_latencies m \<noteq> [] then sum_list (tm_latencies m) / of_nat (length (tm_latencies m)) else 0)"

lemma record_upload_window:
  "length (tm_latencies m) \<le> 1000 \<Longrightarrow> length (tm_latencies (record_upload l n ok m)) \<le> 1000"
  by (auto simp: record_upload_def Let_def)

lemma record_upload_latest: "last (tm_latencies (record_upload l n ok m)) = l"
  by (auto simp: record_upload_def Let_def last_n_snoc)

lemma record_upload_counts:
  "tm_sent_total (record_upload l n ok m) + tm_failed_total (record_upload l n ok m)
     = tm_sent_total m + tm_failed_total m + n"
  by (auto simp: record_upload_def Let_def)

section \<open>Compression\<close>

definition DEFAULT_THRESHOLD_BYTES :: nat where
  "DEFAULT_THRESHOLD_BYTES = 1024"

text \<open>\<open>gzip\<close> stands for \<open>gzip.compress(body, compresslevel=6)\<close> of the standard library.\<close>

definition maybe_compress :: "(string \<Rightarrow> string) \<Rightarrow> nat \<Rightarrow> string \<Rightarrow> string \<times> bool" where
  "maybe_compress gzip threshold body =
     (if length body < threshold then (body, False) else (gzip body, True))"

definition compression_ratio :: "int \<Rightarrow> int \<Rightarrow> rat" where
  "compression_ratio original compressed =
     (if original \<le> 0 then 1 else of_int compressed / of_int original)"

text \<open>A receiver that gunzips exactly when the flag says so recovers the body.\<close>

lemma maybe_compress_decodes:
  "(\<And>x. gunzip (gzip x) = x) \<Longrightarrow> maybe_compress gzip n body = (out, flag) \<Longrightarrow>
   (if flag then gunzip out else out) = body"
  by (auto simp: maybe_compress_def split: if_splits)

section \<open>Properties\<close>

lemma cb_run_append:
  "cb_run (xs @ ys) b = (let (as, b') = cb_run xs b; (bs, b'') = cb_run ys b' in (as @ bs, b''))"
  by (induction xs arbitrary: b) (auto simp: split_def Let_def)

lemma cb_failure_at_threshold:
  "cb_state b = CB_CLOSED \<Longrightarrow> consecutive_failures b + 1 = failure_threshold b \<Longrightarrow>
   cb_state (cb_failure t b) = CB_OPEN \<and> opened_at (cb_failure t b) = Some t"
  by (simp add: cb_failure_def)

lemma cb_probe_budget:
  assumes "cb_inv b" and "cb_state b = CB_OPEN" and "opened_at b = Some t0"
    and "t - t0 \<ge> recovery_timeout b" and "list_all cb_asks ops"
  shows "int (length (filter (\<lambda>a. a) (fst (cb_run (Cb_allow t # ops) b)))) \<le> half_open_max_calls b"
proof -
  let ?b = "snd (cb_allow t b)"
  have b: "fst (cb_allow t b) \<and> cb_state ?b = CB_HALF_OPEN \<and> half_open_in_flight ?b = 1"
    using assms(1-4) by (simp add: cb_allow_def cb_current_def cb_inv_def Let_def)
  then have "int (length (filter (\<lambda>a. a) (fst (cb_run ops ?b)))) = half_open_in_flight (snd (cb_run ops ?b)) - 1"
    using cb_half_open_asks [of ?b ops] assms(5) by simp
  moreover have "half_open_in_flight (snd (cb_run ops ?b)) \<le> half_open_max_calls b"
    using cb_run_inv [OF cb_allow_inv [OF assms(1), of t], of ops] cb_run_config [of ops ?b]
      cb_step_config [of "Cb_allow t" b] by (simp add: cb_inv_def split_def Let_def)
  ultimately show ?thesis using b by (simp add: split_def Let_def)
qed

text \<open>A new breaker with threshold \<open>n\<close> stays closed for \<open>n - 1\<close> consecutive failures and opens
  at the \<open>n\<close>-th; from then on it refuses every request until the recovery timeout has passed, and
  then lets at least one and at most \<open>half_open_max_calls\<close> probes through, however often it is asked,
  until a result is reported.\<close>

theorem breaker_cycle:
  assumes "breaker_init n r m = Inr b0" and "int (length ts) = n - 1"
    and "b = snd (cb_run (map Cb_failure (ts @ [t0])) b0)"
  shows "cb_state (snd (cb_run (map Cb_failure ts) b0)) = CB_CLOSED \<and> cb_state b = CB_OPEN
    \<and> (\<forall>t. t - t0 < r \<longrightarrow> cb_allow t b = (False, b))
    \<and> (\<forall>t ops. t - t0 \<ge> r \<and> list_all cb_asks ops \<longrightarrow>
         fst (cb_allow t b)
         \<and> int (length (filter (\<lambda>a. a) (fst (cb_run (Cb_allow t # ops) b)))) \<le> m)"
proof -
  have b0: "cb_inv b0" "cb_state b0 = CB_CLOSED" "consecutive_failures b0 = 0" "failure_threshold b0 = n"
    "recovery_timeout b0 = r" "half_open_max_calls b0 = m"
    using assms(1) breaker_init_inv [OF assms(1)] by (auto simp: breaker_init_def split: if_splits)
  let ?c = "snd (cb_run (map Cb_failure ts) b0)"
  have c: "cb_state ?c = CB_CLOSED \<and> consecutive_failures ?c = n - 1"
    using cb_failures_closed [of b0 ts] b0 assms(2) by simp
  have b: "b = cb_failure t0 ?c" by (simp add: assms(3) cb_run_append split_def Let_def)
  have cfg: "failure_threshold ?c = n" using cb_run_config [of "map Cb_failure ts" b0] b0 by simp
  have o: "cb_state b = CB_OPEN \<and> opened_at b = Some t0"
    using cb_failure_at_threshold [of ?c t0] c cfg b by simp
  have inv: "cb_inv b" using b0(1) by (simp add: assms(3) cb_run_inv)
  have r: "recovery_timeout b = r" and m: "half_open_max_calls b = m"
    using cb_run_config [of "map Cb_failure (ts @ [t0])" b0] b0 assms(3) by simp_all
  show ?thesis
    using c o r m cb_open_blocks [of b t0] cb_open_recovers [OF inv] cb_probe_budget [OF inv]
    by blast
qed

theorem breaker_cycle_witness:
  "\<exists>b0 b. breaker_init 2 30 1 = Inr b0 \<and> b = snd (cb_run (map Cb_failure ([3] @ [5])) b0)
     \<and> cb_state b = CB_OPEN \<and> fst (cb_allow 35 b)"
proof -
  obtain b0 where b0: "breaker_init 2 30 1 = Inr b0" by (simp add: breaker_init_def)
  let ?b = "snd (cb_run (map Cb_failure ([3] @ [5])) b0)"
  have "cb_state ?b = CB_OPEN \<and> fst (cb_allow 35 ?b)"
    using breaker_cycle [OF b0, of "[3]" ?b 5] by (auto intro: list.pred_inject(1))
  with b0 show ?thesis by blast
qed

text \<open>For every attempt number the default schedule gives a positive delay that never decreases
  with the attempt, is at most five minutes, and holds at five minutes from the ninth attempt on; \<open>n\<close>
  failed attempts wait at most \<open>300 n\<close> seconds in all.\<close>

theorem retry_delay_bounds:
  assumes "1 \<le> m" and "m \<le> n"
  shows "\<exists>dm dn. next_delay DEFAULT_BACKOFF_SECONDS (int m) = Some dm
      \<and> next_delay DEFAULT_BACKOFF_SECONDS (int n) = Some dn
      \<and> 0 < dm \<and> dm \<le> dn \<and> dn \<le> 300 \<and> (9 \<le> n \<longrightarrow> dn = 300)
      \<and> sum_list (map (\<lambda>k. the (next_delay DEFAULT_BACKOFF_SECONDS (int k))) [1..<Suc n]) \<le> of_nat n * 300"
proof -
  have "retry_scheduler_init DEFAULT_BACKOFF_SECONDS = Inr DEFAULT_BACKOFF_SECONDS"
    by (simp add: retry_scheduler_init_def DEFAULT_BACKOFF_SECONDS_def)
  from next_delay_total [OF this, of "int m"] next_delay_total [OF this, of "int n"]
  obtain dm dn where d: "next_delay DEFAULT_BACKOFF_SECONDS (int m) = Some dm"
    "next_delay DEFAULT_BACKOFF_SECONDS (int n) = Some dn" by blast
  show ?thesis
    using d assms sdk_retry.delay_pos [of m] sdk_retry.delay_mono [of m n] sdk_retry.delay_le_cap [of n]
      sdk_retry.delay_hold [of n] sdk_retry.total_wait_le [of n]
    by auto
qed

theorem retry_delay_bounds_witness:
  "\<exists>dm dn. next_delay DEFAULT_BACKOFF_SECONDS 1 = Some dm
      \<and> next_delay DEFAULT_BACKOFF_SECONDS 12 = Some dn \<and> 0 < dm \<and> dm \<le> dn \<and> dn = 300"
  using retry_delay_bounds [of 1 12] by auto

end
