(* ===== verification/Sdk_Queue.thy ===== *)
theory Sdk_Queue
  imports Interfaces
begin

text \<open>
  The two queues of the SDK pipeline: \<open>MemoryQueue\<close> (a bounded deque with an overflow policy,
  \<open>reliability/memory_queue.py\<close>) and \<open>PersistentQueue\<close> (one SQLite table,
  \<open>reliability/persistent_queue.py\<close>).

  Every method of the memory queue holds its lock, so it is one function on the record; only
  \<open>wait_for\<close> under the blocking policy gives the lock up, so a blocked \<open>put\<close> is two steps,
  \<open>mq_put\<close> (which answers \<open>Put_waiting\<close>) and \<open>mq_wake\<close> at the moment the wait ends. The
  system \<open>mq_sys\<close> interleaves the steps of any number of threads.

  The SQLite table is the list of its rows in row-id order; the payload is the value that
  \<open>json.loads(json.dumps(p))\<close> gives back.
\<close>

section \<open>Events and overflow policies\<close>

record 'p queued_event =
  qe_id :: string
  qe_payload :: 'p
  qe_attempts :: int

datatype overflow_policy = DROP_NEWEST | DROP_OLDEST | BLOCK

definition policy_of_string :: "string \<Rightarrow> overflow_policy option" where
  "policy_of_string s =
     (if s = ''drop_newest'' then Some DROP_NEWEST
      else if s = ''drop_oldest'' then Some DROP_OLDEST
      else if s = ''block'' then Some BLOCK else None)"

section \<open>Memory queue\<close>

record 'e memory_queue =
  mq_max_size :: int
  mq_policy :: overflow_policy
  mq_items :: "'e list"
  mq_dropped :: nat

datatype memory_queue_error = MaxSizeNotPositive | UnknownOverflowPolicy

definition mq_init :: "int \<Rightarrow> string \<Rightarrow> memory_queue_error + 'e memory_queue" where
  "mq_init max_size policy =
     (if max_size \<le> 0 then Inl MaxSizeNotPositive
      else case policy_of_string policy of
             None \<Rightarrow> Inl UnknownOverflowPolicy
           | Some p \<Rightarrow> Inr \<lparr>mq_max_size = max_size, mq_policy = p, mq_items = [], mq_dropped = 0\<rparr>)"

definition mq_full :: "'e memory_queue \<Rightarrow> bool" where
  "mq_full q \<longleftrightarrow> \<not> int (length (mq_items q)) < mq_max_size q"

datatype put_answer = Put_queued | Put_dropped | Put_waiting

definition mq_put :: "'e \<Rightarrow> 'e memory_queue \<Rightarrow> put_answer \<times> 'e memory_queue" where
  "mq_put e q =
     (if \<not> mq_full q then (Put_queued, q\<lparr>mq_items := mq_items q @ [e]\<rparr>)
      else case mq_policy q of
             DROP_NEWEST \<Rightarrow> (Put_dropped, q\<lparr>mq_dropped := mq_dropped q + 1\<rparr>)
           | DROP_OLDEST \<Rightarrow>
               (Put_queued, q\<lparr>mq_items := tl (mq_items q) @ [e], mq_dropped := mq_dropped q + 1\<rparr>)
           | BLOCK \<Rightarrow> (Put_waiting, q))"

text \<open>The end of the wait: notified with room, or timed out (\<open>wait_for\<close> returns the predicate).\<close>

definition mq_wake :: "'e \<Rightarrow> 'e memory_queue \<Rightarrow> put_answer \<times> 'e memory_queue" where
  "mq_wake e q =
     (if mq_full q then (Put_dropped, q\<lparr>mq_dropped := mq_dropped q + 1\<rparr>)
      else (Put_queued, q\<lparr>mq_items := mq_items q @ [e]\<rparr>))"

text \<open>The drain loop of \<open>get_batch\<close> (\<open>popleft\<close> while there are items and room in the batch).\<close>

fun mq_drain :: "nat \<Rightarrow> 'e list \<Rightarrow> 'e list \<times> 'e list" where
  "mq_drain 0 xs = ([], xs)"
| "mq_drain (Suc n) [] = ([], [])"
| "mq_drain (Suc n) (x # xs) = (let (batch, rest) = mq_drain n xs in (x # batch, rest))"

definition mq_get_batch :: "nat \<Rightarrow> 'e memory_queue \<Rightarrow> 'e list \<times> 'e memory_queue" where
  "mq_get_batch n q = (let (batch, rest) = mq_drain n (mq_items q) in (batch, q\<lparr>mq_items := rest\<rparr>))"

definition mq_qsize :: "'e memory_queue \<Rightarrow> nat" where
  "mq_qsize q = length (mq_items q)"

definition mq_is_empty :: "'e memory_queue \<Rightarrow> bool" where
  "mq_is_empty q \<longleftrightarrow> mq_items q = []"

definition mq_inv :: "'e memory_queue \<Rightarrow> bool" where
  "mq_inv q \<longleftrightarrow> 0 < mq_max_size q \<and> int (length (mq_items q)) \<le> mq_max_size q"

lemma mq_drain_eq: "mq_drain n xs = (take n xs, drop n xs)"
  by (induction n xs rule: mq_drain.induct) auto

lemma mq_get_batch_eq: "mq_get_batch n q = (take n (mq_items q), q\<lparr>mq_items := drop n (mq_items q)\<rparr>)"
  by (simp add: mq_get_batch_def mq_drain_eq)

lemma mq_init_inv: "mq_init n p = Inr q \<Longrightarrow> mq_inv q"
  by (auto simp: mq_init_def mq_inv_def split: if_splits option.splits)

lemma mq_put_inv [inv_rules]: "mq_inv q \<Longrightarrow> mq_inv (snd (mq_put e q))"
  by (auto simp: mq_inv_def mq_put_def mq_full_def split: overflow_policy.splits)

lemma mq_wake_inv [inv_rules]: "mq_inv q \<Longrightarrow> mq_inv (snd (mq_wake e q))"
  by (auto simp: mq_inv_def mq_wake_def mq_full_def)

lemma mq_get_batch_inv [inv_rules]: "mq_inv q \<Longrightarrow> mq_inv (snd (mq_get_batch n q))"
  by (auto simp: mq_inv_def mq_get_batch_eq)

lemma mq_put_block_only: "fst (mq_put e q) = Put_waiting \<Longrightarrow> mq_policy q = BLOCK"
  by (auto simp: mq_put_def split: if_splits overflow_policy.splits)

interpretation sdk_fifo:
  bounded_fifo mq_items "\<lambda>q. nat (mq_max_size q)" "\<lambda>e q. snd (mq_put e q)" mq_get_batch
  by unfold_locales
    (auto simp: mq_put_def mq_full_def mq_get_batch_eq split: overflow_policy.splits)

subsection \<open>Any number of threads\<close>

datatype 'e mq_event = Mq_put 'e | Mq_wake nat | Mq_get nat

record 'e mq_sys =
  sys_queue :: "'e memory_queue"
  sys_waiting :: "'e list"
  sys_offered :: "'e list"
  sys_taken :: "'e list"

definition remove_nth :: "nat \<Rightarrow> 'a list \<Rightarrow> 'a list" where
  "remove_nth k xs = take k xs @ drop (Suc k) xs"

fun mq_sys_step :: "'e mq_event \<Rightarrow> 'e mq_sys \<Rightarrow> 'e mq_sys" where
  "mq_sys_step (Mq_put e) s =
     (let (a, q) = mq_put e (sys_queue s)
      in s\<lparr>sys_queue := q, sys_offered := sys_offered s @ [e],
           sys_waiting := sys_waiting s @ (if a = Put_waiting then [e] else [])\<rparr>)"
| "mq_sys_step (Mq_wake k) s =
     (if k < length (sys_waiting s)
      then s\<lparr>sys_queue := snd (mq_wake (sys_waiting s ! k) (sys_queue s)),
             sys_waiting := remove_nth k (sys_waiting s)\<rparr>
      else s)"
| "mq_sys_step (Mq_get n) s =
     (let (batch, q) = mq_get_batch n (sys_queue s)
      in s\<lparr>sys_queue := q, sys_taken := sys_taken s @ batch\<rparr>)"

definition mq_sys_run :: "'e mq_event list \<Rightarrow> 'e mq_sys \<Rightarrow> 'e mq_sys" where
  "mq_sys_run evs s = fold mq_sys_step evs s"

definition mq_sys_init :: "'e memory_queue \<Rightarrow> 'e mq_sys" where
  "mq_sys_init q = \<lparr>sys_queue = q, sys_waiting = [], sys_offered = [], sys_taken = []\<rparr>"

text \<open>Every offered event is taken, queued, dropped (and counted) or still blocked.\<close>

definition mq_accounted :: "'e mq_sys \<Rightarrow> bool" where
  "mq_accounted s \<longleftrightarrow>
     length (sys_taken s) + length (mq_items (sys_queue s)) + mq_dropped (sys_queue s)
       + length (sys_waiting s) = length (sys_offered s)"

lemma length_remove_nth: "k < length xs \<Longrightarrow> Suc (length (remove_nth k xs)) = length xs"
  by (simp add: remove_nth_def)

lemma mq_sys_step_inv [inv_rules]:
  "mq_inv (sys_queue s) \<Longrightarrow> mq_inv (sys_queue (mq_sys_step ev s))"
  by (cases ev) (auto simp: split_def Let_def intro: inv_rules)

lemma mq_put_accounts:
  assumes "mq_inv q"
  shows "length (mq_items (snd (mq_put e q))) + mq_dropped (snd (mq_put e q))
      + (if fst (mq_put e q) = Put_waiting then 1 else 0)
    = length (mq_items q) + mq_dropped q + 1"
proof -
  have "mq_full q \<Longrightarrow> mq_items q \<noteq> []" using assms by (auto simp: mq_full_def mq_inv_def)
  then show ?thesis by (auto simp: mq_put_def Suc_le_eq split: overflow_policy.splits)
qed

lemma mq_wake_accounts:
  "length (mq_items (snd (mq_wake e q))) + mq_dropped (snd (mq_wake e q))
    = length (mq_items q) + mq_dropped q + 1"
  by (auto simp: mq_wake_def)

lemma mq_sys_step_accounted:
  assumes "mq_inv (sys_queue s)" and "mq_accounted s"
  shows "mq_accounted (mq_sys_step ev s)"
proof (cases ev)
  case (Mq_put e)
  with assms mq_put_accounts [OF assms(1), of e] show ?thesis
    by (auto simp: mq_accounted_def split_def Let_def)
next
  case (Mq_wake k)
  with assms mq_wake_accounts [of "sys_waiting s ! k" "sys_queue s"] length_remove_nth [of k "sys_waiting s"]
  show ?thesis by (auto simp: mq_accounted_def)
next
  case (Mq_get n)
  with assms show ?thesis by (auto simp: mq_accounted_def mq_get_batch_eq)
qed

lemma mq_sys_run_accounted:
  "mq_inv (sys_queue s) \<Longrightarrow> mq_accounted s \<Longrightarrow>
   mq_inv (sys_queue (mq_sys_run evs s)) \<and> mq_accounted (mq_sys_run evs s)"
  unfolding mq_sys_run_def
  by (induction evs arbitrary: s) (auto intro: inv_rules mq_sys_step_accounted)

text \<open>Without blocking, what comes out (and what is queued) is in the order it was offered.\<close>

definition mq_ordered :: "'e mq_sys \<Rightarrow> bool" where
  "mq_ordered s \<longleftrightarrow> subseq (sys_taken s @ mq_items (sys_queue s)) (sys_offered s) \<and> sys_waiting s = []
     \<and> mq_policy (sys_queue s) \<noteq> BLOCK"

lemma subseq_tl_append: "subseq (a @ b) c \<Longrightarrow> subseq (a @ tl b) c"
proof -
  assume s: "subseq (a @ b) c"
  have "subseq (tl b) b" by (cases b) auto
  then have "subseq (a @ tl b) (a @ b)" by (rule list_emb_append_mono [OF subseq_order.refl])
  with s show ?thesis by (blast intro: subseq_order.trans)
qed

lemma mq_sys_step_ordered: "mq_ordered s \<Longrightarrow> mq_ordered (mq_sys_step ev s)"
proof (cases ev)
  case (Mq_put e)
  assume o: "mq_ordered s"
  then have sub: "subseq (sys_taken s @ mq_items (sys_queue s)) (sys_offered s)"
    by (simp add: mq_ordered_def)
  have 1: "subseq ((sys_taken s @ mq_items (sys_queue s)) @ [e]) (sys_offered s @ [e])"
    by (rule list_emb_append_mono [OF sub]) simp
  have 2: "subseq ((sys_taken s @ tl (mq_items (sys_queue s))) @ [e]) (sys_offered s @ [e])"
    by (rule list_emb_append_mono [OF subseq_tl_append [OF sub]]) simp
  have 3: "subseq (sys_taken s @ mq_items (sys_queue s)) (sys_offered s @ [e])"
    using list_emb_append_mono [OF sub, of "[]" "[e]"] by simp
  show ?thesis using o 1 2 3
    by (cases "mq_policy (sys_queue s)") (auto simp: Mq_put mq_ordered_def mq_put_def)
next
  case (Mq_wake k)
  then show "mq_ordered s \<Longrightarrow> ?thesis" by (auto simp: mq_ordered_def)
next
  case (Mq_get n)
  then show "mq_ordered s \<Longrightarrow> ?thesis" by (auto simp: mq_ordered_def mq_get_batch_eq)
qed

lemma mq_sys_run_ordered: "mq_ordered s \<Longrightarrow> mq_ordered (mq_sys_run evs s)"
  unfolding mq_sys_run_def by (induction evs arbitrary: s) (auto intro: mq_sys_step_ordered)

section \<open>Persistent queue\<close>

record 'p pq_row =
  pq_id :: string
  pq_payload :: 'p
  pq_attempts :: int
  pq_created_at :: secs
  pq_next_retry_at :: secs

record 'p persistent_queue =
  pq_rows :: "'p pq_row list"
  pq_closed :: bool

datatype sqlite_error = ProgrammingError

definition pq_empty :: "'p persistent_queue" where
  "pq_empty = \<lparr>pq_rows = [], pq_closed = False\<rparr>"

text \<open>The SQL statements, on the rows.\<close>

definition sql_insert_or_replace :: "'p pq_row \<Rightarrow> 'p pq_row list \<Rightarrow> 'p pq_row list" where
  "sql_insert_or_replace r rows = filter (\<lambda>x. pq_id x \<noteq> pq_id r) rows @ [r]"

definition sql_select_due :: "secs \<Rightarrow> nat \<Rightarrow> 'p pq_row list \<Rightarrow> 'p pq_row list" where
  "sql_select_due now n rows = take n (sort_key pq_created_at (filter (\<lambda>r. pq_next_retry_at r \<le> now) rows))"

definition sql_mark_retry :: "string \<Rightarrow> int \<Rightarrow> secs \<Rightarrow> 'p pq_row list \<Rightarrow> 'p pq_row list" where
  "sql_mark_retry i attempts next rows =
     map (\<lambda>r. if pq_id r = i then r\<lparr>pq_attempts := attempts, pq_next_retry_at := next\<rparr> else r) rows"

definition sql_delete :: "string \<Rightarrow> 'p pq_row list \<Rightarrow> 'p pq_row list" where
  "sql_delete i rows = filter (\<lambda>r. pq_id r \<noteq> i) rows"

definition event_row :: "secs \<Rightarrow> 'p queued_event \<Rightarrow> 'p pq_row" where
  "event_row now e = \<lparr>pq_id = qe_id e, pq_payload = qe_payload e, pq_attempts = qe_attempts e,
     pq_created_at = now, pq_next_retry_at = 0\<rparr>"

definition row_event :: "'p pq_row \<Rightarrow> 'p queued_event" where
  "row_event r = \<lparr>qe_id = pq_id r, qe_payload = pq_payload r, qe_attempts = pq_attempts r\<rparr>"

text \<open>The methods; a statement on a closed connection raises.\<close>

definition pq_execute ::
  "('p pq_row list \<Rightarrow> 'p pq_row list) \<Rightarrow> 'p persistent_queue \<Rightarrow> sqlite_error + 'p persistent_queue" where
  "pq_execute f q = (if pq_closed q then Inl ProgrammingError else Inr (q\<lparr>pq_rows := f (pq_rows q)\<rparr>))"

definition pq_enqueue :: "secs \<Rightarrow> 'p queued_event \<Rightarrow> 'p persistent_queue \<Rightarrow> sqlite_error + 'p persistent_queue" where
  "pq_enqueue now e = pq_execute (sql_insert_or_replace (event_row now e))"

definition pq_enqueue_many ::
  "(secs \<times> 'p queued_event) list \<Rightarrow> 'p persistent_queue \<Rightarrow> sqlite_error + 'p persistent_queue" where
  "pq_enqueue_many es = pq_execute (fold (\<lambda>(t, e). sql_insert_or_replace (event_row t e)) es)"

definition pq_dequeue_due :: "secs \<Rightarrow> nat \<Rightarrow> 'p persistent_queue \<Rightarrow> sqlite_error + 'p queued_event list" where
  "pq_dequeue_due now n q =
     (if pq_closed q then Inl ProgrammingError
      else Inr (map row_event (sql_select_due now n (pq_rows q))))"

definition pq_mark_retry ::
  "string \<Rightarrow> int \<Rightarrow> secs \<Rightarrow> 'p persistent_queue \<Rightarrow> sqlite_error + 'p persistent_queue" where
  "pq_mark_retry i attempts next = pq_execute (sql_mark_retry i attempts next)"

definition pq_ack :: "string \<Rightarrow> 'p persistent_queue \<Rightarrow> sqlite_error + 'p persistent_queue" where
  "pq_ack i = pq_execute (sql_delete i)"

definition pq_ack_many :: "string list \<Rightarrow> 'p persistent_queue \<Rightarrow> sqlite_error + 'p persistent_queue" where
  "pq_ack_many is = pq_execute (fold sql_delete is)"

definition pq_count :: "'p persistent_queue \<Rightarrow> nat" where
  "pq_count q = (if pq_closed q then 0 else length (pq_rows q))"

definition pq_close :: "'p persistent_queue \<Rightarrow> 'p persistent_queue" where
  "pq_close q = (if pq_closed q then q else q\<lparr>pq_closed := True\<rparr>)"

subsection \<open>The primary key and the store contract\<close>

definition pq_wf :: "'p pq_row list \<Rightarrow> bool" where
  "pq_wf rows \<longleftrightarrow> distinct (map pq_id rows)"

definition pq_lookup :: "'p pq_row list \<Rightarrow> string \<Rightarrow> 'p option" where
  "pq_lookup rows i = map_option pq_payload (List.find (\<lambda>r. pq_id r = i) rows)"

lemma pq_wf_insert [inv_rules]: "pq_wf rows \<Longrightarrow> pq_wf (sql_insert_or_replace r rows)"
  by (auto simp: pq_wf_def sql_insert_or_replace_def distinct_map_filter)

lemma map_id_mark: "map pq_id (sql_mark_retry i a t rows) = map pq_id rows"
  by (simp add: sql_mark_retry_def)

lemma pq_wf_mark [inv_rules]: "pq_wf rows \<Longrightarrow> pq_wf (sql_mark_retry i a t rows)"
  by (simp add: pq_wf_def map_id_mark)

lemma pq_wf_delete [inv_rules]: "pq_wf rows \<Longrightarrow> pq_wf (sql_delete i rows)"
  by (auto simp: pq_wf_def sql_delete_def distinct_map_filter)

lemma pq_lookup_Nil [simp]: "pq_lookup [] i = None"
  by (simp add: pq_lookup_def)

lemma pq_lookup_Cons: "pq_lookup (r # rows) i = (if pq_id r = i then Some (pq_payload r) else pq_lookup rows i)"
  by (simp add: pq_lookup_def)

lemma pq_lookup_append:
  "pq_lookup (a @ b) i = (case pq_lookup a i of None \<Rightarrow> pq_lookup b i | Some p \<Rightarrow> Some p)"
  by (induction a) (auto simp: pq_lookup_Cons)

lemma pq_lookup_delete: "pq_lookup (sql_delete i rows) = (pq_lookup rows)(i := None)"
  by (rule ext, induction rows) (auto simp: sql_delete_def pq_lookup_Cons)

lemma pq_lookup_insert:
  "pq_lookup (sql_insert_or_replace r rows) = (pq_lookup rows)(pq_id r := Some (pq_payload r))"
proof -
  have "sql_insert_or_replace r rows = sql_delete (pq_id r) rows @ [r]"
    by (simp add: sql_insert_or_replace_def sql_delete_def)
  then show ?thesis
    by (auto simp: fun_eq_iff pq_lookup_append pq_lookup_delete pq_lookup_Cons split: option.splits)
qed

lemma pq_lookup_mark: "pq_lookup (sql_mark_retry i a t rows) = pq_lookup rows"
  by (rule ext, induction rows) (auto simp: sql_mark_retry_def pq_lookup_Cons)

lemma pq_lookup_mem: "pq_wf rows \<Longrightarrow> r \<in> set rows \<Longrightarrow> pq_lookup rows (pq_id r) = Some (pq_payload r)"
  by (induction rows) (auto simp: pq_lookup_Cons pq_wf_def)

lemma set_select_due: "set (sql_select_due now n rows) \<subseteq> {r \<in> set rows. pq_next_retry_at r \<le> now}"
  unfolding sql_select_due_def by (metis set_filter set_sort set_take_subset)

lemma distinct_select_due: "pq_wf rows \<Longrightarrow> distinct (map pq_id (sql_select_due now n rows))"
proof -
  assume "pq_wf rows"
  then have "distinct (map pq_id (filter (\<lambda>r. pq_next_retry_at r \<le> now) rows))"
    by (simp add: pq_wf_def distinct_map_filter)
  then have "distinct (map pq_id (sort_key pq_created_at (filter (\<lambda>r. pq_next_retry_at r \<le> now) rows)))"
    by (simp add: distinct_map)
  then show ?thesis unfolding sql_select_due_def by (metis distinct_take take_map)
qed

interpretation sdk_store: event_store
  "\<lambda>t i p. sql_insert_or_replace (event_row t \<lparr>qe_id = i, qe_payload = p, qe_attempts = 0\<rparr>)"
  "\<lambda>i n t. sql_mark_retry i (int n) t"
  sql_delete
  "\<lambda>t n rows. map (\<lambda>r. (pq_id r, pq_payload r)) (sql_select_due t n rows)"
  pq_lookup pq_wf
proof (unfold_locales, goal_cases)
  case (5 s i p t n)
  then show ?case using set_select_due [of t n s] by (auto dest: pq_lookup_mem)
next
  case (6 s t n)
  then show ?case using distinct_select_due [of s t n] by (simp add: comp_def)
next
  case (7 t n s)
  then show ?case by (simp add: sql_select_due_def)
qed (auto simp: pq_lookup_insert pq_lookup_mark pq_lookup_delete event_row_def intro: inv_rules)

text \<open>Delivery order: due rows only, oldest first, at most the limit, and none older is passed over.\<close>

lemma select_due_sorted: "sorted (map pq_created_at (sql_select_due now n rows))"
  unfolding sql_select_due_def by (metis sorted_sort_key sorted_wrt_take take_map)

lemma select_due_oldest_first:
  assumes "r \<in> set (sql_select_due now n rows)" and "r' \<in> set rows" and "pq_next_retry_at r' \<le> now"
    and "r' \<notin> set (sql_select_due now n rows)"
  shows "pq_created_at r \<le> pq_created_at r'"
proof -
  let ?s = "sort_key pq_created_at (filter (\<lambda>r. pq_next_retry_at r \<le> now) rows)"
  have "r' \<in> set ?s" using assms(2,3) by simp
  then have r': "r' \<in> set (drop n ?s)"
    using assms(4) unfolding sql_select_due_def by (metis Un_iff append_take_drop_id set_append)
  have "sorted (map pq_created_at (take n ?s @ drop n ?s))" by simp
  then have "\<forall>x \<in> set (take n ?s). \<forall>y \<in> set (drop n ?s). pq_created_at x \<le> pq_created_at y"
    unfolding map_append sorted_append by auto
  with assms(1) r' show ?thesis unfolding sql_select_due_def by blast
qed

lemma pq_close_idem: "pq_close (pq_close q) = pq_close q"
  by (simp add: pq_close_def)

lemma pq_closed_ops:
  "pq_count (pq_close q) = 0 \<and> pq_enqueue t e (pq_close q) = Inl ProgrammingError"
  by (auto simp: pq_close_def pq_count_def pq_enqueue_def pq_execute_def)

section \<open>Properties\<close>

lemma mq_sys_init_start:
  "mq_init n p = Inr q \<Longrightarrow> mq_inv (sys_queue (mq_sys_init q)) \<and> mq_accounted (mq_sys_init q)"
  by (auto simp: mq_sys_init_def mq_accounted_def mq_init_def mq_inv_def split: if_splits option.splits)

lemma mq_sys_step_config:
  "mq_max_size (sys_queue (mq_sys_step ev s)) = mq_max_size (sys_queue s)
   \<and> mq_policy (sys_queue (mq_sys_step ev s)) = mq_policy (sys_queue s)"
  by (cases ev) (auto simp: mq_put_def mq_wake_def mq_get_batch_def split_def Let_def split: overflow_policy.splits)

lemma mq_sys_run_config: "mq_max_size (sys_queue (mq_sys_run evs s)) = mq_max_size (sys_queue s)"
  unfolding mq_sys_run_def by (induction evs arbitrary: s) (auto simp: mq_sys_step_config)

text \<open>C7: whatever the interleaving of puts, wake-ups and batch reads by any number of threads, the
  queue never holds more than its maximum, and every event ever offered is exactly one of: taken,
  queued, dropped (and counted in \<open>dropped_count\<close>) or still waiting under the blocking policy.\<close>

theorem memory_queue_accounts:
  assumes "mq_init n p = Inr q" and "s = mq_sys_run evs (mq_sys_init q)"
  shows "int (length (mq_items (sys_queue s))) \<le> n
    \<and> length (sys_taken s) + mq_qsize (sys_queue s) + mq_dropped (sys_queue s) + length (sys_waiting s)
      = length (sys_offered s)"
proof -
  have "mq_max_size q = n" using assms(1) by (auto simp: mq_init_def split: if_splits option.splits)
  then have "mq_max_size (sys_queue s) = n"
    by (simp add: assms(2) mq_sys_run_config) (simp add: mq_sys_init_def)
  then show ?thesis
    using mq_sys_run_accounted [of "mq_sys_init q" evs] mq_sys_init_start [OF assms(1)]
    by (auto simp: assms(2) mq_inv_def mq_accounted_def mq_qsize_def)
qed

theorem memory_queue_accounts_witness:
  "\<exists>q s. mq_init 2 ''drop_newest'' = Inr q
     \<and> s = mq_sys_run [Mq_put (1 :: nat), Mq_put 2, Mq_put 3, Mq_get 1] (mq_sys_init q)
     \<and> int (length (mq_items (sys_queue s))) \<le> 2"
proof -
  obtain q :: "nat memory_queue" where q: "mq_init 2 ''drop_newest'' = Inr q"
    by (simp add: mq_init_def policy_of_string_def)
  show ?thesis using memory_queue_accounts [OF q refl] q by blast
qed

text \<open>Under the two dropping policies (the default is one of them), the events read from the
  queue followed by those still in it are a subsequence of the offered ones: overflow drops events but
  never reorders or duplicates them.\<close>

theorem memory_queue_order:
  assumes "mq_init n p = Inr q" and "p \<noteq> ''block''" and "s = mq_sys_run evs (mq_sys_init q)"
  shows "subseq (sys_taken s @ mq_items (sys_queue s)) (sys_offered s)"
proof -
  have "mq_policy q \<noteq> BLOCK" and "mq_items q = []"
    using assms(1,2) by (auto simp: mq_init_def policy_of_string_def split: if_splits)
  then have "mq_ordered (mq_sys_init q)" by (simp add: mq_ordered_def mq_sys_init_def)
  from mq_sys_run_ordered [OF this, of evs] show ?thesis by (simp add: assms(3) mq_ordered_def)
qed

theorem memory_queue_order_witness:
  "\<exists>q s. mq_init 2 ''drop_oldest'' = Inr q
     \<and> s = mq_sys_run [Mq_put (1 :: nat), Mq_put 2, Mq_put 3, Mq_get 5] (mq_sys_init q)
     \<and> sys_taken s = [2, 3] \<and> subseq (sys_taken s @ mq_items (sys_queue s)) (sys_offered s)"
proof -
  obtain q :: "nat memory_queue" where q: "mq_init 2 ''drop_oldest'' = Inr q"
    by (simp add: mq_init_def policy_of_string_def)
  let ?s = "mq_sys_run [Mq_put (1 :: nat), Mq_put 2, Mq_put 3, Mq_get 5] (mq_sys_init q)"
  have "sys_taken ?s = [2, 3]"
    using q by (auto simp: mq_init_def policy_of_string_def mq_sys_run_def mq_sys_init_def mq_put_def
        mq_full_def mq_get_batch_eq split: if_splits)
  with memory_queue_order [OF q _ refl, of "[Mq_put 1, Mq_put 2, Mq_put 3, Mq_get 5]"] q
  show ?thesis by auto
qed

text \<open>A read of due rows returns at most \<open>n\<close> rows, each present, due and returned once, oldest
  first, and passes over no due row older than one it returns.\<close>

theorem persistent_dequeue:
  assumes "pq_wf rows" and "out = sql_select_due now n rows"
  shows "length out \<le> n \<and> distinct (map pq_id out) \<and> sorted (map pq_created_at out)
    \<and> set out \<subseteq> {r \<in> set rows. pq_next_retry_at r \<le> now}
    \<and> (\<forall>r \<in> set out. \<forall>r' \<in> set rows. pq_next_retry_at r' \<le> now \<and> r' \<notin> set out \<longrightarrow>
         pq_created_at r \<le> pq_created_at r')"
proof -
  have "length out \<le> n" by (simp add: assms(2) sql_select_due_def)
  then show ?thesis
    using distinct_select_due [OF assms(1)] select_due_sorted set_select_due select_due_oldest_first
    unfolding assms(2) by blast
qed

theorem persistent_dequeue_witness:
  "length (sql_select_due 5 1 [\<lparr>pq_id = ''a'', pq_payload = (), pq_attempts = 0, pq_created_at = 2, pq_next_retry_at = 0\<rparr>]) \<le> 1"
  by (rule persistent_dequeue [THEN conjunct1, OF _ refl]) (simp add: pq_wf_def)

text \<open>An event that is in the persistent queue stays there, whatever is enqueued, rescheduled or
  acknowledged, as long as it is not itself acknowledged; an acknowledged one is gone.\<close>

theorem persistent_queue_keeps:
  assumes "pq_wf rows" and "pq_lookup rows i \<noteq> None" and "St_remove i \<notin> set ops"
  shows "pq_lookup (run_store
      (\<lambda>t i p. sql_insert_or_replace (event_row t \<lparr>qe_id = i, qe_payload = p, qe_attempts = 0\<rparr>))
      (\<lambda>i n t. sql_mark_retry i (int n) t) sql_delete ops rows) i \<noteq> None
    \<and> pq_lookup (sql_delete i rows) i = None"
  using sdk_store.survives [OF assms] sdk_store.removed [OF assms(1)] by simp

theorem persistent_queue_keeps_witness:
  "pq_lookup (run_store
      (\<lambda>t i p. sql_insert_or_replace (event_row t \<lparr>qe_id = i, qe_payload = p, qe_attempts = 0\<rparr>))
      (\<lambda>i n t. sql_mark_retry i (int n) t) sql_delete
      [St_enqueue 1 ''b'' (), St_retry ''a'' 2 9, St_remove ''b'']
      [\<lparr>pq_id = ''a'', pq_payload = (), pq_attempts = 0, pq_created_at = 0, pq_next_retry_at = 0\<rparr>]) ''a'' \<noteq> None"
  by (rule persistent_queue_keeps [THEN conjunct1]) (simp_all add: pq_wf_def pq_lookup_def)

end
