(* ===== verification/Sdk_Worker.thy ===== *)
theory Sdk_Worker
  imports Sdk_Breaker Sdk_Queue
begin

text \<open>
  The SDK's background worker (\<open>reliability/worker.py\<close>) and its health report
  (\<open>reliability/health.py\<close>). One pass moves a batch from the memory queue into the persistent
  queue, then delivers what is due. The deliveries of a pass run concurrently on one event loop and
  give up control only while the HTTP request is out, so a delivery is two atomic steps:
  \<open>deliver_begin\<close> (ask the breaker, build the request) and \<open>deliver_end\<close> (the response or
  the network error). \<open>worker_step\<close> interleaves them freely with submissions and passes.

  \<open>to_json\<close> is \<open>json.dumps(payload).encode()\<close>, \<open>gzip\<close> the standard library's compressor.
\<close>

section \<open>State\<close>

record 'p worker =
  w_memory :: "'p queued_event memory_queue"
  w_store :: "'p persistent_queue"
  w_breaker :: breaker
  w_metrics :: telemetry
  w_schedule :: "secs list"
  w_batch_size :: nat
  w_compression_enabled :: bool
  w_retry_enabled :: bool
  w_status :: string
  w_thread :: bool
  w_stop :: bool

datatype worker_error = Worker_sqlite | Worker_schedule

text \<open>What came back from the pool: a status code, or no response at all.\<close>

datatype reply = Network_error | Status int

record request =
  rq_path :: string
  rq_body :: string
  rq_gzip :: bool

definition store_do ::
  "('p persistent_queue \<Rightarrow> sqlite_error + 'p persistent_queue) \<Rightarrow> 'p worker \<Rightarrow> worker_error + 'p worker" where
  "store_do f w =
     (case f (w_store w) of Inl _ \<Rightarrow> Inl Worker_sqlite | Inr q \<Rightarrow> Inr (w\<lparr>w_store := q\<rparr>))"

section \<open>Life cycle\<close>

datatype worker_init_error = Bad_memory_queue memory_queue_error

text \<open>The constructor, with the components' own defaults (breaker 5 / 30 s / 1, default schedule).\<close>

definition worker_init ::
  "int \<Rightarrow> string \<Rightarrow> bool \<Rightarrow> bool \<Rightarrow> nat \<Rightarrow> secs \<Rightarrow> worker_init_error + 'p worker" where
  "worker_init queue_size policy compression retry batch_size now =
     (case mq_init queue_size policy of
        Inl e \<Rightarrow> Inl (Bad_memory_queue e)
      | Inr q \<Rightarrow>
          Inr \<lparr>w_memory = q, w_store = pq_empty, w_breaker = projr (breaker_init 5 30 1),
               w_metrics = telemetry_init now, w_schedule = DEFAULT_BACKOFF_SECONDS,
               w_batch_size = batch_size, w_compression_enabled = compression,
               w_retry_enabled = retry, w_status = ''stopped'', w_thread = False, w_stop = False\<rparr>)"

definition worker_start :: "'p worker \<Rightarrow> 'p worker" where
  "worker_start w =
     (if w_thread w then w
      else w\<lparr>w_stop := False, w_status := ''running'', w_thread := True\<rparr>)"

definition worker_shutdown :: "'p worker \<Rightarrow> 'p worker" where
  "worker_shutdown w =
     (if \<not> w_thread w then w
      else w\<lparr>w_status := ''stopped'', w_stop := True, w_store := pq_close (w_store w), w_thread := False\<rparr>)"

definition worker_submit :: "'p queued_event \<Rightarrow> 'p worker \<Rightarrow> put_answer \<times> 'p worker" where
  "worker_submit e w = (let (a, q) = mq_put e (w_memory w) in (a, w\<lparr>w_memory := q\<rparr>))"

text \<open>\<open>flush\<close> polls until both queues are empty; each sample is one look at them before the deadline.\<close>

definition drained :: "'p worker \<Rightarrow> bool" where
  "drained w \<longleftrightarrow> mq_is_empty (w_memory w) \<and> pq_count (w_store w) = 0"

fun worker_flush :: "'p worker list \<Rightarrow> 'p worker \<Rightarrow> bool" where
  "worker_flush [] final = drained final"
| "worker_flush (w # ws) final = (if drained w then True else worker_flush ws final)"

lemma worker_flush_iff: "worker_flush ws final \<longleftrightarrow> (\<exists>w \<in> set (ws @ [final]). drained w)"
  by (induction ws) auto

section \<open>Delivery\<close>

definition deliver_begin ::
  "('p \<Rightarrow> string) \<Rightarrow> (string \<Rightarrow> string) \<Rightarrow> secs \<Rightarrow> 'p queued_event \<Rightarrow> 'p worker \<Rightarrow> request option \<times> 'p worker" where
  "deliver_begin to_json gzip now e w =
     (let (ok, b) = cb_allow now (w_breaker w); w1 = w\<lparr>w_breaker := b\<rparr>
      in if \<not> ok then (None, w1)
         else
           (let body = to_json (qe_payload e)
            in if w_compression_enabled w1 then
                 (let (out, was) = maybe_compress gzip DEFAULT_THRESHOLD_BYTES body
                  in if was
                     then (Some \<lparr>rq_path = ''/v1/ingest/usage'', rq_body = out, rq_gzip = True\<rparr>,
                           w1\<lparr>w_metrics := record_compression
                                 (compression_ratio (int (length body)) (int (length out))) (w_metrics w1)\<rparr>)
                     else (Some \<lparr>rq_path = ''/v1/ingest/usage'', rq_body = body, rq_gzip = False\<rparr>, w1))
               else (Some \<lparr>rq_path = ''/v1/ingest/usage'', rq_body = body, rq_gzip = False\<rparr>, w1)))"

definition on_failure ::
  "secs \<Rightarrow> secs \<Rightarrow> rat \<Rightarrow> 'p queued_event \<Rightarrow> int option \<Rightarrow> 'p worker \<Rightarrow> worker_error + 'p worker" where
  "on_failure tick wall elapsed e status w0 =
     (let w = w0\<lparr>w_metrics := record_upload elapsed 1 False (w_metrics w0)\<rparr>
      in if \<not> w_retry_enabled w \<or> \<not> is_retryable status
         then store_do (pq_ack (qe_id e)) w
         else
           (let w1 = w\<lparr>w_breaker := cb_failure tick (w_breaker w),
                       w_metrics := record_retry (w_metrics w)\<rparr>;
                attempts = qe_attempts e + 1
            in case next_delay (w_schedule w1) attempts of
                 None \<Rightarrow> Inl Worker_schedule
               | Some delay \<Rightarrow> store_do (pq_mark_retry (qe_id e) attempts (wall + delay)) w1))"

definition deliver_end ::
  "secs \<Rightarrow> secs \<Rightarrow> rat \<Rightarrow> 'p queued_event \<Rightarrow> reply \<Rightarrow> 'p worker \<Rightarrow> worker_error + 'p worker" where
  "deliver_end tick wall elapsed e r w =
     (case r of
        Network_error \<Rightarrow> on_failure tick wall elapsed e None w
      | Status code \<Rightarrow>
          if code = 200 then
            and_then (store_do (pq_ack (qe_id e)) (w\<lparr>w_breaker := cb_success (w_breaker w)\<rparr>))
              (\<lambda>w1. Inr (w1\<lparr>w_metrics := record_upload elapsed 1 True (w_metrics w1)\<rparr>))
          else on_failure tick wall elapsed e (Some code) w)"

text \<open>
  The part of a pass before the deliveries: \<open>walls\<close> are the readings of \<open>time.time()\<close> for the
  rows of the batch. The result is whether work was done, what is to be delivered, the worker.
\<close>

definition pass_begin ::
  "secs \<Rightarrow> secs \<Rightarrow> (nat \<Rightarrow> secs) \<Rightarrow> 'p worker
   \<Rightarrow> worker_error + (bool \<times> 'p queued_event list \<times> 'p worker)" where
  "pass_begin tick wall walls w =
     (let (batch, q) = mq_get_batch (w_batch_size w) (w_memory w);
          w1 = w\<lparr>w_memory := q\<rparr>
      in and_then
           (if batch \<noteq> [] then store_do (pq_enqueue_many (zip (map walls [0..<length batch]) batch)) w1
            else Inr w1)
           (\<lambda>w2. let did_work = (batch \<noteq> []);
                     w3 = w2\<lparr>w_breaker := cb_current tick (w_breaker w2)\<rparr>
                 in if cb_state (w_breaker w3) = CB_OPEN then Inr (did_work, [], w3)
                    else case pq_dequeue_due wall (w_batch_size w3) (w_store w3) of
                           Inl _ \<Rightarrow> Inl Worker_sqlite
                         | Inr due \<Rightarrow> Inr (if due = [] then did_work else True, due, w3)))"

section \<open>Interleaved execution\<close>

record 'p worker_sys =
  ws_worker :: "'p worker"
  ws_due :: "'p queued_event list"
  ws_in_flight :: "'p queued_event list"
  ws_requests :: "request list"

datatype 'p worker_event =
    We_submit "'p queued_event"
  | We_pass secs secs "nat \<Rightarrow> secs"
  | We_begin secs nat
  | We_end secs secs rat nat reply

fun worker_step ::
  "('p \<Rightarrow> string) \<Rightarrow> (string \<Rightarrow> string) \<Rightarrow> 'p worker_event \<Rightarrow> 'p worker_sys \<Rightarrow> worker_error + 'p worker_sys" where
  "worker_step js gz (We_submit e) s = Inr (s\<lparr>ws_worker := snd (worker_submit e (ws_worker s))\<rparr>)"
| "worker_step js gz (We_pass tick wall walls) s =
     (if ws_due s \<noteq> [] \<or> ws_in_flight s \<noteq> [] then Inr s
      else and_then (pass_begin tick wall walls (ws_worker s))
             (\<lambda>(_, due, w). Inr (s\<lparr>ws_worker := w, ws_due := due\<rparr>)))"
| "worker_step js gz (We_begin tick k) s =
     (if k < length (ws_due s) then
        (let e = ws_due s ! k; (rq, w) = deliver_begin js gz tick e (ws_worker s);
             s1 = s\<lparr>ws_worker := w, ws_due := remove_nth k (ws_due s)\<rparr>
         in case rq of
              None \<Rightarrow> Inr s1
            | Some r \<Rightarrow> Inr (s1\<lparr>ws_in_flight := ws_in_flight s1 @ [e], ws_requests := ws_requests s1 @ [r]\<rparr>))
      else Inr s)"
| "worker_step js gz (We_end tick wall elapsed k r) s =
     (if k < length (ws_in_flight s) then
        and_then (deliver_end tick wall elapsed (ws_in_flight s ! k) r (ws_worker s))
          (\<lambda>w. Inr (s\<lparr>ws_worker := w, ws_in_flight := remove_nth k (ws_in_flight s)\<rparr>))
      else Inr s)"

fun worker_run ::
  "('p \<Rightarrow> string) \<Rightarrow> (string \<Rightarrow> string) \<Rightarrow> 'p worker_event list \<Rightarrow> 'p worker_sys \<Rightarrow> worker_error + 'p worker_sys" where
  "worker_run js gz [] s = Inr s"
| "worker_run js gz (ev # evs) s = and_then (worker_step js gz ev s) (worker_run js gz evs)"

section \<open>Nothing is lost\<close>

definition stored :: "'p worker \<Rightarrow> string \<Rightarrow> bool" where
  "stored w i \<longleftrightarrow> pq_lookup (pq_rows (w_store w)) i \<noteq> None"

text \<open>The replies that end an event: delivered, or a failure that is not retried.\<close>

definition final_reply :: "bool \<Rightarrow> reply \<Rightarrow> bool" where
  "final_reply retry_enabled r =
     (case r of
        Network_error \<Rightarrow> \<not> retry_enabled
      | Status code \<Rightarrow> code = 200 \<or> \<not> retry_enabled \<or> \<not> is_retryable (Some code))"

lemma pq_execute_Inr: "pq_execute f q = Inr q' \<Longrightarrow> \<not> pq_closed q \<and> q' = q\<lparr>pq_rows := f (pq_rows q)\<rparr>"
  by (auto simp: pq_execute_def split: if_splits)

lemma store_do_Inr:
  "store_do (pq_execute f) w = Inr w' \<longleftrightarrow>
   \<not> pq_closed (w_store w) \<and> w' = w\<lparr>w_store := (w_store w)\<lparr>pq_rows := f (pq_rows (w_store w))\<rparr>\<rparr>"
  by (auto simp: store_do_def pq_execute_def)

lemma stored_insert_many:
  "pq_lookup rows i \<noteq> None \<Longrightarrow>
   pq_lookup (fold (\<lambda>(t, e). sql_insert_or_replace (event_row t e)) es rows) i \<noteq> None"
proof (induction es arbitrary: rows)
  case Nil
  then show ?case by simp
next
  case (Cons te es)
  have "pq_lookup (sql_insert_or_replace (event_row (fst te) (snd te)) rows) i \<noteq> None"
    using Cons.prems by (simp add: pq_lookup_insert)
  from Cons.IH [OF this] show ?case by (simp add: split_def)
qed

lemma on_failure_stored:
  assumes "on_failure tick wall el e status w = Inr w'" and "stored w i"
    and "qe_id e \<noteq> i \<or> w_retry_enabled w \<and> is_retryable status"
  shows "stored w' i \<and> w_retry_enabled w' = w_retry_enabled w"
proof (cases "w_retry_enabled w \<and> is_retryable status")
  case True
  with assms(1,2) show ?thesis
    by (auto simp: on_failure_def Let_def pq_mark_retry_def store_do_Inr stored_def pq_lookup_mark
        split: option.splits)
next
  case False
  then have "\<not> w_retry_enabled w \<or> \<not> is_retryable status" by blast
  with False assms show ?thesis
    by (auto simp: on_failure_def Let_def pq_ack_def store_do_Inr stored_def pq_lookup_delete)
qed

lemma deliver_end_stored:
  assumes "deliver_end tick wall el e r w = Inr w'" and "stored w i"
    and "qe_id e \<noteq> i \<or> \<not> final_reply (w_retry_enabled w) r"
  shows "stored w' i \<and> w_retry_enabled w' = w_retry_enabled w"
proof (cases r)
  case Network_error
  with assms(1) have "on_failure tick wall el e None w = Inr w'" by (simp add: deliver_end_def)
  from on_failure_stored [OF this assms(2)] show ?thesis
    using Network_error assms(3) by (auto simp: final_reply_def is_retryable_def)
next
  case (Status code)
  show ?thesis
  proof (cases "code = 200")
    case True
    with Status assms show ?thesis
      by (auto simp: deliver_end_def final_reply_def and_then_Inr_iff pq_ack_def store_do_Inr stored_def pq_lookup_delete)
  next
    case False
    with Status assms have "on_failure tick wall el e (Some code) w = Inr w'"
      by (simp add: deliver_end_def)
    from on_failure_stored [OF this assms(2)] show ?thesis
      using Status False assms(3) by (auto simp: final_reply_def)
  qed
qed

lemma deliver_begin_store:
  "w_store (snd (deliver_begin js gz now e w)) = w_store w \<and>
   w_retry_enabled (snd (deliver_begin js gz now e w)) = w_retry_enabled w"
  by (auto simp: deliver_begin_def Let_def split: prod.splits)

lemma pass_begin_stored:
  assumes "pass_begin tick wall walls w = Inr (did, due, w')" and "stored w i"
  shows "stored w' i \<and> w_retry_enabled w' = w_retry_enabled w"
proof -
  obtain batch q where b: "mq_get_batch (w_batch_size w) (w_memory w) = (batch, q)" by fastforce
  obtain w2 where w2: "(if batch \<noteq> [] then store_do (pq_enqueue_many (zip (map walls [0..<length batch]) batch))
      (w\<lparr>w_memory := q\<rparr>) else Inr (w\<lparr>w_memory := q\<rparr>)) = Inr w2"
    and w': "w_store w' = w_store w2" "w_retry_enabled w' = w_retry_enabled w2"
    using assms(1) unfolding pass_begin_def b
    by (auto simp: Let_def and_then_Inr_iff split: if_splits sum.splits)
  from w2 have "stored w2 i \<and> w_retry_enabled w2 = w_retry_enabled w"
    using assms(2) stored_insert_many [of "pq_rows (w_store w)" i "zip (map walls [0..<length batch]) batch"]
    by (auto simp: pq_enqueue_many_def store_do_Inr stored_def split: if_splits)
  with w' show ?thesis by (simp add: stored_def)
qed

text \<open>The events of a run that answer the request for event \<open>i\<close> for good.\<close>

fun ends_event :: "string \<Rightarrow> 'p worker_event \<Rightarrow> 'p worker_sys \<Rightarrow> bool" where
  "ends_event i (We_end tick wall el k r) s \<longleftrightarrow>
     k < length (ws_in_flight s) \<and> qe_id (ws_in_flight s ! k) = i
     \<and> final_reply (w_retry_enabled (ws_worker s)) r"
| "ends_event i _ s = False"

lemma worker_step_stored:
  assumes "worker_step js gz ev s = Inr s'" and "stored (ws_worker s) i" and "\<not> ends_event i ev s"
  shows "stored (ws_worker s') i"
proof (cases ev)
  case (We_submit e)
  with assms show ?thesis by (auto simp: worker_submit_def stored_def split_def Let_def)
next
  case (We_pass tick wall walls)
  with assms show ?thesis
    by (auto simp: and_then_Inr_iff dest!: pass_begin_stored split: if_splits)
next
  case (We_begin tick k)
  with assms show ?thesis using deliver_begin_store [of js gz tick "ws_due s ! k" "ws_worker s"]
    by (auto simp: stored_def split_def Let_def split: if_splits option.splits)
next
  case (We_end tick wall el k r)
  with assms show ?thesis
    by (auto simp: and_then_Inr_iff dest!: deliver_end_stored [where i = i] split: if_splits)
qed

fun never_ends :: "('p \<Rightarrow> string) \<Rightarrow> (string \<Rightarrow> string) \<Rightarrow> string \<Rightarrow> 'p worker_event list \<Rightarrow> 'p worker_sys \<Rightarrow> bool" where
  "never_ends js gz i [] s = True"
| "never_ends js gz i (ev # evs) s =
     (\<not> ends_event i ev s \<and>
      (case worker_step js gz ev s of Inl _ \<Rightarrow> True | Inr s' \<Rightarrow> never_ends js gz i evs s'))"

lemma worker_run_stored:
  assumes "worker_run js gz evs s = Inr s'" and "stored (ws_worker s) i" and "never_ends js gz i evs s"
  shows "stored (ws_worker s') i"
  using assms
proof (induction evs arbitrary: s)
  case Nil
  then show ?case by simp
next
  case (Cons ev evs)
  then obtain s1 where "worker_step js gz ev s = Inr s1" and "worker_run js gz evs s1 = Inr s'"
    by (auto simp: and_then_Inr_iff)
  with Cons show ?case by (auto dest: worker_step_stored)
qed

section \<open>A rejected probe\<close>

text \<open>
  A half-open breaker whose probe budget is spent, with no request out, never hears of a success or
  a failure again: whatever is submitted, polled or begun, no further request is sent.
\<close>

definition wedged :: "'p worker_sys \<Rightarrow> bool" where
  "wedged s \<longleftrightarrow> (let b = w_breaker (ws_worker s)
     in cb_state b = CB_HALF_OPEN \<and> half_open_max_calls b \<le> half_open_in_flight b \<and> ws_in_flight s = [])"

lemma pass_begin_breaker:
  "pass_begin tick wall walls w = Inr (did, due, w') \<Longrightarrow> w_breaker w' = cb_current tick (w_breaker w)"
  by (auto simp: pass_begin_def Let_def and_then_Inr_iff store_do_def split: prod.splits if_splits sum.splits)

lemma worker_step_wedged:
  assumes "wedged s" and "worker_step js gz ev s = Inr s'"
  shows "wedged s' \<and> ws_requests s' = ws_requests s"
proof -
  note b = cb_half_open_exhausted [of "w_breaker (ws_worker s)"]
  show ?thesis
  proof (cases ev)
    case (We_submit e)
    with assms show ?thesis by (auto simp: wedged_def worker_submit_def split_def Let_def)
  next
    case (We_pass tick wall walls)
    with assms b show ?thesis
      by (auto simp: wedged_def Let_def and_then_Inr_iff dest!: pass_begin_breaker split: if_splits)
  next
    case (We_begin tick k)
    with assms b show ?thesis
      by (auto simp: wedged_def deliver_begin_def Let_def split: if_splits)
  next
    case (We_end tick wall el k r)
    with assms show ?thesis by (auto simp: wedged_def Let_def)
  qed
qed

lemma worker_run_wedged:
  "wedged s \<Longrightarrow> worker_run js gz evs s = Inr s' \<Longrightarrow> wedged s' \<and> ws_requests s' = ws_requests s"
proof (induction evs arbitrary: s)
  case Nil
  then show ?case by simp
next
  case (Cons ev evs)
  then obtain s1 where "worker_step js gz ev s = Inr s1" and "worker_run js gz evs s1 = Inr s'"
    by (auto simp: and_then_Inr_iff)
  with Cons show ?case by (metis worker_step_wedged)
qed

lemma rejected_probe_wedges:
  assumes "cb_state (w_breaker (ws_worker s)) = CB_HALF_OPEN"
    and "half_open_max_calls (w_breaker (ws_worker s)) \<le> half_open_in_flight (w_breaker (ws_worker s))"
    and "ws_in_flight s = [e]"
    and "\<not> is_retryable (Some code)" and "code \<noteq> 200"
    and "worker_step js gz (We_end tick wall el 0 (Status code)) s = Inr s'"
  shows "wedged s'"
  using assms
  by (auto simp: wedged_def Let_def and_then_Inr_iff deliver_end_def on_failure_def pq_ack_def
      store_do_Inr remove_nth_def)

section \<open>Health\<close>

record health =
  h_worker :: string
  h_queue_depth :: nat
  h_retry_queue :: nat
  h_circuit :: circuit_state
  h_compression :: string

definition health_snapshot :: "secs \<Rightarrow> 'p worker \<Rightarrow> health \<times> 'p worker" where
  "health_snapshot now w =
     (let b = cb_current now (w_breaker w)
      in (\<lparr>h_worker = w_status w, h_queue_depth = mq_qsize (w_memory w),
           h_retry_queue = pq_count (w_store w), h_circuit = cb_state b,
           h_compression = (if w_compression_enabled w then ''enabled'' else ''disabled'')\<rparr>,
          w\<lparr>w_breaker := b\<rparr>))"

lemma worker_start_idem: "worker_start (worker_start w) = worker_start w"
  by (simp add: worker_start_def)

lemma worker_shutdown_idem: "worker_shutdown (worker_shutdown w) = worker_shutdown w"
  by (simp add: worker_shutdown_def)

lemma shutdown_health:
  "w_thread w \<Longrightarrow> h_worker (fst (health_snapshot now (worker_shutdown w))) = ''stopped''
     \<and> h_retry_queue (fst (health_snapshot now (worker_shutdown w))) = 0"
  by (auto simp: health_snapshot_def worker_shutdown_def pq_close_def pq_count_def Let_def)

section \<open>Properties\<close>

text \<open>C5: whatever the interleaving of submissions, passes, request starts and replies, an event
  that is in the persistent queue stays there until its own request is answered with 200 or fails in a
  way that is not retried; no other step, and no failure of another event, removes it.\<close>

theorem no_event_lost:
  assumes "worker_run js gz evs s = Inr s'" and "stored (ws_worker s) i" and "never_ends js gz i evs s"
  shows "stored (ws_worker s') i"
  by (rule worker_run_stored [OF assms])

definition sample_worker :: "string worker" where
  "sample_worker = (projr (worker_init 10 ''drop_oldest'' False True 5 0))
     \<lparr>w_store := \<lparr>pq_rows = [event_row 1 \<lparr>qe_id = ''a'', qe_payload = ''x'', qe_attempts = 0\<rparr>], pq_closed = False\<rparr>\<rparr>"

definition sample_sys :: "string worker_sys" where
  "sample_sys = \<lparr>ws_worker = sample_worker, ws_due = [], ws_in_flight = [], ws_requests = []\<rparr>"

lemmas worker_eval =
  sample_sys_def sample_worker_def worker_init_def mq_init_def policy_of_string_def breaker_init_def
  pass_begin_def mq_get_batch_eq cb_current_def cb_allow_def pq_dequeue_due_def
  sql_select_due_def event_row_def row_event_def deliver_begin_def deliver_end_def on_failure_def
  remove_nth_def is_retryable_def NEVER_RETRY_def RETRYABLE_def cb_failure_def next_delay_def
  DEFAULT_BACKOFF_SECONDS_def py_get_def pq_mark_retry_def pq_execute_def sql_mark_retry_def store_do_def
  telemetry_init_def record_upload_def record_retry_def final_reply_def Let_def

theorem no_event_lost_witness:
  "\<exists>s'. worker_run id id [We_pass 1 1 (\<lambda>_. 1), We_begin 1 0, We_end 2 2 1 0 Network_error] sample_sys = Inr s'
     \<and> stored (ws_worker s') ''a''"
proof -
  let ?evs = "[We_pass 1 1 (\<lambda>_. 1), We_begin 1 0, We_end 2 2 1 0 Network_error]"
  obtain s' where run: "worker_run id id ?evs sample_sys = Inr s'" by (simp add: worker_eval)
  have st: "stored (ws_worker sample_sys) ''a''" by (simp add: stored_def pq_lookup_def worker_eval)
  have ne: "never_ends id id ''a'' ?evs sample_sys" by (simp add: worker_eval)
  from no_event_lost [OF run st ne] run show ?thesis by blast
qed

text \<open>C6: when the breaker is half-open with its probe budget spent and the only request out is
  answered with a status that is not retried (a 400, 401, 403, 404 or 422, say), the breaker is told
  neither success nor failure: it stays half-open and, whatever is submitted, polled or begun at any
  later time, the worker never sends another request.\<close>

theorem rejected_probe_stops_delivery:
  assumes "cb_state (w_breaker (ws_worker s)) = CB_HALF_OPEN"
    and "half_open_max_calls (w_breaker (ws_worker s)) \<le> half_open_in_flight (w_breaker (ws_worker s))"
    and "ws_in_flight s = [e]"
    and "\<not> is_retryable (Some code)" and "code \<noteq> 200"
    and "worker_run js gz (We_end tick wall el 0 (Status code) # evs) s = Inr s'"
  shows "ws_requests s' = ws_requests s \<and> cb_state (w_breaker (ws_worker s')) = CB_HALF_OPEN"
proof -
  obtain s1 where 1: "worker_step js gz (We_end tick wall el 0 (Status code)) s = Inr s1"
    and 2: "worker_run js gz evs s1 = Inr s'"
    using assms(6) by (auto simp: and_then_Inr_iff)
  have "wedged s1" by (rule rejected_probe_wedges [OF assms(1-5) 1])
  moreover have "ws_requests s1 = ws_requests s" using 1 assms(3) by (auto simp: and_then_Inr_iff)
  ultimately show ?thesis using worker_run_wedged [OF _ 2] by (auto simp: wedged_def Let_def)
qed

definition probing_sys :: "string worker_sys" where
  "probing_sys = sample_sys\<lparr>
     ws_worker := sample_worker\<lparr>w_breaker := (w_breaker sample_worker)
       \<lparr>cb_state := CB_HALF_OPEN, opened_at := Some 0, half_open_in_flight := 1\<rparr>\<rparr>,
     ws_in_flight := [\<lparr>qe_id = ''a'', qe_payload = ''x'', qe_attempts = 0\<rparr>]\<rparr>"

theorem rejected_probe_stops_delivery_witness:
  "\<exists>s'. worker_run id id [We_end 2 2 1 0 (Status 422), We_submit \<lparr>qe_id = ''b'', qe_payload = ''y'', qe_attempts = 0\<rparr>,
        We_pass 900 900 (\<lambda>_. 900), We_begin 1000 0] probing_sys = Inr s'
     \<and> ws_requests s' = ws_requests probing_sys \<and> cb_state (w_breaker (ws_worker s')) = CB_HALF_OPEN"
proof -
  let ?evs = "[We_submit \<lparr>qe_id = ''b'', qe_payload = ''y'', qe_attempts = 0\<rparr>,
        We_pass 900 900 (\<lambda>_. 900), We_begin 1000 0]"
  obtain s' where run: "worker_run id id (We_end 2 2 1 0 (Status 422) # ?evs) probing_sys = Inr s'"
    by (simp add: probing_sys_def worker_eval pq_ack_def sql_delete_def worker_submit_def mq_put_def mq_full_def
        pq_enqueue_many_def sql_insert_or_replace_def pq_empty_def)
  have h: "cb_state (w_breaker (ws_worker probing_sys)) = CB_HALF_OPEN"
    "half_open_max_calls (w_breaker (ws_worker probing_sys)) \<le> half_open_in_flight (w_breaker (ws_worker probing_sys))"
    "ws_in_flight probing_sys = [\<lparr>qe_id = ''a'', qe_payload = ''x'', qe_attempts = 0\<rparr>]"
    "\<not> is_retryable (Some 422)" "(422 :: int) \<noteq> 200"
    by (simp_all add: probing_sys_def worker_eval)
  from rejected_probe_stops_delivery [OF h run] run show ?thesis by blast
qed

end
