(* ===== verification/Decimals.thy ===== *)
theory Decimals
  imports Prelude
begin

text \<open>
  Python's \<open>decimal.Decimal\<close> as the cost code uses it. A finite decimal is the rational it denotes.
  Arithmetic is exact arithmetic followed by \<open>ctx28\<close>, the rounding of the default context (28
  significant digits, ties to even); \<open>quantize8\<close> is \<open>quantize(Decimal("0.00000001"),
  ROUND_HALF_UP)\<close>, which raises \<open>InvalidOperation\<close> when the result would need more than 28 digits.
  The exponent limits of the context (a million digits) are not modelled.
\<close>

section \<open>Rounding to an integer\<close>

definition half_up :: "rat \<Rightarrow> int" where
  "half_up x = (if x < 0 then - \<lfloor>1 / 2 - x\<rfloor> else \<lfloor>x + 1 / 2\<rfloor>)"

definition half_even :: "rat \<Rightarrow> int" where
  "half_even x =
     (let f = \<lfloor>x\<rfloor>; r = x - of_int f
      in if r < 1 / 2 then f else if 1 / 2 < r then f + 1 else if even f then f else f + 1)"

lemma half_up_of_int [simp]: "half_up (of_int n) = n"
  by (simp add: half_up_def) linarith

lemma half_even_of_int [simp]: "half_even (of_int n) = n"
  by (simp add: half_even_def)

lemma half_up_error: "\<bar>of_int (half_up x) - x\<bar> \<le> 1 / 2"
proof (cases "x < 0")
  case True
  define f where "f = \<lfloor>1 / 2 - x\<rfloor>"
  have "of_int f \<le> 1 / 2 - x" and "1 / 2 - x < of_int f + 1"
    using floor_correct [of "1 / 2 - x"] unfolding f_def by simp_all
  moreover have "half_up x = - f" using True by (simp add: half_up_def f_def)
  ultimately show ?thesis unfolding abs_le_iff by simp
next
  case False
  define f where "f = \<lfloor>x + 1 / 2\<rfloor>"
  have "of_int f \<le> x + 1 / 2" and "x + 1 / 2 < of_int f + 1"
    using floor_correct [of "x + 1 / 2"] unfolding f_def by simp_all
  moreover have "half_up x = f" using False by (simp add: half_up_def f_def)
  ultimately show ?thesis unfolding abs_le_iff by simp
qed

lemma half_even_error: "\<bar>of_int (half_even x) - x\<bar> \<le> 1 / 2"
proof -
  have "of_int \<lfloor>x\<rfloor> \<le> x" and "x < of_int \<lfloor>x\<rfloor> + 1" using floor_correct [of x] by simp_all
  then show ?thesis by (simp add: half_even_def Let_def abs_le_iff)
qed

lemma half_up_nonneg: "0 \<le> x \<Longrightarrow> 0 \<le> half_up x"
  by (simp add: half_up_def)

lemma half_even_nonneg: "0 \<le> x \<Longrightarrow> 0 \<le> half_even x"
  by (simp add: half_even_def Let_def)

lemma half_up_mono: "x \<le> y \<Longrightarrow> half_up x \<le> half_up y"
proof -
  assume le: "x \<le> y"
  have 1: "\<lfloor>1 / 2 - y\<rfloor> \<le> \<lfloor>1 / 2 - x\<rfloor>" and 2: "\<lfloor>x + 1 / 2\<rfloor> \<le> \<lfloor>y + 1 / 2\<rfloor>"
    using le by (auto intro!: floor_mono)
  have 3: "x < 0 \<Longrightarrow> 0 \<le> \<lfloor>1 / 2 - x\<rfloor>" by simp
  have 4: "0 \<le> y \<Longrightarrow> 0 \<le> \<lfloor>y + 1 / 2\<rfloor>" by simp
  show ?thesis
    using 1 2 3 4 le by (cases "x < 0"; cases "y < 0") (simp_all add: half_up_def del: zero_le_floor)
qed

section \<open>The leading digit of a positive fraction\<close>

function mag10 :: "nat \<Rightarrow> nat \<Rightarrow> int" where
  "mag10 n d =
     (if n = 0 \<or> d = 0 then 0
      else if n < d then mag10 (10 * n) d - 1
      else if 10 * d \<le> n then mag10 n (10 * d) + 1
      else 0)"
  by pat_completeness auto
termination
  by (relation "measure (\<lambda>(n, d). if n < d then d - n else if 10 * d \<le> n then Suc (n - 10 * d) else 0)") auto

declare mag10.simps [simp del]

lemma mag10_bounds:
  "0 < n \<Longrightarrow> 0 < d \<Longrightarrow>
     rat_of_nat d * 10 powi mag10 n d \<le> rat_of_nat n \<and> rat_of_nat n < rat_of_nat d * 10 powi (mag10 n d + 1)"
proof (induction n d rule: mag10.induct)
  case (1 n d)
  consider (small) "n < d" | (large) "10 * d \<le> n" | (unit) "d \<le> n" "n < 10 * d" by linarith
  then show ?case
  proof cases
    case small
    with 1 have m: "mag10 n d = mag10 (10 * n) d - 1" by (simp add: mag10.simps [of n d])
    have "rat_of_nat d * 10 powi mag10 (10 * n) d \<le> rat_of_nat (10 * n) \<and>
        rat_of_nat (10 * n) < rat_of_nat d * 10 powi (mag10 (10 * n) d + 1)"
      using 1 small by simp
    then show ?thesis unfolding m by (simp add: power_int_diff power_int_add)
  next
    case large
    with 1 have m: "mag10 n d = mag10 n (10 * d) + 1" by (simp add: mag10.simps [of n d])
    have "rat_of_nat (10 * d) * 10 powi mag10 n (10 * d) \<le> rat_of_nat n \<and>
        rat_of_nat n < rat_of_nat (10 * d) * 10 powi (mag10 n (10 * d) + 1)"
      using 1 large by simp
    then show ?thesis unfolding m by (simp add: power_int_add mult.commute mult.left_commute)
  next
    case unit
    with 1 have "mag10 n d = 0" by (simp add: mag10.simps [of n d])
    moreover have "rat_of_nat d \<le> rat_of_nat n" "rat_of_nat n < rat_of_nat (10 * d)"
      using unit by (simp_all only: of_nat_le_iff of_nat_less_iff)
    ultimately show ?thesis by simp
  qed
qed

definition dec_exponent :: "rat \<Rightarrow> int" where
  "dec_exponent x = (let (n, d) = quotient_of x in mag10 (nat \<bar>n\<bar>) (nat d))"

lemma dec_exponent_bounds:
  assumes "x \<noteq> 0"
  shows "10 powi dec_exponent x \<le> \<bar>x\<bar> \<and> \<bar>x\<bar> < 10 powi (dec_exponent x + 1)"
proof -
  obtain n d where q: "quotient_of x = (n, d)" by (cases "quotient_of x")
  have x: "x = of_int n / of_int d" by (rule quotient_of_div [OF q])
  have d: "0 < d" by (rule quotient_of_denom_pos [OF q])
  have n: "n \<noteq> 0" using assms x by auto
  have ax: "\<bar>x\<bar> = rat_of_nat (nat \<bar>n\<bar>) / rat_of_nat (nat d)"
    using d by (simp add: x)
  have "rat_of_nat (nat d) * 10 powi mag10 (nat \<bar>n\<bar>) (nat d) \<le> rat_of_nat (nat \<bar>n\<bar>) \<and>
      rat_of_nat (nat \<bar>n\<bar>) < rat_of_nat (nat d) * 10 powi (mag10 (nat \<bar>n\<bar>) (nat d) + 1)"
    using n d by (intro mag10_bounds) auto
  moreover have "0 < rat_of_nat (nat d)" using d by simp
  ultimately show ?thesis
    unfolding ax dec_exponent_def q by (simp add: pos_le_divide_eq pos_divide_less_eq mult.commute)
qed

section \<open>The default context and quantisation\<close>

definition ctx28 :: "rat \<Rightarrow> rat" where
  "ctx28 x =
     (if x = 0 then 0
      else let e = dec_exponent x - 27 in of_int (half_even (x / 10 powi e)) * 10 powi e)"

definition quantize8 :: "rat \<Rightarrow> rat option" where
  "quantize8 x =
     (let c = half_up (x * 10 ^ 8) in if \<bar>c\<bar> < 10 ^ 28 then Some (of_int c / 10 ^ 8) else None)"

definition dec_add :: "rat \<Rightarrow> rat \<Rightarrow> rat" where "dec_add x y = ctx28 (x + y)"
definition dec_mult :: "rat \<Rightarrow> rat \<Rightarrow> rat" where "dec_mult x y = ctx28 (x * y)"
definition dec_div :: "rat \<Rightarrow> rat \<Rightarrow> rat" where "dec_div x y = ctx28 (x / y)"

lemma ctx28_0 [simp]: "ctx28 0 = 0"
  by (simp add: ctx28_def)

lemma ctx28_nonneg: "0 \<le> x \<Longrightarrow> 0 \<le> ctx28 x"
  by (simp add: ctx28_def Let_def half_even_nonneg)

text \<open>A decimal of at most 28 digits is left alone.\<close>

lemma ctx28_exact:
  assumes x: "x = of_int c * 10 powi k" and c: "\<bar>c\<bar> < 10 ^ 28"
  shows "ctx28 x = x"
proof (cases "x = 0")
  case True
  then show ?thesis by simp
next
  case False
  let ?e = "dec_exponent x - 27"
  have "10 powi dec_exponent x \<le> \<bar>x\<bar>" using dec_exponent_bounds [OF False] by simp
  also have "\<bar>x\<bar> = \<bar>of_int c\<bar> * 10 powi k" by (simp add: x abs_mult)
  also have "\<dots> < 10 ^ 28 * 10 powi k"
  proof -
    have "\<bar>rat_of_int c\<bar> < 10 ^ 28"
      using c by (metis of_int_abs of_int_less_iff of_int_numeral of_int_power)
    then show ?thesis by (intro mult_strict_right_mono) auto
  qed
  also have "\<dots> = 10 powi (k + 28)" by (simp add: power_int_add)
  finally have lt: "(10 :: rat) powi dec_exponent x < 10 powi (k + 28)" .
  have "?e \<le> k"
  proof (rule ccontr)
    assume "\<not> ?e \<le> k"
    then have "(10 :: rat) powi (k + 28) \<le> 10 powi dec_exponent x" by (intro power_int_increasing) auto
    with lt show False by simp
  qed
  then obtain j where k: "k = ?e + int j" by (metis zle_iff_zadd)
  define e where "e = ?e"
  have xe: "x = of_int (c * 10 ^ j) * 10 powi e"
    unfolding x using k by (simp add: power_int_add e_def)
  then have "x / 10 powi e = of_int (c * 10 ^ j)" by (simp del: of_int_mult)
  then have h: "half_even (x / 10 powi e) = c * 10 ^ j" by (metis half_even_of_int)
  have "ctx28 x = of_int (half_even (x / 10 powi e)) * 10 powi e"
    using False by (simp add: ctx28_def Let_def e_def)
  then show ?thesis unfolding h using xe by simp
qed

text \<open>Rounding moves a number by half a unit in its 28th digit at most.\<close>

lemma ctx28_error: "\<bar>ctx28 x - x\<bar> \<le> \<bar>x\<bar> / (2 * 10 ^ 27)"
proof (cases "x = 0")
  case True
  then show ?thesis by simp
next
  case False
  define p :: rat where "p = 10 powi (dec_exponent x - 27)"
  have p: "0 < p" by (simp add: p_def)
  have "10 powi dec_exponent x = p * 10 ^ 27" by (simp add: p_def power_int_diff)
  then have big: "p * 10 ^ 27 \<le> \<bar>x\<bar>" using dec_exponent_bounds [OF False] by simp
  have "ctx28 x = of_int (half_even (x / p)) * p" using False by (simp add: ctx28_def Let_def p_def)
  then have "ctx28 x - x = (of_int (half_even (x / p)) - x / p) * p" using p by (simp add: left_diff_distrib)
  then have "\<bar>ctx28 x - x\<bar> = \<bar>of_int (half_even (x / p)) - x / p\<bar> * p" using p by (simp add: abs_mult)
  also have "\<dots> \<le> 1 / 2 * p" using p half_even_error [of "x / p"] by (intro mult_right_mono) auto
  also have "\<dots> \<le> \<bar>x\<bar> / (2 * 10 ^ 27)" using big by (simp add: field_simps)
  finally show ?thesis .
qed

text \<open>Multiples of a power of ten below the precision (prices, costs) in particular.\<close>

lemma ctx28_scaled: "\<bar>c\<bar> < 10 ^ 28 \<Longrightarrow> ctx28 (of_int c / 10 ^ k) = of_int c / 10 ^ k"
  by (rule ctx28_exact [of _ c "- int k"]) (simp_all add: power_int_minus divide_inverse)

lemma ctx28_of_int: "\<bar>c\<bar> < 10 ^ 28 \<Longrightarrow> ctx28 (of_int c) = of_int c"
  by (rule ctx28_exact [of _ c 0]) simp_all

lemma quantize8_Some: "quantize8 x = Some y \<Longrightarrow> y = of_int (half_up (x * 10 ^ 8)) / 10 ^ 8"
  by (auto simp: quantize8_def Let_def split: if_splits)

lemma quantize8_error:
  assumes "quantize8 x = Some y"
  shows "\<bar>y - x\<bar> \<le> 1 / 2 / 10 ^ 8"
proof -
  define k :: rat where "k = 10 ^ 8"
  have k: "0 < k" by (simp add: k_def)
  have y: "y = of_int (half_up (x * k)) / k" using quantize8_Some [OF assms] by (simp add: k_def)
  have "\<bar>y - x\<bar> = \<bar>of_int (half_up (x * k)) - x * k\<bar> / k"
  proof -
    have "y - x = (of_int (half_up (x * k)) - x * k) / k" using k by (simp add: y diff_divide_distrib)
    then show ?thesis using k by simp
  qed
  also have "\<dots> \<le> 1 / 2 / k" using k by (intro divide_right_mono half_up_error) auto
  finally show ?thesis unfolding k_def .
qed

lemma quantize8_nonneg: "quantize8 x = Some y \<Longrightarrow> 0 \<le> x \<Longrightarrow> 0 \<le> y"
  unfolding quantize8_def Let_def by (auto simp del: power_numeral split: if_splits intro!: half_up_nonneg divide_nonneg_pos)

lemma quantize8_mono: "quantize8 x = Some y \<Longrightarrow> quantize8 x' = Some y' \<Longrightarrow> x \<le> x' \<Longrightarrow> y \<le> y'"
  unfolding quantize8_def Let_def
  by (auto simp del: power_numeral split: if_splits intro!: divide_right_mono half_up_mono mult_right_mono)

lemma quantize8_scaled: "\<bar>c\<bar> < 10 ^ 28 \<Longrightarrow> quantize8 (of_int c / 10 ^ 8) = Some (of_int c / 10 ^ 8)"
  by (simp add: quantize8_def)

lemma quantize8_0 [simp]: "quantize8 0 = Some 0"
  using quantize8_scaled [of 0] by simp

lemma quantize8_grid: "quantize8 x = Some y \<Longrightarrow> \<exists>c. \<bar>c\<bar> < 10 ^ 28 \<and> y = of_int c / 10 ^ 8"
  by (auto simp: quantize8_def Let_def split: if_splits)

lemma quantize8_idem: "quantize8 x = Some y \<Longrightarrow> quantize8 y = Some y"
  using quantize8_grid quantize8_scaled by blast

text \<open>It only fails beyond twenty digits before the point.\<close>

lemma quantize8_total: "\<bar>x\<bar> \<le> 10 ^ 19 \<Longrightarrow> \<exists>y. quantize8 x = Some y"
proof -
  assume "\<bar>x\<bar> \<le> 10 ^ 19"
  then have 1: "\<bar>x * 10 ^ 8\<bar> \<le> 10 ^ 27" by (simp add: abs_mult)
  define h where "h = half_up (x * 10 ^ 8)"
  have "\<bar>rat_of_int h - x * 10 ^ 8\<bar> \<le> 1 / 2" unfolding h_def by (rule half_up_error)
  with 1 have "\<bar>rat_of_int h\<bar> < 10 ^ 28" unfolding abs_le_iff abs_less_iff by simp
  then have "\<bar>h\<bar> < 10 ^ 28"
    by (metis of_int_abs of_int_less_iff of_int_numeral of_int_power)
  then have "quantize8 x = Some (of_int h / 10 ^ 8)" by (simp only: quantize8_def Let_def h_def [symmetric] if_True)
  then show ?thesis by blast
qed

end
