(* ===== verification/Repository.thy ===== *)
theory Repository
  imports Prelude "HOL-Library.Product_Lexorder"
begin

text \<open>
  The backend's persistence layer: \<open>db/mixins.py\<close> (the columns every entity has) and
  \<open>repositories/base_repository.py\<close> (\<open>BaseRepository\<close>). A table is the list of its rows; an
  entity's record extends \<open>base_row\<close>, so each repository function works on any entity. Sessions and
  transactions are left to the callers, as in the code. \<open>updated_at\<close> is carried by the explicit
  updates only.

  The opaque page token is the pair it encodes, or \<open>Malformed\<close> for a string that does not decode
  (base64, JSON and ISO dates are not modelled).
\<close>

section \<open>Rows\<close>

record base_row =
  row_id :: ident
  row_created_at :: micros
  row_updated_at :: micros
  row_deleted_at :: "micros option"
  row_deleted_by :: "ident option"

definition row_is_deleted :: "('a base_row_scheme) \<Rightarrow> bool" where
  "row_is_deleted r \<longleftrightarrow> row_deleted_at r \<noteq> None"

definition row_soft_delete :: "micros \<Rightarrow> ident option \<Rightarrow> ('a base_row_scheme) \<Rightarrow> ('a base_row_scheme)" where
  "row_soft_delete now by r = r\<lparr>row_deleted_at := Some now, row_deleted_by := by\<rparr>"

section \<open>Statements\<close>

datatype repo_error = MultipleResultsFound | NoSuchRecord | InvalidCursor | IntegrityError

definition scalar_one_or_none :: "'r list \<Rightarrow> repo_error + 'r option" where
  "scalar_one_or_none rs = (case rs of [] \<Rightarrow> Inr None | [r] \<Rightarrow> Inr (Some r) | _ \<Rightarrow> Inl MultipleResultsFound)"

definition scalar_first :: "'r list \<Rightarrow> 'r option" where
  "scalar_first rs = (case rs of [] \<Rightarrow> None | r # _ \<Rightarrow> Some r)"

definition sql_update_where :: "('r \<Rightarrow> bool) \<Rightarrow> ('r \<Rightarrow> 'r) \<Rightarrow> 'r list \<Rightarrow> 'r list" where
  "sql_update_where P f rows = map (\<lambda>r. if P r then f r else r) rows"

definition order_desc :: "('r \<Rightarrow> 'k :: linorder) \<Rightarrow> 'r list \<Rightarrow> 'r list" where
  "order_desc k rs = rev (sort_key k (rev rs))"

lemma set_order_desc [simp]: "set (order_desc k rs) = set rs"
  by (simp add: order_desc_def)

lemma length_order_desc [simp]: "length (order_desc k rs) = length rs"
  by (simp add: order_desc_def)

lemma set_update_where: "set (sql_update_where P f rows) = (\<lambda>r. if P r then f r else r) ` set rows"
  by (simp add: sql_update_where_def)

lemma update_where_keeps: "r \<in> set rows \<Longrightarrow> \<not> P r \<Longrightarrow> r \<in> set (sql_update_where P f rows)"
  by (force simp: set_update_where)

lemma map_update_where: "(\<And>r. g (f r) = g r) \<Longrightarrow> map g (sql_update_where P f rows) = map g rows"
  by (simp add: sql_update_where_def)

lemma filter_update_where_none:
  "(\<And>r. r \<in> set rows \<Longrightarrow> P r \<Longrightarrow> \<not> Q (f r)) \<Longrightarrow> (\<And>r. r \<in> set rows \<Longrightarrow> \<not> P r \<Longrightarrow> \<not> Q r) \<Longrightarrow>
   filter Q (sql_update_where P f rows) = []"
  by (auto simp: filter_empty_conv set_update_where split: if_splits)

lemma length_filter_update_where:
  assumes "\<And>r. Q (f r) \<Longrightarrow> Q r"
  shows "length (filter Q (sql_update_where P f rows)) \<le> length (filter Q rows)"
proof (induction rows)
  case (Cons a rows)
  have a: "Q (if P a then f a else a) \<longrightarrow> Q a" using assms [of a] by (cases "P a") simp_all
  have "sql_update_where P f (a # rows) = (if P a then f a else a) # sql_update_where P f rows"
    by (simp add: sql_update_where_def)
  with Cons a show ?case by (cases "Q a"; cases "Q (if P a then f a else a)") (simp_all add: le_SucI)
qed (simp add: sql_update_where_def)

lemma sum_update_where_other:
  "(\<And>r. g (f r) = g r) \<Longrightarrow> sum_list (map g (sql_update_where P f rows)) = sum_list (map g rows)"
  by (simp add: map_update_where)

lemma update_where_Cons:
  "sql_update_where P f (r # rows) = (if P r then f r else r) # sql_update_where P f rows"
  by (simp add: sql_update_where_def)

lemma scalar_one_Some: "scalar_one_or_none rs = Inr (Some r) \<longleftrightarrow> rs = [r]"
  by (auto simp: scalar_one_or_none_def split: list.splits)

lemma scalar_one_None: "scalar_one_or_none rs = Inr None \<longleftrightarrow> rs = []"
  by (auto simp: scalar_one_or_none_def split: list.splits)

lemma scalar_one_mem: "scalar_one_or_none rs = Inr (Some r) \<Longrightarrow> r \<in> set rs"
  by (simp add: scalar_one_Some)

lemma scalar_first_Some: "scalar_first rs = Some r \<Longrightarrow> r \<in> set rs"
  by (auto simp: scalar_first_def split: list.splits)

lemma scalar_first_None [simp]: "scalar_first rs = None \<longleftrightarrow> rs = []"
  by (auto simp: scalar_first_def split: list.splits)

text \<open>\<open>ILIKE\<close> with its wildcards \<open>%\<close>, \<open>_\<close> and the escape character.\<close>

fun sql_like :: "string \<Rightarrow> string \<Rightarrow> bool" where
  "sql_like [] s = (s = [])"
| "sql_like (p # ps) [] = (p = CHR ''%'' \<and> sql_like ps [])"
| "sql_like (p # ps) (c # s) =
     (if p = CHR ''%'' then sql_like ps (c # s) \<or> sql_like (p # ps) s
      else if p = CHR ''_'' then sql_like ps s
      else if p = CHR 0x5C then (case ps of [] \<Rightarrow> False | q # qs \<Rightarrow> c = q \<and> sql_like qs s)
      else c = p \<and> sql_like ps s)"

definition sql_ilike :: "string \<Rightarrow> string \<Rightarrow> bool" where
  "sql_ilike pattern s = sql_like (py_lower pattern) (py_lower s)"

section \<open>The base repository\<close>

definition active_query :: "('a base_row_scheme) list \<Rightarrow> ('a base_row_scheme) list" where
  "active_query rows = filter (\<lambda>r. row_deleted_at r = None) rows"

definition repo_get :: "ident \<Rightarrow> ('a base_row_scheme) list \<Rightarrow> repo_error + ('a base_row_scheme) option" where
  "repo_get i rows = scalar_one_or_none (filter (\<lambda>r. row_id r = i) (active_query rows))"

definition repo_get_or_raise :: "ident \<Rightarrow> ('a base_row_scheme) list \<Rightarrow> repo_error + ('a base_row_scheme)" where
  "repo_get_or_raise i rows =
     and_then (repo_get i rows) (\<lambda>r. case r of None \<Rightarrow> Inl NoSuchRecord | Some x \<Rightarrow> Inr x)"

definition repo_create :: "('a base_row_scheme) \<Rightarrow> ('a base_row_scheme) list \<Rightarrow> repo_error + ('a base_row_scheme) list" where
  "repo_create r rows = (if row_id r \<in> row_id ` set rows then Inl IntegrityError else Inr (rows @ [r]))"

definition repo_update ::
  "micros \<Rightarrow> ident \<Rightarrow> (('a base_row_scheme) \<Rightarrow> ('a base_row_scheme)) \<Rightarrow> ('a base_row_scheme) list \<Rightarrow> ('a base_row_scheme) list" where
  "repo_update now i f rows = sql_update_where (\<lambda>r. row_id r = i) (\<lambda>r. (f r)\<lparr>row_updated_at := now\<rparr>) rows"

definition repo_soft_delete ::
  "micros \<Rightarrow> ident option \<Rightarrow> ident \<Rightarrow> ('a base_row_scheme) list \<Rightarrow> ('a base_row_scheme) list" where
  "repo_soft_delete now by i rows = sql_update_where (\<lambda>r. row_id r = i) (row_soft_delete now by) rows"

definition repo_hard_delete :: "ident \<Rightarrow> ('a base_row_scheme) list \<Rightarrow> ('a base_row_scheme) list" where
  "repo_hard_delete i rows = filter (\<lambda>r. row_id r \<noteq> i) rows"

definition repo_count :: "(('a base_row_scheme) \<Rightarrow> bool) \<Rightarrow> ('a base_row_scheme) list \<Rightarrow> nat" where
  "repo_count extra rows = length (filter extra (active_query rows))"

definition table_wf :: "('a base_row_scheme) list \<Rightarrow> bool" where
  "table_wf rows \<longleftrightarrow> distinct (map row_id rows)"

lemma set_active: "set (active_query rows) = {r \<in> set rows. row_deleted_at r = None}"
  by (auto simp: active_query_def)

lemma table_wf_create [inv_rules]: "table_wf rows \<Longrightarrow> repo_create r rows = Inr rows' \<Longrightarrow> table_wf rows'"
  by (auto simp: table_wf_def repo_create_def split: if_splits)

lemma table_wf_update_where [inv_rules]:
  "table_wf rows \<Longrightarrow> (\<And>r. row_id (f r) = row_id r) \<Longrightarrow> table_wf (sql_update_where P f rows)"
  by (simp add: table_wf_def map_update_where)

lemma table_wf_update [inv_rules]:
  "table_wf rows \<Longrightarrow> (\<And>r. row_id (f r) = row_id r) \<Longrightarrow> table_wf (repo_update now i f rows)"
  unfolding repo_update_def by (rule table_wf_update_where) auto

lemma table_wf_soft_delete [inv_rules]: "table_wf rows \<Longrightarrow> table_wf (repo_soft_delete now by i rows)"
  unfolding repo_soft_delete_def by (rule table_wf_update_where) (auto simp: row_soft_delete_def)

lemma table_wf_hard_delete [inv_rules]: "table_wf rows \<Longrightarrow> table_wf (repo_hard_delete i rows)"
  by (simp add: table_wf_def repo_hard_delete_def distinct_map_filter)

lemma filter_key_unique:
  "distinct (map f rows) \<Longrightarrow> r \<in> set rows \<Longrightarrow> filter (\<lambda>x. f x = f r) rows = [r]"
proof (induction rows)
  case Nil
  then show ?case by simp
next
  case (Cons a rows)
  show ?case
  proof (cases "a = r")
    case True
    with Cons.prems have "f r \<notin> f ` set rows" by simp
    then have "\<forall>x \<in> set rows. f x \<noteq> f r" by (metis imageI)
    with True show ?thesis by (simp add: filter_empty_conv)
  next
    case False
    with Cons.prems have "r \<in> set rows" by simp
    with Cons.prems have "f a \<noteq> f r" by force
    with Cons \<open>r \<in> set rows\<close> show ?thesis by simp
  qed
qed

lemma scalar_key:
  assumes "distinct (map f rows)" and "r \<in> set rows" and "P r"
  shows "scalar_one_or_none (filter (\<lambda>x. P x \<and> f x = f r) rows) = Inr (Some r)"
proof -
  have "filter (\<lambda>x. P x \<and> f x = f r) rows = filter P (filter (\<lambda>x. f x = f r) rows)"
    by (simp add: conj_commute)
  also have "\<dots> = [r]" using filter_key_unique [OF assms(1,2)] assms(3) by simp
  finally show ?thesis by (simp add: scalar_one_Some)
qed

lemma filter_no_key: "x \<notin> f ` set rows \<Longrightarrow> sql_update_where (\<lambda>r. f r = x) h rows = rows"
  by (induction rows) (auto simp: sql_update_where_def)

lemma sum_update_one:
  assumes "distinct (map k rows)" and "e \<in> set rows"
  shows "sum_list (map g (sql_update_where (\<lambda>r. k r = k e) f rows)) + g e = sum_list (map g rows) + (g (f e) :: nat)"
  using assms
proof (induction rows)
  case Nil
  then show ?case by simp
next
  case (Cons a rows)
  show ?case
  proof (cases "a = e")
    case True
    with Cons.prems have "k e \<notin> k ` set rows" by simp
    then have "sql_update_where (\<lambda>r. k r = k e) f rows = rows" by (rule filter_no_key)
    with True show ?thesis by (simp add: sql_update_where_def)
  next
    case False
    with Cons.prems have e: "e \<in> set rows" by simp
    then have "k e \<in> k ` set rows" by (rule imageI)
    with Cons.prems have "k a \<noteq> k e" by auto
    with Cons.IH [OF _ e] Cons.prems show ?thesis by (simp add: sql_update_where_def)
  qed
qed

lemma repo_get_iff:
  assumes "table_wf rows"
  shows "repo_get i rows = Inr (Some r) \<longleftrightarrow> r \<in> set rows \<and> row_id r = i \<and> row_deleted_at r = None"
proof -
  have d: "distinct (map row_id (active_query rows))"
    using assms by (simp add: table_wf_def active_query_def distinct_map_filter)
  show ?thesis
  proof
    assume "repo_get i rows = Inr (Some r)"
    then have "filter (\<lambda>r. row_id r = i) (active_query rows) = [r]" by (simp add: repo_get_def scalar_one_Some)
    then have "r \<in> set (filter (\<lambda>r. row_id r = i) (active_query rows))" by simp
    then show "r \<in> set rows \<and> row_id r = i \<and> row_deleted_at r = None" by (simp add: set_active)
  next
    assume "r \<in> set rows \<and> row_id r = i \<and> row_deleted_at r = None"
    then have "filter (\<lambda>x. row_id x = i) (active_query rows) = [r]"
      using filter_key_unique [OF d, of r] by (simp add: set_active)
    then show "repo_get i rows = Inr (Some r)" by (simp add: repo_get_def scalar_one_Some)
  qed
qed

lemma repo_get_soft_deleted: "table_wf rows \<Longrightarrow> repo_get i (repo_soft_delete now by i rows) = Inr None"
proof -
  have "\<forall>r \<in> set (repo_soft_delete now by i rows). row_id r = i \<longrightarrow> row_deleted_at r \<noteq> None"
  proof
    fix r
    assume "r \<in> set (repo_soft_delete now by i rows)"
    then obtain x where "r = (if row_id x = i then row_soft_delete now by x else x)"
      unfolding repo_soft_delete_def set_update_where by blast
    then show "row_id r = i \<longrightarrow> row_deleted_at r \<noteq> None" by (simp add: row_soft_delete_def)
  qed
  then have "filter (\<lambda>r. row_id r = i) (active_query (repo_soft_delete now by i rows)) = []"
    unfolding filter_empty_conv set_active by blast
  then show ?thesis by (simp add: repo_get_def scalar_one_None)
qed

lemma repo_get_soft_delete_other:
  "j \<noteq> i \<Longrightarrow> repo_get j (repo_soft_delete now by i rows) = repo_get j rows"
proof -
  assume ji: "j \<noteq> i"
  have "filter (\<lambda>r. row_id r = j) (active_query (repo_soft_delete now by i rows))
      = filter (\<lambda>r. row_id r = j) (active_query rows)"
    using ji by (induction rows)
      (auto simp: active_query_def repo_soft_delete_def sql_update_where_def row_soft_delete_def)
  then show ?thesis by (simp add: repo_get_def)
qed

section \<open>Cursor pagination\<close>

datatype cursor_token = Cursor micros ident | Malformed

record 'r cursor_page =
  pg_items :: "'r list"
  pg_next_cursor :: "cursor_token option"
  pg_has_more :: bool

fun decode_cursor :: "cursor_token \<Rightarrow> repo_error + micros \<times> ident" where
  "decode_cursor (Cursor t i) = Inr (t, i)"
| "decode_cursor Malformed = Inl InvalidCursor"

definition row_key :: "('a base_row_scheme) \<Rightarrow> micros \<times> ident" where
  "row_key r = (row_created_at r, row_id r)"

definition past_pivot :: "bool \<Rightarrow> micros \<times> ident \<Rightarrow> ('a base_row_scheme) \<Rightarrow> bool" where
  "past_pivot is_asc p r =
     (if is_asc
      then fst p < row_created_at r \<or> (row_created_at r = fst p \<and> snd p < row_id r)
      else row_created_at r < fst p \<or> (row_created_at r = fst p \<and> row_id r < snd p))"

definition order_rows :: "bool \<Rightarrow> ('a base_row_scheme) list \<Rightarrow> ('a base_row_scheme) list" where
  "order_rows is_asc rows = (if is_asc then sort_key row_key rows else order_desc row_key rows)"

definition list_page ::
  "nat \<Rightarrow> cursor_token option \<Rightarrow> string \<Rightarrow> (('a base_row_scheme) \<Rightarrow> bool) \<Rightarrow> ('a base_row_scheme) list
   \<Rightarrow> repo_error + ('a base_row_scheme) cursor_page" where
  "list_page limit0 cursor order extra rows =
     (let limit = min limit0 100;
          is_asc = (py_lower order \<noteq> ''desc'');
          stmt = filter extra (active_query rows)
      in and_then
        (case cursor of
           None \<Rightarrow> Inr stmt
         | Some c \<Rightarrow> and_then (decode_cursor c) (\<lambda>p. Inr (filter (past_pivot is_asc p) stmt)))
        (\<lambda>stmt.
          let rs = take (limit + 1) (order_rows is_asc stmt);
              has_more = limit < length rs;
              page = (if has_more then take limit rs else rs)
          in Inr \<lparr>pg_items = page,
                  pg_next_cursor =
                    (if has_more \<and> page \<noteq> [] then Some (Cursor (row_created_at (last page)) (row_id (last page)))
                     else None),
                  pg_has_more = has_more\<rparr>))"

text \<open>A client that follows \<open>next_cursor\<close> to the end; \<open>None\<close> when the fuel runs out.\<close>

fun walk_pages ::
  "nat \<Rightarrow> (cursor_token option \<Rightarrow> repo_error + 'r cursor_page) \<Rightarrow> cursor_token option \<Rightarrow> repo_error + 'r list option" where
  "walk_pages 0 f c = Inr None"
| "walk_pages (Suc n) f c =
     and_then (f c) (\<lambda>p.
       if pg_has_more p
       then and_then (walk_pages n f (pg_next_cursor p)) (\<lambda>rest. Inr (map_option (\<lambda>xs. pg_items p @ xs) rest))
       else Inr (Some (pg_items p)))"

definition key_before :: "bool \<Rightarrow> ('a base_row_scheme) \<Rightarrow> ('a base_row_scheme) \<Rightarrow> bool" where
  "key_before is_asc x y \<longleftrightarrow> (if is_asc then row_key x < row_key y else row_key y < row_key x)"

lemma past_pivot_key: "past_pivot is_asc (row_created_at x, row_id x) y \<longleftrightarrow> key_before is_asc x y"
  by (auto simp: past_pivot_def key_before_def row_key_def less_prod_def)

lemma key_before_asym: "key_before a x y \<Longrightarrow> \<not> key_before a y x"
  by (auto simp: key_before_def)

lemma key_before_irrefl [simp]: "\<not> key_before a x x"
  by (simp add: key_before_def)

lemma set_order_rows [simp]: "set (order_rows a rs) = set rs"
  by (simp add: order_rows_def)

lemma length_order_rows [simp]: "length (order_rows a rs) = length rs"
  by (simp add: order_rows_def)

lemma distinct_row_key: "distinct (map row_id rs) \<Longrightarrow> distinct (map row_key rs)"
  by (rule distinct_map [THEN iffD2]) (auto simp: distinct_map inj_on_def row_key_def)

lemma sorted_distinct_strict:
  "sorted (map k xs) \<Longrightarrow> distinct (map k xs) \<Longrightarrow> sorted_wrt (\<lambda>x y. (k x :: 'k :: linorder) < k y) xs"
  by (induction xs) (auto simp: less_le)

lemma order_rows_strict:
  assumes "distinct (map row_id rs)"
  shows "sorted_wrt (key_before a) (order_rows a rs)"
proof -
  have srt: "sorted_wrt (\<lambda>x y. row_key x < row_key y) (sort_key row_key xs)" if "distinct (map row_id xs)" for xs :: "'a base_row_scheme list"
  proof (rule sorted_distinct_strict)
    have "distinct (map row_key xs)" by (rule distinct_row_key [OF that])
    then show "distinct (map row_key (sort_key row_key xs))" by (simp add: distinct_map)
  qed simp
  have r: "distinct (map row_id (rev rs))" using assms by (simp add: rev_map [symmetric])
  show ?thesis
    using srt [OF assms] srt [OF r]
    by (cases a) (simp_all add: order_rows_def order_desc_def key_before_def [abs_def] sorted_wrt_rev)
qed

lemma sort_key_filter: "sort_key k (filter P xs) = filter P (sort_key k xs)"
  by (simp add: filter_sort)

lemma order_rows_filter: "order_rows a (filter P rs) = filter P (order_rows a rs)"
  by (simp add: order_rows_def order_desc_def rev_filter sort_key_filter)

lemma filter_past_suffix:
  assumes "sorted_wrt (key_before a) (xs @ [l] @ ys)"
  shows "filter (past_pivot a (row_created_at l, row_id l)) (xs @ [l] @ ys) = ys"
proof -
  have "filter (past_pivot a (row_created_at l, row_id l)) xs = []"
    using assms by (auto simp: filter_empty_conv past_pivot_key sorted_wrt_append dest: key_before_asym)
  moreover have "filter (past_pivot a (row_created_at l, row_id l)) ys = ys"
    using assms by (auto simp: filter_id_conv past_pivot_key sorted_wrt_append)
  ultimately show ?thesis by (simp add: past_pivot_key)
qed

lemma list_page_from:
  fixes rows :: "('a base_row_scheme) list"
  assumes L: "order_rows a (filter extra (active_query rows)) = seen @ rest"
    and srt: "sorted_wrt (key_before a) (seen @ rest)"
    and c: "c = (if seen = [] then None else Some (Cursor (row_created_at (last seen)) (row_id (last seen))))"
    and a: "a = (py_lower order \<noteq> ''desc'')"
  shows "list_page n c order extra rows = Inr
     (let m = min n 100
      in \<lparr>pg_items = take m rest,
          pg_next_cursor =
            (if m < length rest \<and> 0 < m
             then Some (Cursor (row_created_at (last (take m rest))) (row_id (last (take m rest)))) else None),
          pg_has_more = (m < length rest)\<rparr>)"
proof -
  let ?stmt = "filter extra (active_query rows)"
  let ?m = "min n 100"
  have "\<exists>st. (case c of None \<Rightarrow> Inr ?stmt
       | Some c \<Rightarrow> and_then (decode_cursor c) (\<lambda>p. Inr (filter (past_pivot a p) ?stmt))) = Inr st
     \<and> order_rows a st = rest"
  proof (cases seen rule: rev_cases)
    case Nil
    with L c show ?thesis by simp
  next
    case (snoc xs l)
    have "order_rows a (filter (past_pivot a (row_created_at l, row_id l)) ?stmt) = rest"
    proof -
      have "order_rows a (filter (past_pivot a (row_created_at l, row_id l)) ?stmt)
          = filter (past_pivot a (row_created_at l, row_id l)) (xs @ [l] @ rest)"
        using L by (simp only: order_rows_filter [of a _ ?stmt] snoc append_assoc)
      also have "\<dots> = rest" using srt by (intro filter_past_suffix) (simp add: snoc)
      finally show ?thesis .
    qed
    with snoc c show ?thesis by simp
  qed
  then obtain st where st: "(case c of None \<Rightarrow> Inr ?stmt
       | Some c \<Rightarrow> and_then (decode_cursor c) (\<lambda>p. Inr (filter (past_pivot a p) ?stmt))) = Inr st"
    and r: "order_rows a st = rest" by blast
  have page: "(if ?m < length rest then take ?m (take (?m + 1) rest) else take (?m + 1) rest)
      = take ?m rest"
    by (auto simp: min_def)
  have more: "?m < length (take (?m + 1) rest) \<longleftrightarrow> ?m < length rest" by auto
  have ne: "?m < length rest \<and> take ?m rest \<noteq> [] \<longleftrightarrow> ?m < length rest \<and> 0 < ?m"
    by (cases rest) (auto simp: take_Cons split: nat.splits)
  show ?thesis
    unfolding list_page_def Let_def a [symmetric] st and_then.simps r page more ne ..
qed

lemma walk_from:
  fixes rows :: "('a base_row_scheme) list"
  assumes L: "order_rows a (filter extra (active_query rows)) = seen @ rest"
    and srt: "sorted_wrt (key_before a) (seen @ rest)"
    and c: "c = (if seen = [] then None else Some (Cursor (row_created_at (last seen)) (row_id (last seen))))"
    and a: "a = (py_lower order \<noteq> ''desc'')"
    and n: "0 < n" and fuel: "length rest < fuel"
  shows "walk_pages fuel (\<lambda>c. list_page n c order extra rows) c = Inr (Some rest)"
  using L srt c fuel
proof (induction fuel arbitrary: \<open>seen\<close> rest c)
  case 0
  then show ?case by simp
next
  case (Suc fuel)
  let ?m = "min n 100"
  have m: "0 < ?m" using n by simp
  note page = list_page_from [OF Suc.prems(1-3) a, of n]
  show ?case
  proof (cases "?m < length rest")
    case False
    then have "take ?m rest = rest" by (intro take_all) linarith
    with False show ?thesis by (simp only: page Let_def walk_pages.simps and_then.simps) simp
  next
    case True
    let ?t = "take ?m rest"
    have t: "?t \<noteq> []" using True m by (cases rest) (auto simp: take_Cons split: nat.splits)
    have d: "seen @ rest = (seen @ ?t) @ drop ?m rest" by simp
    have "walk_pages fuel (\<lambda>c. list_page n c order extra rows)
        (Some (Cursor (row_created_at (last ?t)) (row_id (last ?t)))) = Inr (Some (drop ?m rest))"
    proof (rule Suc.IH [of "seen @ ?t" "drop ?m rest"])
      show "order_rows a (filter extra (active_query rows)) = (seen @ ?t) @ drop ?m rest"
        using Suc.prems(1) by simp
      show "sorted_wrt (key_before a) ((seen @ ?t) @ drop ?m rest)" using Suc.prems(2) by simp
      show "length (drop ?m rest) < fuel" using Suc.prems(4) True m by simp
    qed (use t in simp)
    then show ?thesis using True m by (simp add: page Let_def)
  qed
qed

lemma page_walk:
  assumes "table_wf rows" and "0 < limit" and "length rows < fuel"
  shows "walk_pages fuel (\<lambda>c. list_page limit c order extra rows) None
     = Inr (Some (order_rows (py_lower order \<noteq> ''desc'') (filter extra (active_query rows))))"
proof (rule walk_from [where seen = "[]" and a = "py_lower order \<noteq> ''desc''"])
  have "distinct (map row_id (filter extra (active_query rows)))"
    using assms(1) by (simp add: table_wf_def active_query_def distinct_map_filter)
  then show "sorted_wrt (key_before (py_lower order \<noteq> ''desc''))
      ([] @ order_rows (py_lower order \<noteq> ''desc'') (filter extra (active_query rows)))"
    by (simp add: order_rows_strict)
  have "length (filter extra (active_query rows)) \<le> length rows"
    unfolding active_query_def by (meson length_filter_le order_trans)
  with assms(3) show "length (order_rows (py_lower order \<noteq> ''desc'') (filter extra (active_query rows))) < fuel"
    by simp
qed (use assms in auto)

text \<open>A single page never holds more than 100 rows, whatever limit is asked for.\<close>

lemma list_page_cap: "list_page limit c order extra rows = Inr p \<Longrightarrow> length (pg_items p) \<le> 100"
  by (auto simp: list_page_def and_then_Inr_iff Let_def min_def split: if_splits)

section \<open>Properties\<close>

text \<open>C8: following the cursors of \<open>list_page\<close> from the first page to the last returns, in order,
  every row that is not deleted and matches the filter, each exactly once, whatever the page size
  (positive; pages hold at most 100 rows) and the direction; the walk ends.\<close>

theorem pagination_complete:
  assumes "table_wf rows" and "0 < limit" and "length rows < fuel"
  shows "\<exists>xs. walk_pages fuel (\<lambda>c. list_page limit c order extra rows) None = Inr (Some xs)
     \<and> set xs = {r \<in> set rows. row_deleted_at r = None \<and> extra r} \<and> distinct (map row_id xs)
     \<and> sorted_wrt (key_before (py_lower order \<noteq> ''desc'')) xs"
proof (intro exI conjI)
  let ?a = "py_lower order \<noteq> ''desc''"
  let ?xs = "order_rows ?a (filter extra (active_query rows))"
  show "walk_pages fuel (\<lambda>c. list_page limit c order extra rows) None = Inr (Some ?xs)"
    by (rule page_walk [OF assms])
  have d: "distinct (map row_id (filter extra (active_query rows)))"
    using assms(1) by (simp add: table_wf_def active_query_def distinct_map_filter)
  then show "distinct (map row_id ?xs)" by (simp add: distinct_map order_rows_def order_desc_def)
  show "sorted_wrt (key_before ?a) ?xs" by (rule order_rows_strict [OF d])
qed (auto simp: set_active)

theorem pagination_complete_witness:
  "\<exists>xs. walk_pages 3 (\<lambda>c. list_page 1 c ''asc'' (\<lambda>r. True)
      [\<lparr>row_id = 2, row_created_at = 5, row_updated_at = 5, row_deleted_at = None, row_deleted_by = None\<rparr>,
       \<lparr>row_id = 1, row_created_at = 5, row_updated_at = 5, row_deleted_at = Some 6, row_deleted_by = None\<rparr>]) None
     = Inr (Some xs)"
  using pagination_complete [of
      "[\<lparr>row_id = 2, row_created_at = 5, row_updated_at = 5, row_deleted_at = None, row_deleted_by = None\<rparr>,
       \<lparr>row_id = 1, row_created_at = 5, row_updated_at = 5, row_deleted_at = Some 6, row_deleted_by = None\<rparr>]"
      1 3 "''asc''" "\<lambda>r. True"]
  by (simp add: table_wf_def) blast

end
