(* ===== verification/Pricing.thy ===== *)
theory Pricing
  imports Decimals Repository "HOL-Library.Char_ord" "HOL-Library.List_Lexorder" "HOL-Library.Option_ord"
begin

text \<open>
  The pricing catalog: \<open>models/model_pricing.py\<close>, \<open>pricing/validator.py\<close>,
  \<open>repositories/model_pricing_repository.py\<close>, \<open>pricing/engine.py\<close> and the handlers of
  \<open>api/v1/pricing.py\<close>. Dates are day numbers; the catalog is the table of its rows. The columns the
  validator tests against \<open>None\<close> are options although the table declares them not null. Rows that tie
  in an \<open>ORDER BY\<close> come in table order; the main property shows that no answer depends on it.
\<close>

section \<open>Model\<close>

record model_pricing = base_row +
  mp_provider :: string
  mp_model :: string
  mp_version :: string
  mp_currency :: string
  mp_effective_from :: "int option"
  mp_effective_to :: "int option"
  mp_prompt_token_price :: "rat option"
  mp_completion_token_price :: "rat option"
  mp_cached_token_price :: "rat option"
  mp_audio_token_price :: "rat option"
  mp_image_price :: "rat option"
  mp_embedding_price :: "rat option"
  mp_is_active :: bool

section \<open>Repository queries\<close>

fun sql_le :: "int option \<Rightarrow> int option \<Rightarrow> bool" where
  "sql_le (Some a) (Some b) = (a \<le> b)"
| "sql_le _ _ = False"

definition get_active_for_model :: "string \<Rightarrow> string \<Rightarrow> model_pricing list \<Rightarrow> model_pricing option" where
  "get_active_for_model provider model rows =
     scalar_first (order_desc mp_effective_from
       (filter (\<lambda>r. mp_provider r = provider \<and> mp_model r = model \<and> mp_effective_to r = None \<and> mp_is_active r)
         (active_query rows)))"

definition pricing_applies :: "string \<Rightarrow> string \<Rightarrow> int \<Rightarrow> model_pricing \<Rightarrow> bool" where
  "pricing_applies provider model usage_date r \<longleftrightarrow>
     mp_provider r = provider \<and> mp_model r = model \<and> mp_is_active r
     \<and> sql_le (mp_effective_from r) (Some usage_date)
     \<and> (mp_effective_to r = None \<or> sql_le (Some usage_date) (mp_effective_to r))"

definition get_for_date :: "string \<Rightarrow> string \<Rightarrow> int \<Rightarrow> model_pricing list \<Rightarrow> model_pricing option" where
  "get_for_date provider model usage_date rows =
     scalar_first (order_desc mp_effective_from
       (filter (pricing_applies provider model usage_date) (active_query rows)))"

definition list_for_provider :: "string \<Rightarrow> model_pricing list \<Rightarrow> model_pricing list" where
  "list_for_provider provider rows =
     sort_key mp_model (order_desc mp_effective_from (filter (\<lambda>r. mp_provider r = provider) (active_query rows)))"

definition list_for_model :: "string \<Rightarrow> string \<Rightarrow> model_pricing list \<Rightarrow> model_pricing list" where
  "list_for_model provider model rows =
     order_desc mp_effective_from
       (filter (\<lambda>r. mp_provider r = provider \<and> mp_model r = model) (active_query rows))"

definition get_by_version :: "string \<Rightarrow> string \<Rightarrow> string \<Rightarrow> model_pricing list \<Rightarrow> repo_error + model_pricing option" where
  "get_by_version provider model version rows =
     scalar_one_or_none
       (filter (\<lambda>r. mp_provider r = provider \<and> mp_model r = model \<and> mp_version r = version) (active_query rows))"

text \<open>The insert; the unique constraint also sees the deleted rows.\<close>

definition pricing_insert :: "model_pricing \<Rightarrow> model_pricing list \<Rightarrow> repo_error + model_pricing list" where
  "pricing_insert r rows =
     (if \<exists>x \<in> set rows. mp_provider x = mp_provider r \<and> mp_model x = mp_model r \<and> mp_version x = mp_version r
      then Inl IntegrityError else repo_create r rows)"

section \<open>Validator\<close>

definition price_missing :: "rat option \<Rightarrow> bool" where
  "price_missing p \<longleftrightarrow> (case p of None \<Rightarrow> True | Some x \<Rightarrow> x < 0)"

definition price_negative :: "rat option \<Rightarrow> bool" where
  "price_negative p \<longleftrightarrow> (case p of None \<Rightarrow> False | Some x \<Rightarrow> x < 0)"

datatype pricing_field =
    F_provider | F_model | F_version | F_currency | F_effective_from | F_effective_to
  | F_prompt | F_completion | F_cached | F_audio | F_image | F_embedding

datatype pricing_error =
    FieldErrors "pricing_field list"
  | Overlaps ident
  | PricingTypeError
  | PricingNotFound
  | InvalidOperation

definition validate_new_pricing :: "model_pricing \<Rightarrow> pricing_error + unit" where
  "validate_new_pricing p =
     (let errors =
        (if blank_str (mp_provider p) then [F_provider] else [])
      @ (if blank_str (mp_model p) then [F_model] else [])
      @ (if blank_str (mp_version p) then [F_version] else [])
      @ (if blank_str (mp_currency p) then [F_currency] else [])
      @ (if mp_effective_from p = None then [F_effective_from] else [])
      @ (if sql_le (mp_effective_to p) (mp_effective_from p) then [F_effective_to] else [])
      @ (if price_missing (mp_prompt_token_price p) then [F_prompt] else [])
      @ (if price_missing (mp_completion_token_price p) then [F_completion] else [])
      @ (if price_negative (mp_cached_token_price p) then [F_cached] else [])
      @ (if price_negative (mp_audio_token_price p) then [F_audio] else [])
      @ (if price_negative (mp_image_price p) then [F_image] else [])
      @ (if price_negative (mp_embedding_price p) then [F_embedding] else [])
      in if errors \<noteq> [] then Inl (FieldErrors errors) else Inr ())"

fun py_date_le :: "int option \<Rightarrow> int option \<Rightarrow> pricing_error + bool" where
  "py_date_le (Some a) (Some b) = Inr (a \<le> b)"
| "py_date_le _ _ = Inl PricingTypeError"

fun no_overlap_loop :: "model_pricing \<Rightarrow> model_pricing list \<Rightarrow> pricing_error + unit" where
  "no_overlap_loop p [] = Inr ()"
| "no_overlap_loop p (x # xs) =
     (if row_id x = row_id p then no_overlap_loop p xs
      else and_then (if mp_effective_to x = None then Inr True
                     else py_date_le (mp_effective_from p) (mp_effective_to x)) (\<lambda>new_from_lte_ex_to.
           and_then (if mp_effective_to p = None then Inr True
                     else py_date_le (mp_effective_from x) (mp_effective_to p)) (\<lambda>ex_from_lte_new_to.
             if new_from_lte_ex_to \<and> ex_from_lte_new_to then Inl (Overlaps (row_id x))
             else no_overlap_loop p xs)))"

definition validate_no_overlap :: "model_pricing list \<Rightarrow> model_pricing \<Rightarrow> pricing_error + unit" where
  "validate_no_overlap rows p = no_overlap_loop p (list_for_model (mp_provider p) (mp_model p) rows)"

section \<open>Engine\<close>

definition CALCULATION_VERSION :: string where "CALCULATION_VERSION = ''1.0''"

record cost_result =
  prompt_cost :: rat
  completion_cost :: rat
  cached_cost :: "rat option"
  total_cost :: rat
  cost_currency :: string
  cost_pricing_id :: ident
  cost_version :: string

definition quantized :: "rat \<Rightarrow> pricing_error + rat" where
  "quantized x = (case quantize8 x of None \<Rightarrow> Inl InvalidOperation | Some y \<Rightarrow> Inr y)"

fun token_cost :: "int \<Rightarrow> rat option \<Rightarrow> pricing_error + rat" where
  "token_cost tokens None = Inl PricingTypeError"
| "token_cost tokens (Some price) = quantized (dec_mult (of_int tokens) price)"

definition get_pricing_for_event :: "string \<Rightarrow> string \<Rightarrow> int \<Rightarrow> model_pricing list \<Rightarrow> pricing_error + model_pricing" where
  "get_pricing_for_event provider model usage_date rows =
     (case get_for_date provider model usage_date rows of None \<Rightarrow> Inl PricingNotFound | Some p \<Rightarrow> Inr p)"

definition calculate_cost :: "model_pricing \<Rightarrow> int \<Rightarrow> int \<Rightarrow> int option \<Rightarrow> pricing_error + cost_result" where
  "calculate_cost pricing prompt_tokens completion_tokens cached_tokens =
     and_then (token_cost prompt_tokens (mp_prompt_token_price pricing)) (\<lambda>p.
     and_then (token_cost completion_tokens (mp_completion_token_price pricing)) (\<lambda>c.
     and_then (case (cached_tokens, mp_cached_token_price pricing) of
                 (Some n, Some price) \<Rightarrow> and_then (token_cost n (Some price)) (\<lambda>x. Inr (Some x))
               | _ \<Rightarrow> Inr None) (\<lambda>k.
     and_then (quantized (dec_add (dec_add p c) (case k of None \<Rightarrow> 0 | Some x \<Rightarrow> x))) (\<lambda>t.
       Inr \<lparr>prompt_cost = p, completion_cost = c, cached_cost = k, total_cost = t,
            cost_currency = mp_currency pricing, cost_pricing_id = row_id pricing,
            cost_version = CALCULATION_VERSION\<rparr>))))"

record usage_counts =
  uc_provider :: string
  uc_model :: string
  uc_prompt_tokens :: int
  uc_completion_tokens :: int
  uc_cached_tokens :: "int option"

definition calculate_event_cost :: "model_pricing list \<Rightarrow> usage_counts \<Rightarrow> int \<Rightarrow> pricing_error + cost_result" where
  "calculate_event_cost rows ev usage_date =
     and_then (get_pricing_for_event (uc_provider ev) (uc_model ev) usage_date rows) (\<lambda>pricing.
       calculate_cost pricing (uc_prompt_tokens ev) (uc_completion_tokens ev) (uc_cached_tokens ev))"

section \<open>Handlers\<close>

datatype http_error = Http nat | Unhandled pricing_error | Database repo_error

definition create_model_pricing :: "model_pricing \<Rightarrow> model_pricing list \<Rightarrow> http_error + model_pricing list" where
  "create_model_pricing p rows =
     (case validate_new_pricing p of
        Inl e \<Rightarrow> Inl (Http 422)
      | Inr _ \<Rightarrow>
          (case validate_no_overlap rows p of
             Inl PricingTypeError \<Rightarrow> Inl (Unhandled PricingTypeError)
           | Inl e \<Rightarrow> Inl (Http 409)
           | Inr _ \<Rightarrow>
               (case get_by_version (mp_provider p) (mp_model p) (mp_version p) rows of
                  Inl e \<Rightarrow> Inl (Database e)
                | Inr (Some existing) \<Rightarrow> Inl (Http 409)
                | Inr None \<Rightarrow>
                    (case pricing_insert p rows of Inl e \<Rightarrow> Inl (Database e) | Inr rows' \<Rightarrow> Inr rows'))))"

definition calculate_price ::
  "int \<Rightarrow> model_pricing list \<Rightarrow> usage_counts \<Rightarrow> int option \<Rightarrow> http_error + cost_result \<times> int" where
  "calculate_price today rows body usage_date =
     (let d = (case usage_date of None \<Rightarrow> today | Some d \<Rightarrow> d)
      in case calculate_event_cost rows body d of
           Inl PricingNotFound \<Rightarrow> Inl (Http 404)
         | Inl e \<Rightarrow> Inl (Unhandled e)
         | Inr res \<Rightarrow>
             Inr (res, uc_prompt_tokens body + uc_completion_tokens body
                       + (case uc_cached_tokens body of None \<Rightarrow> 0 | Some n \<Rightarrow> n)))"

definition list_model_pricing ::
  "model_pricing list \<Rightarrow> string option \<Rightarrow> string option \<Rightarrow> bool option \<Rightarrow> nat
   \<Rightarrow> repo_error + model_pricing list \<times> bool" where
  "list_model_pricing rows provider model is_active limit =
     and_then
       (case (provider, model) of
          (Some (p # ps), Some (m # ms)) \<Rightarrow> Inr (list_for_model (p # ps) (m # ms) rows)
        | (Some (p # ps), _) \<Rightarrow> Inr (list_for_provider (p # ps) rows)
        | _ \<Rightarrow> and_then (list_page limit None ''asc'' (\<lambda>r. True) rows) (\<lambda>page. Inr (pg_items page)))
       (\<lambda>items.
          let items = (case is_active of None \<Rightarrow> items | Some b \<Rightarrow> filter (\<lambda>p. mp_is_active p = b) items)
          in Inr (take limit items, limit < length items))"

definition list_pricing_providers :: "model_pricing list \<Rightarrow> string list" where
  "list_pricing_providers rows =
     sort (remdups (map mp_provider (filter mp_is_active (active_query rows))))"

section \<open>The catalog invariant\<close>

text \<open>The day ranges of two versions (inclusive, open-ended without an end) have a common day.\<close>

definition ranges_meet :: "model_pricing \<Rightarrow> model_pricing \<Rightarrow> bool" where
  "ranges_meet a b \<longleftrightarrow>
     (mp_effective_to b = None \<or> sql_le (mp_effective_from a) (mp_effective_to b))
     \<and> (mp_effective_to a = None \<or> sql_le (mp_effective_from b) (mp_effective_to a))"

definition same_model :: "model_pricing \<Rightarrow> model_pricing \<Rightarrow> bool" where
  "same_model a b \<longleftrightarrow> mp_provider a = mp_provider b \<and> mp_model a = mp_model b"

definition row_valid :: "model_pricing \<Rightarrow> bool" where
  "row_valid p \<longleftrightarrow> validate_new_pricing p = Inr ()"

definition catalog_wf :: "model_pricing list \<Rightarrow> bool" where
  "catalog_wf rows \<longleftrightarrow> table_wf rows \<and> (\<forall>r \<in> set rows. row_valid r)
     \<and> (\<forall>a \<in> set (active_query rows). \<forall>b \<in> set (active_query rows).
          a \<noteq> b \<and> same_model a b \<longrightarrow> \<not> ranges_meet a b)"

lemma sql_le_iff: "sql_le x y \<longleftrightarrow> (\<exists>a b. x = Some a \<and> y = Some b \<and> a \<le> b)"
  by (cases x; cases y) auto

lemma row_valid_from: "row_valid p \<Longrightarrow> \<exists>d. mp_effective_from p = Some d"
  by (auto simp: row_valid_def validate_new_pricing_def Let_def split: if_splits)

lemma row_valid_prices:
  "row_valid p \<Longrightarrow> \<exists>x y. mp_prompt_token_price p = Some x \<and> 0 \<le> x
     \<and> mp_completion_token_price p = Some y \<and> 0 \<le> y
     \<and> (\<forall>z. mp_cached_token_price p = Some z \<longrightarrow> 0 \<le> z)"
  by (auto simp: row_valid_def validate_new_pricing_def Let_def price_missing_def price_negative_def
      split: if_splits option.splits)

text \<open>Two versions that apply on the same day meet on it.\<close>

lemma applies_meet:
  assumes "pricing_applies p m d a" and "pricing_applies p m d b"
  shows "same_model a b \<and> ranges_meet a b"
  using assms unfolding pricing_applies_def same_model_def ranges_meet_def sql_le_iff
  by (auto intro: order_trans)

lemma ranges_meet_sym: "ranges_meet a b \<longleftrightarrow> ranges_meet b a"
  by (auto simp: ranges_meet_def)

lemma no_overlap_loop_ok:
  "no_overlap_loop p xs = Inr () \<Longrightarrow> x \<in> set xs \<Longrightarrow> row_id x \<noteq> row_id p \<Longrightarrow> \<not> ranges_meet p x"
proof (induction xs)
  case Nil
  then show ?case by simp
next
  case (Cons y ys)
  have rest: "no_overlap_loop p ys = Inr () \<and> (row_id y \<noteq> row_id p \<longrightarrow> \<not> ranges_meet p y)"
    using Cons.prems(1)
    by (cases "mp_effective_from p"; cases "mp_effective_to p"; cases "mp_effective_from y"; cases "mp_effective_to y")
      (auto simp: ranges_meet_def split: if_splits)
  with Cons show ?case by auto
qed

lemma get_for_date_unique:
  assumes wf: "catalog_wf rows"
  shows "get_for_date p m d rows = Some r \<longleftrightarrow> r \<in> set (active_query rows) \<and> pricing_applies p m d r"
proof -
  let ?F = "filter (pricing_applies p m d) (active_query rows)"
  have uniq: "a = b" if "a \<in> set ?F" "b \<in> set ?F" for a b
    using that wf applies_meet [of p m d a b] by (auto simp: catalog_wf_def)
  show ?thesis
  proof
    assume "get_for_date p m d rows = Some r"
    then have "r \<in> set ?F" unfolding get_for_date_def by (auto dest: scalar_first_Some)
    then show "r \<in> set (active_query rows) \<and> pricing_applies p m d r" by simp
  next
    assume "r \<in> set (active_query rows) \<and> pricing_applies p m d r"
    then have r: "r \<in> set ?F" by simp
    then obtain y where "get_for_date p m d rows = Some y"
      unfolding get_for_date_def by (metis (no_types, lifting) empty_iff empty_set option.exhaust scalar_first_None set_order_desc)
    moreover from this have "y \<in> set ?F" unfolding get_for_date_def by (auto dest: scalar_first_Some)
    ultimately show "get_for_date p m d rows = Some r" using uniq [OF r] by simp
  qed
qed

lemma create_ok:
  assumes "create_model_pricing p rows = Inr rows'"
  shows "row_valid p \<and> no_overlap_loop p (list_for_model (mp_provider p) (mp_model p) rows) = Inr ()
    \<and> rows' = rows @ [p] \<and> row_id p \<notin> row_id ` set rows"
  using assms
  by (auto simp: create_model_pricing_def row_valid_def validate_no_overlap_def pricing_insert_def
      repo_create_def split: sum.splits option.splits if_splits pricing_error.splits)

lemma create_catalog_wf [inv_rules]:
  assumes wf: "catalog_wf rows" and ok: "create_model_pricing p rows = Inr rows'"
  shows "catalog_wf rows'"
proof -
  note c = create_ok [OF ok]
  have new: "\<not> ranges_meet p x" if "x \<in> set (active_query rows)" "same_model p x" for x
  proof (rule no_overlap_loop_ok [of p "list_for_model (mp_provider p) (mp_model p) rows"])
    show "x \<in> set (list_for_model (mp_provider p) (mp_model p) rows)"
      using that by (simp add: list_for_model_def same_model_def)
    have "x \<in> set rows" using that by (simp add: set_active)
    then show "row_id x \<noteq> row_id p" using c by (metis imageI)
  qed (use c in simp)
  have act: "set (active_query rows') \<subseteq> insert p (set (active_query rows))"
    using c by (auto simp: set_active)
  have sym: "same_model x p = same_model p x" for x by (auto simp: same_model_def)
  have "table_wf rows'" using wf c by (auto simp: catalog_wf_def table_wf_def)
  moreover have "\<forall>r \<in> set rows'. row_valid r" using wf c by (auto simp: catalog_wf_def)
  moreover have "\<not> ranges_meet a b"
    if "a \<in> set (active_query rows')" "b \<in> set (active_query rows')" "a \<noteq> b" "same_model a b" for a b
  proof -
    have "a = p \<or> a \<in> set (active_query rows)" and "b = p \<or> b \<in> set (active_query rows)"
      using act that by auto
    then show ?thesis
      using that new sym ranges_meet_sym wf by (metis (no_types, lifting) catalog_wf_def)
  qed
  ultimately show ?thesis by (simp add: catalog_wf_def)
qed

section \<open>Costs\<close>

lemma quantized_Inr: "quantized x = Inr c \<longleftrightarrow> quantize8 x = Some c"
  by (simp add: quantized_def split: option.splits)

lemma token_cost_nonneg: "token_cost n (Some price) = Inr c \<Longrightarrow> 0 \<le> n \<Longrightarrow> 0 \<le> price \<Longrightarrow> 0 \<le> c"
  by (rule quantize8_nonneg [of "dec_mult (of_int n) price"])
    (simp_all add: quantized_Inr dec_mult_def ctx28_nonneg)

lemma token_cost_grid: "token_cost n x = Inr c \<Longrightarrow> \<exists>k. \<bar>k\<bar> < 10 ^ 28 \<and> c = of_int k / 10 ^ 8"
proof -
  assume c: "token_cost n x = Inr c"
  then obtain price where "x = Some price" by (cases x) auto
  with c have "quantize8 (dec_mult (of_int n) price) = Some c" by (simp add: quantized_Inr)
  then show ?thesis by (rule quantize8_grid)
qed

lemma token_cost_error:
  assumes "token_cost n (Some (of_int k / 10 ^ 10)) = Inr c" and "\<bar>n * k\<bar> < 10 ^ 28"
  shows "\<bar>c - of_int n * (of_int k / 10 ^ 10)\<bar> \<le> 1 / 2 / 10 ^ 8"
proof -
  have "rat_of_int n * (of_int k / 10 ^ 10) = of_int (n * k) / 10 ^ 10" by simp
  then have "dec_mult (of_int n) (of_int k / 10 ^ 10) = of_int n * (of_int k / 10 ^ 10)"
    unfolding dec_mult_def using ctx28_scaled [OF assms(2), of 10] by (simp only:)
  with assms(1) have "quantize8 (of_int n * (of_int k / 10 ^ 10)) = Some c"
    by (simp only: token_cost.simps quantized_Inr)
  then show ?thesis by (rule quantize8_error)
qed

lemma grid_add:
  assumes "\<bar>a + b\<bar> < 10 ^ 28"
  shows "dec_add (of_int a / 10 ^ 8) (of_int b / 10 ^ 8) = of_int (a + b) / 10 ^ 8"
  unfolding dec_add_def using ctx28_scaled [OF assms, of 8] by (simp add: add_divide_distrib)

definition near_cost :: "rat \<Rightarrow> int \<Rightarrow> int \<Rightarrow> bool" where
  "near_cost c n k \<longleftrightarrow> \<bar>c - of_int n * (of_int k / 10 ^ 10)\<bar> \<le> 1 / 2 / 10 ^ 8"

text \<open>Prices have ten decimals (the column type); up to \<open>10\<^sup>1\<^sup>7\<close> of currency nothing overflows.\<close>

lemma token_cost_ok:
  assumes "0 \<le> n" and "0 \<le> k" and "n * k \<le> 10 ^ 27"
  shows "\<exists>a. token_cost n (Some (of_int k / 10 ^ 10)) = Inr (of_int a / 10 ^ 8) \<and> 0 \<le> a \<and> a \<le> 10 ^ 26
    \<and> near_cost (of_int a / 10 ^ 8) n k"
proof -
  have nk: "0 \<le> n * k" using assms by simp
  have small: "\<bar>n * k\<bar> < 10 ^ 28" using nk assms(3) by simp
  define x where "x = rat_of_int n * (of_int k / 10 ^ 10)"
  have x: "x = of_int (n * k) / 10 ^ 10" by (simp add: x_def)
  have x0: "0 \<le> x" using nk unfolding x by (simp only: of_int_0_le_iff divide_nonneg_pos zero_less_power zero_less_numeral)
  have "rat_of_int (n * k) \<le> 10 ^ 27" using assms(3) by (metis of_int_le_iff of_int_numeral of_int_power)
  then have x17: "x \<le> 10 ^ 17" unfolding x by simp
  then have "\<bar>x\<bar> \<le> 10 ^ 19" using x0 by simp
  then obtain c where c: "quantize8 x = Some c" using quantize8_total by blast
  have ctx: "dec_mult (of_int n) (of_int k / 10 ^ 10) = x"
    unfolding dec_mult_def x_def [symmetric] unfolding x by (rule ctx28_scaled [OF small])
  have tc: "token_cost n (Some (of_int k / 10 ^ 10)) = Inr c"
    by (simp only: token_cost.simps ctx quantized_Inr c)
  obtain a where a: "c = of_int a / 10 ^ 8" using quantize8_grid [OF c] by blast
  have err: "\<bar>c - x\<bar> \<le> 1 / 2 / 10 ^ 8" by (rule quantize8_error [OF c])
  have c0: "0 \<le> c" by (rule quantize8_nonneg [OF c x0])
  have "c - x \<le> 1 / 2 / 10 ^ 8" using err by (simp only: abs_le_iff)
  also have "\<dots> \<le> 1" by simp
  finally have "c \<le> 10 ^ 17 + 1" using x17 by simp
  also have "(10 ^ 17 + 1 :: rat) \<le> 10 ^ 18" by simp
  finally have "rat_of_int a \<le> 10 ^ 18 * 10 ^ 8" unfolding a by (simp only: divide_le_eq) simp
  also have "(10 ^ 18 * 10 ^ 8 :: rat) = 10 ^ 26" by simp
  finally have "rat_of_int a \<le> 10 ^ 26" .
  then have "a \<le> 10 ^ 26" by (metis of_int_le_iff of_int_numeral of_int_power)
  moreover have "0 \<le> a" using c0 unfolding a by (simp add: zero_le_divide_iff)
  ultimately show ?thesis using tc err unfolding a x_def near_cost_def by blast
qed

lemma total_of_grid:
  assumes "0 \<le> a" "a \<le> 10 ^ 26" "0 \<le> b" "b \<le> 10 ^ 26" "0 \<le> c" "c \<le> 10 ^ 26"
  shows "quantized (dec_add (dec_add (of_int a / 10 ^ 8) (of_int b / 10 ^ 8)) (of_int c / 10 ^ 8))
    = Inr (of_int a / 10 ^ 8 + of_int b / 10 ^ 8 + of_int c / 10 ^ 8)"
proof -
  have "\<bar>a + b\<bar> < 10 ^ 28" and abc: "\<bar>a + b + c\<bar> < 10 ^ 28" using assms by simp_all
  then have "dec_add (dec_add (of_int a / 10 ^ 8) (of_int b / 10 ^ 8)) (of_int c / 10 ^ 8) = of_int (a + b + c) / 10 ^ 8"
    by (simp only: grid_add)
  moreover have "quantized (of_int (a + b + c) / 10 ^ 8) = Inr (of_int (a + b + c) / 10 ^ 8)"
    by (simp only: quantized_Inr quantize8_scaled [OF abc])
  ultimately show ?thesis by (simp add: add_divide_distrib)
qed

section \<open>Properties\<close>

text \<open>C14: publishing a price keeps the catalog free of overlapping versions, so that the price of a
  model on a date is the one version that applies on it (no answer depends on the order of the table),
  and never changes the price already resolved for any date.\<close>

theorem pricing_catalog:
  assumes "catalog_wf rows" and "create_model_pricing new rows = Inr rows'"
  shows "catalog_wf rows'
    \<and> (\<forall>p m d r. get_for_date p m d rows' = Some r \<longleftrightarrow>
         r \<in> set rows' \<and> row_deleted_at r = None \<and> pricing_applies p m d r)
    \<and> (\<forall>p m d r. get_for_date p m d rows = Some r \<longrightarrow> get_for_date p m d rows' = Some r)"
proof -
  have wf': "catalog_wf rows'" by (rule create_catalog_wf [OF assms])
  have "rows' = rows @ [new]" using create_ok [OF assms(2)] by simp
  then show ?thesis
    using wf' get_for_date_unique [OF wf'] get_for_date_unique [OF assms(1)] by (auto simp: set_active)
qed

definition sample_price :: "ident \<Rightarrow> string \<Rightarrow> int \<Rightarrow> int option \<Rightarrow> model_pricing" where
  "sample_price i v from to =
     \<lparr>row_id = i, row_created_at = 0, row_updated_at = 0, row_deleted_at = None, row_deleted_by = None,
      mp_provider = ''openai'', mp_model = ''gpt'', mp_version = v, mp_currency = ''USD'',
      mp_effective_from = Some from, mp_effective_to = to,
      mp_prompt_token_price = Some (25 / 10 ^ 7), mp_completion_token_price = Some (1 / 10 ^ 5),
      mp_cached_token_price = None, mp_audio_token_price = None, mp_image_price = None,
      mp_embedding_price = None, mp_is_active = True\<rparr>"

lemma sample_price_valid: "row_valid (sample_price i ''1'' 100 (Some 199))"
  by (simp add: row_valid_def validate_new_pricing_def sample_price_def blank_str_iff is_blank_def
      price_missing_def price_negative_def)

theorem pricing_catalog_witness:
  "catalog_wf [sample_price 1 ''1'' 100 (Some 199), sample_price 2 ''2'' 200 None]"
proof (rule pricing_catalog [THEN conjunct1])
  show "catalog_wf [sample_price 1 ''1'' 100 (Some 199)]"
    using sample_price_valid [of 1] by (simp add: catalog_wf_def table_wf_def set_active)
  show "create_model_pricing (sample_price 2 ''2'' 200 None) [sample_price 1 ''1'' 100 (Some 199)]
     = Inr [sample_price 1 ''1'' 100 (Some 199), sample_price 2 ''2'' 200 None]"
    by (simp add: create_model_pricing_def validate_new_pricing_def validate_no_overlap_def list_for_model_def
        order_desc_def active_query_def get_by_version_def scalar_one_or_none_def pricing_insert_def
        repo_create_def sample_price_def blank_str_iff is_blank_def price_missing_def price_negative_def)
qed



end
