(* ===== verification/Cost_Records.thy ===== *)
theory Cost_Records
  imports Repository "HOL-Library.Char_ord" "HOL-Library.List_Lexorder" "HOL-Library.Option_ord" "HOL-Library.Multiset"
begin

text \<open>
  Cost records and their aggregate queries: \<open>models/usage_cost_record.py\<close> and
  \<open>repositories/usage_cost_record_repository.py\<close>. SQL sums of exact numerics are exact. A grouped
  query is \<open>group_rows\<close> (one group for each key, in the order the keys last occur) followed by its
  \<open>ORDER BY\<close>; groups that tie come in that order.
\<close>

section \<open>Model\<close>

record usage_cost_record = base_row +
  cr_usage_event_id :: ident
  cr_organization_id :: ident
  cr_project_id :: "ident option"
  cr_connection_id :: "ident option"
  cr_pricing_id :: "ident option"
  cr_provider :: string
  cr_model :: string
  cr_currency :: string
  cr_usage_date :: int
  cr_prompt_tokens :: int
  cr_completion_tokens :: int
  cr_cached_tokens :: "int option"
  cr_total_tokens :: int
  cr_prompt_cost :: rat
  cr_completion_cost :: rat
  cr_cached_cost :: "rat option"
  cr_total_cost :: rat
  cr_calculation_version :: string

section \<open>Writing\<close>

definition cr_get_by_event :: "ident \<Rightarrow> usage_cost_record list \<Rightarrow> repo_error + usage_cost_record option" where
  "cr_get_by_event e rows = scalar_one_or_none (filter (\<lambda>r. cr_usage_event_id r = e) (active_query rows))"

definition cr_overwrite :: "micros \<Rightarrow> usage_cost_record \<Rightarrow> usage_cost_record \<Rightarrow> usage_cost_record" where
  "cr_overwrite now new old =
     old\<lparr>cr_pricing_id := cr_pricing_id new, cr_currency := cr_currency new, cr_usage_date := cr_usage_date new,
         cr_prompt_tokens := cr_prompt_tokens new, cr_completion_tokens := cr_completion_tokens new,
         cr_cached_tokens := cr_cached_tokens new, cr_total_tokens := cr_total_tokens new,
         cr_prompt_cost := cr_prompt_cost new, cr_completion_cost := cr_completion_cost new,
         cr_cached_cost := cr_cached_cost new, cr_total_cost := cr_total_cost new,
         cr_calculation_version := cr_calculation_version new, row_updated_at := now\<rparr>"

definition cr_upsert ::
  "micros \<Rightarrow> usage_cost_record \<Rightarrow> usage_cost_record list \<Rightarrow> repo_error + usage_cost_record \<times> usage_cost_record list" where
  "cr_upsert now r rows =
     and_then
       (if \<exists>x \<in> set rows. cr_usage_event_id x = cr_usage_event_id r
        then Inr (sql_update_where (\<lambda>x. cr_usage_event_id x = cr_usage_event_id r) (cr_overwrite now r) rows)
        else repo_create r rows)
       (\<lambda>rows'. and_then (cr_get_by_event (cr_usage_event_id r) rows') (\<lambda>found.
          Inr (case found of None \<Rightarrow> r | Some x \<Rightarrow> x, rows')))"

section \<open>Grouped queries\<close>

definition group_rows :: "('r \<Rightarrow> 'k) \<Rightarrow> 'r list \<Rightarrow> ('k \<times> 'r list) list" where
  "group_rows key rs = map (\<lambda>k. (k, filter (\<lambda>r. key r = k) rs)) (remdups (map key rs))"

record cost_totals =
  ct_total_cost :: rat
  ct_prompt_cost :: rat
  ct_completion_cost :: rat
  ct_total_tokens :: int
  ct_prompt_tokens :: int
  ct_completion_tokens :: int
  ct_count :: nat

definition totals_of :: "usage_cost_record list \<Rightarrow> cost_totals" where
  "totals_of rs =
     \<lparr>ct_total_cost = sum_list (map cr_total_cost rs), ct_prompt_cost = sum_list (map cr_prompt_cost rs),
      ct_completion_cost = sum_list (map cr_completion_cost rs), ct_total_tokens = sum_list (map cr_total_tokens rs),
      ct_prompt_tokens = sum_list (map cr_prompt_tokens rs),
      ct_completion_tokens = sum_list (map cr_completion_tokens rs), ct_count = length rs\<rparr>"

record dimensions =
  dm_project_id :: "ident option"
  dm_provider :: "string option"
  dm_model :: "string option"

definition dimension_filters :: "dimensions \<Rightarrow> usage_cost_record \<Rightarrow> bool" where
  "dimension_filters d r \<longleftrightarrow>
     (case dm_project_id d of None \<Rightarrow> True | Some p \<Rightarrow> cr_project_id r = Some p)
     \<and> (case dm_provider d of None \<Rightarrow> True | Some p \<Rightarrow> cr_provider r = p)
     \<and> (case dm_model d of None \<Rightarrow> True | Some m \<Rightarrow> cr_model r = m)"

definition period_rows ::
  "ident \<Rightarrow> int \<Rightarrow> int \<Rightarrow> dimensions \<Rightarrow> usage_cost_record list \<Rightarrow> usage_cost_record list" where
  "period_rows org start_date end_date d rows =
     filter (\<lambda>r. cr_organization_id r = org \<and> start_date \<le> cr_usage_date r \<and> cr_usage_date r \<le> end_date
       \<and> row_deleted_at r = None \<and> dimension_filters d r) rows"

definition totals_by :: "(usage_cost_record \<Rightarrow> 'k) \<Rightarrow> usage_cost_record list \<Rightarrow> ('k \<times> cost_totals) list" where
  "totals_by key rs = map (\<lambda>(k, g). (k, totals_of g)) (group_rows key rs)"

definition get_totals_by_connection :: "ident \<Rightarrow> usage_cost_record list \<Rightarrow> (string \<times> cost_totals) list" where
  "get_totals_by_connection conn rows =
     sort_key fst (totals_by cr_currency
       (filter (\<lambda>r. cr_connection_id r = Some conn \<and> row_deleted_at r = None) rows))"

definition get_totals_by_org ::
  "ident \<Rightarrow> int \<Rightarrow> int \<Rightarrow> dimensions \<Rightarrow> usage_cost_record list \<Rightarrow> (string \<times> cost_totals) list" where
  "get_totals_by_org org s e d rows = sort_key fst (totals_by cr_currency (period_rows org s e d rows))"

definition top :: "nat option \<Rightarrow> 'a list \<Rightarrow> 'a list" where
  "top limit xs = (case limit of None \<Rightarrow> xs | Some n \<Rightarrow> take n xs)"

definition get_totals_by_provider ::
  "ident \<Rightarrow> int \<Rightarrow> int \<Rightarrow> dimensions \<Rightarrow> usage_cost_record list \<Rightarrow> (((string \<times> string) \<times> cost_totals) \<times> nat) list" where
  "get_totals_by_provider org s e d rows =
     (let sel = period_rows org s e d rows
      in map (\<lambda>(k, t). ((k, t), length (remdups (map cr_model (filter (\<lambda>r. (cr_provider r, cr_currency r) = k) sel)))))
           (order_desc (ct_total_cost \<circ> snd) (totals_by (\<lambda>r. (cr_provider r, cr_currency r)) sel)))"

definition get_totals_by_model ::
  "ident \<Rightarrow> int \<Rightarrow> int \<Rightarrow> nat option \<Rightarrow> dimensions \<Rightarrow> usage_cost_record list
   \<Rightarrow> ((string \<times> string \<times> string) \<times> cost_totals) list" where
  "get_totals_by_model org s e limit d rows =
     top limit (order_desc (ct_total_cost \<circ> snd)
       (totals_by (\<lambda>r. (cr_provider r, cr_model r, cr_currency r)) (period_rows org s e d rows)))"

definition get_totals_by_project ::
  "ident \<Rightarrow> int \<Rightarrow> int \<Rightarrow> nat option \<Rightarrow> dimensions \<Rightarrow> usage_cost_record list
   \<Rightarrow> ((ident option \<times> string) \<times> cost_totals) list" where
  "get_totals_by_project org s e limit d rows =
     top limit (order_desc (ct_total_cost \<circ> snd)
       (totals_by (\<lambda>r. (cr_project_id r, cr_currency r)) (period_rows org s e d rows)))"

definition get_daily_trend ::
  "ident \<Rightarrow> int \<Rightarrow> int \<Rightarrow> dimensions \<Rightarrow> usage_cost_record list \<Rightarrow> ((int \<times> string) \<times> cost_totals) list" where
  "get_daily_trend org s e d rows =
     sort_key (fst \<circ> fst) (totals_by (\<lambda>r. (cr_usage_date r, cr_currency r)) (period_rows org s e d rows))"

text \<open>The join with \<open>usage_events\<close>: the event's time stamp, for the events that exist.\<close>

definition hour_of_day :: "micros \<Rightarrow> int" where "hour_of_day t = t div 3600000000 mod 24"
definition day_of_week :: "micros \<Rightarrow> int" where "day_of_week t = (t div 86400000000 + 4) mod 7"

definition get_heatmap ::
  "(ident \<Rightarrow> micros option) \<Rightarrow> ident \<Rightarrow> int \<Rightarrow> int \<Rightarrow> dimensions \<Rightarrow> usage_cost_record list
   \<Rightarrow> ((int \<times> int \<times> string) \<times> cost_totals) list" where
  "get_heatmap event_time org s e d rows =
     sort_key fst (map (\<lambda>(k, g). (k, totals_of (map snd g)))
       (group_rows (\<lambda>(t, r). (day_of_week t, hour_of_day t, cr_currency r))
         (List.map_filter (\<lambda>r. map_option (\<lambda>t. (t, r)) (event_time (cr_usage_event_id r))) (period_rows org s e d rows))))"

section \<open>Groups partition the rows\<close>

lemma sum_list_delta:
  "distinct ks \<Longrightarrow> sum_list (map (\<lambda>k. if k = x then a else 0) ks) = (if x \<in> set ks then a else (0 :: 'b :: comm_monoid_add))"
  by (induction ks) auto

lemma sum_groups:
  "set (map key rs) \<subseteq> set ks \<Longrightarrow> distinct ks \<Longrightarrow>
   sum_list (map (\<lambda>k. sum_list (map f (filter (\<lambda>r. key r = k) rs))) ks) = (sum_list (map f rs) :: 'b :: comm_monoid_add)"
proof (induction rs)
  case Nil
  then show ?case by simp
next
  case (Cons r rs)
  have split: "sum_list (map f (filter (\<lambda>x. key x = k) (r # rs)))
      = (if k = key r then f r else 0) + sum_list (map f (filter (\<lambda>x. key x = k) rs))" for k
    by simp
  have one: "sum_list (map (\<lambda>k. if k = key r then f r else 0) ks) = f r"
    using Cons.prems by (simp add: sum_list_delta)
  show ?case
    unfolding split using Cons one by (simp add: sum_list_addf)
qed

lemma sum_group_rows:
  "sum_list (map (\<lambda>(k, g). sum_list (map f g)) (group_rows key rs)) = (sum_list (map f rs) :: 'b :: comm_monoid_add)"
  using sum_groups [of key rs "remdups (map key rs)" f] by (simp add: group_rows_def comp_def)

lemma distinct_group_keys: "distinct (map fst (group_rows key rs))"
  by (simp add: group_rows_def comp_def)

lemma sum_totals_by:
  "sum_list (map (\<lambda>(k, t). if P k then ct_total_cost t else 0) (totals_by key rs))
   = sum_list (map cr_total_cost (filter (\<lambda>r. P (key r)) rs))"
proof -
  let ?f = "\<lambda>r. if P (key r) then cr_total_cost r else 0"
  have "sum_list (map (\<lambda>(k, t). if P k then ct_total_cost t else 0) (totals_by key rs))
      = sum_list (map (\<lambda>(k, g). sum_list (map ?f g)) (group_rows key rs))"
    unfolding totals_by_def group_rows_def map_map
  proof (rule arg_cong [where f = sum_list], rule map_cong [OF refl])
    fix k
    have "sum_list (map ?f (filter (\<lambda>r. key r = k) rs)) = (if P k then sum_list (map cr_total_cost (filter (\<lambda>r. key r = k) rs)) else 0)"
      by (induction rs) auto
    then show "((\<lambda>(k, t). if P k then ct_total_cost t else 0) \<circ> ((\<lambda>(k, g). (k, totals_of g)) \<circ> (\<lambda>k. (k, filter (\<lambda>r. key r = k) rs)))) k
        = ((\<lambda>(k, g). sum_list (map ?f g)) \<circ> (\<lambda>k. (k, filter (\<lambda>r. key r = k) rs))) k"
      by (simp add: totals_of_def)
  qed
  also have "\<dots> = sum_list (map ?f rs)" by (rule sum_group_rows)
  also have "\<dots> = sum_list (map cr_total_cost (filter (\<lambda>r. P (key r)) rs))" by (induction rs) auto
  finally show ?thesis .
qed

lemma sum_list_sort_key: "sum_list (map g (sort_key k xs)) = (sum_list (map g xs) :: 'b :: comm_monoid_add)"
proof -
  have "mset (map g (sort_key k xs)) = mset (map g xs)" by simp
  then show ?thesis by (metis sum_mset_sum_list)
qed

lemma sum_list_order_desc: "sum_list (map g (order_desc k xs)) = (sum_list (map g xs) :: 'b :: comm_monoid_add)"
proof -
  have "mset (map g (order_desc k xs)) = mset (map g xs)" by (simp add: order_desc_def rev_map)
  then show ?thesis by (metis sum_mset_sum_list)
qed

text \<open>What a currency's rows of a breakdown add up to.\<close>

definition spent :: "('k \<Rightarrow> string) \<Rightarrow> string \<Rightarrow> ('k \<times> cost_totals) list \<Rightarrow> rat" where
  "spent cur_of c ts = sum_list (map (\<lambda>(k, t). if cur_of k = c then ct_total_cost t else 0) ts)"

definition period_spend :: "ident \<Rightarrow> int \<Rightarrow> int \<Rightarrow> dimensions \<Rightarrow> string \<Rightarrow> usage_cost_record list \<Rightarrow> rat" where
  "period_spend org s e d c rows =
     sum_list (map cr_total_cost (filter (\<lambda>r. cr_currency r = c) (period_rows org s e d rows)))"

lemma map_of_sort_key: "distinct (map fst xs) \<Longrightarrow> map_of (sort_key f xs) = map_of xs"
  by (rule map_of_eqI) (auto simp: distinct_map dest: map_of_SomeD)

lemma org_totals_lookup:
  "map_of (get_totals_by_org org s e d rows) c =
     (if c \<in> cr_currency ` set (period_rows org s e d rows)
      then Some (totals_of (filter (\<lambda>r. cr_currency r = c) (period_rows org s e d rows))) else None)"
proof -
  let ?rs = "period_rows org s e d rows"
  have ks: "distinct (map fst (totals_by cr_currency ?rs))"
    by (simp add: totals_by_def group_rows_def comp_def)
  have "map_of (map (\<lambda>k. (k, g k)) ks) c = (if c \<in> set ks then Some (g c) else None)" for g :: "string \<Rightarrow> cost_totals" and ks
    by (induction ks) auto
  then have "map_of (totals_by cr_currency ?rs) c =
      (if c \<in> set (map cr_currency ?rs) then Some (totals_of (filter (\<lambda>r. cr_currency r = c) ?rs)) else None)"
    by (simp add: totals_by_def group_rows_def comp_def)
  then show ?thesis by (simp add: get_totals_by_org_def map_of_sort_key [OF ks])
qed

section \<open>Properties\<close>


text \<open>Costing an event again replaces its record: the event keeps one record, and the amount spent
  changes by the difference between the new cost and the old one, so a recalculation never counts an
  event twice.\<close>

theorem recalculation_replaces:
  assumes "distinct (map cr_usage_event_id rows)" and "old \<in> set rows"
    and "cr_usage_event_id new = cr_usage_event_id old" and "cr_upsert now new rows = Inr (r, rows')"
  shows "distinct (map cr_usage_event_id rows') \<and> length rows' = length rows
    \<and> sum_list (map cr_total_cost rows') = sum_list (map cr_total_cost rows) - cr_total_cost old + cr_total_cost new"
proof -
  have rows': "rows' = sql_update_where (\<lambda>x. cr_usage_event_id x = cr_usage_event_id old) (cr_overwrite now new) rows"
    using assms(2-4) by (auto simp: cr_upsert_def and_then_Inr_iff split: if_splits)
  have "distinct (map cr_usage_event_id rows')"
    unfolding rows' using assms(1) by (simp add: map_update_where cr_overwrite_def)
  moreover have "sum_list (map cr_total_cost rows') + cr_total_cost old = sum_list (map cr_total_cost rows) + cr_total_cost new"
    using assms(1,2) unfolding rows'
  proof (induction rows)
    case (Cons a rows)
    show ?case
    proof (cases "a = old")
      case True
      with Cons.prems have "cr_usage_event_id old \<notin> cr_usage_event_id ` set rows" by simp
      then have "sql_update_where (\<lambda>x. cr_usage_event_id x = cr_usage_event_id old) (cr_overwrite now new) rows = rows"
        by (rule filter_no_key)
      moreover have "cr_total_cost (cr_overwrite now new old) = cr_total_cost new" by (simp add: cr_overwrite_def)
      ultimately show ?thesis using True by (simp add: update_where_Cons)
    next
      case False
      with Cons.prems have o: "old \<in> set rows" by simp
      then have "cr_usage_event_id old \<in> cr_usage_event_id ` set rows" by (rule imageI)
      with Cons.prems have "cr_usage_event_id a \<noteq> cr_usage_event_id old" by auto
      with Cons.IH [OF _ o] Cons.prems show ?thesis by (simp add: sql_update_where_def)
    qed
  qed simp
  moreover have "length rows' = length rows" by (simp add: rows' sql_update_where_def)
  ultimately show ?thesis by simp
qed

definition sample_record :: "ident \<Rightarrow> rat \<Rightarrow> usage_cost_record" where
  "sample_record ev cost =
     \<lparr>row_id = ev, row_created_at = 0, row_updated_at = 0, row_deleted_at = None, row_deleted_by = None,
      cr_usage_event_id = ev, cr_organization_id = 1, cr_project_id = None, cr_connection_id = None,
      cr_pricing_id = None, cr_provider = ''openai'', cr_model = ''gpt'', cr_currency = ''USD'', cr_usage_date = 10,
      cr_prompt_tokens = 1, cr_completion_tokens = 1, cr_cached_tokens = None, cr_total_tokens = 2,
      cr_prompt_cost = cost, cr_completion_cost = 0, cr_cached_cost = None, cr_total_cost = cost,
      cr_calculation_version = ''1.0''\<rparr>"

theorem recalculation_replaces_witness:
  "\<exists>r rows'. cr_upsert 9 (sample_record 1 5) [sample_record 1 2, sample_record 2 3] = Inr (r, rows')
     \<and> sum_list (map cr_total_cost rows') = sum_list (map cr_total_cost [sample_record 1 2, sample_record 2 3]) - 2 + 5"
proof -
  obtain r rows' where u: "cr_upsert 9 (sample_record 1 5) [sample_record 1 2, sample_record 2 3] = Inr (r, rows')"
    by (simp add: cr_upsert_def sample_record_def sql_update_where_def cr_overwrite_def cr_get_by_event_def
        active_query_def scalar_one_or_none_def)
  have "sum_list (map cr_total_cost rows') = sum_list (map cr_total_cost [sample_record 1 2, sample_record 2 3])
      - cr_total_cost (sample_record 1 2) + cr_total_cost (sample_record 1 5)"
    by (rule recalculation_replaces [THEN conjunct2, THEN conjunct2, OF _ _ _ u]) (simp_all add: sample_record_def)
  with u show ?thesis by (simp add: sample_record_def)
qed

end
