(* ===== verification/Usage_Collect.thy ===== *)
theory Usage_Collect
  imports Pricing Cost_Records
begin

text \<open>
  Collecting usage from providers: \<open>usage/validator.py\<close>, \<open>usage/service.py\<close>
  (\<open>UsageCollectionService.collect\<close>) and the repositories of usage events, collection checkpoints and
  collection runs. The provider adapter is a parameter, the function \<open>get_usage\<close> from a date range and
  a cursor to a page or an error. The pagination loop may not end, so it takes fuel and \<open>None\<close> means
  that the fuel did not suffice. New identifiers are drawn from a counter; raw payloads, metadata and the
  configuration dictionary of a run are left out.
\<close>

section \<open>Model\<close>

record norm_event =
  ne_request_id :: string
  ne_provider :: string
  ne_model :: string
  ne_timestamp :: micros
  ne_prompt_tokens :: int
  ne_completion_tokens :: int
  ne_total_tokens :: int
  ne_cached_tokens :: "int option"
  ne_request_count :: int

record usage_page =
  up_events :: "norm_event list"
  up_next_cursor :: "string option"
  up_has_more :: bool

record usage_event = base_row +
  ue_organization_id :: ident
  ue_project_id :: "ident option"
  ue_connection_id :: "ident option"
  ue_run_id :: "ident option"
  ue_provider :: string
  ue_request_id :: string
  ue_model :: string
  ue_timestamp :: micros
  ue_request_count :: int
  ue_prompt_tokens :: int
  ue_completion_tokens :: int
  ue_cached_tokens :: "int option"
  ue_total_tokens :: int

record checkpoint = base_row +
  ck_organization_id :: ident
  ck_provider :: string
  ck_connection_id :: "ident option"
  ck_last_collected_at :: micros
  ck_cursor :: "string option"
  ck_last_run_id :: "ident option"

text \<open>The errors of a collection; the message stored with a failed run is the printed error, kept as the
  error itself.\<close>

datatype collect_error = CE_repo repo_error | CE_provider string | CE_no_config
datatype run_status = R_PENDING | R_RUNNING | R_COMPLETED | R_FAILED | R_CANCELLED
datatype run_trigger = T_MANUAL | T_SCHEDULED

record collection_run = base_row +
  cn_organization_id :: ident
  cn_connection_id :: "ident option"
  cn_provider :: string
  cn_status :: run_status
  cn_trigger :: run_trigger
  cn_started_at :: micros
  cn_completed_at :: "micros option"
  cn_start :: micros
  cn_end :: micros
  cn_events_collected :: nat
  cn_events_failed :: nat
  cn_pages :: nat
  cn_error :: "collect_error option"

section \<open>Validation\<close>

datatype usage_validation_error =
    Missing_request_id | Missing_provider | Missing_model | Future_timestamp
  | Negative_prompt | Negative_completion | Negative_total | No_requests | Negative_cached | Cached_exceeds_prompt

definition FUTURE_TOLERANCE :: micros where "FUTURE_TOLERANCE = 300 * 1000000"

definition check_required_strings :: "norm_event \<Rightarrow> usage_validation_error + unit" where
  "check_required_strings e =
     (if blank_str (ne_request_id e) then Inl Missing_request_id
      else if blank_str (ne_provider e) then Inl Missing_provider
      else if blank_str (ne_model e) then Inl Missing_model else Inr ())"

definition check_timestamp :: "micros \<Rightarrow> norm_event \<Rightarrow> usage_validation_error + unit" where
  "check_timestamp now e = guard (ne_timestamp e \<le> now + FUTURE_TOLERANCE) Future_timestamp"

definition check_token_counts :: "norm_event \<Rightarrow> usage_validation_error + unit" where
  "check_token_counts e =
     (if ne_prompt_tokens e < 0 then Inl Negative_prompt
      else if ne_completion_tokens e < 0 then Inl Negative_completion
      else if ne_total_tokens e < 0 then Inl Negative_total
      else if ne_request_count e < 1 then Inl No_requests
      else case ne_cached_tokens e of
             None \<Rightarrow> Inr ()
           | Some c \<Rightarrow> if c < 0 then Inl Negative_cached
                       else if ne_prompt_tokens e < c then Inl Cached_exceeds_prompt else Inr ())"

definition validate_event :: "micros \<Rightarrow> norm_event \<Rightarrow> usage_validation_error + unit" where
  "validate_event now e =
     and_then (check_required_strings e) (\<lambda>_. and_then (check_timestamp now e) (\<lambda>_. check_token_counts e))"

section \<open>Repositories\<close>

definition ue_key :: "usage_event \<Rightarrow> ident \<times> string \<times> string" where
  "ue_key e = (ue_organization_id e, ue_provider e, ue_request_id e)"

definition ue_overwrite :: "usage_event \<Rightarrow> usage_event \<Rightarrow> usage_event" where
  "ue_overwrite new old =
     old\<lparr>ue_model := ue_model new, ue_timestamp := ue_timestamp new, ue_request_count := ue_request_count new,
         ue_prompt_tokens := ue_prompt_tokens new, ue_completion_tokens := ue_completion_tokens new,
         ue_cached_tokens := ue_cached_tokens new, ue_total_tokens := ue_total_tokens new, ue_run_id := ue_run_id new\<rparr>"

text \<open>The event with the identifier of its row, and the table.\<close>

definition ue_upsert :: "usage_event \<Rightarrow> usage_event list \<Rightarrow> usage_event \<times> usage_event list" where
  "ue_upsert e rows =
     (case List.find (\<lambda>x. ue_key x = ue_key e) rows of
        Some x \<Rightarrow> (e\<lparr>row_id := row_id x\<rparr>, sql_update_where (\<lambda>x. ue_key x = ue_key e) (ue_overwrite e) rows)
      | None \<Rightarrow> (e, rows @ [e]))"

definition ue_get :: "ident \<Rightarrow> string \<Rightarrow> string \<Rightarrow> usage_event list \<Rightarrow> repo_error + usage_event option" where
  "ue_get org provider request rows =
     scalar_one_or_none (filter (\<lambda>e. ue_organization_id e = org \<and> ue_provider e = provider \<and> ue_request_id e = request)
       (active_query rows))"

definition ue_list_by_org where
  "ue_list_by_org org limit c order rows = list_page limit c order (\<lambda>e. ue_organization_id e = org) (rows :: usage_event list)"

definition ue_list_by_provider where
  "ue_list_by_provider org provider limit c order rows =
     list_page limit c order (\<lambda>e. ue_organization_id e = org \<and> ue_provider e = provider) (rows :: usage_event list)"

definition ue_list_by_project where
  "ue_list_by_project org project limit c order rows =
     list_page limit c order (\<lambda>e. ue_organization_id e = org \<and> ue_project_id e = Some project) (rows :: usage_event list)"

definition ue_list_by_date_range ::
  "ident \<Rightarrow> micros \<Rightarrow> micros \<Rightarrow> string option \<Rightarrow> string option \<Rightarrow> nat \<Rightarrow> cursor_token option \<Rightarrow> string
   \<Rightarrow> usage_event list \<Rightarrow> repo_error + usage_event cursor_page" where
  "ue_list_by_date_range org s e provider model limit c order rows =
     list_page limit c order
       (\<lambda>x. ue_organization_id x = org \<and> s \<le> ue_timestamp x \<and> ue_timestamp x \<le> e
          \<and> (case provider of None \<Rightarrow> True | Some [] \<Rightarrow> True | Some p \<Rightarrow> ue_provider x = p)
          \<and> (case model of None \<Rightarrow> True | Some [] \<Rightarrow> True | Some m \<Rightarrow> ue_model x = m)) rows"

definition ue_list_by_run where
  "ue_list_by_run run limit c rows = list_page limit c ''asc'' (\<lambda>e. ue_run_id e = Some run) (rows :: usage_event list)"

definition ue_count_by_org :: "ident \<Rightarrow> usage_event list \<Rightarrow> nat" where
  "ue_count_by_org org rows = repo_count (\<lambda>e. ue_organization_id e = org) rows"

definition ue_totals_by_connection :: "ident \<Rightarrow> usage_event list \<Rightarrow> nat \<times> int" where
  "ue_totals_by_connection conn rows =
     (let sel = filter (\<lambda>e. ue_connection_id e = Some conn \<and> row_deleted_at e = None) rows
      in (length sel, sum_list (map ue_total_tokens sel)))"

definition ck_get_by_org_provider :: "ident \<Rightarrow> string \<Rightarrow> ident option \<Rightarrow> checkpoint list \<Rightarrow> repo_error + checkpoint option" where
  "ck_get_by_org_provider org provider conn rows =
     scalar_one_or_none (filter (\<lambda>c. ck_organization_id c = org \<and> ck_provider c = provider \<and> ck_connection_id c = conn)
       (active_query rows))"

text \<open>\<open>ON CONFLICT\<close> on (organization, provider, connection): a null connection equals nothing, so it
  never conflicts. The upsert models the insert and the conflict update; checkpoints are never soft-deleted by
  the program, so its closing read by identifier finds the row.\<close>

definition ck_conflict :: "ident \<Rightarrow> string \<Rightarrow> ident option \<Rightarrow> checkpoint \<Rightarrow> bool" where
  "ck_conflict org provider conn c \<longleftrightarrow>
     conn \<noteq> None \<and> ck_organization_id c = org \<and> ck_provider c = provider \<and> ck_connection_id c = conn"

definition ck_upsert ::
  "micros \<Rightarrow> ident \<Rightarrow> ident \<Rightarrow> string \<Rightarrow> ident option \<Rightarrow> micros \<Rightarrow> string option \<Rightarrow> ident option
   \<Rightarrow> checkpoint list \<Rightarrow> checkpoint list" where
  "ck_upsert now i org provider conn seen_to cursor run rows =
     (if \<exists>c \<in> set rows. ck_conflict org provider conn c
      then sql_update_where (ck_conflict org provider conn)
             (\<lambda>c. c\<lparr>ck_last_collected_at := seen_to, ck_cursor := cursor, ck_last_run_id := run\<rparr>) rows
      else rows @ [\<lparr>row_id = i, row_created_at = now, row_updated_at = now, row_deleted_at = None, row_deleted_by = None,
                    ck_organization_id = org, ck_provider = provider, ck_connection_id = conn,
                    ck_last_collected_at = seen_to, ck_cursor = cursor, ck_last_run_id = run\<rparr>])"

definition ck_list_by_org where
  "ck_list_by_org org limit c rows =
     list_page limit c ''asc'' (\<lambda>x. ck_organization_id x = org) (rows :: checkpoint list)"

definition cn_list_by_org where
  "cn_list_by_org org limit c order rows =
     list_page limit c order (\<lambda>r. cn_organization_id r = org) (rows :: collection_run list)"

definition cn_list_by_status where
  "cn_list_by_status org st limit c rows =
     list_page limit c ''desc'' (\<lambda>r. cn_organization_id r = org \<and> cn_status r = st) (rows :: collection_run list)"

definition cn_list_by_provider where
  "cn_list_by_provider org provider limit c order rows =
     list_page limit c order (\<lambda>r. cn_organization_id r = org \<and> cn_provider r = provider) (rows :: collection_run list)"

definition first_item :: "repo_error + 'r cursor_page \<Rightarrow> repo_error + 'r option" where
  "first_item p = and_then p (\<lambda>p. Inr (scalar_first (pg_items p)))"

definition cn_latest_for_provider :: "ident \<Rightarrow> string \<Rightarrow> collection_run list \<Rightarrow> repo_error + collection_run option" where
  "cn_latest_for_provider org provider rows = first_item (cn_list_by_provider org provider 1 None ''desc'' rows)"

definition cn_latest_for_connection ::
  "ident \<Rightarrow> ident \<Rightarrow> run_status option \<Rightarrow> collection_run list \<Rightarrow> repo_error + collection_run option" where
  "cn_latest_for_connection org conn st rows =
     first_item (list_page 1 None ''desc''
       (\<lambda>r. cn_organization_id r = org \<and> cn_connection_id r = Some conn
          \<and> (case st of None \<Rightarrow> True | Some x \<Rightarrow> cn_status r = x)) rows)"

definition cn_latest_for_org ::
  "ident \<Rightarrow> run_trigger option \<Rightarrow> run_status option \<Rightarrow> collection_run list \<Rightarrow> repo_error + collection_run option" where
  "cn_latest_for_org org trig st rows =
     first_item (list_page 1 None ''desc''
       (\<lambda>r. cn_organization_id r = org
          \<and> (case trig of None \<Rightarrow> True | Some x \<Rightarrow> cn_trigger r = x)
          \<and> (case st of None \<Rightarrow> True | Some x \<Rightarrow> cn_status r = x)) rows)"

section \<open>Collection\<close>

record collect_state =
  cs_next_id :: ident
  cs_events :: "usage_event list"
  cs_costs :: "usage_cost_record list"
  cs_checkpoints :: "checkpoint list"
  cs_runs :: "collection_run list"

record collect_args =
  ca_organization_id :: ident
  ca_provider :: string
  ca_connection_id :: "ident option"
  ca_project_id :: "ident option"
  ca_start :: micros
  ca_end :: micros
  ca_trigger :: run_trigger
  ca_has_config :: bool

definition draw_id :: "collect_state \<Rightarrow> ident \<times> collect_state" where
  "draw_id s = (cs_next_id s, s\<lparr>cs_next_id := cs_next_id s + 1\<rparr>)"

definition timestamp_date :: "micros \<Rightarrow> int" where
  "timestamp_date t = t div 86400000000 + 719163"

definition build_orm_event :: "micros \<Rightarrow> ident \<Rightarrow> collect_args \<Rightarrow> ident \<Rightarrow> norm_event \<Rightarrow> usage_event" where
  "build_orm_event now i a run e =
     \<lparr>row_id = i, row_created_at = now, row_updated_at = now, row_deleted_at = None, row_deleted_by = None,
      ue_organization_id = ca_organization_id a, ue_project_id = ca_project_id a,
      ue_connection_id = ca_connection_id a, ue_run_id = Some run, ue_provider = ne_provider e,
      ue_request_id = ne_request_id e, ue_model = ne_model e, ue_timestamp = ne_timestamp e,
      ue_request_count = ne_request_count e, ue_prompt_tokens = ne_prompt_tokens e,
      ue_completion_tokens = ne_completion_tokens e, ue_cached_tokens = ne_cached_tokens e,
      ue_total_tokens = ne_total_tokens e\<rparr>"

definition build_cost_record ::
  "micros \<Rightarrow> ident \<Rightarrow> collect_args \<Rightarrow> usage_event \<Rightarrow> int \<Rightarrow> cost_result \<Rightarrow> usage_cost_record" where
  "build_cost_record now i a e d r =
     \<lparr>row_id = i, row_created_at = now, row_updated_at = now, row_deleted_at = None, row_deleted_by = None,
      cr_usage_event_id = row_id e, cr_organization_id = ca_organization_id a, cr_project_id = ca_project_id a,
      cr_connection_id = ca_connection_id a, cr_pricing_id = Some (cost_pricing_id r), cr_provider = ue_provider e,
      cr_model = ue_model e, cr_currency = cost_currency r, cr_usage_date = d,
      cr_prompt_tokens = ue_prompt_tokens e, cr_completion_tokens = ue_completion_tokens e,
      cr_cached_tokens = ue_cached_tokens e, cr_total_tokens = ue_total_tokens e, cr_prompt_cost = prompt_cost r,
      cr_completion_cost = completion_cost r, cr_cached_cost = cached_cost r, cr_total_cost = total_cost r,
      cr_calculation_version = cost_version r\<rparr>"

text \<open>Best-effort cost attribution: any error leaves the cost records as they are.\<close>

definition attribute_cost ::
  "model_pricing list \<Rightarrow> micros \<Rightarrow> collect_args \<Rightarrow> usage_event \<Rightarrow> collect_state \<Rightarrow> collect_state" where
  "attribute_cost pricing now a e s =
     (let d = timestamp_date (ue_timestamp e);
          counts = \<lparr>uc_provider = ue_provider e, uc_model = ue_model e, uc_prompt_tokens = ue_prompt_tokens e,
                    uc_completion_tokens = ue_completion_tokens e, uc_cached_tokens = ue_cached_tokens e\<rparr>
      in case calculate_event_cost pricing counts d of
           Inl _ \<Rightarrow> s
         | Inr r \<Rightarrow>
             (let (i, s1) = draw_id s
              in case cr_upsert now (build_cost_record now i a e d r) (cs_costs s1) of
                   Inl _ \<Rightarrow> s1
                 | Inr (_, costs) \<Rightarrow> s1\<lparr>cs_costs := costs\<rparr>))"

fun process_page ::
  "model_pricing list \<Rightarrow> micros \<Rightarrow> collect_args \<Rightarrow> ident \<Rightarrow> norm_event list \<Rightarrow> collect_state
   \<Rightarrow> nat \<times> nat \<times> collect_state" where
  "process_page pricing now a run [] s = (0, 0, s)"
| "process_page pricing now a run (e # es) s =
     (case validate_event now e of
        Inl _ \<Rightarrow>
          (let (created, failed, s') = process_page pricing now a run es s in (created, failed + 1, s'))
      | Inr _ \<Rightarrow>
          (let (i, s1) = draw_id s;
               (ev, rows) = ue_upsert (build_orm_event now i a run e) (cs_events s1);
               s2 = attribute_cost pricing now a ev (s1\<lparr>cs_events := rows\<rparr>);
               (created, failed, s') = process_page pricing now a run es s2
           in (created + 1, failed, s')))"

record collect_totals =
  tt_events :: nat
  tt_failed :: nat
  tt_pages :: nat

type_synonym adapter = "micros \<Rightarrow> micros \<Rightarrow> string option \<Rightarrow> nat \<Rightarrow> string + usage_page"

fun collect_loop ::
  "nat \<Rightarrow> adapter \<Rightarrow> nat \<Rightarrow> model_pricing list \<Rightarrow> micros \<Rightarrow> collect_args \<Rightarrow> ident \<Rightarrow> micros
   \<Rightarrow> string option \<Rightarrow> collect_totals \<Rightarrow> collect_state
   \<Rightarrow> ((collect_error + collect_totals) \<times> collect_state) option" where
  "collect_loop 0 get_usage limit pricing now a run start cursor t s = None"
| "collect_loop (Suc fuel) get_usage limit pricing now a run start cursor t s =
     (case get_usage start (ca_end a) cursor limit of
        Inl e \<Rightarrow> Some (Inl (CE_provider e), s)
      | Inr page \<Rightarrow>
          (let (created, failed, s1) = process_page pricing now a run (up_events page) s;
               t' = \<lparr>tt_events = tt_events t + created, tt_failed = tt_failed t + failed, tt_pages = tt_pages t + 1\<rparr>;
               (i, s2) = draw_id s1;
               s3 = s2\<lparr>cs_checkpoints :=
                      ck_upsert now i (ca_organization_id a) (ca_provider a) (ca_connection_id a)
                        (if up_has_more page then start else ca_end a)
                        (if up_has_more page then up_next_cursor page else None) (Some run) (cs_checkpoints s2)\<rparr>
           in if \<not> up_has_more page then Some (Inr t', s3)
              else collect_loop fuel get_usage limit pricing now a run start (up_next_cursor page) t' s3))"

definition create_run :: "micros \<Rightarrow> ident \<Rightarrow> collect_args \<Rightarrow> collection_run" where
  "create_run now i a =
     \<lparr>row_id = i, row_created_at = now, row_updated_at = now, row_deleted_at = None, row_deleted_by = None,
      cn_organization_id = ca_organization_id a, cn_connection_id = ca_connection_id a, cn_provider = ca_provider a,
      cn_status = R_RUNNING, cn_trigger = ca_trigger a, cn_started_at = now, cn_completed_at = None,
      cn_start = ca_start a, cn_end = ca_end a, cn_events_collected = 0, cn_events_failed = 0, cn_pages = 0,
      cn_error = None\<rparr>"

definition finish_run ::
  "micros \<Rightarrow> ident \<Rightarrow> collect_error + collect_totals \<Rightarrow> collect_state \<Rightarrow> collect_state" where
  "finish_run now run res s =
     s\<lparr>cs_runs := repo_update now run
        (\<lambda>r. case res of
           Inr t \<Rightarrow> r\<lparr>cn_status := R_COMPLETED, cn_completed_at := Some now, cn_events_collected := tt_events t,
                      cn_events_failed := tt_failed t, cn_pages := tt_pages t\<rparr>
         | Inl e \<Rightarrow> r\<lparr>cn_status := R_FAILED, cn_completed_at := Some now,
                      cn_error := Some e\<rparr>) (cs_runs s)\<rparr>"

definition collect ::
  "nat \<Rightarrow> adapter \<Rightarrow> nat \<Rightarrow> model_pricing list \<Rightarrow> micros \<Rightarrow> collect_args \<Rightarrow> collect_state
   \<Rightarrow> ((collect_error + collect_totals) \<times> collect_state) option" where
  "collect fuel get_usage limit pricing now a s0 =
     (let (run, s) = draw_id s0; s = s\<lparr>cs_runs := cs_runs s @ [create_run now run a]\<rparr>
      in map_option (\<lambda>(res, s). (res, finish_run now run res s))
           (case ck_get_by_org_provider (ca_organization_id a) (ca_provider a) (ca_connection_id a) (cs_checkpoints s) of
              Inl e \<Rightarrow> Some (Inl (CE_repo e), s)
            | Inr ck \<Rightarrow>
                let start = (case ck of None \<Rightarrow> ca_start a
                             | Some c \<Rightarrow> if ca_start a < ck_last_collected_at c then ck_last_collected_at c else ca_start a);
                    cursor = (case ck of None \<Rightarrow> None | Some c \<Rightarrow> ck_cursor c)
                in if \<not> ca_has_config a \<and> ca_provider a \<noteq> ''openai'' \<and> ca_provider a \<noteq> ''anthropic''
                   then Some (Inl CE_no_config, s)
                   else collect_loop fuel get_usage limit pricing now a run start cursor
                          \<lparr>tt_events = 0, tt_failed = 0, tt_pages = 0\<rparr> s))"

section \<open>What a page leaves behind\<close>

type_synonym event_data = "string \<times> micros \<times> int \<times> int \<times> int \<times> int option \<times> int"

definition ue_data :: "usage_event \<Rightarrow> event_data" where
  "ue_data e = (ue_model e, ue_timestamp e, ue_request_count e, ue_prompt_tokens e, ue_completion_tokens e,
     ue_cached_tokens e, ue_total_tokens e)"

definition ne_data :: "norm_event \<Rightarrow> event_data" where
  "ne_data e = (ne_model e, ne_timestamp e, ne_request_count e, ne_prompt_tokens e, ne_completion_tokens e,
     ne_cached_tokens e, ne_total_tokens e)"

definition ne_key :: "ident \<Rightarrow> norm_event \<Rightarrow> ident \<times> string \<times> string" where
  "ne_key org e = (org, ne_provider e, ne_request_id e)"

definition stored :: "usage_event list \<Rightarrow> ident \<times> string \<times> string \<Rightarrow> event_data option" where
  "stored rows k = map_option ue_data (List.find (\<lambda>x. ue_key x = k) rows)"

definition valid_events :: "micros \<Rightarrow> norm_event list \<Rightarrow> norm_event list" where
  "valid_events now es = filter (\<lambda>e. is_ok (validate_event now e)) es"

lemma stored_Cons: "stored (x # rows) k = (if ue_key x = k then Some (ue_data x) else stored rows k)"
  by (simp add: stored_def)

lemma stored_append: "stored (xs @ ys) k = (case stored xs k of None \<Rightarrow> stored ys k | Some d \<Rightarrow> Some d)"
  by (induction xs) (auto simp: stored_Cons stored_def split: option.splits)

lemma ue_overwrite_key: "ue_key (ue_overwrite e x) = ue_key x"
  by (simp add: ue_key_def ue_overwrite_def)

lemma ue_overwrite_data: "ue_data (ue_overwrite e x) = ue_data e"
  by (simp add: ue_data_def ue_overwrite_def)

lemma stored_update:
  "stored (sql_update_where (\<lambda>x. ue_key x = ue_key e) (ue_overwrite e) rows) k =
     (if k = ue_key e then map_option (\<lambda>_. ue_data e) (stored rows k) else stored rows k)"
proof (induction rows)
  case (Cons x rows)
  show ?case
  proof (cases "k = ue_key e")
    case True
    then show ?thesis using Cons
      by (simp add: update_where_Cons stored_Cons ue_overwrite_key ue_overwrite_data)
  next
    case False
    then show ?thesis using Cons
      by (cases "ue_key x = ue_key e") (simp_all add: update_where_Cons stored_Cons ue_overwrite_key)
  qed
qed (simp add: stored_def sql_update_where_def)

lemma stored_upsert: "stored (snd (ue_upsert e rows)) = (stored rows)(ue_key e \<mapsto> ue_data e)"
proof (cases "List.find (\<lambda>x. ue_key x = ue_key e) rows")
  case None
  then have n: "stored rows (ue_key e) = None" by (simp add: stored_def)
  have "snd (ue_upsert e rows) = rows @ [e]" using None by (simp add: ue_upsert_def)
  then show ?thesis using n by (auto simp: fun_eq_iff stored_append stored_Cons stored_def [of "[]"] split: option.splits)
next
  case (Some x)
  then have n: "stored rows (ue_key e) \<noteq> None" by (simp add: stored_def)
  have "snd (ue_upsert e rows) = sql_update_where (\<lambda>x. ue_key x = ue_key e) (ue_overwrite e) rows"
    using Some by (simp add: ue_upsert_def)
  then show ?thesis using n by (auto simp: fun_eq_iff stored_update)
qed

lemma upsert_keys:
  assumes "distinct (map ue_key rows)"
  shows "distinct (map ue_key (snd (ue_upsert e rows)))"
proof (cases "List.find (\<lambda>x. ue_key x = ue_key e) rows")
  case None
  then have "ue_key e \<notin> ue_key ` set rows" by (auto simp: find_None_iff_all)
  with assms None show ?thesis by (simp add: ue_upsert_def)
next
  case (Some x)
  have "map ue_key (sql_update_where (\<lambda>x. ue_key x = ue_key e) (ue_overwrite e) rows) = map ue_key rows"
    by (rule map_update_where) (rule ue_overwrite_key)
  with assms Some show ?thesis by (simp add: ue_upsert_def)
qed

lemma attribute_cost_events: "cs_events (attribute_cost pricing now a e s) = cs_events s"
  by (simp add: attribute_cost_def Let_def draw_id_def split_def split: sum.splits)

definition put_events :: "ident \<Rightarrow> norm_event list \<Rightarrow> (ident \<times> string \<times> string \<rightharpoonup> event_data) \<Rightarrow> (ident \<times> string \<times> string \<rightharpoonup> event_data)" where
  "put_events org es m = fold (\<lambda>e m. m(ne_key org e \<mapsto> ne_data e)) es m"

lemma put_events_Cons: "put_events org (e # es) m = put_events org es (m(ne_key org e \<mapsto> ne_data e))"
  by (simp add: put_events_def)

lemma put_events_snoc: "put_events org (es @ [e]) m = (put_events org es m)(ne_key org e \<mapsto> ne_data e)"
  by (simp add: put_events_def)

lemma put_events_add: "put_events org es m = m ++ put_events org es Map.empty"
proof (induction es rule: rev_induct)
  case (snoc e es)
  show ?case unfolding put_events_snoc map_add_upd snoc [symmetric] ..
qed (simp add: put_events_def)

lemma map_add_again: "m ++ x ++ x = m ++ x"
  by (rule ext) (simp add: map_add_def split: option.split)

lemma put_events_twice: "put_events org es (put_events org es m) = put_events org es m"
  by (metis put_events_add map_add_again)

lemma orm_key: "ue_key (build_orm_event now i a run e) = ne_key (ca_organization_id a) e"
  by (simp add: build_orm_event_def ue_key_def ne_key_def)

lemma orm_data: "ue_data (build_orm_event now i a run e) = ne_data e"
  by (simp add: build_orm_event_def ue_data_def ne_data_def)

lemma process_page_effect:
  assumes "process_page pricing now a run es s = (created, failed, s')"
  shows "stored (cs_events s') = put_events (ca_organization_id a) (valid_events now es) (stored (cs_events s))
    \<and> (distinct (map ue_key (cs_events s)) \<longrightarrow> distinct (map ue_key (cs_events s')))
    \<and> created = length (valid_events now es) \<and> created + failed = length es"
  using assms
proof (induction es arbitrary: s created failed s')
  case Nil
  then show ?case by (auto simp: put_events_def valid_events_def)
next
  case (Cons e es)
  show ?case
  proof (cases "validate_event now e")
    case (Inl err)
    obtain c f s1 where p: "process_page pricing now a run es s = (c, f, s1)" by (cases "process_page pricing now a run es s")
    from Cons.IH [OF p] Cons.prems show ?thesis by (auto simp: Inl p valid_events_def)
  next
    case (Inr u)
    let ?e = "build_orm_event now (cs_next_id s) a run e"
    let ?s1 = "(snd (draw_id s))\<lparr>cs_events := snd (ue_upsert ?e (cs_events s))\<rparr>"
    let ?s2 = "attribute_cost pricing now a (fst (ue_upsert ?e (cs_events s))) ?s1"
    obtain c f s3 where p: "process_page pricing now a run es ?s2 = (c, f, s3)"
      by (cases "process_page pricing now a run es ?s2")
    have r: "created = c + 1" "failed = f" "s' = s3"
      using Cons.prems p by (auto simp: Inr draw_id_def split_def Let_def)
    have ev: "cs_events ?s2 = snd (ue_upsert ?e (cs_events s))" by (simp add: attribute_cost_events)
    have v: "valid_events now (e # es) = e # valid_events now es" by (simp add: valid_events_def Inr)
    have "stored (cs_events ?s2) = (stored (cs_events s))(ne_key (ca_organization_id a) e \<mapsto> ne_data e)"
      unfolding ev stored_upsert orm_key orm_data ..
    then have st: "stored (cs_events s3) = put_events (ca_organization_id a) (valid_events now (e # es)) (stored (cs_events s))"
      unfolding v put_events_Cons using Cons.IH [OF p] by metis
    have "distinct (map ue_key (cs_events s)) \<longrightarrow> distinct (map ue_key (cs_events s3))"
      using Cons.IH [OF p] upsert_keys [of "cs_events s" ?e] unfolding ev by blast
    moreover have "c = length (valid_events now es)" "c + f = length es" using Cons.IH [OF p] by blast+
    ultimately show ?thesis using st by (simp add: r v)
  qed
qed

section \<open>Properties\<close>

text \<open>Collecting a page is idempotent: every event of the page is either stored or rejected, no two
  rows share a deduplication key, and collecting the same page again, by whatever run and connection of the
  organization, changes no stored usage and reports the same counts.\<close>

theorem collection_idempotent:
  assumes "process_page pricing now a run es s = (created, failed, s1)"
    and "process_page pricing' now' a' run' es s1 = (created', failed', s2)"
    and "ca_organization_id a' = ca_organization_id a"
    and "valid_events now' es = valid_events now es" and "distinct (map ue_key (cs_events s))"
  shows "stored (cs_events s2) = stored (cs_events s1) \<and> distinct (map ue_key (cs_events s2))
    \<and> created' = created \<and> failed' = failed \<and> created + failed = length es"
  using process_page_effect [OF assms(1)] process_page_effect [OF assms(2)] assms(3-5)
  by (auto simp: put_events_twice)

definition sample_event :: "int \<Rightarrow> norm_event" where
  "sample_event tokens = \<lparr>ne_request_id = ''h'', ne_provider = ''openai'', ne_model = ''gpt'', ne_timestamp = 0,
     ne_prompt_tokens = tokens, ne_completion_tokens = 0, ne_total_tokens = tokens, ne_cached_tokens = None,
     ne_request_count = 1\<rparr>"

definition sample_args :: "ident \<Rightarrow> collect_args" where
  "sample_args conn = \<lparr>ca_organization_id = 1, ca_provider = ''openai'', ca_connection_id = Some conn,
     ca_project_id = None, ca_start = 0, ca_end = 9, ca_trigger = T_MANUAL, ca_has_config = True\<rparr>"

definition empty_state :: collect_state where
  "empty_state = \<lparr>cs_next_id = 0, cs_events = [], cs_costs = [], cs_checkpoints = [], cs_runs = []\<rparr>"

theorem collection_idempotent_witness:
  "\<exists>c f s1 s2. process_page [] 5 (sample_args 1) 7 [sample_event 3] empty_state = (c, f, s1)
     \<and> process_page [] 6 (sample_args 2) 8 [sample_event 3] s1 = (c, f, s2)
     \<and> stored (cs_events s2) = stored (cs_events s1)"
proof -
  obtain c f s1 where 1: "process_page [] 5 (sample_args 1) 7 [sample_event 3] empty_state = (c, f, s1)"
    by (cases "process_page [] 5 (sample_args 1) 7 [sample_event 3] empty_state")
  obtain c' f' s2 where 2: "process_page [] 6 (sample_args 2) 8 [sample_event 3] s1 = (c', f', s2)"
    by (cases "process_page [] 6 (sample_args 2) 8 [sample_event 3] s1")
  have "stored (cs_events s2) = stored (cs_events s1) \<and> distinct (map ue_key (cs_events s2))
    \<and> c' = c \<and> f' = f \<and> c + f = length [sample_event 3]"
    by (rule collection_idempotent [OF 1 2])
      (simp_all add: sample_args_def valid_events_def validate_event_def check_required_strings_def blank_str_iff
        is_blank_def check_timestamp_def FUTURE_TOLERANCE_def check_token_counts_def sample_event_def empty_state_def)
  with 1 2 show ?thesis by blast
qed

text \<open>The deduplication key has no connection in it: when two connections of one organization report
  usage under the same provider request identifier (which for aggregated usage is a hash of provider, model
  and time), the second overwrites the first; the organization keeps only the second amount, booked on the
  first connection.\<close>

theorem connections_overwrite:
  "(let s1 = snd (snd (process_page [] 5 (sample_args 1) 7 [sample_event 300] empty_state));
        s2 = snd (snd (process_page [] 5 (sample_args 2) 8 [sample_event 20] s1))
    in (ue_totals_by_connection 1 (cs_events s2), ue_totals_by_connection 2 (cs_events s2))) = ((1, 20), (0, 0))"
  by code_simp

section \<open>Whether collecting ends\<close>

text \<open>Progress of the pages of an adapter: a page that announces more comes with a cursor of smaller
  measure.\<close>

definition cursor_progress :: "adapter \<Rightarrow> nat \<Rightarrow> micros \<Rightarrow> micros \<Rightarrow> (string option \<Rightarrow> nat) \<Rightarrow> bool" where
  "cursor_progress get_usage limit start e m \<longleftrightarrow>
     (\<forall>c p. get_usage start e c limit = Inr p \<longrightarrow> up_has_more p \<longrightarrow> m (up_next_cursor p) < m c)"

lemma collect_loop_ends:
  assumes "cursor_progress get_usage limit start (ca_end a) m" and "m cursor < fuel"
  shows "collect_loop fuel get_usage limit pricing now a run start cursor t s \<noteq> None"
  using assms(2)
proof (induction fuel arbitrary: cursor t s)
  case (Suc fuel)
  show ?case
  proof (cases "get_usage start (ca_end a) cursor limit")
    case (Inr page)
    show ?thesis
    proof (cases "up_has_more page")
      case True
      then have "m (up_next_cursor page) < fuel"
        using Inr assms(1) Suc.prems by (force simp: cursor_progress_def)
      from Suc.IH [OF this] show ?thesis by (simp add: Inr True split_def Let_def del: not_None_eq)
    qed (simp add: Inr split_def Let_def)
  qed simp
qed simp

lemma collect_loop_stuck:
  assumes "get_usage start (ca_end a) None limit = Inr page" and "up_has_more page" and "up_next_cursor page = None"
  shows "collect_loop fuel get_usage limit pricing now a run start None t s = None"
  by (induction fuel arbitrary: t s) (simp_all add: assms split_def Let_def)

lemma process_page_runs: "cs_runs (snd (snd (process_page pricing now a run es s))) = cs_runs s"
proof (induction es arbitrary: s)
  case (Cons e es)
  have "cs_runs (attribute_cost pricing now a ev s') = cs_runs s'" for ev s'
    by (simp add: attribute_cost_def Let_def draw_id_def split_def split: sum.splits)
  with Cons show ?case by (simp add: split_def Let_def draw_id_def split: sum.split)
qed simp

lemma ck_upsert_current:
  assumes "conn \<noteq> None" and "c \<in> set (ck_upsert now i org provider conn seen_to cursor run rows)"
    and "ck_conflict org provider conn c"
  shows "ck_last_collected_at c = seen_to \<and> ck_cursor c = cursor \<and> ck_last_run_id c = run"
  using assms by (auto simp: ck_upsert_def sql_update_where_def split: if_splits)

lemma collect_loop_result:
  assumes "collect_loop fuel get_usage limit pricing now a run start cursor t s = Some (res, s')"
  shows "cs_runs s' = cs_runs s
    \<and> (\<forall>c \<in> set (cs_checkpoints s'). ck_conflict (ca_organization_id a) (ca_provider a) (ca_connection_id a) c
         \<longrightarrow> is_ok res \<longrightarrow> ck_last_collected_at c = ca_end a \<and> ck_cursor c = None \<and> ck_last_run_id c = Some run)"
  using assms
proof (induction fuel arbitrary: cursor t s)
  case (Suc fuel)
  show ?case
  proof (cases "get_usage start (ca_end a) cursor limit")
    case (Inl e)
    with Suc.prems show ?thesis by auto
  next
    case (Inr page)
    obtain c f s1 where p: "process_page pricing now a run (up_events page) s = (c, f, s1)"
      by (cases "process_page pricing now a run (up_events page) s")
    have r: "cs_runs s1 = cs_runs s" using process_page_runs [of pricing now a run "up_events page" s] p by simp
    show ?thesis
    proof (cases "up_has_more page")
      case True
      note step = Suc.prems [unfolded collect_loop.simps Inr p draw_id_def Let_def sum.case prod.case, simplified True]
      from Suc.IH [of _ _ _] step r show ?thesis by fastforce
    next
      case False
      then show ?thesis using Suc.prems r
        by (auto simp: Inr p draw_id_def Let_def ck_conflict_def dest!: ck_upsert_current [rotated])
    qed
  qed
qed simp

lemma finish_run_row:
  assumes "create_run now run a \<in> set (cs_runs s)"
  shows "\<exists>r \<in> set (cs_runs (finish_run now run res s)). row_id r = run \<and> cn_completed_at r = Some now
    \<and> (case res of
          Inr t \<Rightarrow> cn_status r = R_COMPLETED \<and> cn_events_collected r = tt_events t
                   \<and> cn_events_failed r = tt_failed t \<and> cn_pages r = tt_pages t
        | Inl _ \<Rightarrow> cn_status r = R_FAILED)"
proof -
  let ?f = "\<lambda>r. case res of
           Inr t \<Rightarrow> r\<lparr>cn_status := R_COMPLETED, cn_completed_at := Some now, cn_events_collected := tt_events t,
                      cn_events_failed := tt_failed t, cn_pages := tt_pages t\<rparr>
         | Inl e \<Rightarrow> r\<lparr>cn_status := R_FAILED, cn_completed_at := Some now,
                      cn_error := Some e\<rparr>"
  let ?r = "(?f (create_run now run a))\<lparr>row_updated_at := now\<rparr>"
  have "?r \<in> set (cs_runs (finish_run now run res s))"
    using assms by (force simp: finish_run_def repo_update_def sql_update_where_def create_run_def)
  then show ?thesis by (rule bexI [rotated]) (simp add: create_run_def split: sum.split)
qed

text \<open>Collecting always comes to an end, completed or failed, when the adapter's cursors make
  progress, however many pages there are; the run that was created is then marked with the outcome and, when
  it succeeded, with the totals that are returned, and the checkpoint of the connection stands at the end of
  the collected range without a cursor, so the next run continues from there.\<close>

theorem collect_ends:
  assumes "\<And>start. cursor_progress get_usage limit start (ca_end a) m" and "\<And>c. m c < fuel"
  shows "\<exists>res s'. collect fuel get_usage limit pricing now a s = Some (res, s')
    \<and> (\<exists>r \<in> set (cs_runs s'). row_id r = cs_next_id s \<and> cn_completed_at r = Some now
        \<and> (case res of
              Inr t \<Rightarrow> cn_status r = R_COMPLETED \<and> cn_events_collected r = tt_events t
                       \<and> cn_events_failed r = tt_failed t \<and> cn_pages r = tt_pages t
            | Inl _ \<Rightarrow> cn_status r = R_FAILED))
    \<and> (is_ok res \<longrightarrow> (\<forall>c \<in> set (cs_checkpoints s').
          ck_conflict (ca_organization_id a) (ca_provider a) (ca_connection_id a) c
          \<longrightarrow> ck_last_collected_at c = ca_end a \<and> ck_cursor c = None))"
proof -
  let ?run = "cs_next_id s"
  let ?s = "s\<lparr>cs_next_id := cs_next_id s + 1, cs_runs := cs_runs s @ [create_run now ?run a]\<rparr>"
  let ?good = "\<lambda>res s'. create_run now ?run a \<in> set (cs_runs s') \<and> (is_ok res \<longrightarrow> (\<forall>c \<in> set (cs_checkpoints s').
          ck_conflict (ca_organization_id a) (ca_provider a) (ca_connection_id a) c
          \<longrightarrow> ck_last_collected_at c = ca_end a \<and> ck_cursor c = None))"
  have loop: "\<exists>res s'. collect_loop fuel get_usage limit pricing now a ?run start cursor t ?s = Some (res, s') \<and> ?good res s'"
    for start cursor t
  proof -
    obtain res s' where l: "collect_loop fuel get_usage limit pricing now a ?run start cursor t ?s = Some (res, s')"
      using collect_loop_ends [OF assms, of pricing now ?run start cursor t ?s] by auto
    from collect_loop_result [OF l] l show ?thesis by auto
  qed
  let ?X = "case ck_get_by_org_provider (ca_organization_id a) (ca_provider a) (ca_connection_id a) (cs_checkpoints ?s) of
      Inl e \<Rightarrow> Some (Inl (CE_repo e), ?s)
    | Inr ck \<Rightarrow>
        let start = (case ck of None \<Rightarrow> ca_start a
                     | Some c \<Rightarrow> if ca_start a < ck_last_collected_at c then ck_last_collected_at c else ca_start a);
            cursor = (case ck of None \<Rightarrow> None | Some c \<Rightarrow> ck_cursor c)
        in if \<not> ca_has_config a \<and> ca_provider a \<noteq> ''openai'' \<and> ca_provider a \<noteq> ''anthropic''
           then Some (Inl CE_no_config, ?s)
           else collect_loop fuel get_usage limit pricing now a ?run start cursor
                  \<lparr>tt_events = 0, tt_failed = 0, tt_pages = 0\<rparr> ?s"
  have "\<exists>res s'. ?X = Some (res, s') \<and> ?good res s'"
  proof (cases "ck_get_by_org_provider (ca_organization_id a) (ca_provider a) (ca_connection_id a) (cs_checkpoints ?s)")
    case (Inr ck)
    show ?thesis unfolding Inr sum.case Let_def
      by (cases "\<not> ca_has_config a \<and> ca_provider a \<noteq> ''openai'' \<and> ca_provider a \<noteq> ''anthropic''")
        (simp, simp only: if_False loop)
  qed simp
  then obtain res s' where x: "?X = Some (res, s')" and good: "?good res s'" by blast
  have "collect fuel get_usage limit pricing now a s = map_option (\<lambda>(res, s). (res, finish_run now ?run res s)) ?X"
    by (simp only: collect_def draw_id_def Let_def prod.case) (simp cong: sum.case_cong if_cong)
  then have "collect fuel get_usage limit pricing now a s = Some (res, finish_run now ?run res s')" by (simp only: x option.map prod.case)
  moreover have "cs_checkpoints (finish_run now ?run res s') = cs_checkpoints s'" by (simp add: finish_run_def)
  ultimately show ?thesis using finish_run_row [of now ?run a s' res] good
    by (intro exI [of _ res] exI [of _ "finish_run now ?run res s'"]) simp
qed

definition two_pages :: adapter where
  "two_pages start e c limit =
     Inr (case c of
            None \<Rightarrow> \<lparr>up_events = [sample_event 3], up_next_cursor = Some ''p2'', up_has_more = True\<rparr>
          | Some _ \<Rightarrow> \<lparr>up_events = [sample_event (- 1)], up_next_cursor = None, up_has_more = False\<rparr>)"

theorem collect_ends_witness:
  "\<exists>res s'. collect 2 two_pages 100 [] 5 (sample_args 1) empty_state = Some (res, s')
    \<and> (\<exists>r \<in> set (cs_runs s'). row_id r = 0 \<and> cn_completed_at r = Some 5)"
proof -
  have "cursor_progress two_pages 100 start (ca_end (sample_args 1)) (\<lambda>c. if c = None then 1 else 0)" for start
    by (auto simp: cursor_progress_def two_pages_def split: option.splits)
  from collect_ends [of two_pages 100 "sample_args 1", OF this, of 2 "[]" 5 empty_state]
  show ?thesis by (fastforce simp: empty_state_def)
qed

text \<open>A page that announces more without a cursor is never noticed: when the provider answers the
  first request that way, collecting asks for the same first page again and again and never returns.\<close>

theorem collect_refetches_forever:
  assumes "\<And>start. get_usage start (ca_end a) None limit = Inr page" and "up_has_more page" and "up_next_cursor page = None"
    and "ca_has_config a" and "cs_checkpoints s = []"
  shows "collect fuel get_usage limit pricing now a s = None"
proof -
  have "collect_loop fuel get_usage limit pricing now a run start None t s' = None" for run start t s'
    using assms(1-3) by (rule collect_loop_stuck)
  then show ?thesis using assms(4-5)
    by (simp add: collect_def draw_id_def Let_def ck_get_by_org_provider_def active_query_def scalar_one_or_none_def)
qed

theorem collect_refetches_forever_witness:
  "collect 1000 (\<lambda>_ _ _ _. Inr \<lparr>up_events = [], up_next_cursor = None, up_has_more = True\<rparr>) 100 [] 5
     (sample_args 1) empty_state = None"
  by (rule collect_refetches_forever [OF refl]) (simp_all add: sample_args_def empty_state_def)

text \<open>A checkpoint without a connection is never updated: the second page collected without a connection
  inserts a second row for the same organization and provider, the lookup then finds several, and every later
  collection without a connection fails before it asks the provider.\<close>

theorem unconnected_collect_fails:
  "ca_connection_id a = None \<Longrightarrow>
   map_option fst (collect fuel get_usage limit pricing now a
     (s\<lparr>cs_checkpoints :=
        ck_upsert now2 i2 (ca_organization_id a) (ca_provider a) None seen2 cursor2 run2
          (ck_upsert now1 i1 (ca_organization_id a) (ca_provider a) None seen1 cursor1 run1 rows)\<rparr>))
   = Some (Inl (CE_repo MultipleResultsFound))"
  by (auto simp: collect_def draw_id_def Let_def ck_get_by_org_provider_def active_query_def ck_upsert_def
      ck_conflict_def scalar_one_or_none_def split: list.split)

theorem unconnected_collect_fails_witness:
  "map_option fst (collect 9 two_pages 100 [] 5 ((sample_args 1)\<lparr>ca_connection_id := None\<rparr>)
     (empty_state\<lparr>cs_checkpoints :=
        ck_upsert 4 2 1 ''openai'' None 9 None None (ck_upsert 3 1 1 ''openai'' None 8 (Some ''p2'') None [])\<rparr>))
   = Some (Inl (CE_repo MultipleResultsFound))"
proof -
  let ?a = "(sample_args 1)\<lparr>ca_connection_id := None\<rparr>"
  have "ca_organization_id ?a = 1" "ca_provider ?a = ''openai''" by (simp_all add: sample_args_def)
  moreover have "ca_connection_id ?a = None" by simp
  note unconnected_collect_fails [OF this]
  ultimately show ?thesis by simp
qed

end
