(* ===== verification/Connections.thy ===== *)
theory Connections
  imports Usage_Collect
begin

text \<open>
  Provider connections: the encrypted credentials (\<open>security/encryption.py\<close>, \<open>security/masking.py\<close>,
  \<open>services/provider_credential_service.py\<close>), their configuration and its guard against internal addresses
  (\<open>providers/config.py\<close>, \<open>providers/validation.py\<close>), the health record
  (\<open>services/provider_health_service.py\<close>), the handlers of \<open>api/v1/provider_connections.py\<close> and the
  synchronisation of a connection (\<open>services/provider_sync_service.py\<close>).

  Parameters: the cipher (Fernet with a derived key), the parsed URL with the class of a literal address,
  and the adapter of a configuration with the outcome of its authentication probe.
\<close>

section \<open>Credentials\<close>

text \<open>The cipher: a token from a key and a text, and the text from a key and a token, if the key fits.\<close>

record 'k cipher =
  ci_encrypt :: "'k \<Rightarrow> string \<Rightarrow> string"
  ci_decrypt :: "'k \<Rightarrow> string \<Rightarrow> string option"

record 'k encryption_service =
  en_fernets :: "int \<Rightarrow> 'k option"
  en_previous :: "'k option"

datatype encryption_error = Empty_plaintext | Malformed_ciphertext | No_key | Undecryptable

definition CURRENT_KEY_VERSION :: int where "CURRENT_KEY_VERSION = 1"

definition encryption_init :: "'k \<Rightarrow> 'k option \<Rightarrow> 'k encryption_service" where
  "encryption_init primary previous = \<lparr>en_fernets = [CURRENT_KEY_VERSION \<mapsto> primary], en_previous = previous\<rparr>"

definition encrypt :: "'k cipher \<Rightarrow> 'k encryption_service \<Rightarrow> string \<Rightarrow> encryption_error + string" where
  "encrypt ci s plaintext =
     (if plaintext = [] then Inl Empty_plaintext
      else case en_fernets s CURRENT_KEY_VERSION of
             None \<Rightarrow> Inl No_key
           | Some k \<Rightarrow> Inr (CHR ''v'' # show_nat (nat CURRENT_KEY_VERSION) @ CHR '':'' # ci_encrypt ci k plaintext))"

text \<open>\<open>ciphertext.split(":", 1)\<close> with its two parts, and \<open>removeprefix("v")\<close>.\<close>

fun split_colon :: "string \<Rightarrow> (string \<times> string) option" where
  "split_colon [] = None"
| "split_colon (c # s) =
     (if c = CHR '':'' then Some ([], s) else map_option (\<lambda>(a, b). (c # a, b)) (split_colon s))"

definition remove_v :: "string \<Rightarrow> string" where
  "remove_v s = (if starts_with ''v'' s then drop 1 s else s)"

fun first_decrypt :: "'k cipher \<Rightarrow> 'k list \<Rightarrow> string \<Rightarrow> encryption_error + string" where
  "first_decrypt ci [] token = Inl Undecryptable"
| "first_decrypt ci (k # ks) token =
     (case ci_decrypt ci k token of Some p \<Rightarrow> Inr p | None \<Rightarrow> first_decrypt ci ks token)"

definition decrypt :: "'k cipher \<Rightarrow> 'k encryption_service \<Rightarrow> string \<Rightarrow> encryption_error + string" where
  "decrypt ci s ciphertext =
     (case split_colon ciphertext of
        None \<Rightarrow> Inl Malformed_ciphertext
      | Some (v, token) \<Rightarrow>
          (case py_int (remove_v v) of
             None \<Rightarrow> Inl Malformed_ciphertext
           | Some version \<Rightarrow>
               let candidates = (case en_fernets s version of None \<Rightarrow> [] | Some k \<Rightarrow> [k])
                              @ (case en_previous s of None \<Rightarrow> [] | Some k \<Rightarrow> [k])
               in if candidates = [] then Inl No_key else first_decrypt ci candidates token))"

definition VISIBLE_PREFIX :: nat where "VISIBLE_PREFIX = 3"
definition VISIBLE_SUFFIX :: nat where "VISIBLE_SUFFIX = 4"
definition MIN_LENGTH_FOR_PARTIAL_REVEAL :: nat where
  "MIN_LENGTH_FOR_PARTIAL_REVEAL = VISIBLE_PREFIX + VISIBLE_SUFFIX + 1"

definition mask_secret :: "string \<Rightarrow> string" where
  "mask_secret v =
     (if v = [] then []
      else if length v < MIN_LENGTH_FOR_PARTIAL_REVEAL then replicate (length v) (CHR ''*'')
      else take VISIBLE_PREFIX v @ replicate (max (length v - VISIBLE_PREFIX - VISIBLE_SUFFIX) 8) (CHR ''*'')
           @ last_n VISIBLE_SUFFIX v)"

definition masked :: "'k cipher \<Rightarrow> 'k encryption_service \<Rightarrow> string option \<Rightarrow> encryption_error + string option" where
  "masked ci s c =
     (case c of
        None \<Rightarrow> Inr None
      | Some [] \<Rightarrow> Inr None
      | Some t \<Rightarrow> and_then (decrypt ci s t) (\<lambda>p. Inr (Some (mask_secret p))))"

lemma decrypt_encrypted:
  assumes "encrypt ci (encryption_init k prev) p = Inr t"
  shows "decrypt ci s t =
    (let candidates = (case en_fernets s CURRENT_KEY_VERSION of None \<Rightarrow> [] | Some k \<Rightarrow> [k])
                    @ (case en_previous s of None \<Rightarrow> [] | Some k \<Rightarrow> [k])
     in if candidates = [] then Inl No_key else first_decrypt ci candidates (ci_encrypt ci k p))"
proof -
  have t: "t = ''v1:'' @ ci_encrypt ci k p"
    using assms by (auto simp: encrypt_def encryption_init_def CURRENT_KEY_VERSION_def show_nat.simps digit_char_def
        split: if_splits) code_simp
  have "py_int ''1'' = Some CURRENT_KEY_VERSION" by code_simp
  then show ?thesis by (simp add: t decrypt_def remove_v_def starts_with_def)
qed

section \<open>Configuration\<close>

datatype provider_type =
  OPENAI | ANTHROPIC | GROK | GOOGLE | AZURE_OPENAI | OPENROUTER | OLLAMA | COHERE | BEDROCK | MISTRAL

fun provider_type_value :: "provider_type \<Rightarrow> string" where
  "provider_type_value OPENAI = ''openai''"
| "provider_type_value ANTHROPIC = ''anthropic''"
| "provider_type_value GROK = ''grok''"
| "provider_type_value GOOGLE = ''google''"
| "provider_type_value AZURE_OPENAI = ''azure_openai''"
| "provider_type_value OPENROUTER = ''openrouter''"
| "provider_type_value OLLAMA = ''ollama''"
| "provider_type_value COHERE = ''cohere''"
| "provider_type_value BEDROCK = ''bedrock''"
| "provider_type_value MISTRAL = ''mistral''"

definition all_provider_types :: "provider_type list" where
  "all_provider_types =
     [OPENAI, ANTHROPIC, GROK, GOOGLE, AZURE_OPENAI, OPENROUTER, OLLAMA, COHERE, BEDROCK, MISTRAL]"

definition parse_provider_type :: "string \<Rightarrow> provider_type option" where
  "parse_provider_type v = List.find (\<lambda>t. provider_type_value t = v) all_provider_types"

text \<open>What \<open>urlparse\<close> and \<open>ip_address\<close> say of a URL: scheme, host name, and for a literal address whether
  it is loopback, private, link-local or reserved.\<close>

record parsed_url =
  pu_scheme :: string
  pu_hostname :: string
  pu_internal :: "bool option"

definition BLOCKED_METADATA_HOSTS :: "string list" where
  "BLOCKED_METADATA_HOSTS = [''169.254.169.254'', ''fd00:ec2::254'', ''metadata.google.internal'', ''metadata.internal'']"

datatype config_error =
    Unparseable_url | Bad_scheme | Http_for_cloud | No_hostname | Metadata_host | Local_host | Internal_address
  | Invalid_request string

definition check_ssrf :: "(string \<Rightarrow> parsed_url option) \<Rightarrow> bool \<Rightarrow> string \<Rightarrow> config_error + unit" where
  "check_ssrf urlparse allow_http url =
     (case urlparse url of
        None \<Rightarrow> Inl Unparseable_url
      | Some u \<Rightarrow>
          let scheme = py_lower (pu_scheme u); host = py_lower (pu_hostname u)
          in if scheme \<noteq> ''http'' \<and> scheme \<noteq> ''https'' then Inl Bad_scheme
             else if scheme = ''http'' \<and> \<not> allow_http then Inl Http_for_cloud
             else if host = [] then Inl No_hostname
             else if host \<in> set BLOCKED_METADATA_HOSTS then Inl Metadata_host
             else if \<not> allow_http \<and> (host = ''localhost'' \<or> host = ''localhost.localdomain'') then Inl Local_host
             else if \<not> allow_http \<and> pu_internal u = Some True then Inl Internal_address
             else Inr ())"

record provider_config =
  cf_provider_type :: provider_type
  cf_api_key :: "string option"
  cf_base_url :: "string option"

definition or_default :: "string option \<Rightarrow> string \<Rightarrow> string" where
  "or_default u d = (case u of None \<Rightarrow> d | Some [] \<Rightarrow> d | Some s \<Rightarrow> s)"

definition make_config ::
  "(string \<Rightarrow> parsed_url option) \<Rightarrow> bool \<Rightarrow> provider_type \<Rightarrow> string option \<Rightarrow> string option
   \<Rightarrow> config_error + provider_config" where
  "make_config urlparse allow_http pt key url =
     and_then (case url of None \<Rightarrow> Inr () | Some u \<Rightarrow> check_ssrf urlparse allow_http u)
       (\<lambda>_. Inr \<lparr>cf_provider_type = pt, cf_api_key = key, cf_base_url = url\<rparr>)"

definition build_provider_config ::
  "(string \<Rightarrow> parsed_url option) \<Rightarrow> provider_type \<Rightarrow> string option \<Rightarrow> string option \<Rightarrow> config_error + provider_config" where
  "build_provider_config urlparse pt api_key base_url =
     (let key = (case api_key of Some [] \<Rightarrow> None | k \<Rightarrow> k)
      in case pt of
           OPENAI \<Rightarrow> make_config urlparse False pt key base_url
         | ANTHROPIC \<Rightarrow> make_config urlparse False pt key base_url
         | GROK \<Rightarrow> make_config urlparse False pt key (Some (or_default base_url ''https://api.x.ai/v1''))
         | GOOGLE \<Rightarrow> make_config urlparse False pt key base_url
         | AZURE_OPENAI \<Rightarrow>
             if base_url = None \<or> base_url = Some [] then Inl (Invalid_request ''Azure OpenAI requires a base_url (the resource endpoint).'')
             else make_config urlparse False pt key base_url
         | OPENROUTER \<Rightarrow> make_config urlparse False pt key (Some (or_default base_url ''https://openrouter.ai/api/v1''))
         | OLLAMA \<Rightarrow> make_config urlparse True pt key (Some (or_default base_url ''http://localhost:11434''))
         | _ \<Rightarrow> Inl (Invalid_request (''No credential-validation support for provider '' @ [CHR 0x27]
                  @ provider_type_value pt @ [CHR 0x27] @ '' yet.'')))"

section \<open>Connections and their health\<close>

datatype health_status = H_UNKNOWN | H_HEALTHY | H_WARNING | H_CRITICAL | H_RECOVERING

datatype validation_status =
  V_HEALTHY | V_INVALID_API_KEY | V_UNAUTHORIZED | V_QUOTA_EXCEEDED | V_NETWORK_FAILURE | V_TIMEOUT | V_PROVIDER_UNAVAILABLE

record provider_connection = base_row +
  pc_organization_id :: ident
  pc_project_id :: "ident option"
  pc_provider_name :: string
  pc_display_name :: string
  pc_encrypted_api_key :: "string option"
  pc_base_url :: "string option"
  pc_provider_type :: provider_type
  pc_is_active :: bool
  pc_health_status :: health_status
  pc_last_failure_at :: "micros option"
  pc_last_recovery_at :: "micros option"
  pc_consecutive_failure_count :: nat
  pc_last_validation_status :: "validation_status option"
  pc_last_error :: "string option"

text \<open>The texts, with a hyphen for the dash of the source.\<close>

fun normalized_message :: "validation_status \<Rightarrow> string" where
  "normalized_message V_HEALTHY = ''Connection healthy.''"
| "normalized_message V_INVALID_API_KEY = ''The API key is invalid or has been revoked.''"
| "normalized_message V_UNAUTHORIZED = ''The API key is valid but is not authorized for this operation.''"
| "normalized_message V_QUOTA_EXCEEDED = ''The provider account has exceeded its usage quota or rate limit.''"
| "normalized_message V_NETWORK_FAILURE = ''Could not reach the provider - network error.''"
| "normalized_message V_TIMEOUT = ''The request to the provider timed out.''"
| "normalized_message V_PROVIDER_UNAVAILABLE = ''The provider is currently unavailable.''"

fun health_status_for :: "validation_status \<Rightarrow> health_status" where
  "health_status_for V_HEALTHY = H_HEALTHY"
| "health_status_for V_INVALID_API_KEY = H_CRITICAL"
| "health_status_for V_UNAUTHORIZED = H_CRITICAL"
| "health_status_for V_QUOTA_EXCEEDED = H_WARNING"
| "health_status_for V_NETWORK_FAILURE = H_WARNING"
| "health_status_for V_TIMEOUT = H_WARNING"
| "health_status_for V_PROVIDER_UNAVAILABLE = H_CRITICAL"

record validation_result =
  vr_validation_status :: validation_status
  vr_health_status :: health_status
  vr_detail :: string

definition vr_is_healthy :: "validation_result \<Rightarrow> bool" where
  "vr_is_healthy r \<longleftrightarrow> vr_validation_status r = V_HEALTHY"

definition result_of :: "validation_status \<Rightarrow> string option \<Rightarrow> validation_result" where
  "result_of st detail =
     \<lparr>vr_validation_status = st, vr_health_status = health_status_for st,
      vr_detail = (case detail of None \<Rightarrow> normalized_message st | Some [] \<Rightarrow> normalized_message st | Some d \<Rightarrow> d)\<rparr>"

text \<open>The errors of \<open>providers/errors.py\<close> with their message, as \<open>verify_auth\<close> raises them.\<close>

datatype probe_error =
    Invalid_request_error string | Authentication_error string | Rate_limit_error | Quota_exceeded_error
  | Network_failure string | Internal_provider_error | Other_provider_error | Not_implemented

fun probe_status :: "probe_error option \<Rightarrow> validation_status" where
  "probe_status None = V_HEALTHY"
| "probe_status (Some (Invalid_request_error _)) = V_INVALID_API_KEY"
| "probe_status (Some (Authentication_error m)) =
     (if contains ''forbidden'' (py_lower m) then V_UNAUTHORIZED else V_INVALID_API_KEY)"
| "probe_status (Some Rate_limit_error) = V_QUOTA_EXCEEDED"
| "probe_status (Some Quota_exceeded_error) = V_QUOTA_EXCEEDED"
| "probe_status (Some (Network_failure m)) =
     (if contains ''timed out'' (py_lower m) then V_TIMEOUT else V_NETWORK_FAILURE)"
| "probe_status (Some Internal_provider_error) = V_PROVIDER_UNAVAILABLE"
| "probe_status (Some Other_provider_error) = V_PROVIDER_UNAVAILABLE"
| "probe_status (Some Not_implemented) = V_PROVIDER_UNAVAILABLE"

text \<open>A configuration that is refused with \<open>InvalidRequestError\<close> is a result; a refused URL is a
  \<open>ValidationError\<close> of the configuration class, which nobody catches.\<close>

definition validate_credential ::
  "(string \<Rightarrow> parsed_url option) \<Rightarrow> (provider_config \<Rightarrow> probe_error option) \<Rightarrow> provider_type
   \<Rightarrow> string option \<Rightarrow> string option \<Rightarrow> config_error + validation_result" where
  "validate_credential urlparse probe pt api_key base_url =
     (case build_provider_config urlparse pt api_key base_url of
        Inl (Invalid_request m) \<Rightarrow> Inr (result_of V_INVALID_API_KEY (Some m))
      | Inl e \<Rightarrow> Inl e
      | Inr cf \<Rightarrow> Inr (result_of (probe_status (probe cf)) None))"

definition persist_health :: "micros \<Rightarrow> validation_result \<Rightarrow> provider_connection \<Rightarrow> provider_connection" where
  "persist_health now r c =
     (let c1 = c\<lparr>pc_health_status := vr_health_status r, pc_last_validation_status := Some (vr_validation_status r),
                 pc_last_error := (if vr_is_healthy r then None else Some (vr_detail r))\<rparr>
      in if vr_is_healthy r
         then c1\<lparr>pc_last_recovery_at := Some now, pc_consecutive_failure_count := 0\<rparr>
         else c1\<lparr>pc_last_failure_at := Some now,
                 pc_consecutive_failure_count := pc_consecutive_failure_count c + 1\<rparr>)"

definition check_and_persist ::
  "(string \<Rightarrow> parsed_url option) \<Rightarrow> (provider_config \<Rightarrow> probe_error option) \<Rightarrow> micros \<Rightarrow> provider_connection
   \<Rightarrow> string option \<Rightarrow> string option \<Rightarrow> provider_connection list
   \<Rightarrow> config_error + (validation_result \<times> provider_connection list)" where
  "check_and_persist urlparse probe now c api_key base_url rows =
     and_then (validate_credential urlparse probe (pc_provider_type c) api_key base_url)
       (\<lambda>r. Inr (r, repo_update now (row_id c) (persist_health now r) rows))"

section \<open>Repository and handlers\<close>

definition pc_list_by_org where
  "pc_list_by_org org limit c order rows =
     list_page limit c order (\<lambda>x. pc_organization_id x = org) (rows :: provider_connection list)"

definition pc_list_active_by_org where
  "pc_list_active_by_org org limit c order rows =
     list_page limit c order (\<lambda>x. pc_organization_id x = org \<and> pc_is_active x) (rows :: provider_connection list)"

definition pc_list_by_project where
  "pc_list_by_project project limit c order rows =
     list_page limit c order (\<lambda>x. pc_project_id x = Some project) (rows :: provider_connection list)"

definition pc_list_by_type where
  "pc_list_by_type org pt limit c rows =
     list_page limit c ''asc'' (\<lambda>x. pc_organization_id x = org \<and> pc_provider_type x = pt) (rows :: provider_connection list)"

definition pc_list_recent_failures :: "ident \<Rightarrow> nat \<Rightarrow> provider_connection list \<Rightarrow> provider_connection list" where
  "pc_list_recent_failures org limit rows =
     take limit (order_desc (\<lambda>c. case pc_last_failure_at c of None \<Rightarrow> 0 | Some t \<Rightarrow> t)
       (filter (\<lambda>c. pc_organization_id c = org \<and> row_deleted_at c = None \<and> pc_last_failure_at c \<noteq> None) rows))"

datatype conn_error =
    Conn_not_found | Conn_bad_type | Conn_encryption encryption_error | Conn_config config_error | Conn_repo repo_error

definition get_owned_connection :: "ident \<Rightarrow> ident \<Rightarrow> provider_connection list \<Rightarrow> conn_error + provider_connection" where
  "get_owned_connection org i rows =
     (case repo_get i rows of
        Inl e \<Rightarrow> Inl (Conn_repo e)
      | Inr None \<Rightarrow> Inl Conn_not_found
      | Inr (Some c) \<Rightarrow> if pc_organization_id c = org then Inr c else Inl Conn_not_found)"

record connection_body =
  cb_provider_type :: string
  cb_display_name :: string
  cb_api_key :: "string option"
  cb_base_url :: "string option"
  cb_project_id :: "ident option"

definition map_err :: "('e \<Rightarrow> 'f) \<Rightarrow> 'e + 'a \<Rightarrow> 'f + 'a" where
  "map_err f r = (case r of Inl e \<Rightarrow> Inl (f e) | Inr x \<Rightarrow> Inr x)"

lemma map_err_Inr [simp]: "map_err f r = Inr x \<longleftrightarrow> r = Inr x"
  by (cases r) (simp_all add: map_err_def)

definition create_provider_connection ::
  "'k cipher \<Rightarrow> 'k encryption_service \<Rightarrow> (string \<Rightarrow> parsed_url option) \<Rightarrow> (provider_config \<Rightarrow> probe_error option)
   \<Rightarrow> micros \<Rightarrow> ident \<Rightarrow> ident \<Rightarrow> connection_body \<Rightarrow> provider_connection list \<Rightarrow> conn_error + provider_connection list" where
  "create_provider_connection ci en urlparse probe now i org b rows =
     (case parse_provider_type (cb_provider_type b) of
        None \<Rightarrow> Inl Conn_bad_type
      | Some pt \<Rightarrow>
          and_then (case cb_api_key b of
                      None \<Rightarrow> Inr None
                    | Some [] \<Rightarrow> Inr None
                    | Some k \<Rightarrow> and_then (map_err Conn_encryption (encrypt ci en k)) (\<lambda>t. Inr (Some t))) (\<lambda>key.
          let c = \<lparr>row_id = i, row_created_at = now, row_updated_at = now, row_deleted_at = None, row_deleted_by = None,
                   pc_organization_id = org, pc_project_id = cb_project_id b, pc_provider_name = cb_provider_type b,
                   pc_display_name = cb_display_name b, pc_encrypted_api_key = key, pc_base_url = cb_base_url b,
                   pc_provider_type = pt, pc_is_active = True, pc_health_status = H_UNKNOWN,
                   pc_last_failure_at = None, pc_last_recovery_at = None, pc_consecutive_failure_count = 0,
                   pc_last_validation_status = None, pc_last_error = None\<rparr>
          in and_then (map_err Conn_repo (repo_create c rows)) (\<lambda>rows1.
             if key \<noteq> None \<or> pt = OLLAMA
             then and_then (map_err Conn_config
                    (check_and_persist urlparse probe now c (cb_api_key b) (cb_base_url b) rows1)) (\<lambda>(_, rows2). Inr rows2)
             else Inr rows1)))"

definition rotate_provider_connection_key ::
  "'k cipher \<Rightarrow> 'k encryption_service \<Rightarrow> (string \<Rightarrow> parsed_url option) \<Rightarrow> (provider_config \<Rightarrow> probe_error option)
   \<Rightarrow> micros \<Rightarrow> ident \<Rightarrow> ident \<Rightarrow> string \<Rightarrow> provider_connection list \<Rightarrow> conn_error + provider_connection list" where
  "rotate_provider_connection_key ci en urlparse probe now org i key rows =
     and_then (get_owned_connection org i rows) (\<lambda>c.
     and_then (map_err Conn_encryption (encrypt ci en key)) (\<lambda>t.
     and_then (map_err Conn_config
       (check_and_persist urlparse probe now c (Some key) (pc_base_url c)
         (repo_update now i (\<lambda>c. c\<lparr>pc_encrypted_api_key := Some t\<rparr>) rows))) (\<lambda>(_, rows1). Inr rows1)))"

definition delete_provider_connection ::
  "micros \<Rightarrow> ident \<Rightarrow> ident \<Rightarrow> provider_connection list \<Rightarrow> conn_error + provider_connection list" where
  "delete_provider_connection now org i rows =
     and_then (get_owned_connection org i rows) (\<lambda>c. Inr (repo_soft_delete now None i rows))"

definition credential_of ::
  "'k cipher \<Rightarrow> 'k encryption_service \<Rightarrow> provider_connection \<Rightarrow> encryption_error + string option" where
  "credential_of ci en c =
     (case pc_encrypted_api_key c of
        None \<Rightarrow> Inr None
      | Some [] \<Rightarrow> Inr None
      | Some t \<Rightarrow> and_then (decrypt ci en t) (\<lambda>k. Inr (Some k)))"

definition test_provider_connection ::
  "'k cipher \<Rightarrow> 'k encryption_service \<Rightarrow> (string \<Rightarrow> parsed_url option) \<Rightarrow> (provider_config \<Rightarrow> probe_error option)
   \<Rightarrow> micros \<Rightarrow> ident \<Rightarrow> ident \<Rightarrow> provider_connection list
   \<Rightarrow> conn_error + (validation_result \<times> provider_connection list)" where
  "test_provider_connection ci en urlparse probe now org i rows =
     and_then (get_owned_connection org i rows) (\<lambda>c.
     and_then (map_err Conn_encryption (credential_of ci en c)) (\<lambda>key.
       map_err Conn_config (check_and_persist urlparse probe now c key (pc_base_url c) rows)))"

text \<open>The list of an organization: one page, each row with its masked key.\<close>

fun masked_rows ::
  "'k cipher \<Rightarrow> 'k encryption_service \<Rightarrow> provider_connection list \<Rightarrow> conn_error + (provider_connection \<times> string option) list" where
  "masked_rows ci en [] = Inr []"
| "masked_rows ci en (c # cs) =
     and_then (map_err Conn_encryption (masked ci en (pc_encrypted_api_key c))) (\<lambda>m.
     and_then (masked_rows ci en cs) (\<lambda>rest. Inr ((c, m) # rest)))"

definition list_provider_connections ::
  "'k cipher \<Rightarrow> 'k encryption_service \<Rightarrow> ident \<Rightarrow> provider_connection list
   \<Rightarrow> conn_error + (provider_connection \<times> string option) list" where
  "list_provider_connections ci en org rows =
     and_then (map_err Conn_repo (pc_list_by_org org 100 None ''asc'' rows)) (\<lambda>p. masked_rows ci en (pg_items p))"

section \<open>Synchronisation\<close>

datatype sync_error =
    SE_encryption encryption_error | SE_config config_error | SE_repo repo_error | SE_collect collect_error

definition DEFAULT_LOOKBACK_DAYS :: int where "DEFAULT_LOOKBACK_DAYS = 30"

definition effective_start :: "checkpoint option \<Rightarrow> micros \<Rightarrow> int \<Rightarrow> micros" where
  "effective_start ck end_date lookback_days =
     (let default_start = end_date - lookback_days * 86400000000
      in case ck of
           None \<Rightarrow> default_start
         | Some c \<Rightarrow> if ck_last_collected_at c < end_date then max (ck_last_collected_at c) default_start else default_start)"

record sync_env =
  sy_fuel :: nat
  sy_adapter :: "provider_config \<Rightarrow> adapter"
  sy_page_limit :: nat
  sy_pricing :: "model_pricing list"
  sy_urlparse :: "string \<Rightarrow> parsed_url option"

text \<open>The run that \<open>collect\<close> returns is the row it created, under the identifier it drew.\<close>

definition sync_connection ::
  "sync_env \<Rightarrow> 'k cipher \<Rightarrow> 'k encryption_service \<Rightarrow> micros \<Rightarrow> ident \<Rightarrow> run_trigger \<Rightarrow> int \<Rightarrow> provider_connection
   \<Rightarrow> collect_state \<Rightarrow> ((sync_error + collection_run) \<times> collect_state) option" where
  "sync_connection env ci en now org trig lookback c s =
     (let provider = provider_type_value (pc_provider_type c)
      in case ck_get_by_org_provider org provider (Some (row_id c)) (cs_checkpoints s) of
           Inl e \<Rightarrow> Some (Inl (SE_repo e), s)
         | Inr ck \<Rightarrow>
             (case credential_of ci en c of
                Inl e \<Rightarrow> Some (Inl (SE_encryption e), s)
              | Inr key \<Rightarrow>
                  (case build_provider_config (sy_urlparse env) (pc_provider_type c) key (pc_base_url c) of
                     Inl e \<Rightarrow> Some (Inl (SE_config e), s)
                   | Inr cf \<Rightarrow>
                       (case collect (sy_fuel env) (sy_adapter env cf) (sy_page_limit env) (sy_pricing env) now
                               \<lparr>ca_organization_id = org, ca_provider = provider, ca_connection_id = Some (row_id c),
                                ca_project_id = pc_project_id c, ca_start = effective_start ck now lookback,
                                ca_end = now, ca_trigger = trig, ca_has_config = True\<rparr> s of
                          None \<Rightarrow> None
                        | Some (Inr t, s') \<Rightarrow>
                            Some (case List.find (\<lambda>r. row_id r = cs_next_id s) (cs_runs s') of
                                    Some r \<Rightarrow> Inr r | None \<Rightarrow> Inl (SE_repo NoSuchRecord), s')
                        | Some (Inl e, s') \<Rightarrow>
                            Some (case cn_latest_for_connection org (row_id c) None (cs_runs s') of
                                    Inl re \<Rightarrow> Inl (SE_repo re)
                                  | Inr None \<Rightarrow> Inl (SE_collect e)
                                  | Inr (Some r) \<Rightarrow> Inr r, s')))))"

fun sync_connections ::
  "sync_env \<Rightarrow> 'k cipher \<Rightarrow> 'k encryption_service \<Rightarrow> micros \<Rightarrow> ident \<Rightarrow> run_trigger \<Rightarrow> int \<Rightarrow> provider_connection list
   \<Rightarrow> collect_state \<Rightarrow> ((sync_error + collection_run list) \<times> collect_state) option" where
  "sync_connections env ci en now org trig lookback [] s = Some (Inr [], s)"
| "sync_connections env ci en now org trig lookback (c # cs) s =
     (case sync_connection env ci en now org trig lookback c s of
        None \<Rightarrow> None
      | Some (Inl e, s1) \<Rightarrow> Some (Inl e, s1)
      | Some (Inr r, s1) \<Rightarrow>
          (case sync_connections env ci en now org trig lookback cs s1 of
             None \<Rightarrow> None
           | Some (res, s2) \<Rightarrow> Some (map_sum id (\<lambda>rs. r # rs) res, s2)))"

definition sync_all_connections ::
  "sync_env \<Rightarrow> 'k cipher \<Rightarrow> 'k encryption_service \<Rightarrow> micros \<Rightarrow> ident \<Rightarrow> run_trigger \<Rightarrow> int \<Rightarrow> provider_connection list
   \<Rightarrow> collect_state \<Rightarrow> ((sync_error + collection_run list) \<times> collect_state) option" where
  "sync_all_connections env ci en now org trig lookback conns s =
     (case pc_list_active_by_org org 100 None ''asc'' conns of
        Inl e \<Rightarrow> Some (Inl (SE_repo e), s)
      | Inr p \<Rightarrow> sync_connections env ci en now org trig lookback (pg_items p) s)"

fun display_status :: "run_status \<Rightarrow> string" where
  "display_status R_PENDING = ''pending''"
| "display_status R_RUNNING = ''running''"
| "display_status R_COMPLETED = ''success''"
| "display_status R_FAILED = ''failed''"
| "display_status R_CANCELLED = ''failed''"

definition KNOWN_USAGE_API_PROVIDERS :: "string list" where
  "KNOWN_USAGE_API_PROVIDERS = [''openai'', ''anthropic'', ''openrouter'']"

record sync_status =
  st_sync_status :: string
  st_last_started_at :: "micros option"
  st_last_completed_at :: "micros option"
  st_last_successful_at :: "micros option"
  st_last_error :: "collect_error option"
  st_last_imported_at :: "micros option"
  st_records_imported :: nat
  st_tokens_imported :: int
  st_costs :: "(string \<times> cost_totals) list"
  st_supports_usage_sync :: bool

definition get_sync_status ::
  "ident \<Rightarrow> provider_connection \<Rightarrow> collect_state \<Rightarrow> repo_error + sync_status" where
  "get_sync_status org c s =
     and_then (cn_latest_for_connection org (row_id c) None (cs_runs s)) (\<lambda>latest.
     and_then (cn_latest_for_connection org (row_id c) (Some R_COMPLETED) (cs_runs s)) (\<lambda>success.
     and_then (ck_get_by_org_provider org (provider_type_value (pc_provider_type c)) (Some (row_id c)) (cs_checkpoints s)) (\<lambda>ck.
     let (records, tokens) = ue_totals_by_connection (row_id c) (cs_events s)
     in Inr \<lparr>st_sync_status = (case latest of None \<Rightarrow> ''never_synced'' | Some r \<Rightarrow> display_status (cn_status r)),
             st_last_started_at = map_option cn_started_at latest,
             st_last_completed_at = (case latest of None \<Rightarrow> None | Some r \<Rightarrow> cn_completed_at r),
             st_last_successful_at = (case success of None \<Rightarrow> None | Some r \<Rightarrow> cn_completed_at r),
             st_last_error = (case latest of None \<Rightarrow> None | Some r \<Rightarrow> cn_error r),
             st_last_imported_at = map_option ck_last_collected_at ck,
             st_records_imported = records, st_tokens_imported = tokens,
             st_costs = get_totals_by_connection (row_id c) (cs_costs s),
             st_supports_usage_sync = (provider_type_value (pc_provider_type c) \<in> set KNOWN_USAGE_API_PROVIDERS)\<rparr>)))"

lemma sync_connections_fails:
  assumes "c \<in> set cs" and "credential_of ci en c = Inr key"
    and "build_provider_config (sy_urlparse env) (pc_provider_type c) key (pc_base_url c) = Inl e"
  shows "sync_connections env ci en now org trig lookback cs s \<noteq> Some (Inr rs, s')"
  using assms(1)
proof (induction cs arbitrary: s rs)
  case (Cons d ds)
  show ?case
  proof (cases "d = c")
    case True
    have "\<exists>e. sync_connection env ci en now org trig lookback c s = Some (Inl e, s)"
      by (simp add: sync_connection_def assms(2,3) Let_def split: sum.split)
    then show ?thesis by (auto simp: True)
  next
    case False
    with Cons.prems have "c \<in> set ds" by simp
    note ih = Cons.IH [OF this]
    show ?thesis
    proof
      assume "sync_connections env ci en now org trig lookback (d # ds) s = Some (Inr rs, s')"
      then obtain r res s1 where "sync_connections env ci en now org trig lookback ds s1 = Some (res, s')"
        and "map_sum id (\<lambda>rs. r # rs) res = Inr rs"
        by (auto split: option.splits sum.splits prod.splits)
      with ih show False by (cases res) auto
    qed
  qed
qed simp

section \<open>Properties\<close>

text \<open>What is encrypted under a key is decrypted by a service whose current or previous key it is, so a
  credential survives one rotation of the secret; once both keys are others it is reported as undecryptable,
  never as another text. The hypotheses are the laws of authenticated encryption.\<close>

theorem credential_roundtrip:
  assumes "\<And>k p. ci_decrypt ci k (ci_encrypt ci k p) = Some p"
    and "\<And>k k' p. k \<noteq> k' \<Longrightarrow> ci_decrypt ci k' (ci_encrypt ci k p) = None"
    and "p \<noteq> []"
  shows "\<exists>t. encrypt ci (encryption_init k prev) p = Inr t
    \<and> (\<forall>prev'. decrypt ci (encryption_init k prev') t = Inr p)
    \<and> (\<forall>k'. decrypt ci (encryption_init k' (Some k)) t = Inr p)
    \<and> (\<forall>k1 k2. k \<notin> {k1, k2} \<longrightarrow> decrypt ci (encryption_init k1 (Some k2)) t = Inl Undecryptable)"
proof -
  obtain t where t: "encrypt ci (encryption_init k prev) p = Inr t"
    using assms(3) by (auto simp: encrypt_def encryption_init_def)
  note d = decrypt_encrypted [OF t] encryption_init_def Let_def assms(1)
  have "decrypt ci (encryption_init k' (Some k)) t = Inr p" for k'
    by (cases "k' = k") (simp_all add: d assms(2))
  with t show ?thesis by (auto simp: d assms(2))
qed

definition toy_cipher :: "bool cipher" where
  "toy_cipher = \<lparr>ci_encrypt = (\<lambda>k p. (if k then CHR ''a'' else CHR ''b'') # p),
     ci_decrypt = (\<lambda>k t. case t of [] \<Rightarrow> None | c # p \<Rightarrow> if c = (if k then CHR ''a'' else CHR ''b'') then Some p else None)\<rparr>"

theorem credential_roundtrip_witness:
  "\<exists>t. encrypt toy_cipher (encryption_init True None) ''sk-1'' = Inr t
     \<and> decrypt toy_cipher (encryption_init False (Some True)) t = Inr ''sk-1''"
proof -
  have "ci_decrypt toy_cipher k (ci_encrypt toy_cipher k p) = Some p" for k p by (simp add: toy_cipher_def)
  moreover have "ci_decrypt toy_cipher k' (ci_encrypt toy_cipher k p) = None" if "k \<noteq> k'" for k k' p
    using that by (auto simp: toy_cipher_def)
  moreover have "''sk-1'' \<noteq> []" by simp
  ultimately show ?thesis using credential_roundtrip [of toy_cipher "''sk-1''" True None] by blast
qed

text \<open>The health record follows the probes: after any sequence of checks the status, the validation
  status and the message are those of the last check, a message is kept exactly when it failed, and the failure
  count is the number of checks since the last healthy one (or since before the first).\<close>

theorem health_follows_probes:
  assumes "c' = fold (\<lambda>(t, r). persist_health t r) (prs @ [(t, r)]) c"
    and "validate_credential urlparse probe pt key url = Inr r"
  shows "pc_health_status c' = health_status_for (vr_validation_status r)
    \<and> pc_last_validation_status c' = Some (vr_validation_status r)
    \<and> (pc_last_error c' = None \<longleftrightarrow> vr_validation_status r = V_HEALTHY)
    \<and> pc_consecutive_failure_count c' =
        (let failed = takeWhile (\<lambda>r. vr_validation_status r \<noteq> V_HEALTHY) (rev (map snd (prs @ [(t, r)])))
         in if length failed = length prs + 1 then pc_consecutive_failure_count c + length failed else length failed)"
proof -
  have count: "pc_consecutive_failure_count (fold (\<lambda>(t, r). persist_health t r) ps c) =
      (let failed = takeWhile (\<lambda>r. vr_validation_status r \<noteq> V_HEALTHY) (rev (map snd ps))
       in if length failed = length ps then pc_consecutive_failure_count c + length failed else length failed)" for ps
  proof (induction ps rule: rev_induct)
    case (snoc p ps)
    have "length (takeWhile P (rev (map snd ps))) \<le> length ps" for P :: "validation_result \<Rightarrow> bool"
      using length_takeWhile_le [of P "rev (map snd ps)"] by simp
    with snoc show ?case
      by (cases p) (auto simp: persist_health_def vr_is_healthy_def Let_def)
  qed simp
  have "vr_health_status r = health_status_for (vr_validation_status r)"
    using assms(2) by (auto simp: validate_credential_def result_of_def split: sum.splits config_error.splits)
  with count [of "prs @ [(t, r)]"] show ?thesis
    by (auto simp: assms(1) persist_health_def vr_is_healthy_def Let_def)
qed

definition sample_connection :: "ident \<Rightarrow> provider_type \<Rightarrow> provider_connection" where
  "sample_connection i pt = \<lparr>row_id = i, row_created_at = int i, row_updated_at = 0, row_deleted_at = None,
     row_deleted_by = None, pc_organization_id = 1, pc_project_id = None, pc_provider_name = [], pc_display_name = ''d'',
     pc_encrypted_api_key = None, pc_base_url = None, pc_provider_type = pt, pc_is_active = True,
     pc_health_status = H_UNKNOWN, pc_last_failure_at = None, pc_last_recovery_at = None,
     pc_consecutive_failure_count = 0, pc_last_validation_status = None, pc_last_error = None\<rparr>"

theorem health_follows_probes_witness:
  "\<exists>c'. c' = fold (\<lambda>(t, r). persist_health t r)
       ([(1, result_of V_TIMEOUT None), (2, result_of V_HEALTHY None), (3, result_of V_TIMEOUT None)]
        @ [(4, result_of V_UNAUTHORIZED None)]) (sample_connection 1 OPENAI)
     \<and> pc_consecutive_failure_count c' = 2 \<and> pc_health_status c' = H_CRITICAL"
proof -
  have "validate_credential (\<lambda>_. None) (\<lambda>_. Some (Authentication_error ''Forbidden'')) OPENAI (Some ''k'') None
      = Inr (result_of V_UNAUTHORIZED None)" by code_simp
  from health_follows_probes [OF refl this, of "[(1, result_of V_TIMEOUT None), (2, result_of V_HEALTHY None), (3, result_of V_TIMEOUT None)]"
      4 "sample_connection 1 OPENAI"]
  show ?thesis by (simp add: result_of_def)
qed

text \<open>C39: a configuration is built only for a URL that passes the guard: it parses, has a host that is not a
  metadata service, and for every provider but the self-hosted one it uses https and is neither the local host
  nor a literal internal address.\<close>

theorem ssrf_guard:
  assumes "build_provider_config urlparse pt key url = Inr cf" and "cf_base_url cf = Some u"
  shows "\<exists>p. urlparse u = Some p \<and> py_lower (pu_hostname p) \<notin> set BLOCKED_METADATA_HOSTS \<and> pu_hostname p \<noteq> []
    \<and> (pt \<noteq> OLLAMA \<longrightarrow> py_lower (pu_scheme p) = ''https'' \<and> py_lower (pu_hostname p) \<noteq> ''localhost''
         \<and> pu_internal p \<noteq> Some True)"
proof -
  have "\<exists>url' key'. make_config urlparse (pt = OLLAMA) pt key' url' = Inr cf"
    using assms(1) by (cases pt) (auto simp: build_provider_config_def Let_def split: if_splits)
  then have "check_ssrf urlparse (pt = OLLAMA) u = Inr ()"
    using assms(2) by (auto simp: make_config_def and_then_Inr_iff split: option.splits)
  then obtain p where "urlparse u = Some p" and
    "py_lower (pu_hostname p) \<notin> set BLOCKED_METADATA_HOSTS \<and> py_lower (pu_hostname p) \<noteq> []
     \<and> (pt \<noteq> OLLAMA \<longrightarrow> py_lower (pu_scheme p) = ''https'' \<and> py_lower (pu_hostname p) \<noteq> ''localhost''
          \<and> pu_internal p \<noteq> Some True)"
    by (auto simp: check_ssrf_def Let_def split: option.splits if_splits)
  then show ?thesis by (auto simp: py_lower_def)
qed

theorem ssrf_guard_witness:
  "\<exists>p. (\<lambda>u. Some \<lparr>pu_scheme = ''https'', pu_hostname = u, pu_internal = None\<rparr>) ''api'' = Some p
     \<and> py_lower (pu_hostname p) \<notin> set BLOCKED_METADATA_HOSTS"
proof -
  let ?up = "\<lambda>u. Some \<lparr>pu_scheme = ''https'', pu_hostname = u, pu_internal = None\<rparr>"
  have "build_provider_config ?up OPENAI None (Some ''api'')
      = Inr \<lparr>cf_provider_type = OPENAI, cf_api_key = None, cf_base_url = Some ''api''\<rparr>"
    by code_simp
  from ssrf_guard [OF this, of "''api''"] show ?thesis by auto
qed

text \<open>The guard compares host names as text, and an address written as one decimal number is no address
  to the parser of literal addresses: it passes for every provider, although resolvers read 2852039166 as the
  metadata address 169.254.169.254 and 2130706433 as the loopback address.\<close>

theorem decimal_address_passes:
  assumes "urlparse u = Some \<lparr>pu_scheme = ''https'', pu_hostname = host, pu_internal = None\<rparr>"
    and "host = ''2852039166'' \<or> host = ''2130706433''"
    and "u \<noteq> []" and "pt \<notin> {COHERE, BEDROCK, MISTRAL}"
  shows "build_provider_config urlparse pt None (Some u) = Inr \<lparr>cf_provider_type = pt, cf_api_key = None, cf_base_url = Some u\<rparr>"
proof -
  have "py_lower ''2852039166'' = ''2852039166''" "py_lower ''2130706433'' = ''2130706433''"
    "py_lower ''https'' = ''https''" by code_simp+
  then have "check_ssrf urlparse allow u = Inr ()" for allow
    using assms(1,2) by (auto simp: check_ssrf_def BLOCKED_METADATA_HOSTS_def)
  moreover have "or_default (Some u) d = u" for d using assms(3) by (cases u) (simp_all add: or_default_def)
  ultimately show ?thesis
    using assms(3,4) by (cases pt) (simp_all add: build_provider_config_def make_config_def)
qed

theorem decimal_address_passes_witness:
  "build_provider_config (\<lambda>_. Some \<lparr>pu_scheme = ''https'', pu_hostname = ''2852039166'', pu_internal = None\<rparr>)
     OPENAI None (Some ''https://2852039166'')
   = Inr \<lparr>cf_provider_type = OPENAI, cf_api_key = None, cf_base_url = Some ''https://2852039166''\<rparr>"
  by (rule decimal_address_passes [where host = "''2852039166''"]) simp_all

text \<open>One connection that cannot be configured (a Cohere, Bedrock or Mistral connection, an Azure
  connection without URL) makes the synchronisation of its whole organization fail, whatever the other
  connections answer: no list of runs is ever returned.\<close>

theorem broken_connection_blocks_sync:
  assumes "pc_list_active_by_org org 100 None ''asc'' conns = Inr p" and "c \<in> set (pg_items p)"
    and "credential_of ci en c = Inr key"
    and "pc_provider_type c \<in> {COHERE, BEDROCK, MISTRAL} \<or> pc_provider_type c = AZURE_OPENAI \<and> pc_base_url c = None"
  shows "sync_all_connections env ci en now org trig lookback conns s \<noteq> Some (Inr rs, s')"
proof -
  obtain e where "build_provider_config (sy_urlparse env) (pc_provider_type c) key (pc_base_url c) = Inl e"
    using assms(4) by (auto simp: build_provider_config_def Let_def)
  from sync_connections_fails [OF assms(2,3) this] show ?thesis by (simp add: sync_all_connections_def assms(1))
qed

definition sample_env :: sync_env where
  "sample_env = \<lparr>sy_fuel = 9, sy_adapter = (\<lambda>_. two_pages), sy_page_limit = 100, sy_pricing = [], sy_urlparse = (\<lambda>_. None)\<rparr>"

theorem broken_connection_blocks_sync_witness:
  "\<not> (\<exists>rs s'. sync_all_connections sample_env toy_cipher (encryption_init True None) 5 1 T_SCHEDULED 30
        [sample_connection 1 OPENAI, sample_connection 2 COHERE] empty_state = Some (Inr rs, s'))"
proof -
  let ?cs = "[sample_connection 1 OPENAI, sample_connection 2 COHERE]"
  have p: "pc_list_active_by_org 1 100 None ''asc'' ?cs
      = Inr \<lparr>pg_items = ?cs, pg_next_cursor = None, pg_has_more = False\<rparr>" by code_simp
  have k: "credential_of toy_cipher (encryption_init True None) (sample_connection 2 COHERE) = Inr None"
    by (simp add: credential_of_def sample_connection_def)
  from broken_connection_blocks_sync [OF p _ k] show ?thesis by (simp add: sample_connection_def)
qed

end
