(* ===== verification/Alerts.thy ===== *)
theory Alerts
  imports Repository
begin

text \<open>
  The alert engine: \<open>models/alert.py\<close>, \<open>repositories/alert_repository.py\<close>, \<open>alerts/dedup.py\<close>,
  \<open>alerts/suppression.py\<close>, \<open>alerts/dispatcher.py\<close> (\<open>AlertService.fire\<close>) and the lifecycle
  handlers of \<open>api/v1/alerts.py\<close>. The state is the alert and suppression tables, the events handed to
  the event bus and the Prometheus counters; SHA-256 is a parameter, metadata values are their text.
\<close>

section \<open>Enumerations\<close>

datatype alert_type =
    BUDGET_THRESHOLD | BUDGET_EXCEEDED | DAILY_SPEND_SPIKE | HOURLY_SPEND_SPIKE | PROVIDER_ERROR
  | PROVIDER_RECOVERY | SDK_OFFLINE | SDK_RECONNECTED | API_KEY_CREATED | API_KEY_REVOKED
  | API_KEY_EXPIRED | ORG_MEMBER_ADDED | ORG_MEMBER_REMOVED | HIGH_LATENCY | RATE_LIMIT_SPIKE
  | LARGE_COST_INCREASE | USAGE_INGESTION_FAILURE | WEBHOOK_DELIVERY_FAILURE

fun alert_type_value :: "alert_type \<Rightarrow> string" where
  "alert_type_value BUDGET_THRESHOLD = ''budget_threshold''"
| "alert_type_value BUDGET_EXCEEDED = ''budget_exceeded''"
| "alert_type_value DAILY_SPEND_SPIKE = ''daily_spend_spike''"
| "alert_type_value HOURLY_SPEND_SPIKE = ''hourly_spend_spike''"
| "alert_type_value PROVIDER_ERROR = ''provider_error''"
| "alert_type_value PROVIDER_RECOVERY = ''provider_recovery''"
| "alert_type_value SDK_OFFLINE = ''sdk_offline''"
| "alert_type_value SDK_RECONNECTED = ''sdk_reconnected''"
| "alert_type_value API_KEY_CREATED = ''api_key_created''"
| "alert_type_value API_KEY_REVOKED = ''api_key_revoked''"
| "alert_type_value API_KEY_EXPIRED = ''api_key_expired''"
| "alert_type_value ORG_MEMBER_ADDED = ''org_member_added''"
| "alert_type_value ORG_MEMBER_REMOVED = ''org_member_removed''"
| "alert_type_value HIGH_LATENCY = ''high_latency''"
| "alert_type_value RATE_LIMIT_SPIKE = ''rate_limit_spike''"
| "alert_type_value LARGE_COST_INCREASE = ''large_cost_increase''"
| "alert_type_value USAGE_INGESTION_FAILURE = ''usage_ingestion_failure''"
| "alert_type_value WEBHOOK_DELIVERY_FAILURE = ''webhook_delivery_failure''"

datatype alert_severity = INFO | LOW | MEDIUM | HIGH | CRITICAL

fun severity_rank :: "alert_severity \<Rightarrow> nat" where
  "severity_rank INFO = 0"
| "severity_rank LOW = 1"
| "severity_rank MEDIUM = 2"
| "severity_rank HIGH = 3"
| "severity_rank CRITICAL = 4"

instantiation alert_severity :: linorder
begin

definition less_eq_alert_severity :: "alert_severity \<Rightarrow> alert_severity \<Rightarrow> bool" where
  "a \<le> b \<longleftrightarrow> severity_rank a \<le> severity_rank b"

definition less_alert_severity :: "alert_severity \<Rightarrow> alert_severity \<Rightarrow> bool" where
  "a < b \<longleftrightarrow> severity_rank a < severity_rank b"

instance
proof
  fix a b :: alert_severity
  show "a \<le> b \<Longrightarrow> b \<le> a \<Longrightarrow> a = b"
    by (cases a; cases b) (simp_all add: less_eq_alert_severity_def)
qed (auto simp: less_eq_alert_severity_def less_alert_severity_def)

end

datatype alert_status = OPEN | ACKNOWLEDGED | RESOLVED | DISMISSED

datatype suppression_scope = Scope_organization | Scope_provider | Scope_alert_type

datatype event_type =
    USAGE_CREATED | USAGE_UPDATED | BUDGET_THRESHOLD_REACHED | EV_BUDGET_EXCEEDED | EV_PROVIDER_ERROR
  | EV_PROVIDER_RECOVERY | EV_API_KEY_CREATED | API_KEY_DELETED | SDK_CONNECTED | SDK_DISCONNECTED
  | ORGANIZATION_UPDATED | NOTIFICATION_CREATED

section \<open>Tables\<close>

type_synonym metadata = "(string \<times> string) list"

record alert = base_row +
  al_organization_id :: ident
  al_rule_id :: "ident option"
  al_type :: alert_type
  al_severity :: alert_severity
  al_status :: alert_status
  al_title :: string
  al_message :: string
  al_source :: string
  al_dedup_key :: string
  al_count :: nat
  al_metadata :: metadata
  al_first_at :: micros
  al_last_at :: micros
  al_ack_by :: "ident option"
  al_ack_at :: "micros option"
  al_ack_reason :: "string option"
  al_resolved_at :: "micros option"
  al_dismissed_at :: "micros option"

record alert_suppression = base_row +
  sp_organization_id :: ident
  sp_scope :: suppression_scope
  sp_target :: "string option"
  sp_starts_at :: micros
  sp_ends_at :: "micros option"

record realtime_event =
  ev_organization_id :: ident
  ev_type :: event_type
  ev_alert_id :: ident
  ev_alert_type :: alert_type
  ev_severity :: alert_severity
  ev_status :: alert_status
  ev_occurrences :: nat
  ev_metadata :: metadata

record alert_state =
  as_alerts :: "alert list"
  as_suppressions :: "alert_suppression list"
  as_published :: "realtime_event list"
  as_created_total :: nat
  as_dedup_total :: nat
  as_suppressed_total :: nat
  as_ack_total :: nat

section \<open>Repositories\<close>

definition find_open_by_dedup_key :: "ident \<Rightarrow> string \<Rightarrow> alert list \<Rightarrow> alert option" where
  "find_open_by_dedup_key org key rows =
     scalar_first (filter (\<lambda>a. al_organization_id a = org \<and> al_dedup_key a = key \<and> al_status a = OPEN)
       (active_query rows))"

definition alerts_for_org ::
  "ident \<Rightarrow> alert_status option \<Rightarrow> alert_severity option \<Rightarrow> alert_type option \<Rightarrow> micros option
   \<Rightarrow> micros option \<Rightarrow> string option \<Rightarrow> nat \<Rightarrow> alert list \<Rightarrow> alert list" where
  "alerts_for_org org status severity alert_type since until search limit rows =
     take (min limit 200)
       (order_desc row_created_at
         (filter (\<lambda>a. al_organization_id a = org
            \<and> (status = None \<or> status = Some (al_status a))
            \<and> (severity = None \<or> severity = Some (al_severity a))
            \<and> (alert_type = None \<or> alert_type = Some (al_type a))
            \<and> (case since of None \<Rightarrow> True | Some t \<Rightarrow> t \<le> row_created_at a)
            \<and> (case until of None \<Rightarrow> True | Some t \<Rightarrow> row_created_at a \<le> t)
            \<and> (case search of None \<Rightarrow> True | Some [] \<Rightarrow> True
               | Some q \<Rightarrow> (let like = CHR ''%'' # q @ [CHR ''%'']
                           in sql_ilike like (al_title a) \<or> sql_ilike like (al_message a))))
           (active_query rows)))"

definition count_open_unacknowledged :: "ident \<Rightarrow> alert list \<Rightarrow> nat" where
  "count_open_unacknowledged org rows = repo_count (\<lambda>a. al_organization_id a = org \<and> al_status a = OPEN) rows"

definition list_active_suppressions :: "ident \<Rightarrow> micros \<Rightarrow> alert_suppression list \<Rightarrow> alert_suppression list" where
  "list_active_suppressions org now rows =
     filter (\<lambda>s. sp_organization_id s = org \<and> sp_starts_at s \<le> now
       \<and> (case sp_ends_at s of None \<Rightarrow> True | Some e \<Rightarrow> now \<le> e)) (active_query rows)"

definition suppressions_for_org :: "ident \<Rightarrow> alert_suppression list \<Rightarrow> alert_suppression list" where
  "suppressions_for_org org rows =
     order_desc row_created_at (filter (\<lambda>s. sp_organization_id s = org) (active_query rows))"

section \<open>Deduplication keys and suppression\<close>

definition build_dedup_key :: "(string \<Rightarrow> string) \<Rightarrow> alert_type \<Rightarrow> string \<Rightarrow> string" where
  "build_dedup_key sha256_hex t scope = take 64 (sha256_hex (alert_type_value t @ '':'' @ scope))"

definition budget_scope :: "string \<Rightarrow> string" where "budget_scope project_id = ''project:'' @ project_id"
definition provider_scope :: "string \<Rightarrow> string" where "provider_scope name = ''provider:'' @ name"
definition api_key_scope :: "string \<Rightarrow> string" where "api_key_scope key_id = ''api_key:'' @ key_id"
definition membership_scope :: "string \<Rightarrow> string \<Rightarrow> string" where
  "membership_scope org email = ''membership:'' @ org @ '':'' @ email"

definition budget_threshold_scope :: "string \<Rightarrow> string \<Rightarrow> string \<Rightarrow> string" where
  "budget_threshold_scope budget_id period_key threshold =
     ''budget:'' @ budget_id @ '':'' @ period_key @ '':'' @ threshold"

fun first_suppression :: "alert_type \<Rightarrow> string option \<Rightarrow> alert_suppression list \<Rightarrow> alert_suppression option" where
  "first_suppression t provider [] = None"
| "first_suppression t provider (s # ss) =
     (if sp_scope s = Scope_organization then Some s
      else if sp_scope s = Scope_alert_type \<and> sp_target s = Some (alert_type_value t) then Some s
      else if sp_scope s = Scope_provider \<and> provider \<noteq> None \<and> sp_target s = provider then Some s
      else first_suppression t provider ss)"

definition is_suppressed ::
  "ident \<Rightarrow> alert_type \<Rightarrow> string option \<Rightarrow> micros \<Rightarrow> alert_suppression list \<Rightarrow> alert_suppression option" where
  "is_suppressed org t provider now rows = first_suppression t provider (list_active_suppressions org now rows)"

section \<open>Firing\<close>

fun EVENT_TYPE_MAP :: "alert_type \<Rightarrow> event_type" where
  "EVENT_TYPE_MAP BUDGET_THRESHOLD = BUDGET_THRESHOLD_REACHED"
| "EVENT_TYPE_MAP BUDGET_EXCEEDED = EV_BUDGET_EXCEEDED"
| "EVENT_TYPE_MAP PROVIDER_ERROR = EV_PROVIDER_ERROR"
| "EVENT_TYPE_MAP PROVIDER_RECOVERY = EV_PROVIDER_RECOVERY"
| "EVENT_TYPE_MAP API_KEY_CREATED = EV_API_KEY_CREATED"
| "EVENT_TYPE_MAP API_KEY_REVOKED = API_KEY_DELETED"
| "EVENT_TYPE_MAP ORG_MEMBER_ADDED = ORGANIZATION_UPDATED"
| "EVENT_TYPE_MAP ORG_MEMBER_REMOVED = ORGANIZATION_UPDATED"
| "EVENT_TYPE_MAP _ = NOTIFICATION_CREATED"

record firing =
  fi_organization_id :: ident
  fi_type :: alert_type
  fi_severity :: alert_severity
  fi_title :: string
  fi_message :: string
  fi_source :: string
  fi_scope :: string
  fi_provider :: "string option"
  fi_rule_id :: "ident option"
  fi_metadata :: metadata

definition publish_alert :: "alert \<Rightarrow> realtime_event" where
  "publish_alert a =
     \<lparr>ev_organization_id = al_organization_id a, ev_type = EVENT_TYPE_MAP (al_type a), ev_alert_id = row_id a,
      ev_alert_type = al_type a, ev_severity = al_severity a, ev_status = al_status a,
      ev_occurrences = al_count a, ev_metadata = al_metadata a\<rparr>"

definition merge_metadata :: "metadata \<Rightarrow> metadata \<Rightarrow> metadata" where
  "merge_metadata old new = fold (\<lambda>(k, v). dict_put k v) new old"

definition fold_occurrence :: "micros \<Rightarrow> firing \<Rightarrow> alert \<Rightarrow> alert" where
  "fold_occurrence now f a =
     a\<lparr>al_count := al_count a + 1, al_last_at := now, al_message := fi_message f,
       al_metadata := merge_metadata (al_metadata a) (fi_metadata f)\<rparr>"

definition new_alert :: "micros \<Rightarrow> ident \<Rightarrow> string \<Rightarrow> firing \<Rightarrow> alert" where
  "new_alert now i key f =
     \<lparr>row_id = i, row_created_at = now, row_updated_at = now, row_deleted_at = None, row_deleted_by = None,
      al_organization_id = fi_organization_id f, al_rule_id = fi_rule_id f, al_type = fi_type f,
      al_severity = fi_severity f, al_status = OPEN, al_title = fi_title f, al_message = fi_message f,
      al_source = fi_source f, al_dedup_key = key, al_count = 1, al_metadata = fi_metadata f,
      al_first_at = now, al_last_at = now, al_ack_by = None, al_ack_at = None, al_ack_reason = None,
      al_resolved_at = None, al_dismissed_at = None\<rparr>"

definition fire ::
  "(string \<Rightarrow> string) \<Rightarrow> micros \<Rightarrow> ident \<Rightarrow> firing \<Rightarrow> alert_state \<Rightarrow> repo_error + alert option \<times> alert_state" where
  "fire sha256_hex now new_id f s =
     (case is_suppressed (fi_organization_id f) (fi_type f) (fi_provider f) now (as_suppressions s) of
        Some _ \<Rightarrow> Inr (None, s\<lparr>as_suppressed_total := as_suppressed_total s + 1\<rparr>)
      | None \<Rightarrow>
          let key = build_dedup_key sha256_hex (fi_type f) (fi_scope f)
          in case find_open_by_dedup_key (fi_organization_id f) key (as_alerts s) of
               Some e \<Rightarrow>
                 let a = fold_occurrence now f e
                 in Inr (Some a,
                      s\<lparr>as_alerts := sql_update_where (\<lambda>x. row_id x = row_id e) (fold_occurrence now f) (as_alerts s),
                        as_dedup_total := as_dedup_total s + 1,
                        as_published := as_published s @ [publish_alert a]\<rparr>)
             | None \<Rightarrow>
                 let a = new_alert now new_id key f
                 in and_then (repo_create a (as_alerts s)) (\<lambda>rows.
                      Inr (Some a, s\<lparr>as_alerts := rows, as_created_total := as_created_total s + 1,
                                     as_published := as_published s @ [publish_alert a]\<rparr>)))"

section \<open>Lifecycle handlers\<close>

datatype alert_http = Alert_not_found | Alert_conflict | Alert_invalid | Alert_repo repo_error

definition get_org_alert :: "ident \<Rightarrow> ident \<Rightarrow> alert list \<Rightarrow> alert_http + alert" where
  "get_org_alert org i rows =
     (case repo_get i rows of
        Inl e \<Rightarrow> Inl (Alert_repo e)
      | Inr None \<Rightarrow> Inl Alert_not_found
      | Inr (Some a) \<Rightarrow> if al_organization_id a \<noteq> org then Inl Alert_not_found else Inr a)"

definition transition_alert ::
  "micros \<Rightarrow> ident \<Rightarrow> ident \<Rightarrow> (alert_status \<Rightarrow> bool) \<Rightarrow> (alert \<Rightarrow> alert) \<Rightarrow> alert_state \<Rightarrow> alert_http + alert_state" where
  "transition_alert now org i allowed f s =
     and_then (get_org_alert org i (as_alerts s)) (\<lambda>a.
       if \<not> allowed (al_status a) then Inl Alert_conflict
       else Inr (s\<lparr>as_alerts := repo_update now i f (as_alerts s)\<rparr>))"

definition acknowledge_alert ::
  "micros \<Rightarrow> ident \<Rightarrow> ident \<Rightarrow> ident \<Rightarrow> string option \<Rightarrow> alert_state \<Rightarrow> alert_http + alert_state" where
  "acknowledge_alert now user org i reason s =
     and_then
       (transition_alert now org i (\<lambda>st. st = OPEN)
         (\<lambda>a. a\<lparr>al_status := ACKNOWLEDGED, al_ack_by := Some user, al_ack_at := Some now, al_ack_reason := reason\<rparr>) s)
       (\<lambda>s. Inr (s\<lparr>as_ack_total := as_ack_total s + 1\<rparr>))"

definition resolve_alert :: "micros \<Rightarrow> ident \<Rightarrow> ident \<Rightarrow> alert_state \<Rightarrow> alert_http + alert_state" where
  "resolve_alert now org i s =
     transition_alert now org i (\<lambda>st. st = OPEN \<or> st = ACKNOWLEDGED)
       (\<lambda>a. a\<lparr>al_status := RESOLVED, al_resolved_at := Some now\<rparr>) s"

definition dismiss_alert :: "micros \<Rightarrow> ident \<Rightarrow> ident \<Rightarrow> alert_state \<Rightarrow> alert_http + alert_state" where
  "dismiss_alert now org i s =
     transition_alert now org i (\<lambda>st. st = OPEN \<or> st = ACKNOWLEDGED)
       (\<lambda>a. a\<lparr>al_status := DISMISSED, al_dismissed_at := Some now\<rparr>) s"

definition reopen_alert :: "micros \<Rightarrow> ident \<Rightarrow> ident \<Rightarrow> alert_state \<Rightarrow> alert_http + alert_state" where
  "reopen_alert now org i s =
     transition_alert now org i (\<lambda>st. st \<noteq> OPEN) (\<lambda>a. a\<lparr>al_status := OPEN\<rparr>) s"

section \<open>Deduplication as an invariant\<close>

definition open_for :: "ident \<Rightarrow> string \<Rightarrow> alert list \<Rightarrow> alert list" where
  "open_for org key rows =
     filter (\<lambda>a. row_deleted_at a = None \<and> al_organization_id a = org \<and> al_dedup_key a = key \<and> al_status a = OPEN) rows"

definition dedup_inv :: "alert_state \<Rightarrow> bool" where
  "dedup_inv s \<longleftrightarrow> table_wf (as_alerts s)
     \<and> (\<forall>org key. length (open_for org key (as_alerts s)) \<le> 1)
     \<and> sum_list (map al_count (as_alerts s)) = as_created_total s + as_dedup_total s
     \<and> length (as_published s) = as_created_total s + as_dedup_total s"

definition alert_init :: "alert_suppression list \<Rightarrow> alert_state" where
  "alert_init sups = \<lparr>as_alerts = [], as_suppressions = sups, as_published = [], as_created_total = 0,
     as_dedup_total = 0, as_suppressed_total = 0, as_ack_total = 0\<rparr>"

inductive alert_step :: "(string \<Rightarrow> string) \<Rightarrow> alert_state \<Rightarrow> alert_state \<Rightarrow> bool" for sha :: "string \<Rightarrow> string" where
  step_fire: "fire sha now i f s = Inr (r, s') \<Longrightarrow> alert_step sha s s'"
| step_ack: "acknowledge_alert now user org i reason s = Inr s' \<Longrightarrow> alert_step sha s s'"
| step_resolve: "resolve_alert now org i s = Inr s' \<Longrightarrow> alert_step sha s s'"
| step_dismiss: "dismiss_alert now org i s = Inr s' \<Longrightarrow> alert_step sha s s'"

inductive alert_reachable :: "(string \<Rightarrow> string) \<Rightarrow> alert_state \<Rightarrow> alert_state \<Rightarrow> bool" for sha :: "string \<Rightarrow> string" where
  reach_refl: "alert_reachable sha s s"
| reach_step: "alert_reachable sha s t \<Longrightarrow> alert_step sha t u \<Longrightarrow> alert_reachable sha s u"

inductive_cases alert_stepE: "alert_step sha s s'"

lemma find_open_iff: "find_open_by_dedup_key org key rows = scalar_first (open_for org key rows)"
proof -
  have "filter (\<lambda>a. al_organization_id a = org \<and> al_dedup_key a = key \<and> al_status a = OPEN) (active_query rows)
      = open_for org key rows"
    by (simp add: active_query_def open_for_def conj_commute conj_left_commute)
  then show ?thesis by (simp add: find_open_by_dedup_key_def)
qed

lemma open_for_update:
  "(\<And>a. row_deleted_at (f a) = row_deleted_at a \<and> al_organization_id (f a) = al_organization_id a
     \<and> al_dedup_key (f a) = al_dedup_key a \<and> (al_status (f a) = OPEN \<longrightarrow> al_status a = OPEN)) \<Longrightarrow>
   length (open_for org key (sql_update_where P f rows)) \<le> length (open_for org key rows)"
  unfolding open_for_def by (rule length_filter_update_where) auto

lemma open_for_new: "open_for org key (rows @ [a]) = open_for org key rows @ open_for org key [a]"
  by (simp add: open_for_def)

lemma fire_dedup_inv [inv_rules]:
  assumes inv: "dedup_inv s" and f: "fire sha now i fi s = Inr (r, s')"
  shows "dedup_inv s'"
proof (cases "is_suppressed (fi_organization_id fi) (fi_type fi) (fi_provider fi) now (as_suppressions s)")
  case (Some x)
  with assms show ?thesis by (auto simp: fire_def dedup_inv_def)
next
  case None
  let ?key = "build_dedup_key sha (fi_type fi) (fi_scope fi)" and ?org = "fi_organization_id fi"
  show ?thesis
  proof (cases "find_open_by_dedup_key ?org ?key (as_alerts s)")
    case (Some e)
    then have e: "e \<in> set (as_alerts s)"
      unfolding find_open_iff by (auto dest!: scalar_first_Some simp: open_for_def)
    let ?rows = "sql_update_where (\<lambda>x. row_id x = row_id e) (fold_occurrence now fi) (as_alerts s)"
    have s': "as_alerts s' = ?rows" "as_created_total s' = as_created_total s"
        "as_dedup_total s' = as_dedup_total s + 1" "length (as_published s') = length (as_published s) + 1"
      using f None Some by (auto simp: fire_def Let_def)
    have "sum_list (map al_count ?rows) = sum_list (map al_count (as_alerts s)) + 1"
      using sum_update_one [of row_id "as_alerts s" e al_count "fold_occurrence now fi"] inv e
      by (simp add: dedup_inv_def table_wf_def fold_occurrence_def)
    moreover have "length (open_for org key ?rows) \<le> 1" for org key
    proof -
      have "length (open_for org key ?rows) \<le> length (open_for org key (as_alerts s))"
        by (rule open_for_update) (auto simp: fold_occurrence_def)
      also have "\<dots> \<le> 1" using inv by (simp add: dedup_inv_def)
      finally show ?thesis .
    qed
    moreover have "table_wf ?rows"
      using inv by (auto simp: dedup_inv_def fold_occurrence_def intro: table_wf_update_where)
    ultimately show ?thesis using inv by (simp add: dedup_inv_def s')
  next
    case none: None
    let ?a = "new_alert now i ?key fi"
    from f None none have c: "repo_create ?a (as_alerts s) = Inr (as_alerts s')"
      and s': "as_created_total s' = as_created_total s + 1" "as_dedup_total s' = as_dedup_total s"
        "length (as_published s') = length (as_published s) + 1"
      by (auto simp: fire_def Let_def and_then_Inr_iff)
    from c have rows: "as_alerts s' = as_alerts s @ [?a]" by (auto simp: repo_create_def split: if_splits)
    have empty: "open_for ?org ?key (as_alerts s) = []" using none by (simp add: find_open_iff)
    have "length (open_for org key (as_alerts s')) \<le> 1" for org key
    proof (cases "org = ?org \<and> key = ?key")
      case True
      then show ?thesis unfolding rows open_for_new using empty by (simp add: open_for_def)
    next
      case False
      then have "open_for org key [?a] = []" by (auto simp: open_for_def new_alert_def)
      then show ?thesis unfolding rows open_for_new using inv by (simp add: dedup_inv_def)
    qed
    moreover have "table_wf (as_alerts s')" using inv table_wf_create [OF _ c] by (simp add: dedup_inv_def)
    ultimately show ?thesis using inv by (simp add: dedup_inv_def s') (simp add: rows new_alert_def)
  qed
qed

lemma transition_dedup_inv [inv_rules]:
  assumes inv: "dedup_inv s" and t: "transition_alert now org i allowed f s = Inr s'"
    and f: "\<And>a. row_id (f a) = row_id a \<and> row_deleted_at (f a) = row_deleted_at a
      \<and> al_organization_id (f a) = al_organization_id a \<and> al_dedup_key (f a) = al_dedup_key a
      \<and> al_status (f a) \<noteq> OPEN \<and> al_count (f a) = al_count a"
  shows "dedup_inv s'"
proof -
  let ?rows = "repo_update now i f (as_alerts s)"
  have s': "s' = s\<lparr>as_alerts := ?rows\<rparr>"
    using t by (auto simp: transition_alert_def and_then_Inr_iff split: if_splits)
  have "length (open_for o' k ?rows) \<le> 1" for o' k
  proof -
    have "length (open_for o' k ?rows) \<le> length (open_for o' k (as_alerts s))"
      unfolding repo_update_def by (rule open_for_update) (simp add: f)
    also have "\<dots> \<le> 1" using inv by (simp add: dedup_inv_def)
    finally show ?thesis .
  qed
  moreover have "sum_list (map al_count ?rows) = sum_list (map al_count (as_alerts s))"
    unfolding repo_update_def by (rule sum_update_where_other) (simp add: f)
  moreover have "table_wf ?rows" using inv f by (auto simp: dedup_inv_def intro: table_wf_update)
  ultimately show ?thesis using inv by (simp add: s' dedup_inv_def)
qed

lemma step_dedup_inv: "alert_step sha s s' \<Longrightarrow> dedup_inv s \<Longrightarrow> dedup_inv s'"
proof (erule alert_stepE)
  fix now user org i reason
  assume inv: "dedup_inv s" and "acknowledge_alert now user org i reason s = Inr s'"
  then obtain t where t: "transition_alert now org i (\<lambda>st. st = OPEN)
         (\<lambda>a. a\<lparr>al_status := ACKNOWLEDGED, al_ack_by := Some user, al_ack_at := Some now, al_ack_reason := reason\<rparr>) s = Inr t"
    and s': "s' = t\<lparr>as_ack_total := as_ack_total t + 1\<rparr>"
    by (auto simp: acknowledge_alert_def and_then_Inr_iff)
  have "dedup_inv t" by (rule transition_dedup_inv [OF inv t]) simp
  then show "dedup_inv s'" by (simp add: s' dedup_inv_def)
qed (auto simp: resolve_alert_def dismiss_alert_def intro: fire_dedup_inv elim: transition_dedup_inv)

lemma reachable_dedup_inv: "alert_reachable sha s t \<Longrightarrow> dedup_inv s \<Longrightarrow> dedup_inv t"
  by (induction rule: alert_reachable.induct) (auto intro: step_dedup_inv)

lemma alert_init_inv: "dedup_inv (alert_init sups)"
  by (simp add: dedup_inv_def alert_init_def table_wf_def open_for_def)

section \<open>Properties\<close>


definition sample_firing :: firing where
  "sample_firing = \<lparr>fi_organization_id = 1, fi_type = PROVIDER_ERROR, fi_severity = HIGH, fi_title = ''t'',
     fi_message = ''m'', fi_source = ''provider_test'', fi_scope = ''provider:openai'',
     fi_provider = Some ''openai'', fi_rule_id = None, fi_metadata = []\<rparr>"

lemma fire_first:
  "fire sha 5 7 sample_firing (alert_init []) =
     Inr (Some (new_alert 5 7 (build_dedup_key sha PROVIDER_ERROR ''provider:openai'') sample_firing),
       (alert_init [])\<lparr>as_alerts := [new_alert 5 7 (build_dedup_key sha PROVIDER_ERROR ''provider:openai'') sample_firing],
         as_created_total := 1,
         as_published := [publish_alert (new_alert 5 7 (build_dedup_key sha PROVIDER_ERROR ''provider:openai'') sample_firing)]\<rparr>)"
  by (simp add: fire_def is_suppressed_def list_active_suppressions_def active_query_def alert_init_def
      find_open_by_dedup_key_def scalar_first_def repo_create_def sample_firing_def Let_def)


text \<open>Reopening is the one transition that breaks this: if the condition occurs again after an alert
  was resolved (which starts a second alert) and the first alert is then reopened, the organization has two
  open alerts for the same deduplication key.\<close>

theorem reopen_breaks_dedup:
  "\<exists>s1 s2 s3 s4 r r'. fire sha 5 7 sample_firing (alert_init []) = Inr (r, s1)
     \<and> resolve_alert 6 1 7 s1 = Inr s2
     \<and> fire sha 8 9 sample_firing s2 = Inr (r', s3)
     \<and> reopen_alert 10 1 7 s3 = Inr s4
     \<and> length (open_for 1 (build_dedup_key sha PROVIDER_ERROR ''provider:openai'') (as_alerts s4)) = 2"
  unfolding fire_first
  by (simp add: fire_def is_suppressed_def list_active_suppressions_def active_query_def alert_init_def
      find_open_by_dedup_key_def scalar_first_def repo_create_def sample_firing_def Let_def new_alert_def
      resolve_alert_def reopen_alert_def transition_alert_def get_org_alert_def repo_get_def
      scalar_one_or_none_def repo_update_def sql_update_where_def open_for_def)

end
