(* ===== verification/Budgets.thy ===== *)
theory Budgets
  imports Alerts Cost_Records Decimals
begin

text \<open>
  Budgets: \<open>models/budget.py\<close>, \<open>budgets/period.py\<close>, \<open>budgets/service.py\<close>,
  \<open>repositories/budget_repository.py\<close> and the handlers of \<open>api/v1/budgets.py\<close>. A calendar date is
  its year, month and day; a period boundary is a day number (\<open>date.toordinal\<close>). The text of dates,
  identifiers and numbers inside titles and keys is given by the parameters of \<open>texts\<close>; \<open>percent_used\<close>
  is the decimal quotient (its conversion to a binary float is not modelled).
\<close>

section \<open>Calendar\<close>

record date = dt_year :: int  dt_month :: int  dt_day :: int

definition is_leap :: "int \<Rightarrow> bool" where
  "is_leap y \<longleftrightarrow> 4 dvd y \<and> (\<not> 100 dvd y \<or> 400 dvd y)"

definition days_in_month :: "int \<Rightarrow> int \<Rightarrow> int" where
  "days_in_month y m =
     (if m = 2 then (if is_leap y then 29 else 28)
      else if m = 4 \<or> m = 6 \<or> m = 9 \<or> m = 11 then 30 else 31)"

definition days_before_year :: "int \<Rightarrow> int" where
  "days_before_year y = (y - 1) * 365 + (y - 1) div 4 - (y - 1) div 100 + (y - 1) div 400"

definition days_before_month :: "int \<Rightarrow> int \<Rightarrow> int" where
  "days_before_month y m = sum_list (map (days_in_month y) [1..m - 1])"

definition ordinal :: "date \<Rightarrow> int" where
  "ordinal d = days_before_year (dt_year d) + days_before_month (dt_year d) (dt_month d) + dt_day d"

definition weekday :: "date \<Rightarrow> int" where
  "weekday d = (ordinal d + 6) mod 7"

definition valid_date :: "date \<Rightarrow> bool" where
  "valid_date d \<longleftrightarrow> 1 \<le> dt_year d \<and> 1 \<le> dt_month d \<and> dt_month d \<le> 12
     \<and> 1 \<le> dt_day d \<and> dt_day d \<le> days_in_month (dt_year d) (dt_month d)"

lemma days_in_month_bounds: "28 \<le> days_in_month y m \<and> days_in_month y m \<le> 31"
  by (simp add: days_in_month_def)

lemma days_before_month_next: "1 \<le> m \<Longrightarrow> days_before_month y (m + 1) = days_before_month y m + days_in_month y m"
proof -
  assume "1 \<le> m"
  then have "[1..m] = [1..m - 1] @ [m]" by (simp add: upto_rec2)
  then show ?thesis by (simp add: days_before_month_def)
qed

lemma days_before_month_mono: "1 \<le> m \<Longrightarrow> m \<le> m' \<Longrightarrow> days_before_month y m \<le> days_before_month y m'"
proof -
  assume m: "1 \<le> m" "m \<le> m'"
  have "days_before_month y m \<le> days_before_month y (m + int k)" for k
  proof (induction k)
    case (Suc k)
    have "days_before_month y (m + int k + 1) = days_before_month y (m + int k) + days_in_month y (m + int k)"
      using m by (intro days_before_month_next) auto
    with Suc days_in_month_bounds [of y "m + int k"] show ?case by (simp add: algebra_simps)
  qed simp
  from this [of "nat (m' - m)"] m show ?thesis by simp
qed

lemma year_length: "days_before_month y 13 = (if is_leap y then 366 else 365)"
proof -
  have months: "[1..13 - 1 :: int] = [1, 2, 3, 4, 5, 6, 7, 8, 9, 10, 11, 12]" by (simp add: upto_rec1)
  show ?thesis unfolding days_before_month_def months by (simp add: days_in_month_def)
qed

lemma div_pred:
  assumes "0 < (k :: int)"
  shows "y div k = (y - 1) div k + (if k dvd y then 1 else 0)"
proof (cases "k dvd y")
  case True
  then obtain q where q: "y = k * q" by blast
  have "(y - 1) div k = q - 1"
    by (rule int_div_pos_eq [of _ _ _ "k - 1"]) (use assms in \<open>simp_all add: q algebra_simps\<close>)
  with True q assms show ?thesis by simp
next
  case False
  then have "y mod k \<noteq> 0" by (simp add: dvd_eq_mod_eq_0)
  moreover have "0 \<le> y mod k" "y mod k < k" using assms by simp_all
  moreover have "y - 1 = k * (y div k) + (y mod k - 1)" by simp
  ultimately have "(y - 1) div k = y div k" by (intro int_div_pos_eq [of _ _ _ "y mod k - 1"]) auto
  with False show ?thesis by simp
qed

lemma days_before_year_next: "days_before_year (y + 1) = days_before_year y + days_before_month y 13"
proof -
  define p q r where "p = (4 dvd y)" and "q = (100 dvd y)" and "r = (400 dvd y)"
  have "(4 :: int) dvd 100" "(100 :: int) dvd 400" by simp_all
  then have pqr: "q \<longrightarrow> p" "r \<longrightarrow> q" unfolding p_def q_def r_def by (blast intro: dvd_trans)+
  have leap: "is_leap y \<longleftrightarrow> p \<and> (\<not> q \<or> r)" unfolding is_leap_def p_def q_def r_def ..
  have next': "days_before_year (y + 1) = y * 365 + y div 4 - y div 100 + y div 400"
    by (simp add: days_before_year_def)
  have 4: "y div 4 = (y - 1) div 4 + (if p then 1 else 0)" unfolding p_def by (rule div_pred) simp
  have 100: "y div 100 = (y - 1) div 100 + (if q then 1 else 0)" unfolding q_def by (rule div_pred) simp
  have 400: "y div 400 = (y - 1) div 400 + (if r then 1 else 0)" unfolding r_def by (rule div_pred) simp
  show ?thesis
    unfolding next' 4 100 400 year_length leap unfolding days_before_year_def
    using pqr by (cases p; cases q; cases r) (simp_all only: simp_thms if_True if_False, simp_all)
qed

lemma days_before_year_mono: "y \<le> y' \<Longrightarrow> days_before_year y \<le> days_before_year y'"
proof -
  assume y: "y \<le> y'"
  have "days_before_year y \<le> days_before_year (y + int k)" for k
  proof (induction k)
    case (Suc k)
    have "days_before_year (y + int k + 1) = days_before_year (y + int k) + days_before_month (y + int k) 13"
      by (rule days_before_year_next)
    with Suc show ?case by (simp add: year_length algebra_simps split: if_splits)
  qed simp
  from this [of "nat (y' - y)"] y show ?thesis by simp
qed

text \<open>A valid date lies in its year and in its month, and nowhere else.\<close>

lemma ordinal_in_month:
  assumes "valid_date d"
  shows "days_before_year (dt_year d) + days_before_month (dt_year d) (dt_month d) < ordinal d
    \<and> ordinal d \<le> days_before_year (dt_year d) + days_before_month (dt_year d) (dt_month d + 1)"
  using assms days_before_month_next [of "dt_month d" "dt_year d"] by (auto simp: valid_date_def ordinal_def)

lemma ordinal_in_year:
  assumes "valid_date d"
  shows "days_before_year (dt_year d) < ordinal d \<and> ordinal d \<le> days_before_year (dt_year d + 1)"
proof -
  have m: "1 \<le> dt_month d" "dt_month d \<le> 12" using assms by (auto simp: valid_date_def)
  have "0 \<le> days_before_month (dt_year d) (dt_month d)"
    using days_before_month_mono [of 1 "dt_month d" "dt_year d"] m by (simp add: days_before_month_def)
  moreover have "days_before_month (dt_year d) (dt_month d + 1) \<le> days_before_month (dt_year d) 13"
    using m by (intro days_before_month_mono) auto
  ultimately show ?thesis using ordinal_in_month [OF assms] days_before_year_next [of "dt_year d"] by linarith
qed

lemma same_year:
  assumes "valid_date d" and "days_before_year y < ordinal d" and "ordinal d \<le> days_before_year (y + 1)"
  shows "dt_year d = y"
proof (rule ccontr)
  assume "dt_year d \<noteq> y"
  then consider "dt_year d + 1 \<le> y" | "y + 1 \<le> dt_year d" by linarith
  then show False
    using assms ordinal_in_year [OF assms(1)] days_before_year_mono by cases (force+)
qed

lemma same_month:
  assumes "valid_date d" and "1 \<le> m" and "m \<le> 12"
    and "days_before_year y + days_before_month y m < ordinal d"
    and "ordinal d \<le> days_before_year y + days_before_month y (m + 1)"
  shows "dt_year d = y \<and> dt_month d = m"
proof
  have "0 \<le> days_before_month y m"
    using days_before_month_mono [of 1 m y] assms(2) by (simp add: days_before_month_def)
  moreover have "days_before_month y (m + 1) \<le> days_before_month y 13"
    using assms(2,3) by (intro days_before_month_mono) auto
  ultimately show y: "dt_year d = y"
    using assms days_before_year_next [of y] by (intro same_year) auto
  show "dt_month d = m"
  proof (rule ccontr)
    assume "dt_month d \<noteq> m"
    then consider "dt_month d + 1 \<le> m" | "m + 1 \<le> dt_month d" by linarith
    moreover have "1 \<le> dt_month d" using assms(1) by (simp add: valid_date_def)
    ultimately show False
      using assms ordinal_in_month [OF assms(1)] y days_before_month_mono [of "dt_month d + 1" m y]
        days_before_month_mono [of "m + 1" "dt_month d" y]
      by cases auto
  qed
qed

section \<open>Budgets and their periods\<close>

datatype budget_scope_type = BS_ORGANIZATION | BS_PROJECT | BS_PROVIDER | BS_MODEL

datatype budget_period = DAILY | WEEKLY | MONTHLY | YEARLY | CUSTOM

record budget = base_row +
  bg_organization_id :: ident
  bg_name :: string
  bg_scope_type :: budget_scope_type
  bg_scope_project_id :: "ident option"
  bg_scope_provider :: "string option"
  bg_scope_model :: "string option"
  bg_amount :: rat
  bg_currency :: string
  bg_period :: budget_period
  bg_custom_start :: "int option"
  bg_custom_end :: "int option"
  bg_thresholds :: "rat list"
  bg_enabled :: bool
  bg_created_by :: "ident option"

record period_window =
  pw_start :: int
  pw_end :: int
  pw_elapsed :: int
  pw_remaining :: int

definition total_days :: "period_window \<Rightarrow> int" where
  "total_days w = pw_end w - pw_start w + 1"

definition month_end :: "int \<Rightarrow> int \<Rightarrow> int" where
  "month_end y m = ordinal \<lparr>dt_year = y, dt_month = m, dt_day = days_in_month y m\<rparr>"

definition period_bounds :: "budget \<Rightarrow> date \<Rightarrow> int \<times> int" where
  "period_bounds b today =
     (case bg_period b of
        DAILY \<Rightarrow> (ordinal today, ordinal today)
      | WEEKLY \<Rightarrow> (let start = ordinal today - weekday today in (start, start + 6))
      | MONTHLY \<Rightarrow> (ordinal (today\<lparr>dt_day := 1\<rparr>), month_end (dt_year today) (dt_month today))
      | YEARLY \<Rightarrow> (ordinal \<lparr>dt_year = dt_year today, dt_month = 1, dt_day = 1\<rparr>,
                   ordinal \<lparr>dt_year = dt_year today, dt_month = 12, dt_day = 31\<rparr>)
      | CUSTOM \<Rightarrow> (case (bg_custom_start b, bg_custom_end b) of
                     (Some s, Some e) \<Rightarrow> (s, e)
                   | _ \<Rightarrow> (ordinal today, ordinal today)))"

definition resolve_period_window :: "budget \<Rightarrow> date \<Rightarrow> period_window" where
  "resolve_period_window b today =
     (let (start, stop) = period_bounds b today;
          t = ordinal today;
          elapsed = (if t < start then 0 else if stop < t then stop - start + 1 else t - start + 1);
          total = stop - start + 1
      in \<lparr>pw_start = start, pw_end = stop, pw_elapsed = elapsed, pw_remaining = max (total - elapsed) 0\<rparr>)"

definition period_key :: "(int \<Rightarrow> string) \<Rightarrow> budget \<Rightarrow> period_window \<Rightarrow> string" where
  "period_key isodate b w =
     (if bg_period b = CUSTOM then isodate (pw_start w) @ '':'' @ isodate (pw_end w) else isodate (pw_start w))"

lemma calendar_bounds:
  assumes "valid_date t" and "bg_period b \<noteq> CUSTOM"
  shows "fst (period_bounds b t) \<le> ordinal t \<and> ordinal t \<le> snd (period_bounds b t)"
proof (cases "bg_period b")
  case MONTHLY
  with assms show ?thesis by (simp add: period_bounds_def month_end_def ordinal_def valid_date_def)
next
  case YEARLY
  have "days_before_month (dt_year t) 13 = days_before_month (dt_year t) 12 + 31"
    using days_before_month_next [of 12 "dt_year t"] by (simp add: days_in_month_def)
  with YEARLY ordinal_in_year [OF assms(1)] days_before_year_next [of "dt_year t"] show ?thesis
    by (simp add: period_bounds_def) (simp add: ordinal_def days_before_month_def)
qed (use assms in \<open>auto simp: period_bounds_def weekday_def Let_def\<close>)

lemma week_start:
  fixes t u :: int
  assumes "t - (t + 6) mod 7 \<le> u" and "u \<le> t - (t + 6) mod 7 + 6"
  shows "u - (u + 6) mod 7 = t - (t + 6) mod 7"
proof -
  define k where "k = (t + 6) div 7"
  have t: "t - (t + 6) mod 7 = 7 * k - 6" using mult_div_mod_eq [of 7 "t + 6"] unfolding k_def by linarith
  have "(u + 6) div 7 = k" using assms unfolding t by (intro int_div_pos_eq [where r = "u + 6 - 7 * k"]) auto
  then show ?thesis using mult_div_mod_eq [of 7 "u + 6"] t by linarith
qed

text \<open>Any other day inside the window has the same window.\<close>

lemma calendar_partition:
  assumes "valid_date t" and "valid_date u" and "bg_period b \<noteq> CUSTOM"
    and "fst (period_bounds b t) \<le> ordinal u" and "ordinal u \<le> snd (period_bounds b t)"
  shows "period_bounds b u = period_bounds b t"
proof (cases "bg_period b")
  case DAILY
  with assms show ?thesis by (simp add: period_bounds_def)
next
  case WEEKLY
  then have "ordinal t - (ordinal t + 6) mod 7 \<le> ordinal u" "ordinal u \<le> ordinal t - (ordinal t + 6) mod 7 + 6"
    using assms by (simp_all add: period_bounds_def weekday_def Let_def)
  then have "ordinal u - (ordinal u + 6) mod 7 = ordinal t - (ordinal t + 6) mod 7" by (rule week_start)
  with WEEKLY show ?thesis by (simp add: period_bounds_def weekday_def Let_def)
next
  case MONTHLY
  have "1 \<le> dt_month t" "dt_month t \<le> 12" using assms(1) by (auto simp: valid_date_def)
  moreover from this have "days_before_month (dt_year t) (dt_month t + 1)
      = days_before_month (dt_year t) (dt_month t) + days_in_month (dt_year t) (dt_month t)"
    by (intro days_before_month_next)
  ultimately have "dt_year u = dt_year t \<and> dt_month u = dt_month t"
    using assms(2,4,5) MONTHLY
    by (intro same_month) (auto simp: period_bounds_def month_end_def ordinal_def [of "t\<lparr>dt_day := 1\<rparr>"] ordinal_def [of "date.make _ _ _"] ordinal_def [of "\<lparr>dt_year = _, dt_month = _, dt_day = _\<rparr>"])
  with MONTHLY show ?thesis by (simp add: period_bounds_def ordinal_def)
next
  case YEARLY
  have "days_before_month (dt_year t) 13 = days_before_month (dt_year t) 12 + 31"
    using days_before_month_next [of 12 "dt_year t"] by (simp add: days_in_month_def)
  then have "dt_year u = dt_year t"
    using assms(2,4,5) YEARLY days_before_year_next [of "dt_year t"]
    by (intro same_year) (auto simp: period_bounds_def days_before_month_def [of _ 1] ordinal_def [of "\<lparr>dt_year = _, dt_month = _, dt_day = _\<rparr>"])
  with YEARLY show ?thesis by (simp add: period_bounds_def)
qed (use assms in simp)

section \<open>Repository\<close>

definition budgets_for_org :: "ident \<Rightarrow> bool \<Rightarrow> budget list \<Rightarrow> budget list" where
  "budgets_for_org org enabled_only rows =
     order_desc row_created_at
       (filter (\<lambda>b. bg_organization_id b = org \<and> (enabled_only \<longrightarrow> bg_enabled b)) (active_query rows))"

definition list_enabled_for_org :: "ident \<Rightarrow> budget list \<Rightarrow> budget list" where
  "list_enabled_for_org org rows = budgets_for_org org True rows"

definition budget_get_for_org :: "ident \<Rightarrow> ident \<Rightarrow> budget list \<Rightarrow> repo_error + budget option" where
  "budget_get_for_org org i rows =
     scalar_one_or_none (filter (\<lambda>b. bg_organization_id b = org \<and> row_id b = i) (active_query rows))"

definition list_enabled_for_all_orgs :: "budget list \<Rightarrow> budget list" where
  "list_enabled_for_all_orgs rows = filter bg_enabled (active_query rows)"

definition distinct_org_ids_with_enabled_budgets :: "budget list \<Rightarrow> ident list" where
  "distinct_org_ids_with_enabled_budgets rows =
     remdups (map bg_organization_id (filter bg_enabled (active_query rows)))"

section \<open>Evaluation\<close>

record budget_evaluation =
  be_budget :: budget
  be_window :: period_window
  be_spend :: rat
  be_remaining :: rat
  be_percent :: rat
  be_projected :: rat
  be_allowance :: rat
  be_status :: string
  be_crossed :: "rat list"

definition highest_threshold_crossed :: "budget_evaluation \<Rightarrow> rat option" where
  "highest_threshold_crossed e = (if be_crossed e = [] then None else Some (Max (set (be_crossed e))))"

definition status_for :: "rat \<Rightarrow> string" where
  "status_for p =
     (if 100 \<le> p then ''exceeded'' else if 90 \<le> p then ''critical''
      else if 75 \<le> p then ''warning'' else ''healthy'')"

definition severity_for_threshold :: "rat \<Rightarrow> alert_severity" where
  "severity_for_threshold t =
     (if 110 \<le> t then CRITICAL else if 100 \<le> t then HIGH else if 90 \<le> t then MEDIUM
      else if 75 \<le> t then LOW else INFO)"

definition alert_type_for_threshold :: "rat \<Rightarrow> alert_type" where
  "alert_type_for_threshold t = (if 100 \<le> t then BUDGET_EXCEEDED else BUDGET_THRESHOLD)"

definition forecast :: "budget \<Rightarrow> period_window \<Rightarrow> rat \<Rightarrow> rat \<times> rat" where
  "forecast b w spend =
     (if pw_elapsed w \<le> 0 then spend else dec_mult (dec_div spend (of_int (pw_elapsed w))) (of_int (total_days w)),
      if pw_remaining w \<le> 0 then 0 else dec_div (dec_add (bg_amount b) (- spend)) (of_int (pw_remaining w)))"

definition budget_dimensions :: "budget \<Rightarrow> dimensions" where
  "budget_dimensions b =
     (case bg_scope_type b of
        BS_PROJECT \<Rightarrow> \<lparr>dm_project_id = bg_scope_project_id b, dm_provider = None, dm_model = None\<rparr>
      | BS_PROVIDER \<Rightarrow> \<lparr>dm_project_id = None, dm_provider = bg_scope_provider b, dm_model = None\<rparr>
      | BS_MODEL \<Rightarrow> \<lparr>dm_project_id = None, dm_provider = None, dm_model = bg_scope_model b\<rparr>
      | BS_ORGANIZATION \<Rightarrow> \<lparr>dm_project_id = None, dm_provider = None, dm_model = None\<rparr>)"

definition evaluate_budget :: "usage_cost_record list \<Rightarrow> budget \<Rightarrow> date \<Rightarrow> budget_evaluation" where
  "evaluate_budget costs b today =
     (let w = resolve_period_window b today;
          totals = get_totals_by_org (bg_organization_id b) (pw_start w) (pw_end w) (budget_dimensions b) costs;
          spend = (case map_of totals (bg_currency b) of None \<Rightarrow> 0 | Some t \<Rightarrow> ct_total_cost t);
          percent = (if 0 < bg_amount b then dec_mult (dec_div spend (bg_amount b)) 100 else 0);
          (projected, allowance) = forecast b w spend
      in \<lparr>be_budget = b, be_window = w, be_spend = spend, be_remaining = dec_add (bg_amount b) (- spend),
          be_percent = percent, be_projected = projected, be_allowance = allowance,
          be_status = status_for percent, be_crossed = sort (filter (\<lambda>t. t \<le> percent) (bg_thresholds b))\<rparr>)"

definition evaluate_organization ::
  "usage_cost_record list \<Rightarrow> budget list \<Rightarrow> ident \<Rightarrow> date \<Rightarrow> budget_evaluation list" where
  "evaluate_organization costs budgets org today =
     map (\<lambda>b. evaluate_budget costs b today) (list_enabled_for_org org budgets)"

section \<open>Alerts\<close>

record texts =
  tx_uuid :: "ident \<Rightarrow> string"
  tx_date :: "int \<Rightarrow> string"
  tx_float :: "rat \<Rightarrow> string"
  tx_decimal :: "rat \<Rightarrow> string"

fun period_value :: "budget_period \<Rightarrow> string" where
  "period_value DAILY = ''daily''"
| "period_value WEEKLY = ''weekly''"
| "period_value MONTHLY = ''monthly''"
| "period_value YEARLY = ''yearly''"
| "period_value CUSTOM = ''custom''"

fun scope_type_value :: "budget_scope_type \<Rightarrow> string" where
  "scope_type_value BS_ORGANIZATION = ''organization''"
| "scope_type_value BS_PROJECT = ''project''"
| "scope_type_value BS_PROVIDER = ''provider''"
| "scope_type_value BS_MODEL = ''model''"

definition opt_text :: "string option \<Rightarrow> string" where
  "opt_text s = (case s of None \<Rightarrow> ''None'' | Some x \<Rightarrow> x)"

definition scope_label :: "budget \<Rightarrow> string" where
  "scope_label b =
     (case bg_scope_type b of
        BS_ORGANIZATION \<Rightarrow> ''This organization''
      | BS_PROJECT \<Rightarrow> ''This project''
      | BS_PROVIDER \<Rightarrow> ''Provider '' @ opt_text (bg_scope_provider b)
      | BS_MODEL \<Rightarrow> ''Model '' @ opt_text (bg_scope_model b))"

definition threshold_firing :: "texts \<Rightarrow> budget_evaluation \<Rightarrow> rat \<Rightarrow> firing" where
  "threshold_firing tx e t =
     (let b = be_budget e; w = be_window e; ty = alert_type_for_threshold t
      in \<lparr>fi_organization_id = bg_organization_id b, fi_type = ty, fi_severity = severity_for_threshold t,
          fi_title = (if ty = BUDGET_THRESHOLD then bg_name b @ '': '' @ tx_float tx t @ ''% threshold reached''
                      else bg_name b @ '': budget exceeded ('' @ tx_float tx t @ ''%)''),
          fi_message = scope_label b @ '' has spent '' @ tx_decimal tx (be_spend e) @ '' '' @ bg_currency b
            @ '' of its '' @ tx_decimal tx (bg_amount b) @ '' '' @ bg_currency b @ '' '' @ period_value (bg_period b)
            @ '' budget ('' @ tx_float tx (be_percent e) @ ''% used).'',
          fi_source = ''budget_evaluation'',
          fi_scope = budget_threshold_scope (tx_uuid tx (row_id b)) (period_key (tx_date tx) b w) (tx_float tx t),
          fi_provider = bg_scope_provider b, fi_rule_id = None,
          fi_metadata = [(''budget_id'', tx_uuid tx (row_id b)), (''budget_name'', bg_name b),
            (''scope_type'', scope_type_value (bg_scope_type b)), (''threshold_pct'', tx_float tx t),
            (''percent_used'', tx_float tx (be_percent e)), (''current_spend'', tx_decimal tx (be_spend e)),
            (''amount'', tx_decimal tx (bg_amount b)), (''currency'', bg_currency b),
            (''period_start'', tx_date tx (pw_start w)), (''period_end'', tx_date tx (pw_end w))]\<rparr>)"

definition firings_of :: "texts \<Rightarrow> budget_evaluation \<Rightarrow> firing list" where
  "firings_of tx e = map (threshold_firing tx e) (be_crossed e)"

text \<open>One firing of the loop; an error is logged and the loop goes on.\<close>

definition fire_or_log :: "(string \<Rightarrow> string) \<Rightarrow> micros \<Rightarrow> ident \<times> firing \<Rightarrow> alert_state \<Rightarrow> alert_state" where
  "fire_or_log sha now x s = (case fire sha now (fst x) (snd x) s of Inl _ \<Rightarrow> s | Inr (_, s') \<Rightarrow> s')"

definition fire_all :: "(string \<Rightarrow> string) \<Rightarrow> micros \<Rightarrow> (ident \<times> firing) list \<Rightarrow> alert_state \<Rightarrow> alert_state" where
  "fire_all sha now xs s = fold (fire_or_log sha now) xs s"

definition evaluate_and_alert ::
  "texts \<Rightarrow> (string \<Rightarrow> string) \<Rightarrow> micros \<Rightarrow> ident list \<Rightarrow> usage_cost_record list \<Rightarrow> budget list \<Rightarrow> ident \<Rightarrow> date
   \<Rightarrow> alert_state \<Rightarrow> budget_evaluation list \<times> alert_state" where
  "evaluate_and_alert tx sha now ids costs budgets org today s =
     (let es = evaluate_organization costs budgets org today
      in (es, fire_all sha now (zip ids (concat (map (firings_of tx) es))) s))"

section \<open>Repeated evaluation\<close>

definition firing_key :: "(string \<Rightarrow> string) \<Rightarrow> firing \<Rightarrow> string" where
  "firing_key sha f = build_dedup_key sha (fi_type f) (fi_scope f)"

definition silenced :: "micros \<Rightarrow> alert_state \<Rightarrow> firing \<Rightarrow> bool" where
  "silenced now s f \<longleftrightarrow>
     is_suppressed (fi_organization_id f) (fi_type f) (fi_provider f) now (as_suppressions s) \<noteq> None"

definition handled :: "(string \<Rightarrow> string) \<Rightarrow> micros \<Rightarrow> alert_state \<Rightarrow> firing \<Rightarrow> bool" where
  "handled sha now s f \<longleftrightarrow> silenced now s f
     \<or> find_open_by_dedup_key (fi_organization_id f) (firing_key sha f) (as_alerts s) \<noteq> None"

lemma open_for_mono:
  assumes "open_for org key rows \<noteq> []"
    and "\<And>a. row_deleted_at (f a) = row_deleted_at a \<and> al_organization_id (f a) = al_organization_id a
     \<and> al_dedup_key (f a) = al_dedup_key a \<and> al_status (f a) = al_status a"
  shows "open_for org key (sql_update_where P f rows) \<noteq> []"
proof -
  obtain a where a: "a \<in> set rows" "row_deleted_at a = None" "al_organization_id a = org" "al_dedup_key a = key"
      "al_status a = OPEN"
    using assms(1) by (auto simp: open_for_def filter_empty_conv)
  let ?b = "if P a then f a else a"
  have "?b \<in> set (sql_update_where P f rows)" using a(1) unfolding set_update_where by blast
  moreover have "row_deleted_at ?b = None" "al_organization_id ?b = org" "al_dedup_key ?b = key" "al_status ?b = OPEN"
    using a assms(2) [of a] by (cases "P a"; simp)+
  ultimately show ?thesis by (auto simp: open_for_def filter_empty_conv)
qed

lemma fire_suppressions: "as_suppressions (fire_or_log sha now x s) = as_suppressions s"
  by (auto simp: fire_or_log_def fire_def Let_def and_then_Inr_iff split: sum.splits option.splits)

lemma find_open_not_None: "find_open_by_dedup_key org key rows \<noteq> None \<longleftrightarrow> open_for org key rows \<noteq> []"
  by (simp add: find_open_iff)

lemma fire_alerts:
  "as_alerts (fire_or_log sha now x s) = as_alerts s
   \<or> (\<exists>P. as_alerts (fire_or_log sha now x s) = sql_update_where P (fold_occurrence now (snd x)) (as_alerts s))
   \<or> (\<exists>k. as_alerts (fire_or_log sha now x s) = as_alerts s @ [new_alert now (fst x) k (snd x)])"
  by (auto simp: fire_or_log_def fire_def Let_def repo_create_def split: sum.splits option.splits if_splits)

lemma fold_occurrence_same:
  "row_deleted_at (fold_occurrence now f a) = row_deleted_at a
   \<and> al_organization_id (fold_occurrence now f a) = al_organization_id a
   \<and> al_dedup_key (fold_occurrence now f a) = al_dedup_key a \<and> al_status (fold_occurrence now f a) = al_status a"
  by (simp add: fold_occurrence_def)

lemma fold_occurrence_id: "row_id (fold_occurrence now f a) = row_id a"
  by (simp add: fold_occurrence_def)

lemma fire_keeps_open:
  assumes o: "open_for org key (as_alerts s) \<noteq> []"
  shows "open_for org key (as_alerts (fire_or_log sha now x s)) \<noteq> []"
  using fire_alerts [of sha now x s]
proof (elim disjE exE)
  fix P
  assume "as_alerts (fire_or_log sha now x s) = sql_update_where P (fold_occurrence now (snd x)) (as_alerts s)"
  then show ?thesis using open_for_mono [OF o fold_occurrence_same] by simp
qed (use o in \<open>simp_all add: open_for_new\<close>)

lemma fire_keeps_handled: "handled sha now s f \<Longrightarrow> handled sha now (fire_or_log sha now x s) f"
  unfolding handled_def silenced_def fire_suppressions find_open_not_None using fire_keeps_open by blast

lemma fire_all_keeps_handled: "handled sha now s f \<Longrightarrow> handled sha now (fire_all sha now xs s) f"
  unfolding fire_all_def by (induction xs arbitrary: s) (auto intro: fire_keeps_handled)

lemma fire_ids: "row_id ` set (as_alerts (fire_or_log sha now x s)) \<subseteq> insert (fst x) (row_id ` set (as_alerts s))"
  using fire_alerts [of sha now x s]
proof (elim disjE exE)
  fix P
  assume "as_alerts (fire_or_log sha now x s) = sql_update_where P (fold_occurrence now (snd x)) (as_alerts s)"
  then have "map row_id (as_alerts (fire_or_log sha now x s)) = map row_id (as_alerts s)"
    by (simp add: map_update_where fold_occurrence_id)
  then have "row_id ` set (as_alerts (fire_or_log sha now x s)) = row_id ` set (as_alerts s)" by (metis set_map)
  then show ?thesis by blast
qed (auto simp: new_alert_def)

lemma fire_handles:
  assumes "fst x \<notin> row_id ` set (as_alerts s)"
  shows "handled sha now (fire_or_log sha now x s) (snd x)"
proof (cases "handled sha now s (snd x)")
  case True
  then show ?thesis by (rule fire_keeps_handled)
next
  case False
  then have n: "is_suppressed (fi_organization_id (snd x)) (fi_type (snd x)) (fi_provider (snd x)) now (as_suppressions s) = None"
      "find_open_by_dedup_key (fi_organization_id (snd x)) (firing_key sha (snd x)) (as_alerts s) = None"
    by (auto simp: handled_def silenced_def)
  have "fst x \<notin> row_id ` set (as_alerts s)" by fact
  then have "as_alerts (fire_or_log sha now x s) = as_alerts s @ [new_alert now (fst x) (firing_key sha (snd x)) (snd x)]"
    using n by (simp add: fire_or_log_def fire_def firing_key_def Let_def repo_create_def new_alert_def)
  then show ?thesis
    unfolding handled_def find_open_not_None by (simp add: open_for_new) (simp add: open_for_def new_alert_def)
qed

lemma handled_any_time: "as_suppressions s = [] \<Longrightarrow> handled sha now s f \<Longrightarrow> handled sha now' s f"
  by (simp add: handled_def silenced_def is_suppressed_def list_active_suppressions_def active_query_def)

lemma subset_disjoint: "A \<subseteq> B \<Longrightarrow> B \<inter> C = {} \<Longrightarrow> A \<inter> C = {}"
  by blast

lemma disjoint_insert: "A \<subseteq> insert y B \<Longrightarrow> y \<notin> S \<Longrightarrow> S \<inter> B = {} \<Longrightarrow> S \<inter> A = {}"
  by blast

lemma fire_all_handles:
  "distinct (map fst xs) \<Longrightarrow> fst ` set xs \<inter> row_id ` set (as_alerts s) = {} \<Longrightarrow> x \<in> set xs \<Longrightarrow>
   handled sha now (fire_all sha now xs s) (snd x)"
proof (induction xs arbitrary: s)
  case (Cons y ys)
  have step: "fire_all sha now (y # ys) s = fire_all sha now ys (fire_or_log sha now y s)" by (simp add: fire_all_def)
  show ?case
  proof (cases "x = y")
    case True
    have "handled sha now (fire_or_log sha now y s) (snd y)" using Cons.prems by (intro fire_handles) auto
    with True show ?thesis unfolding step by (simp add: fire_all_keeps_handled)
  next
    case False
    have "fst y \<notin> fst ` set ys" using Cons.prems(1) by simp
    moreover have "fst ` set ys \<subseteq> fst ` set (y # ys)" by (rule image_mono) (simp add: subset_insertI)
    then have "fst ` set ys \<inter> row_id ` set (as_alerts s) = {}" using Cons.prems(2) by blast
    ultimately have "fst ` set ys \<inter> row_id ` set (as_alerts (fire_or_log sha now y s)) = {}"
      by (intro disjoint_insert [OF fire_ids])
    moreover have "distinct (map fst ys)" "x \<in> set ys" using Cons.prems False by simp_all
    ultimately show ?thesis unfolding step by (intro Cons.IH)
  qed
qed simp

lemma fire_handled:
  assumes "handled sha now s (snd x)"
  shows "as_created_total (fire_or_log sha now x s) = as_created_total s
    \<and> map row_id (as_alerts (fire_or_log sha now x s)) = map row_id (as_alerts s)"
proof (cases "is_suppressed (fi_organization_id (snd x)) (fi_type (snd x)) (fi_provider (snd x)) now (as_suppressions s)")
  case (Some a)
  then show ?thesis by (simp add: fire_or_log_def fire_def)
next
  case None
  with assms obtain e where e: "find_open_by_dedup_key (fi_organization_id (snd x)) (firing_key sha (snd x)) (as_alerts s) = Some e"
    by (auto simp: handled_def silenced_def)
  have "map row_id (sql_update_where P (fold_occurrence now (snd x)) (as_alerts s)) = map row_id (as_alerts s)" for P
    by (rule map_update_where) (rule fold_occurrence_id)
  with None e show ?thesis by (simp add: fire_or_log_def fire_def firing_key_def Let_def)
qed

lemma fire_all_handled:
  "\<forall>x \<in> set xs. handled sha now s (snd x) \<Longrightarrow>
   as_created_total (fire_all sha now xs s) = as_created_total s
   \<and> map row_id (as_alerts (fire_all sha now xs s)) = map row_id (as_alerts s)"
proof (induction xs arbitrary: s)
  case Nil
  then show ?case by (simp add: fire_all_def)
next
  case (Cons x xs)
  have step: "fire_all sha now (x # xs) s = fire_all sha now xs (fire_or_log sha now x s)" by (simp add: fire_all_def)
  from Cons.prems have "\<forall>y \<in> set xs. handled sha now (fire_or_log sha now x s) (snd y)"
    by (simp add: fire_keeps_handled)
  with Cons.IH [of "fire_or_log sha now x s"] Cons.prems fire_handled [of sha now s x] show ?case
    unfolding step by simp
qed

section \<open>Handlers\<close>

datatype budget_http = Budget_not_found | Budget_invalid | Budget_repo repo_error

definition parse_amount :: "(string \<Rightarrow> rat option) \<Rightarrow> string \<Rightarrow> budget_http + rat" where
  "parse_amount parse v =
     (case parse v of None \<Rightarrow> Inl Budget_invalid | Some x \<Rightarrow> if x \<le> 0 then Inl Budget_invalid else Inr x)"

definition budget_scopes :: "(string \<times> budget_scope_type) list" where
  "budget_scopes = [(''organization'', BS_ORGANIZATION), (''project'', BS_PROJECT), (''provider'', BS_PROVIDER), (''model'', BS_MODEL)]"

definition budget_periods :: "(string \<times> budget_period) list" where
  "budget_periods = [(''daily'', DAILY), (''weekly'', WEEKLY), (''monthly'', MONTHLY), (''yearly'', YEARLY), (''custom'', CUSTOM)]"

definition parse_enum_value :: "(string \<times> 'e) list \<Rightarrow> string \<Rightarrow> budget_http + 'e" where
  "parse_enum_value members v = (case map_of members v of None \<Rightarrow> Inl Budget_invalid | Some e \<Rightarrow> Inr e)"

record budget_body =
  bb_name :: string
  bb_scope_type :: string
  bb_project_id :: "ident option"
  bb_provider :: "string option"
  bb_model :: "string option"
  bb_amount :: string
  bb_currency :: string
  bb_period :: string
  bb_custom_start :: "int option"
  bb_custom_end :: "int option"
  bb_thresholds :: "rat list"
  bb_enabled :: bool

definition thresholds_positive :: "rat list \<Rightarrow> budget_http + rat list" where
  "thresholds_positive v =
     (if v = [] \<or> list_ex (\<lambda>t. t \<le> 0) v then Inl Budget_invalid else Inr (sort (remdups v)))"

definition empty_opt :: "string option \<Rightarrow> bool" where
  "empty_opt v \<longleftrightarrow> v = None \<or> v = Some []"

definition create_budget ::
  "(string \<Rightarrow> rat option) \<Rightarrow> micros \<Rightarrow> ident \<Rightarrow> ident \<Rightarrow> ident \<Rightarrow> budget_body \<Rightarrow> budget list \<Rightarrow> budget_http + budget list" where
  "create_budget parse now i org user body rows =
     and_then (thresholds_positive (bb_thresholds body)) (\<lambda>thresholds.
     and_then (parse_enum_value budget_scopes (bb_scope_type body)) (\<lambda>sc.
     and_then (parse_enum_value budget_periods (bb_period body)) (\<lambda>period.
     and_then (guard (\<not> (sc = BS_PROJECT \<and> bb_project_id body = None)) Budget_invalid) (\<lambda>_.
     and_then (guard (\<not> (sc = BS_PROVIDER \<and> empty_opt (bb_provider body))) Budget_invalid) (\<lambda>_.
     and_then (guard (\<not> (sc = BS_MODEL \<and> empty_opt (bb_model body))) Budget_invalid) (\<lambda>_.
     and_then (guard (\<not> (period = CUSTOM \<and> (bb_custom_start body = None \<or> bb_custom_end body = None))) Budget_invalid) (\<lambda>_.
     and_then (parse_amount parse (bb_amount body)) (\<lambda>amount.
     case repo_create
       \<lparr>row_id = i, row_created_at = now, row_updated_at = now, row_deleted_at = None, row_deleted_by = None,
        bg_organization_id = org, bg_name = bb_name body, bg_scope_type = sc,
        bg_scope_project_id = (if sc = BS_PROJECT then bb_project_id body else None),
        bg_scope_provider = (if sc = BS_PROVIDER then bb_provider body else None),
        bg_scope_model = (if sc = BS_MODEL then bb_model body else None),
        bg_amount = amount, bg_currency = bb_currency body, bg_period = period,
        bg_custom_start = (if period = CUSTOM then bb_custom_start body else None),
        bg_custom_end = (if period = CUSTOM then bb_custom_end body else None),
        bg_thresholds = thresholds, bg_enabled = bb_enabled body, bg_created_by = Some user\<rparr> rows of
       Inl e \<Rightarrow> Inl (Budget_repo e) | Inr rows' \<Rightarrow> Inr rows'))))))))"

definition get_owned_budget :: "ident \<Rightarrow> ident \<Rightarrow> budget list \<Rightarrow> budget_http + budget" where
  "get_owned_budget org i rows =
     (case budget_get_for_org org i rows of
        Inl e \<Rightarrow> Inl (Budget_repo e) | Inr None \<Rightarrow> Inl Budget_not_found | Inr (Some b) \<Rightarrow> Inr b)"

text \<open>A partial update; the outer option is whether the field was sent.\<close>

record budget_patch =
  bp_name :: "string option"
  bp_amount :: "string option"
  bp_currency :: "string option"
  bp_period :: "string option"
  bp_custom_start :: "int option option"
  bp_custom_end :: "int option option"
  bp_thresholds :: "rat list option"
  bp_enabled :: "bool option"

definition sent :: "'a option \<Rightarrow> ('a \<Rightarrow> budget_http + 'b) \<Rightarrow> budget_http + 'b option" where
  "sent x f = (case x of None \<Rightarrow> Inr None | Some v \<Rightarrow> and_then (f v) (\<lambda>y. Inr (Some y)))"

definition keep_or :: "'a option \<Rightarrow> 'a \<Rightarrow> 'a" where
  "keep_or x old = (case x of None \<Rightarrow> old | Some v \<Rightarrow> v)"

definition update_budget ::
  "(string \<Rightarrow> rat option) \<Rightarrow> micros \<Rightarrow> ident \<Rightarrow> ident \<Rightarrow> budget_patch \<Rightarrow> budget list \<Rightarrow> budget_http + budget list" where
  "update_budget parse now org i body rows =
     and_then (get_owned_budget org i rows) (\<lambda>b.
     and_then (sent (bp_amount body) (parse_amount parse)) (\<lambda>amount.
     and_then (sent (bp_period body) (parse_enum_value budget_periods)) (\<lambda>period.
     and_then (sent (bp_thresholds body) thresholds_positive) (\<lambda>thresholds.
       if bp_name body = None \<and> amount = None \<and> bp_currency body = None \<and> period = None
          \<and> bp_custom_start body = None \<and> bp_custom_end body = None \<and> thresholds = None \<and> bp_enabled body = None
       then Inr rows
       else Inr (repo_update now i
         (\<lambda>b. b\<lparr>bg_name := keep_or (bp_name body) (bg_name b), bg_amount := keep_or amount (bg_amount b),
               bg_currency := keep_or (bp_currency body) (bg_currency b), bg_period := keep_or period (bg_period b),
               bg_custom_start := keep_or (bp_custom_start body) (bg_custom_start b),
               bg_custom_end := keep_or (bp_custom_end body) (bg_custom_end b),
               bg_thresholds := keep_or thresholds (bg_thresholds b),
               bg_enabled := keep_or (bp_enabled body) (bg_enabled b)\<rparr>) rows)))))"

definition delete_budget :: "micros \<Rightarrow> ident \<Rightarrow> ident \<Rightarrow> ident \<Rightarrow> budget list \<Rightarrow> budget_http + budget list" where
  "delete_budget now user org i rows =
     and_then (get_owned_budget org i rows) (\<lambda>b. Inr (repo_soft_delete now (Some user) i rows))"

definition get_budget_status ::
  "usage_cost_record list \<Rightarrow> date \<Rightarrow> ident \<Rightarrow> ident \<Rightarrow> budget list \<Rightarrow> budget_http + budget_evaluation" where
  "get_budget_status costs today org i rows =
     and_then (get_owned_budget org i rows) (\<lambda>b. Inr (evaluate_budget costs b today))"

section \<open>Properties\<close>

lemma window_bounds: "pw_start (resolve_period_window b t) = fst (period_bounds b t)
    \<and> pw_end (resolve_period_window b t) = snd (period_bounds b t)"
  by (simp add: resolve_period_window_def split_def Let_def)

text \<open>C31: for a calendar period (daily, weekly, monthly, yearly) the window contains the day it is resolved
  for, its elapsed and remaining days add up to its length, at least one day has elapsed, and every other
  day inside it resolves to the same window and the same period key: the windows partition the calendar.\<close>

theorem budget_window_partition:
  assumes "valid_date t" and "bg_period b \<noteq> CUSTOM"
  defines "w \<equiv> resolve_period_window b t"
  shows "pw_start w \<le> ordinal t \<and> ordinal t \<le> pw_end w \<and> 1 \<le> pw_elapsed w
    \<and> pw_elapsed w + pw_remaining w = total_days w
    \<and> (\<forall>u. valid_date u \<and> pw_start w \<le> ordinal u \<and> ordinal u \<le> pw_end w \<longrightarrow>
         pw_start (resolve_period_window b u) = pw_start w \<and> pw_end (resolve_period_window b u) = pw_end w
         \<and> period_key isodate b (resolve_period_window b u) = period_key isodate b w)"
proof -
  have b: "fst (period_bounds b t) \<le> ordinal t" "ordinal t \<le> snd (period_bounds b t)"
    using calendar_bounds [OF assms(1,2)] by auto
  have "1 \<le> pw_elapsed w \<and> pw_elapsed w + pw_remaining w = total_days w"
    using b by (simp add: w_def resolve_period_window_def split_def Let_def total_days_def)
  then show ?thesis
    using b calendar_partition [OF assms(1) _ assms(2)] unfolding w_def period_key_def
    by (simp add: window_bounds)
qed

definition sample_budget :: "budget_period \<Rightarrow> budget" where
  "sample_budget p =
     \<lparr>row_id = 3, row_created_at = 0, row_updated_at = 0, row_deleted_at = None, row_deleted_by = None,
      bg_organization_id = 1, bg_name = ''b'', bg_scope_type = BS_ORGANIZATION, bg_scope_project_id = None,
      bg_scope_provider = None, bg_scope_model = None, bg_amount = 10, bg_currency = ''USD'', bg_period = p,
      bg_custom_start = None, bg_custom_end = None, bg_thresholds = [50, 100], bg_enabled = True, bg_created_by = None\<rparr>"

theorem budget_window_partition_witness:
  "pw_start (resolve_period_window (sample_budget MONTHLY) \<lparr>dt_year = 2024, dt_month = 2, dt_day = 29\<rparr>)
     \<le> ordinal \<lparr>dt_year = 2024, dt_month = 2, dt_day = 29\<rparr>"
  by (rule budget_window_partition [THEN conjunct1])
    (simp_all add: valid_date_def days_in_month_def is_leap_def sample_budget_def)

text \<open>Evaluating an organization's budgets and alerting on them twice on the same data creates no
  second alert: every threshold the first pass reported folds into its open alert, whatever alert
  identifiers the second pass draws.\<close>

theorem budget_alerts_idempotent:
  assumes "evaluate_and_alert tx sha now ids costs budgets org today s = (es, s1)"
    and "evaluate_and_alert tx sha now' ids' costs budgets org today s1 = (es', s2)"
    and "length (concat (map (firings_of tx) es)) \<le> length ids" and "distinct ids"
    and "set ids \<inter> row_id ` set (as_alerts s) = {}" and "as_suppressions s = []"
  shows "es' = es \<and> as_created_total s2 = as_created_total s1 \<and> map row_id (as_alerts s2) = map row_id (as_alerts s1)"
proof -
  let ?fs = "concat (map (firings_of tx) es)"
  have es: "es' = es" and s1: "s1 = fire_all sha now (zip ids ?fs) s"
    and s2: "s2 = fire_all sha now' (zip ids' ?fs) s1"
    using assms(1,2) by (auto simp: evaluate_and_alert_def Let_def)
  have quiet: "as_suppressions (fire_all sha now xs u) = as_suppressions u" for xs u
    unfolding fire_all_def by (induction xs arbitrary: u) (simp_all add: fire_suppressions)
  have "handled sha now s1 f" if f: "f \<in> set ?fs" for f
  proof -
    obtain k where k: "k < length ?fs" "?fs ! k = f" using f by (metis in_set_conv_nth)
    then have "(ids ! k, f) \<in> set (zip ids ?fs)" using assms(3) by (auto simp: in_set_zip)
    moreover have "distinct (map fst (zip ids ?fs))" using assms(4) by (simp add: map_fst_zip_take)
    moreover have "fst ` set (zip ids ?fs) \<subseteq> set ids" by (auto dest: set_zip_leftD)
    then have "fst ` set (zip ids ?fs) \<inter> row_id ` set (as_alerts s) = {}" using assms(5) by (rule subset_disjoint)
    ultimately show ?thesis unfolding s1 using fire_all_handles [of "zip ids ?fs" s "(ids ! k, f)"] by simp
  qed
  moreover have "as_suppressions s1 = []" by (simp add: s1 quiet assms(6))
  ultimately have "handled sha now' s1 f" if "f \<in> set ?fs" for f
    using that handled_any_time by blast
  then have "\<forall>x \<in> set (zip ids' ?fs). handled sha now' s1 (snd x)" by (metis prod.collapse set_zip_rightD)
  with es show ?thesis unfolding s2 by (simp add: fire_all_handled)
qed

definition sample_texts :: texts where
  "sample_texts = \<lparr>tx_uuid = \<lambda>_. ''b'', tx_date = \<lambda>_. ''d'', tx_float = \<lambda>_. ''t'', tx_decimal = \<lambda>_. ''x''\<rparr>"

definition sample_day :: date where
  "sample_day = \<lparr>dt_year = 2024, dt_month = 2, dt_day = 29\<rparr>"

definition sample_spend :: "usage_cost_record list" where
  "sample_spend = [(sample_record 1 6)\<lparr>cr_usage_date := ordinal sample_day\<rparr>]"

lemma sample_crossed: "be_crossed (evaluate_budget sample_spend (sample_budget DAILY) sample_day) = [50]"
proof -
  have "ctx28 (3 / 5) * 5 = 3" using ctx28_scaled [of 6 1] by simp
  then have 1: "ctx28 (3 / 5) = 3 / 5" by linarith
  have 2: "ctx28 60 = 60" using ctx28_of_int [of 60] by simp
  show ?thesis
    by (simp add: 1 2 evaluate_budget_def split_def Let_def org_totals_lookup period_rows_def sample_spend_def
        sample_record_def sample_budget_def budget_dimensions_def dimension_filters_def resolve_period_window_def
        period_bounds_def totals_of_def dec_div_def dec_mult_def)
qed

theorem budget_alerts_idempotent_witness:
  "\<exists>es s1 es' s2.
     evaluate_and_alert sample_texts (\<lambda>x. x) 5 [4] sample_spend [sample_budget DAILY] 1 sample_day (alert_init []) = (es, s1)
     \<and> evaluate_and_alert sample_texts (\<lambda>x. x) 9 [7] sample_spend [sample_budget DAILY] 1 sample_day s1 = (es', s2)
     \<and> length (concat (map (firings_of sample_texts) es)) = 1 \<and> as_created_total s2 = as_created_total s1"
proof -
  obtain es s1 where 1: "evaluate_and_alert sample_texts (\<lambda>x. x) 5 [4] sample_spend [sample_budget DAILY] 1 sample_day (alert_init []) = (es, s1)"
    by fastforce
  obtain es' s2 where 2: "evaluate_and_alert sample_texts (\<lambda>x. x) 9 [7] sample_spend [sample_budget DAILY] 1 sample_day s1 = (es', s2)"
    by fastforce
  have "es = [evaluate_budget sample_spend (sample_budget DAILY) sample_day]"
    using 1 by (simp add: evaluate_and_alert_def evaluate_organization_def list_enabled_for_org_def
        budgets_for_org_def order_desc_def active_query_def sample_budget_def Let_def)
  then have n: "length (concat (map (firings_of sample_texts) es)) = 1" by (simp add: firings_of_def sample_crossed)
  have "as_created_total s2 = as_created_total s1"
    by (rule budget_alerts_idempotent [THEN conjunct2, THEN conjunct1, OF 1 2]) (use n in \<open>simp_all add: alert_init_def\<close>)
  with 1 2 n show ?thesis by blast
qed

end
