(* ===== verification/Identity.thy ===== *)
theory Identity
  imports Connections Budgets
begin

text \<open>
  The account tables and their repositories: \<open>models/user.py\<close>, \<open>session.py\<close>,
  \<open>verification_token.py\<close>, \<open>password_reset_token.py\<close>, \<open>organization.py\<close>, \<open>membership.py\<close>,
  \<open>invitation.py\<close>, \<open>organization_api_key.py\<close>, \<open>project.py\<close> and the repositories of the same names.
  The two token tables have the same columns and share one row type. A unique constraint covers
  deleted rows too; it is checked when a row is inserted or a constrained column changes. Column
  lengths and foreign keys are not modelled.
\<close>

section \<open>Rows\<close>

datatype user_status = US_ACTIVE | US_INVITED | US_DISABLED

record user = base_row +
  us_email :: string
  us_username :: "string option"
  us_display_name :: string
  us_status :: user_status
  us_email_verified :: bool
  us_avatar_url :: "string option"
  us_bio :: "string option"
  us_timezone :: "string option"
  us_password_hash :: "string option"
  us_last_login_at :: "micros option"
  us_onboarding_completed_at :: "micros option"
  us_preferences :: metadata
  us_google_sub :: "string option"
  us_google_email :: "string option"
  us_google_linked_at :: "micros option"
  us_last_login_provider :: "string option"

record session = base_row +
  ss_user_id :: ident
  ss_refresh_token_hash :: string
  ss_expires_at :: micros
  ss_revoked_at :: "micros option"
  ss_ip_address :: "string option"
  ss_user_agent :: "string option"

record token_row = base_row +
  tk_user_id :: ident
  tk_token_hash :: string
  tk_expires_at :: micros
  tk_used_at :: "micros option"

datatype organization_status = OS_ACTIVE | OS_SUSPENDED | OS_ARCHIVED

record organization = base_row +
  og_name :: string
  og_slug :: string
  og_description :: "string option"
  og_is_personal :: bool
  og_status :: organization_status

datatype membership_role = OWNER | ADMIN | MEMBER | VIEWER

fun role_value :: "membership_role \<Rightarrow> string" where
  "role_value OWNER = ''owner''"
| "role_value ADMIN = ''admin''"
| "role_value MEMBER = ''member''"
| "role_value VIEWER = ''viewer''"

record membership = base_row +
  ms_organization_id :: ident
  ms_user_id :: "ident option"
  ms_user_email :: string
  ms_role :: membership_role

datatype invitation_status = IV_PENDING | IV_ACCEPTED | IV_EXPIRED | IV_CANCELLED

fun invitation_value :: "invitation_status \<Rightarrow> string" where
  "invitation_value IV_PENDING = ''pending''"
| "invitation_value IV_ACCEPTED = ''accepted''"
| "invitation_value IV_EXPIRED = ''expired''"
| "invitation_value IV_CANCELLED = ''cancelled''"

record invitation = base_row +
  iv_organization_id :: ident
  iv_email :: string
  iv_role :: membership_role
  iv_token_hash :: string
  iv_status :: invitation_status
  iv_created_by :: "ident option"
  iv_accepted_by :: "ident option"
  iv_expires_at :: micros
  iv_accepted_at :: "micros option"
  iv_cancelled_at :: "micros option"

record api_key = base_row +
  ak_organization_id :: ident
  ak_name :: string
  ak_description :: "string option"
  ak_key_prefix :: string
  ak_key_hash :: string
  ak_permissions :: "string list"
  ak_created_by :: "ident option"
  ak_last_used_at :: "micros option"
  ak_expires_at :: "micros option"

datatype project_environment = DEVELOPMENT | STAGING | PRODUCTION

record project = base_row +
  pj_organization_id :: ident
  pj_name :: string
  pj_description :: "string option"
  pj_environment :: project_environment
  pj_budget :: "rat option"

text \<open>The roles in the order of their authority.\<close>

fun role_rank :: "membership_role \<Rightarrow> nat" where
  "role_rank VIEWER = 0"
| "role_rank MEMBER = 1"
| "role_rank ADMIN = 2"
| "role_rank OWNER = 3"

lemma role_rank_inj: "role_rank a = role_rank b \<Longrightarrow> a = b"
  by (cases a; cases b) simp_all

instantiation membership_role :: linorder
begin

definition less_eq_membership_role :: "membership_role \<Rightarrow> membership_role \<Rightarrow> bool" where
  "less_eq_membership_role a b \<longleftrightarrow> role_rank a \<le> role_rank b"

definition less_membership_role :: "membership_role \<Rightarrow> membership_role \<Rightarrow> bool" where
  "less_membership_role a b \<longleftrightarrow> role_rank a < role_rank b"

instance
  by standard (auto simp: less_eq_membership_role_def less_membership_role_def dest: role_rank_inj)

end

section \<open>Constraints\<close>

definition uq_users :: "user list \<Rightarrow> bool" where
  "uq_users rows \<longleftrightarrow> distinct (map us_email rows) \<and> distinct (List.map_filter us_username rows)
     \<and> distinct (List.map_filter us_google_sub rows)"

definition uq_organizations :: "organization list \<Rightarrow> bool" where
  "uq_organizations rows \<longleftrightarrow> distinct (map og_slug rows)"

definition uq_memberships :: "membership list \<Rightarrow> bool" where
  "uq_memberships rows \<longleftrightarrow> distinct (map (\<lambda>m. (ms_organization_id m, ms_user_email m)) rows)"

definition uq_api_keys :: "api_key list \<Rightarrow> bool" where
  "uq_api_keys rows \<longleftrightarrow> distinct (map ak_key_hash rows)"

definition checked :: "('r list \<Rightarrow> bool) \<Rightarrow> 'r list \<Rightarrow> repo_error + 'r list" where
  "checked uq rows = (if uq rows then Inr rows else Inl IntegrityError)"

lemma checked_Inr [simp]: "checked uq rows = Inr rows' \<longleftrightarrow> uq rows \<and> rows' = rows"
  by (auto simp: checked_def)

lemma repo_create_Inr: "repo_create r rows = Inr rows' \<longleftrightarrow> row_id r \<notin> row_id ` set rows \<and> rows' = rows @ [r]"
  by (auto simp: repo_create_def)

section \<open>Users\<close>

definition us_get_by_email :: "string \<Rightarrow> user list \<Rightarrow> repo_error + user option" where
  "us_get_by_email email rows = scalar_one_or_none (filter (\<lambda>u. us_email u = email) (active_query rows))"

definition us_get_by_username :: "string \<Rightarrow> user list \<Rightarrow> repo_error + user option" where
  "us_get_by_username name rows = scalar_one_or_none (filter (\<lambda>u. us_username u = Some name) (active_query rows))"

definition us_get_by_google_sub :: "string \<Rightarrow> user list \<Rightarrow> repo_error + user option" where
  "us_get_by_google_sub gsub rows = scalar_one_or_none (filter (\<lambda>u. us_google_sub u = Some gsub) (active_query rows))"

definition email_exists :: "string \<Rightarrow> ident option \<Rightarrow> user list \<Rightarrow> bool" where
  "email_exists email exclude rows \<longleftrightarrow>
     list_ex (\<lambda>u. row_deleted_at u = None \<and> us_email u = email \<and> exclude \<noteq> Some (row_id u)) rows"

definition username_exists :: "string \<Rightarrow> ident option \<Rightarrow> user list \<Rightarrow> bool" where
  "username_exists name exclude rows \<longleftrightarrow>
     list_ex (\<lambda>u. row_deleted_at u = None \<and> us_username u = Some name \<and> exclude \<noteq> Some (row_id u)) rows"

definition us_list_active where
  "us_list_active limit c order rows = list_page limit c order (\<lambda>u. us_status u = US_ACTIVE) (rows :: user list)"

definition search_users where
  "search_users query limit c rows =
     (let like = CHR ''%'' # query @ [CHR ''%'']
      in list_page limit c ''asc''
        (\<lambda>u. sql_ilike like (us_email u) \<or> (case us_username u of None \<Rightarrow> False | Some n \<Rightarrow> sql_ilike like n)
             \<or> sql_ilike like (us_display_name u)) (rows :: user list))"

definition us_count_active :: "user list \<Rightarrow> nat" where
  "us_count_active rows = repo_count (\<lambda>u. us_status u = US_ACTIVE) rows"

definition us_count_by_status :: "user_status \<Rightarrow> user list \<Rightarrow> nat" where
  "us_count_by_status st rows = length (filter (\<lambda>u. row_deleted_at u = None \<and> us_status u = st) rows)"

definition update_last_login :: "micros \<Rightarrow> ident \<Rightarrow> string option \<Rightarrow> user list \<Rightarrow> user list" where
  "update_last_login now i provider rows =
     sql_update_where (\<lambda>u. row_id u = i \<and> row_deleted_at u = None)
       (\<lambda>u. (case provider of None \<Rightarrow> u | Some p \<Rightarrow> u\<lparr>us_last_login_provider := Some p\<rparr>)
              \<lparr>us_last_login_at := Some now, row_updated_at := now\<rparr>) rows"

section \<open>Sessions and single-use tokens\<close>

definition session_live :: "micros \<Rightarrow> session \<Rightarrow> bool" where
  "session_live now s \<longleftrightarrow> ss_revoked_at s = None \<and> now < ss_expires_at s"

definition get_active :: "micros \<Rightarrow> ident \<Rightarrow> session list \<Rightarrow> repo_error + session option" where
  "get_active now i rows = scalar_one_or_none (filter (\<lambda>s. row_id s = i \<and> session_live now s) (active_query rows))"

definition get_active_by_token_hash :: "micros \<Rightarrow> string \<Rightarrow> session list \<Rightarrow> repo_error + session option" where
  "get_active_by_token_hash now h rows =
     scalar_one_or_none (filter (\<lambda>s. ss_refresh_token_hash s = h \<and> session_live now s) (active_query rows))"

definition revoke_where :: "micros \<Rightarrow> (session \<Rightarrow> bool) \<Rightarrow> session list \<Rightarrow> session list" where
  "revoke_where now P rows =
     sql_update_where (\<lambda>s. row_deleted_at s = None \<and> P s) (\<lambda>s. s\<lparr>ss_revoked_at := Some now, row_updated_at := now\<rparr>) rows"

definition revoke :: "micros \<Rightarrow> ident \<Rightarrow> session list \<Rightarrow> session list" where
  "revoke now i = revoke_where now (\<lambda>s. row_id s = i)"

definition revoke_all_for_user :: "micros \<Rightarrow> ident \<Rightarrow> session list \<Rightarrow> session list" where
  "revoke_all_for_user now u = revoke_where now (\<lambda>s. ss_user_id s = u \<and> ss_revoked_at s = None)"

definition revoke_all_for_user_except :: "micros \<Rightarrow> ident \<Rightarrow> ident \<Rightarrow> session list \<Rightarrow> session list" where
  "revoke_all_for_user_except now u keep =
     revoke_where now (\<lambda>s. ss_user_id s = u \<and> row_id s \<noteq> keep \<and> ss_revoked_at s = None)"

definition rotate_session :: "micros \<Rightarrow> ident \<Rightarrow> string \<Rightarrow> micros \<Rightarrow> session list \<Rightarrow> session list" where
  "rotate_session now i h expires rows =
     sql_update_where (\<lambda>s. row_id s = i \<and> row_deleted_at s = None)
       (\<lambda>s. s\<lparr>ss_refresh_token_hash := h, ss_expires_at := expires, row_updated_at := now\<rparr>) rows"

definition list_active_for_user :: "micros \<Rightarrow> ident \<Rightarrow> session list \<Rightarrow> session list" where
  "list_active_for_user now u rows = filter (\<lambda>s. ss_user_id s = u \<and> row_deleted_at s = None \<and> session_live now s) rows"

definition token_valid :: "micros \<Rightarrow> token_row \<Rightarrow> bool" where
  "token_valid now t \<longleftrightarrow> row_deleted_at t = None \<and> tk_used_at t = None \<and> now < tk_expires_at t"

definition get_valid_by_hash :: "micros \<Rightarrow> string \<Rightarrow> token_row list \<Rightarrow> repo_error + token_row option" where
  "get_valid_by_hash now h rows = scalar_one_or_none (filter (\<lambda>t. token_valid now t \<and> tk_token_hash t = h) rows)"

definition mark_used :: "micros \<Rightarrow> ident \<Rightarrow> token_row list \<Rightarrow> token_row list" where
  "mark_used now i rows =
     sql_update_where (\<lambda>t. row_id t = i) (\<lambda>t. t\<lparr>tk_used_at := Some now, row_updated_at := now\<rparr>) rows"

definition invalidate_for_user :: "micros \<Rightarrow> ident \<Rightarrow> token_row list \<Rightarrow> token_row list" where
  "invalidate_for_user now u rows =
     sql_update_where (\<lambda>t. tk_user_id t = u \<and> tk_used_at t = None \<and> row_deleted_at t = None)
       (\<lambda>t. t\<lparr>tk_used_at := Some now, row_updated_at := now\<rparr>) rows"

definition get_unused_for_user :: "micros \<Rightarrow> ident \<Rightarrow> token_row list \<Rightarrow> token_row list" where
  "get_unused_for_user now u rows = filter (\<lambda>t. tk_user_id t = u \<and> token_valid now t) rows"

section \<open>Organizations and memberships\<close>

definition og_get_by_slug :: "string \<Rightarrow> organization list \<Rightarrow> repo_error + organization option" where
  "og_get_by_slug slug rows = scalar_one_or_none (filter (\<lambda>g. og_slug g = slug) (active_query rows))"

definition slug_exists :: "organization list \<Rightarrow> string \<Rightarrow> bool" where
  "slug_exists rows slug \<longleftrightarrow> list_ex (\<lambda>g. row_deleted_at g = None \<and> og_slug g = slug) rows"

definition og_list_by_status where
  "og_list_by_status st limit c order rows = list_page limit c order (\<lambda>g. og_status g = st) (rows :: organization list)"

definition get_by_org_and_email :: "ident \<Rightarrow> string \<Rightarrow> membership list \<Rightarrow> repo_error + membership option" where
  "get_by_org_and_email org email rows =
     scalar_one_or_none (filter (\<lambda>m. ms_organization_id m = org \<and> ms_user_email m = email) (active_query rows))"

definition ms_list_by_org where
  "ms_list_by_org org limit c order rows =
     list_page limit c order (\<lambda>m. ms_organization_id m = org) (rows :: membership list)"

definition ms_list_by_email where
  "ms_list_by_email email limit c order rows =
     list_page limit c order (\<lambda>m. ms_user_email m = email) (rows :: membership list)"

definition ms_list_by_org_and_role where
  "ms_list_by_org_and_role org role limit c order rows =
     list_page limit c order (\<lambda>m. ms_organization_id m = org \<and> ms_role m = role) (rows :: membership list)"

definition list_by_user_email_with_orgs ::
  "string \<Rightarrow> organization list \<Rightarrow> membership list \<Rightarrow> (membership \<times> organization) list" where
  "list_by_user_email_with_orgs email orgs rows =
     List.map_filter (\<lambda>m. case List.find (\<lambda>g. row_id g = ms_organization_id m) orgs of
         None \<Rightarrow> None
       | Some g \<Rightarrow> if row_deleted_at g = None \<and> og_status g = OS_ACTIVE then Some (m, g) else None)
       (sort_key row_created_at (filter (\<lambda>m. row_deleted_at m = None \<and> ms_user_email m = email) rows))"

definition list_by_org_with_users :: "ident \<Rightarrow> membership list \<Rightarrow> membership list" where
  "list_by_org_with_users org rows =
     sort_key row_created_at (filter (\<lambda>m. row_deleted_at m = None \<and> ms_organization_id m = org) rows)"

definition link_pending_by_email :: "micros \<Rightarrow> string \<Rightarrow> ident \<Rightarrow> membership list \<Rightarrow> membership list" where
  "link_pending_by_email now email u rows =
     sql_update_where (\<lambda>m. ms_user_email m = email \<and> ms_user_id m = None \<and> row_deleted_at m = None)
       (\<lambda>m. m\<lparr>ms_user_id := Some u, row_updated_at := now\<rparr>) rows"

section \<open>Invitations, keys, projects and budgets\<close>

definition invitation_open :: "micros \<Rightarrow> invitation \<Rightarrow> bool" where
  "invitation_open now v \<longleftrightarrow> iv_status v = IV_PENDING \<and> now < iv_expires_at v"

definition get_pending_by_org_and_email ::
  "micros \<Rightarrow> ident \<Rightarrow> string \<Rightarrow> invitation list \<Rightarrow> repo_error + invitation option" where
  "get_pending_by_org_and_email now org email rows =
     scalar_one_or_none (filter (\<lambda>v. iv_organization_id v = org \<and> iv_email v = email \<and> invitation_open now v)
       (active_query rows))"

definition get_valid_by_token_hash :: "micros \<Rightarrow> string \<Rightarrow> invitation list \<Rightarrow> repo_error + invitation option" where
  "get_valid_by_token_hash now h rows =
     scalar_one_or_none (filter (\<lambda>v. iv_token_hash v = h \<and> invitation_open now v) (active_query rows))"

definition list_pending_by_org :: "ident \<Rightarrow> invitation list \<Rightarrow> invitation list" where
  "list_pending_by_org org rows =
     order_desc row_created_at
       (filter (\<lambda>v. row_deleted_at v = None \<and> iv_organization_id v = org \<and> iv_status v = IV_PENDING) rows)"

definition ak_list :: "ident \<Rightarrow> api_key list \<Rightarrow> api_key list" where
  "ak_list org rows =
     order_desc row_created_at (filter (\<lambda>k. row_deleted_at k = None \<and> ak_organization_id k = org) rows)"

definition ak_get_by_hash :: "string \<Rightarrow> api_key list \<Rightarrow> repo_error + api_key option" where
  "ak_get_by_hash h rows = scalar_one_or_none (filter (\<lambda>k. ak_key_hash k = h) (active_query rows))"

definition ak_delete :: "micros \<Rightarrow> ident option \<Rightarrow> ident \<Rightarrow> api_key list \<Rightarrow> api_key list" where
  "ak_delete now by i rows = repo_soft_delete now by i rows"

definition ak_update_last_used :: "micros \<Rightarrow> ident \<Rightarrow> api_key list \<Rightarrow> api_key list" where
  "ak_update_last_used now i rows = repo_update now i (\<lambda>k. k\<lparr>ak_last_used_at := Some now\<rparr>) rows"

definition pj_list_by_org where
  "pj_list_by_org org limit c order rows =
     list_page limit c order (\<lambda>p. pj_organization_id p = org) (rows :: project list)"

definition pj_list_by_org_and_env where
  "pj_list_by_org_and_env org env limit c order rows =
     list_page limit c order (\<lambda>p. pj_organization_id p = org \<and> pj_environment p = env) (rows :: project list)"

definition pj_count_by_org :: "ident \<Rightarrow> project list \<Rightarrow> nat" where
  "pj_count_by_org org rows = repo_count (\<lambda>p. pj_organization_id p = org) rows"

end
