(* ===== verification/Rate_Limits.thy ===== *)
theory Rate_Limits
  imports Interfaces
begin

text \<open>
  Rate limiting: \<open>auth/rate_limit.py\<close> (login attempts by address, account lockout, e-mail sends) and
  \<open>realtime/rate_limit.py\<close> (connection attempts). Redis is a parameter: a record of operations on a
  server state, each of which may fail (\<open>None\<close>), in which case the call falls back on the per-process
  memory backend, as in \<open>_call\<close>. \<open>now\<close> is \<open>time.time()\<close>, \<open>mclock\<close> is \<open>time.monotonic()\<close>.
\<close>

section \<open>The memory backend\<close>

definition WINDOW_SECONDS :: nat where "WINDOW_SECONDS = 60"
definition IP_MAX_ATTEMPTS :: nat where "IP_MAX_ATTEMPTS = 10"
definition ACCOUNT_MAX_FAILURES :: nat where "ACCOUNT_MAX_FAILURES = 5"
definition LOCKOUT_BASE_SECONDS :: nat where "LOCKOUT_BASE_SECONDS = 30"
definition LOCKOUT_MAX_SECONDS :: nat where "LOCKOUT_MAX_SECONDS = 900"
definition FAILURE_COUNT_TTL :: secs where "FAILURE_COUNT_TTL = 900"

record memory_backend =
  mb_windows :: "string \<Rightarrow> secs list"
  mb_lockouts :: "string \<Rightarrow> secs option"
  mb_failures :: "string \<Rightarrow> (nat \<times> secs) option"

definition mb_init :: memory_backend where
  "mb_init = \<lparr>mb_windows = \<lambda>_. [], mb_lockouts = \<lambda>_. None, mb_failures = \<lambda>_. None\<rparr>"

definition mb_count_in_window :: "string \<Rightarrow> secs \<Rightarrow> nat \<Rightarrow> memory_backend \<Rightarrow> nat \<times> memory_backend" where
  "mb_count_in_window key now window m =
     (let entries = filter (\<lambda>t. now - of_nat window < t) (mb_windows m key)
      in (length entries, m\<lparr>mb_windows := (mb_windows m)(key := entries)\<rparr>))"

definition mb_add_to_window :: "string \<Rightarrow> secs \<Rightarrow> nat \<Rightarrow> memory_backend \<Rightarrow> unit \<times> memory_backend" where
  "mb_add_to_window key now window m = ((), m\<lparr>mb_windows := (mb_windows m)(key := mb_windows m key @ [now])\<rparr>)"

definition mb_get_lockout :: "string \<Rightarrow> secs \<Rightarrow> memory_backend \<Rightarrow> secs \<times> memory_backend" where
  "mb_get_lockout key now m =
     (let until = (case mb_lockouts m key of None \<Rightarrow> 0 | Some u \<Rightarrow> u)
      in if until \<le> now then (0, m\<lparr>mb_lockouts := (mb_lockouts m)(key := None)\<rparr>) else (until, m))"

definition mb_set_lockout :: "string \<Rightarrow> secs \<Rightarrow> secs \<Rightarrow> memory_backend \<Rightarrow> unit \<times> memory_backend" where
  "mb_set_lockout key until now m = ((), m\<lparr>mb_lockouts := (mb_lockouts m)(key := Some until)\<rparr>)"

definition mb_get_failures :: "secs \<Rightarrow> string \<Rightarrow> memory_backend \<Rightarrow> nat \<times> memory_backend" where
  "mb_get_failures mclock key m =
     (let (count, expiry) = (case mb_failures m key of None \<Rightarrow> (0, 0) | Some x \<Rightarrow> x)
      in if expiry \<noteq> 0 \<and> expiry < mclock then (0, m\<lparr>mb_failures := (mb_failures m)(key := None)\<rparr>) else (count, m))"

definition mb_incr_failures :: "secs \<Rightarrow> string \<Rightarrow> memory_backend \<Rightarrow> nat \<times> memory_backend" where
  "mb_incr_failures mclock key m =
     (let (n, m) = mb_get_failures mclock key m; count = n + 1
      in (count, m\<lparr>mb_failures := (mb_failures m)(key := Some (count, mclock + FAILURE_COUNT_TTL))\<rparr>))"

definition mb_reset_failures :: "string \<Rightarrow> memory_backend \<Rightarrow> unit \<times> memory_backend" where
  "mb_reset_failures key m = ((), m\<lparr>mb_failures := (mb_failures m)(key := None)\<rparr>)"

section \<open>Backends and degradation\<close>

record 'r redis_ops =
  rd_count_in_window :: "string \<Rightarrow> secs \<Rightarrow> nat \<Rightarrow> 'r \<Rightarrow> (nat \<times> 'r) option"
  rd_add_to_window :: "string \<Rightarrow> secs \<Rightarrow> nat \<Rightarrow> 'r \<Rightarrow> (unit \<times> 'r) option"
  rd_get_lockout :: "string \<Rightarrow> secs \<Rightarrow> 'r \<Rightarrow> (secs \<times> 'r) option"
  rd_set_lockout :: "string \<Rightarrow> secs \<Rightarrow> secs \<Rightarrow> 'r \<Rightarrow> (unit \<times> 'r) option"
  rd_incr_failures :: "string \<Rightarrow> 'r \<Rightarrow> (nat \<times> 'r) option"
  rd_reset_failures :: "string \<Rightarrow> 'r \<Rightarrow> (unit \<times> 'r) option"

record 'r backends =
  bk_redis :: "'r redis_ops option"
  bk_server :: 'r
  bk_memory :: memory_backend

definition call_backend ::
  "('r redis_ops \<Rightarrow> 'r \<Rightarrow> ('a \<times> 'r) option) \<Rightarrow> (memory_backend \<Rightarrow> 'a \<times> memory_backend)
   \<Rightarrow> 'r backends \<Rightarrow> 'a \<times> 'r backends" where
  "call_backend f g b =
     (case Option.bind (bk_redis b) (\<lambda>ops. f ops (bk_server b)) of
        Some (x, r) \<Rightarrow> (x, b\<lparr>bk_server := r\<rparr>)
      | None \<Rightarrow> (let (x, m) = g (bk_memory b) in (x, b\<lparr>bk_memory := m\<rparr>)))"

definition count_in_window :: "string \<Rightarrow> secs \<Rightarrow> nat \<Rightarrow> 'r backends \<Rightarrow> nat \<times> 'r backends" where
  "count_in_window key now w = call_backend (\<lambda>ops. rd_count_in_window ops key now w) (mb_count_in_window key now w)"

definition add_to_window :: "string \<Rightarrow> secs \<Rightarrow> nat \<Rightarrow> 'r backends \<Rightarrow> unit \<times> 'r backends" where
  "add_to_window key now w = call_backend (\<lambda>ops. rd_add_to_window ops key now w) (mb_add_to_window key now w)"

definition get_lockout :: "string \<Rightarrow> secs \<Rightarrow> 'r backends \<Rightarrow> secs \<times> 'r backends" where
  "get_lockout key now = call_backend (\<lambda>ops. rd_get_lockout ops key now) (mb_get_lockout key now)"

definition set_lockout :: "string \<Rightarrow> secs \<Rightarrow> secs \<Rightarrow> 'r backends \<Rightarrow> unit \<times> 'r backends" where
  "set_lockout key until now = call_backend (\<lambda>ops. rd_set_lockout ops key until now) (mb_set_lockout key until now)"

definition incr_failures :: "secs \<Rightarrow> string \<Rightarrow> 'r backends \<Rightarrow> nat \<times> 'r backends" where
  "incr_failures mclock key = call_backend (\<lambda>ops. rd_incr_failures ops key) (mb_incr_failures mclock key)"

definition reset_failures :: "string \<Rightarrow> 'r backends \<Rightarrow> unit \<times> 'r backends" where
  "reset_failures key = call_backend (\<lambda>ops. rd_reset_failures ops key) (mb_reset_failures key)"

section \<open>Login limiter\<close>

record login_policy =
  lp_window :: nat
  lp_ip_max :: nat
  lp_account_max :: nat
  lp_lock_base :: nat
  lp_lock_max :: nat

definition default_policy :: login_policy where
  "default_policy = \<lparr>lp_window = WINDOW_SECONDS, lp_ip_max = IP_MAX_ATTEMPTS, lp_account_max = ACCOUNT_MAX_FAILURES,
     lp_lock_base = LOCKOUT_BASE_SECONDS, lp_lock_max = LOCKOUT_MAX_SECONDS\<rparr>"

record decision =
  dc_allowed :: bool
  dc_retry_after :: int
  dc_reason :: string

definition allowed :: decision where "allowed = \<lparr>dc_allowed = True, dc_retry_after = 0, dc_reason = []\<rparr>"

definition ip_key :: "string \<Rightarrow> string" where "ip_key ip = ''rl:login:ip:'' @ ip"
definition lock_key :: "string \<Rightarrow> string" where "lock_key email = ''rl:login:lock:'' @ py_lower email"
definition fail_key :: "string \<Rightarrow> string" where "fail_key email = ''rl:login:fail:'' @ py_lower email"

definition login_check ::
  "login_policy \<Rightarrow> secs \<Rightarrow> string option \<Rightarrow> string \<Rightarrow> 'r backends \<Rightarrow> decision \<times> 'r backends" where
  "login_check p now ip email b =
     (let (until, b) = get_lockout (lock_key email) now b
      in if now < until
         then (\<lparr>dc_allowed = False, dc_retry_after = max 1 \<lfloor>until - now\<rfloor>, dc_reason = ''account_locked''\<rparr>, b)
         else case ip of
           None \<Rightarrow> (allowed, b)
         | Some [] \<Rightarrow> (allowed, b)
         | Some a \<Rightarrow>
             let (attempts, b) = count_in_window (ip_key a) now (lp_window p) b
             in if lp_ip_max p \<le> attempts
                then (\<lparr>dc_allowed = False, dc_retry_after = int (lp_window p), dc_reason = ''ip_rate_limited''\<rparr>, b)
                else (allowed, snd (add_to_window (ip_key a) now (lp_window p) b)))"

definition lock_duration :: "login_policy \<Rightarrow> nat \<Rightarrow> secs" where
  "lock_duration p failures = of_nat (min (lp_lock_base p * 2 ^ (failures - lp_account_max p)) (lp_lock_max p))"

definition record_failure :: "login_policy \<Rightarrow> secs \<Rightarrow> secs \<Rightarrow> string \<Rightarrow> 'r backends \<Rightarrow> 'r backends" where
  "record_failure p now mclock email b =
     (let (failures, b) = incr_failures mclock (fail_key email) b
      in if lp_account_max p \<le> failures
         then snd (set_lockout (lock_key email) (now + lock_duration p failures) now b)
         else b)"

definition record_success :: "string \<Rightarrow> 'r backends \<Rightarrow> 'r backends" where
  "record_success email b = snd (reset_failures (fail_key email) b)"

section \<open>E-mail limiter\<close>

definition EMAIL_RATE_LIMIT_WINDOW_SECONDS :: nat where "EMAIL_RATE_LIMIT_WINDOW_SECONDS = 300"
definition EMAIL_RATE_LIMIT_MAX_ATTEMPTS :: nat where "EMAIL_RATE_LIMIT_MAX_ATTEMPTS = 3"

definition check_and_record :: "nat \<Rightarrow> nat \<Rightarrow> secs \<Rightarrow> string \<Rightarrow> string \<Rightarrow> 'r backends \<Rightarrow> decision \<times> 'r backends" where
  "check_and_record window max_attempts now scope key b =
     (let window_key = ''rl:email:'' @ scope @ '':'' @ key;
          (attempts, b) = count_in_window window_key now window b
      in if max_attempts \<le> attempts
         then (\<lparr>dc_allowed = False, dc_retry_after = int window, dc_reason = ''email_rate_limited''\<rparr>, b)
         else (allowed, snd (add_to_window window_key now window b)))"

section \<open>Connection limiter\<close>

definition MAX_ATTEMPTS_PER_IP :: nat where "MAX_ATTEMPTS_PER_IP = 30"

definition count_and_add :: "string \<Rightarrow> secs \<Rightarrow> nat \<Rightarrow> (string \<Rightarrow> secs list) \<Rightarrow> nat \<times> (string \<Rightarrow> secs list)" where
  "count_and_add key now window hits =
     (let hs = filter (\<lambda>t. now - of_nat window < t) (hits key) @ [now] in (length hs, hits(key := hs)))"

text \<open>The Redis pipeline, on the sorted set of the key: members are the printed times, so a member
  that is present already is kept once.\<close>

definition zset_attempt :: "secs \<Rightarrow> nat \<Rightarrow> secs list \<Rightarrow> nat \<times> secs list" where
  "zset_attempt now window zs =
     (let zs = filter (\<lambda>t. now - of_nat window < t) zs; zs = (if now \<in> set zs then zs else zs @ [now])
      in (length zs, zs))"

record conn_limiter =
  cl_redis :: "(string \<Rightarrow> secs list) option"
  cl_hits :: "string \<Rightarrow> secs list"

definition conn_check :: "nat \<Rightarrow> nat \<Rightarrow> bool \<Rightarrow> secs \<Rightarrow> string option \<Rightarrow> conn_limiter \<Rightarrow> bool \<times> conn_limiter" where
  "conn_check window max_attempts redis_up now ip l =
     (case ip of
        None \<Rightarrow> (True, l)
      | Some [] \<Rightarrow> (True, l)
      | Some a \<Rightarrow>
          let key = ''rl:realtime:conn:'' @ a
          in case (cl_redis l, redis_up) of
               (Some z, True) \<Rightarrow>
                 let (count, zs) = zset_attempt now window (z key)
                 in (count \<le> max_attempts, l\<lparr>cl_redis := Some (z(key := zs))\<rparr>)
             | _ \<Rightarrow>
                 let (count, hits) = count_and_add key now window (cl_hits l)
                 in (count \<le> max_attempts, l\<lparr>cl_hits := hits\<rparr>))"

section \<open>Every limiter is a window limiter\<close>

definition memory_only :: "memory_backend \<Rightarrow> unit backends" where
  "memory_only m = \<lparr>bk_redis = None, bk_server = (), bk_memory = m\<rparr>"

text \<open>A run of logins from one address: each attempt takes the next e-mail and the outcome of its
  credential check, and is followed by the bookkeeping of that outcome.\<close>

type_synonym login_run = "(string \<times> bool \<times> secs) list \<times> memory_backend"

definition login_attempt :: "login_policy \<Rightarrow> string \<Rightarrow> secs \<Rightarrow> login_run \<Rightarrow> bool \<times> login_run" where
  "login_attempt p ip now s =
     (case s of
        ([], m) \<Rightarrow> (False, ([], m))
      | ((email, ok, mclock) # rest, m) \<Rightarrow>
          let (d, b) = login_check p now (Some ip) email (memory_only m)
          in if dc_allowed d
             then (True, rest, bk_memory (if ok then record_success email b else record_failure p now mclock email b))
             else (False, rest, bk_memory b))"

text \<open>Without Redis every call is the memory call.\<close>

lemma call_memory:
  "call_backend f g (memory_only m) = (let (x, m') = g m in (x, memory_only m'))"
  by (simp add: call_backend_def memory_only_def split_def)

lemma memory_of [simp]: "bk_memory (memory_only m) = m"
  by (simp add: memory_only_def)

lemma memory_only_inj: "memory_only m = memory_only m' \<longleftrightarrow> m = m'"
  by (simp add: memory_only_def)

lemmas memory_calls = count_in_window_def add_to_window_def get_lockout_def set_lockout_def
  incr_failures_def reset_failures_def call_memory

lemma get_lockout_windows: "mb_windows (snd (mb_get_lockout k now m)) = mb_windows m"
  by (simp add: mb_get_lockout_def Let_def)

lemma incr_failures_windows: "mb_windows (snd (mb_incr_failures mc k m)) = mb_windows m"
  by (simp add: mb_incr_failures_def mb_get_failures_def Let_def split_def)

lemma record_failure_windows: "mb_windows (bk_memory (record_failure p now mc e (memory_only m))) = mb_windows m"
  by (simp add: record_failure_def memory_calls split_def Let_def mb_set_lockout_def incr_failures_windows)

lemma record_success_windows: "mb_windows (bk_memory (record_success e (memory_only m))) = mb_windows m"
  by (simp add: record_success_def memory_calls split_def Let_def mb_reset_failures_def)

lemma login_check_memory:
  assumes "login_check p now (Some (c # ip)) e (memory_only m) = (d, b)"
  defines "w \<equiv> filter (\<lambda>t. now - of_nat (lp_window p) < t) (mb_windows m (ip_key (c # ip)))"
  shows "\<exists>m'. b = memory_only m'
    \<and> (if dc_allowed d
       then length w < lp_ip_max p \<and> mb_windows m' (ip_key (c # ip)) = w @ [now]
       else mb_windows m' (ip_key (c # ip)) = mb_windows m (ip_key (c # ip)) \<or> mb_windows m' (ip_key (c # ip)) = w)"
  using assms
  by (auto simp: login_check_def memory_calls split_def Let_def get_lockout_windows allowed_def
      mb_count_in_window_def mb_add_to_window_def split: if_splits)

lemma login_attempt_step:
  assumes a: "login_attempt p (c # ip) now s = (ok, s')"
  defines "h \<equiv> \<lambda>s :: login_run. mb_windows (snd s) (ip_key (c # ip))"
  defines "w \<equiv> filter (\<lambda>t. now - of_nat (lp_window p) < t) (h s)"
  shows "if ok then length w < lp_ip_max p \<and> h s' = w @ [now] else h s' = h s \<or> h s' = w"
proof -
  obtain q m where s: "s = (q, m)" by (cases s)
  show ?thesis
  proof (cases q)
    case Nil
    with a show ?thesis by (simp add: s login_attempt_def)
  next
    case (Cons x rest)
    obtain e v mc where x: "x = (e, v, mc)" by (cases x)
    obtain d b where d: "login_check p now (Some (c # ip)) e (memory_only m) = (d, b)" by fastforce
    note lc = login_check_memory [OF d]
    from lc obtain m1 where m1: "b = memory_only m1" by blast
    show ?thesis
      using a lc
      by (auto simp: s Cons x login_attempt_def d m1 h_def w_def memory_only_inj record_failure_windows
          record_success_windows split: if_splits)
  qed
qed

interpretation login_window: window_limiter
  "login_attempt default_policy (c # ip)" "\<lambda>s. mb_windows (snd s) (ip_key (c # ip))" "of_nat WINDOW_SECONDS" IP_MAX_ATTEMPTS
proof (unfold_locales, goal_cases)
  case 1
  then show ?case by (simp add: WINDOW_SECONDS_def)
next
  case (2 now s ok s')
  then show ?case
    using login_attempt_step [of default_policy c ip now s ok s'] by (auto simp: default_policy_def WINDOW_SECONDS_def split: if_splits)
next
  case (3 now s s')
  then show ?case
    using login_attempt_step [of default_policy c ip now s True s'] by (auto simp: default_policy_def WINDOW_SECONDS_def)
qed

definition email_attempt :: "string \<Rightarrow> string \<Rightarrow> secs \<Rightarrow> memory_backend \<Rightarrow> bool \<times> memory_backend" where
  "email_attempt scope key now m =
     (let (d, b) = check_and_record EMAIL_RATE_LIMIT_WINDOW_SECONDS EMAIL_RATE_LIMIT_MAX_ATTEMPTS now scope key (memory_only m)
      in (dc_allowed d, bk_memory b))"

interpretation email_window: window_limiter
  "email_attempt scope key" "\<lambda>m. mb_windows m (''rl:email:'' @ scope @ '':'' @ key)"
  "of_nat EMAIL_RATE_LIMIT_WINDOW_SECONDS" EMAIL_RATE_LIMIT_MAX_ATTEMPTS
  by unfold_locales
    (auto simp: email_attempt_def check_and_record_def memory_calls split_def Let_def mb_count_in_window_def
      mb_add_to_window_def allowed_def EMAIL_RATE_LIMIT_WINDOW_SECONDS_def split: if_splits)

definition conn_attempt :: "string \<Rightarrow> secs \<Rightarrow> (string \<Rightarrow> secs list) \<Rightarrow> bool \<times> (string \<Rightarrow> secs list)" where
  "conn_attempt ip now hits =
     (let (ok, l) = conn_check WINDOW_SECONDS MAX_ATTEMPTS_PER_IP False now (Some ip) \<lparr>cl_redis = None, cl_hits = hits\<rparr>
      in (ok, cl_hits l))"

interpretation conn_window: window_limiter
  "conn_attempt (c # ip)" "\<lambda>h. h (''rl:realtime:conn:'' @ c # ip)" "of_nat WINDOW_SECONDS" MAX_ATTEMPTS_PER_IP
  by unfold_locales
    (auto simp: conn_attempt_def conn_check_def count_and_add_def split_def Let_def WINDOW_SECONDS_def)

section \<open>Lockouts are a backoff schedule\<close>

interpretation lockout: backoff_schedule
  "\<lambda>n. lock_duration default_policy (ACCOUNT_MAX_FAILURES + (n - 1))" 6 "of_nat LOCKOUT_MAX_SECONDS"
proof (unfold_locales, goal_cases)
  case (1 n)
  then show ?case by (simp add: lock_duration_def default_policy_def LOCKOUT_BASE_SECONDS_def LOCKOUT_MAX_SECONDS_def)
next
  case (2 m n)
  then have "(2 :: nat) ^ (m - 1) \<le> 2 ^ (n - 1)" by (intro power_increasing) auto
  then have "min (30 * 2 ^ (m - 1)) 900 \<le> min (30 * 2 ^ (n - 1)) (900 :: nat)" by (intro min.mono mult_le_mono2) auto
  then show ?case
    by (simp only: lock_duration_def default_policy_def login_policy.simps LOCKOUT_BASE_SECONDS_def
        LOCKOUT_MAX_SECONDS_def of_nat_le_iff add_diff_cancel_left')
next
  case (3 n)
  then have "(2 :: nat) ^ 5 \<le> 2 ^ (n - 1)" by (intro power_increasing) auto
  then show ?case
    by (simp add: lock_duration_def default_policy_def LOCKOUT_BASE_SECONDS_def LOCKOUT_MAX_SECONDS_def)
qed

section \<open>Properties\<close>

text \<open>Without Redis, however e-mails and outcomes vary, at most ten login attempts from one address
  pass the limiter in any window of sixty seconds.\<close>

theorem login_ip_limit:
  assumes "sorted ts"
  shows "length (filter (in_window 60 u) (grants (login_attempt default_policy (c # ip)) ts s)) \<le> 10"
  using login_window.grants_per_window [OF assms] by (simp add: WINDOW_SECONDS_def IP_MAX_ATTEMPTS_def)

theorem login_ip_limit_witness:
  "length (filter (in_window 60 1) (grants (login_attempt default_policy ''10.0.0.1'') [0, 1]
     ([(''a'', False, 0), (''b'', False, 0)], mb_init))) \<le> 10"
  by (rule login_ip_limit) simp

text \<open>At most three e-mails of one kind are sent to one address in any five minutes.\<close>

theorem email_send_quota:
  assumes "sorted ts"
  shows "length (filter (in_window 300 u) (grants (email_attempt scope key) ts m)) \<le> 3"
  using email_window.grants_per_window [OF assms]
  by (simp add: EMAIL_RATE_LIMIT_WINDOW_SECONDS_def EMAIL_RATE_LIMIT_MAX_ATTEMPTS_def)

theorem email_send_quota_witness:
  "length (filter (in_window 300 9) (grants (email_attempt ''verify'' ''a@b'') [0, 1, 2, 3, 9] mb_init)) \<le> 3"
  by (rule email_send_quota) simp

lemma connection_quota:
  "sorted ts \<Longrightarrow> length (filter (in_window 60 u) (grants (conn_attempt (c # ip)) ts h)) \<le> 30"
  using conn_window.grants_per_window by (simp add: WINDOW_SECONDS_def MAX_ATTEMPTS_PER_IP_def)

lemma lock_refuses:
  assumes "5 \<le> fst (mb_incr_failures mclock (fail_key email) m)"
    and "now \<le> t" and "t < now + lock_duration default_policy (fst (mb_incr_failures mclock (fail_key email) m))"
    and "py_lower email' = py_lower email"
  shows "\<not> dc_allowed (fst (login_check default_policy t ip email'
    (record_failure default_policy now mclock email (memory_only m))))"
  using assms
  by (auto simp: record_failure_def login_check_def memory_calls split_def Let_def mb_set_lockout_def
      mb_get_lockout_def lock_key_def default_policy_def ACCOUNT_MAX_FAILURES_def)

lemma lock_at_least:
  assumes "5 \<le> n"
  shows "30 \<le> lock_duration default_policy n"
  using lockout.delay_mono [of 1 "n - 4"] assms
  by (simp add: lock_duration_def default_policy_def LOCKOUT_BASE_SECONDS_def LOCKOUT_MAX_SECONDS_def ACCOUNT_MAX_FAILURES_def)

text \<open>The failure that makes the count of an account reach five locks it: until the lockout ends,
  every login for that e-mail, in whatever case and from whatever address, is refused; the lockout lasts
  between 30 and 900 seconds and never shortens as failures go on.\<close>

theorem lockout_blocks:
  assumes "5 \<le> fst (mb_incr_failures mclock (fail_key email) m)"
    and "b = record_failure default_policy now mclock email (memory_only m)"
    and "d = lock_duration default_policy (fst (mb_incr_failures mclock (fail_key email) m))"
    and "now \<le> t" and "t < now + d" and "py_lower email' = py_lower email"
  shows "\<not> dc_allowed (fst (login_check default_policy t ip email' b)) \<and> 30 \<le> d \<and> d \<le> 900
    \<and> d \<le> lock_duration default_policy (Suc (fst (mb_incr_failures mclock (fail_key email) m)))"
proof -
  let ?n = "fst (mb_incr_failures mclock (fail_key email) m)"
  define k where "k = ?n - 5 + 1"
  have k: "ACCOUNT_MAX_FAILURES + (k - 1) = ?n" "ACCOUNT_MAX_FAILURES + (Suc k - 1) = Suc ?n" "1 \<le> k"
    using assms(1) by (auto simp: ACCOUNT_MAX_FAILURES_def k_def)
  have "d \<le> of_nat LOCKOUT_MAX_SECONDS" "lock_duration default_policy (ACCOUNT_MAX_FAILURES + (1 - 1)) \<le> d"
      "d \<le> lock_duration default_policy (Suc ?n)"
    using lockout.delay_le_cap [of k] lockout.delay_mono [of 1 k] lockout.delay_mono [of k "Suc k"] k
    by (simp_all add: assms(3))
  moreover have "\<not> dc_allowed (fst (login_check default_policy t ip email' b))"
    using assms lock_refuses [of mclock email m now t email' ip] by simp
  ultimately show ?thesis
    by (simp add: lock_duration_def default_policy_def LOCKOUT_BASE_SECONDS_def LOCKOUT_MAX_SECONDS_def)
qed

theorem lockout_blocks_witness:
  "\<not> dc_allowed (fst (login_check default_policy 120 None ''Bob@x''
     (record_failure default_policy 100 7 ''bob@x''
       (memory_only (mb_init\<lparr>mb_failures := (\<lambda>_. None)(''rl:login:fail:bob@x'' \<mapsto> (4, 900))\<rparr>)))))"
proof (rule lockout_blocks [THEN conjunct1, OF _ refl refl])
  show "py_lower ''Bob@x'' = py_lower ''bob@x''" by code_simp
  have f: "fail_key ''bob@x'' = ''rl:login:fail:bob@x''" by code_simp
  show "5 \<le> fst (mb_incr_failures 7 (fail_key ''bob@x'')
      (mb_init\<lparr>mb_failures := (\<lambda>_. None)(''rl:login:fail:bob@x'' \<mapsto> (4, 900))\<rparr>))"
    unfolding f by (simp add: mb_incr_failures_def mb_get_failures_def)
  show "120 < 100 + lock_duration default_policy (fst (mb_incr_failures 7 (fail_key ''bob@x'')
      (mb_init\<lparr>mb_failures := (\<lambda>_. None)(''rl:login:fail:bob@x'' \<mapsto> (4, 900))\<rparr>)))"
    unfolding f by (simp add: mb_incr_failures_def mb_get_failures_def lock_duration_def default_policy_def
        LOCKOUT_BASE_SECONDS_def LOCKOUT_MAX_SECONDS_def ACCOUNT_MAX_FAILURES_def)
qed simp

fun conn_repeat :: "nat \<Rightarrow> secs \<Rightarrow> string \<Rightarrow> conn_limiter \<Rightarrow> bool list" where
  "conn_repeat 0 now ip l = []"
| "conn_repeat (Suc k) now ip l =
     (let (ok, l) = conn_check WINDOW_SECONDS MAX_ATTEMPTS_PER_IP True now (Some ip) l in ok # conn_repeat k now ip l)"

lemma zset_same_time:
  "zs = [] \<or> zs = [now] \<Longrightarrow> zset_attempt now WINDOW_SECONDS zs = (1, [now])"
  by (auto simp: zset_attempt_def WINDOW_SECONDS_def)

lemma conn_repeat_allowed:
  "cl_redis l = Some z \<Longrightarrow> z (''rl:realtime:conn:'' @ c # ip) \<in> {[], [now]} \<Longrightarrow>
   conn_repeat k now (c # ip) l = replicate k True"
proof (induction k arbitrary: l z)
  case (Suc k)
  have "z (''rl:realtime:conn:'' @ c # ip) = [] \<or> z (''rl:realtime:conn:'' @ c # ip) = [now]"
    using Suc.prems(2) by blast
  then have zs: "zset_attempt now WINDOW_SECONDS (z (''rl:realtime:conn:'' @ c # ip)) = (1, [now])"
    by (rule zset_same_time)
  then have "conn_check WINDOW_SECONDS MAX_ATTEMPTS_PER_IP True now (Some (c # ip)) l
      = (True, l\<lparr>cl_redis := Some (z((''rl:realtime:conn:'' @ c # ip) := [now]))\<rparr>)"
    using Suc.prems(1) by (simp add: conn_check_def Let_def MAX_ATTEMPTS_PER_IP_def)
  then show ?case using Suc.IH [of "l\<lparr>cl_redis := Some (z((''rl:realtime:conn:'' @ c # ip) := [now]))\<rparr>"] by simp
qed simp

text \<open>In the Redis branch of the connection limiter, attempts at one and the same clock reading share
  one member of the sorted set: any number of them is allowed.\<close>

theorem connection_burst_uncounted:
  "conn_repeat k now (c # ip) \<lparr>cl_redis = Some (\<lambda>_. []), cl_hits = \<lambda>_. []\<rparr> = replicate k True"
  by (rule conn_repeat_allowed [of _ "\<lambda>_. []"]) simp_all

end
