(* ===== verification/Access.thy ===== *)
theory Access
  imports Identity Rate_Limits
begin

text \<open>
  Who may do what: \<open>auth/rbac.py\<close>, \<open>auth/dependencies.py\<close>, \<open>auth/api_key_auth.py\<close>,
  \<open>services/api_key_auth_service.py\<close>, \<open>services/organization_api_key_service.py\<close>,
  \<open>services/invitation_service.py\<close> and the handlers of \<open>api/v1/organizations.py\<close> and
  \<open>api/v1/invitations.py\<close>.

  A request sees the whole database (\<open>accounts\<close>) and either returns the changed one or an error, in which
  case the transaction is rolled back. The counter \<open>ac_next\<close> supplies identifiers and numbers the random
  draws; \<open>ac_outbox\<close> records the e-mails handed to the provider. Hashing, random strings and signed tokens
  are the parameters of \<open>account_env\<close>.
\<close>

section \<open>State and parameters\<close>

datatype email =
    Verification_email string string
  | Welcome_email string
  | Password_reset_email string string
  | Invitation_email string string string
  | Invitation_accepted_email string string
  | Invitation_cancelled_email string

record accounts =
  ac_users :: "user list"
  ac_sessions :: "session list"
  ac_verify :: "token_row list"
  ac_reset :: "token_row list"
  ac_orgs :: "organization list"
  ac_members :: "membership list"
  ac_invites :: "invitation list"
  ac_keys :: "api_key list"
  ac_projects :: "project list"
  ac_connections :: "provider_connection list"
  ac_budgets :: "budget list"
  ac_alerts :: alert_state
  ac_outbox :: "email list"
  ac_next :: nat

record account_env =
  en_hash_token :: "string \<Rightarrow> string"
  en_hash_password :: "nat \<Rightarrow> string \<Rightarrow> string"
  en_verify_password :: "string \<Rightarrow> string \<Rightarrow> bool"
  en_fresh_token :: "nat \<Rightarrow> string"
  en_slug_token :: "nat \<Rightarrow> nat \<Rightarrow> string"
  en_access_token :: "ident \<Rightarrow> ident \<Rightarrow> string \<Rightarrow> micros \<Rightarrow> string"
  en_decode_token :: "micros \<Rightarrow> string \<Rightarrow> (ident \<times> ident) option"
  en_uuid :: "ident \<Rightarrow> string"
  en_sha256 :: "string \<Rightarrow> string"
  en_access_minutes :: int
  en_refresh_days :: int

text \<open>\<open>HTTPException\<close> with its status and detail, or a database error (status 500).\<close>

datatype http_error = Http nat string | Http_db repo_error

definition draw :: "accounts \<Rightarrow> nat \<times> accounts" where
  "draw s = (ac_next s, s\<lparr>ac_next := ac_next s + 1\<rparr>)"

definition send_email :: "email \<Rightarrow> accounts \<Rightarrow> accounts" where
  "send_email e s = s\<lparr>ac_outbox := ac_outbox s @ [e]\<rparr>"

definition day :: micros where "day = 86400000000"

section \<open>Permissions\<close>

datatype permission =
    ORG_READ | ORG_WRITE | ORG_DELETE | ORG_MANAGE_MEMBERS | ORG_TRANSFER_OWNERSHIP
  | PROJECT_READ | PROJECT_WRITE | PROJECT_DELETE
  | PROVIDER_READ | PROVIDER_WRITE | PROVIDER_DELETE
  | USAGE_READ | USAGE_WRITE | BILLING_READ | BILLING_WRITE
  | API_KEY_READ | API_KEY_WRITE | NOTIFICATION_READ | NOTIFICATION_WRITE

fun permission_value :: "permission \<Rightarrow> string" where
  "permission_value ORG_READ = ''org:read''"
| "permission_value ORG_WRITE = ''org:write''"
| "permission_value ORG_DELETE = ''org:delete''"
| "permission_value ORG_MANAGE_MEMBERS = ''org:manage_members''"
| "permission_value ORG_TRANSFER_OWNERSHIP = ''org:transfer_ownership''"
| "permission_value PROJECT_READ = ''project:read''"
| "permission_value PROJECT_WRITE = ''project:write''"
| "permission_value PROJECT_DELETE = ''project:delete''"
| "permission_value PROVIDER_READ = ''provider:read''"
| "permission_value PROVIDER_WRITE = ''provider:write''"
| "permission_value PROVIDER_DELETE = ''provider:delete''"
| "permission_value USAGE_READ = ''usage:read''"
| "permission_value USAGE_WRITE = ''usage:write''"
| "permission_value BILLING_READ = ''billing:read''"
| "permission_value BILLING_WRITE = ''billing:write''"
| "permission_value API_KEY_READ = ''api_key:read''"
| "permission_value API_KEY_WRITE = ''api_key:write''"
| "permission_value NOTIFICATION_READ = ''notification:read''"
| "permission_value NOTIFICATION_WRITE = ''notification:write''"

definition all_permissions :: "permission list" where
  "all_permissions =
     [ORG_READ, ORG_WRITE, ORG_DELETE, ORG_MANAGE_MEMBERS, ORG_TRANSFER_OWNERSHIP, PROJECT_READ, PROJECT_WRITE,
      PROJECT_DELETE, PROVIDER_READ, PROVIDER_WRITE, PROVIDER_DELETE, USAGE_READ, USAGE_WRITE, BILLING_READ,
      BILLING_WRITE, API_KEY_READ, API_KEY_WRITE, NOTIFICATION_READ, NOTIFICATION_WRITE]"

definition admin_perms :: "permission list" where
  "admin_perms =
     [ORG_READ, ORG_WRITE, ORG_MANAGE_MEMBERS, PROJECT_READ, PROJECT_WRITE, PROJECT_DELETE, PROVIDER_READ,
      PROVIDER_WRITE, PROVIDER_DELETE, USAGE_READ, USAGE_WRITE, BILLING_READ, API_KEY_READ, API_KEY_WRITE,
      NOTIFICATION_READ, NOTIFICATION_WRITE]"

definition member_perms :: "permission list" where
  "member_perms =
     [ORG_READ, PROJECT_READ, PROJECT_WRITE, PROJECT_DELETE, PROVIDER_READ, USAGE_READ, API_KEY_READ,
      NOTIFICATION_READ, NOTIFICATION_WRITE]"

definition viewer_perms :: "permission list" where
  "viewer_perms = [ORG_READ, PROJECT_READ, PROVIDER_READ, USAGE_READ, API_KEY_READ, NOTIFICATION_READ]"

fun get_permissions :: "membership_role \<Rightarrow> permission list" where
  "get_permissions OWNER = all_permissions"
| "get_permissions ADMIN = admin_perms"
| "get_permissions MEMBER = member_perms"
| "get_permissions VIEWER = viewer_perms"

definition has_permission :: "membership_role \<Rightarrow> permission \<Rightarrow> bool" where
  "has_permission role p \<longleftrightarrow> p \<in> set (get_permissions role)"

definition parse_permission :: "string \<Rightarrow> permission option" where
  "parse_permission v = List.find (\<lambda>p. permission_value p = v) all_permissions"

lemmas perm_lists = all_permissions_def admin_perms_def member_perms_def viewer_perms_def

lemma all_permissions_all: "p \<in> set all_permissions"
  by (cases p) (simp_all add: all_permissions_def)

lemma permission_values_distinct: "distinct (map permission_value all_permissions)"
  by code_simp

lemma parse_permission_value [simp]: "parse_permission (permission_value p) = Some p"
  unfolding parse_permission_def by (rule find_key_unique [OF permission_values_distinct all_permissions_all])

lemma permission_value_inj: "permission_value p = permission_value q \<longleftrightarrow> p = q"
  by (metis option.inject parse_permission_value)

lemma parse_permission_Some: "parse_permission v = Some p \<longleftrightarrow> v = permission_value p"
proof
  assume "parse_permission v = Some p"
  then have "permission_value p = v" using find_Some_mem unfolding parse_permission_def by fast
  then show "v = permission_value p" ..
qed simp

lemma role_permissions_grow: "a \<le> b \<Longrightarrow> has_permission a p \<Longrightarrow> has_permission b p"
  by (cases a; cases b; cases p)
    (simp_all add: less_eq_membership_role_def has_permission_def perm_lists)

section \<open>Requests and their callers\<close>

record request =
  rq_now :: micros
  rq_bearer :: "string option"
  rq_cookie :: "string option"

definition unauthorized :: http_error where
  "unauthorized = Http 401 ''Authentication credentials are invalid or expired''"

definition forbidden :: http_error where
  "forbidden = Http 403 ''You do not have permission to perform this action''"

definition org_not_found :: http_error where "org_not_found = Http 404 ''Organization not found''"

definition request_token :: "request \<Rightarrow> string option" where
  "request_token rq = (case rq_bearer rq of Some t \<Rightarrow> Some t | None \<Rightarrow> rq_cookie rq)"

definition or_else :: "http_error \<Rightarrow> repo_error + 'a option \<Rightarrow> http_error + 'a" where
  "or_else err r = (case r of Inl e \<Rightarrow> Inl (Http_db e) | Inr None \<Rightarrow> Inl err | Inr (Some x) \<Rightarrow> Inr x)"

definition get_current_user :: "account_env \<Rightarrow> request \<Rightarrow> accounts \<Rightarrow> http_error + user" where
  "get_current_user env rq s =
     (case Option.bind (request_token rq) (en_decode_token env (rq_now rq)) of
        None \<Rightarrow> Inl unauthorized
      | Some (uid, sid) \<Rightarrow>
          and_then (or_else unauthorized (get_active (rq_now rq) sid (ac_sessions s))) (\<lambda>_.
          and_then (or_else unauthorized (repo_get uid (ac_users s))) (\<lambda>u.
            if us_status u = US_DISABLED then Inl (Http 403 ''Your account has been disabled'') else Inr u)))"

definition get_current_org :: "ident \<Rightarrow> accounts \<Rightarrow> http_error + organization" where
  "get_current_org org s = or_else org_not_found (repo_get org (ac_orgs s))"

definition get_current_membership :: "account_env \<Rightarrow> request \<Rightarrow> ident \<Rightarrow> accounts \<Rightarrow> http_error + membership" where
  "get_current_membership env rq org s =
     and_then (get_current_user env rq s) (\<lambda>u.
     and_then (get_current_org org s) (\<lambda>g.
       or_else forbidden (get_by_org_and_email (row_id g) (us_email u) (ac_members s))))"

definition ensure_org_membership :: "user \<Rightarrow> ident \<Rightarrow> accounts \<Rightarrow> http_error + membership" where
  "ensure_org_membership u org s =
     and_then (get_current_org org s) (\<lambda>g.
       if og_status g \<noteq> OS_ACTIVE then Inl (Http 403 ''Organization is not active'')
       else or_else forbidden (get_by_org_and_email org (us_email u) (ac_members s)))"

definition get_query_org_membership :: "account_env \<Rightarrow> request \<Rightarrow> ident \<Rightarrow> accounts \<Rightarrow> http_error + membership" where
  "get_query_org_membership env rq org s =
     and_then (get_current_user env rq s) (\<lambda>u. ensure_org_membership u org s)"

definition check_permission :: "permission \<Rightarrow> membership \<Rightarrow> http_error + membership" where
  "check_permission p m = (if has_permission (ms_role m) p then Inr m else Inl forbidden)"

definition require_permission ::
  "permission \<Rightarrow> account_env \<Rightarrow> request \<Rightarrow> ident \<Rightarrow> accounts \<Rightarrow> http_error + membership" where
  "require_permission p env rq org s = and_then (get_current_membership env rq org s) (check_permission p)"

definition require_query_permission ::
  "permission \<Rightarrow> account_env \<Rightarrow> request \<Rightarrow> ident \<Rightarrow> accounts \<Rightarrow> http_error + membership" where
  "require_query_permission p env rq org s = and_then (get_query_org_membership env rq org s) (check_permission p)"

section \<open>Alerts of a handler\<close>

definition fire_alert_safely :: "account_env \<Rightarrow> micros \<Rightarrow> firing \<Rightarrow> accounts \<Rightarrow> accounts" where
  "fire_alert_safely env now f s =
     (let (i, s) = draw s
      in case fire (en_sha256 env) now i f (ac_alerts s) of
           Inl _ \<Rightarrow> s
         | Inr (_, a) \<Rightarrow> s\<lparr>ac_alerts := a\<rparr>)"

definition lifecycle_firing ::
  "ident \<Rightarrow> alert_type \<Rightarrow> alert_severity \<Rightarrow> string \<Rightarrow> string \<Rightarrow> string \<Rightarrow> string \<Rightarrow> metadata \<Rightarrow> firing" where
  "lifecycle_firing org t sev title message source scope meta =
     \<lparr>fi_organization_id = org, fi_type = t, fi_severity = sev, fi_title = title, fi_message = message,
      fi_source = source, fi_scope = scope, fi_provider = None, fi_rule_id = None, fi_metadata = meta\<rparr>"

definition member_added :: "account_env \<Rightarrow> ident \<Rightarrow> string \<Rightarrow> membership_role \<Rightarrow> firing" where
  "member_added env org email role =
     lifecycle_firing org ORG_MEMBER_ADDED INFO (email @ '' joined the organization'')
       (email @ '' was added as '' @ role_value role @ ''.'') ''membership''
       (membership_scope (en_uuid env org) email) [(''email'', email), (''role'', role_value role)]"

definition member_removed :: "account_env \<Rightarrow> ident \<Rightarrow> string \<Rightarrow> membership_role \<Rightarrow> firing" where
  "member_removed env org email role =
     lifecycle_firing org ORG_MEMBER_REMOVED INFO (email @ '' was removed from the organization'')
       (email @ '' ('' @ role_value role @ '') was removed from the organization.'') ''membership''
       (membership_scope (en_uuid env org) email) [(''email'', email), (''role'', role_value role)]"

definition quoted :: "string \<Rightarrow> string" where "quoted v = CHR 0x27 # v @ [CHR 0x27]"

definition api_key_event :: "account_env \<Rightarrow> alert_type \<Rightarrow> alert_severity \<Rightarrow> string \<Rightarrow> string \<Rightarrow> api_key \<Rightarrow> firing" where
  "api_key_event env t sev title_end message k =
     lifecycle_firing (ak_organization_id k) t sev (''API key '' @ quoted (ak_name k) @ title_end) message ''api_key''
       (api_key_scope (en_uuid env (row_id k)))
       [(''api_key_id'', en_uuid env (row_id k)), (''name'', ak_name k), (''prefix'', ak_key_prefix k)]"

section \<open>Organizations and members\<close>

definition parse_role :: "string \<Rightarrow> http_error + membership_role" where
  "parse_role v =
     (if v = ''owner'' then Inr OWNER else if v = ''admin'' then Inr ADMIN
      else if v = ''member'' then Inr MEMBER else if v = ''viewer'' then Inr VIEWER
      else Inl (Http 422 (''Invalid role '' @ quoted v)))"

definition owner_grant_allowed :: "membership_role \<Rightarrow> membership \<Rightarrow> http_error + unit" where
  "owner_grant_allowed role caller =
     guard (\<not> (role = OWNER \<and> ms_role caller \<noteq> OWNER))
       (Http 403 ''Only an organization owner can grant the owner role'')"

definition owners_of :: "ident \<Rightarrow> membership list \<Rightarrow> membership list" where
  "owners_of org rows = filter (\<lambda>m. ms_organization_id m = org \<and> ms_role m = OWNER) (active_query rows)"

definition count_owners :: "ident \<Rightarrow> membership list \<Rightarrow> nat" where
  "count_owners org rows = repo_count (\<lambda>m. ms_organization_id m = org \<and> ms_role m = OWNER) rows"

record member_response =
  mr_id :: ident
  mr_user_id :: "ident option"
  mr_email :: string
  mr_display_name :: "string option"
  mr_role :: string
  mr_status :: string
  mr_created_at :: micros

definition to_member_response :: "membership \<Rightarrow> user option \<Rightarrow> member_response" where
  "to_member_response m u =
     \<lparr>mr_id = row_id m, mr_user_id = ms_user_id m, mr_email = ms_user_email m,
      mr_display_name = map_option us_display_name u, mr_role = role_value (ms_role m),
      mr_status = (if ms_user_id m \<noteq> None then ''active'' else ''invited''), mr_created_at = row_created_at m\<rparr>"

definition user_of :: "ident option \<Rightarrow> accounts \<Rightarrow> http_error + user option" where
  "user_of u s = (case u of None \<Rightarrow> Inr None | Some i \<Rightarrow> map_err Http_db (repo_get i (ac_users s)))"

definition list_my_organizations :: "account_env \<Rightarrow> request \<Rightarrow> accounts \<Rightarrow> http_error + (organization \<times> string) list" where
  "list_my_organizations env rq s =
     and_then (get_current_user env rq s) (\<lambda>u.
       Inr (map (\<lambda>(m, g). (g, role_value (ms_role m)))
         (list_by_user_email_with_orgs (us_email u) (ac_orgs s) (ac_members s))))"

record org_changes =
  oc_name :: "string option option"
  oc_description :: "string option option"

definition shared_org :: "string \<Rightarrow> ident \<Rightarrow> accounts \<Rightarrow> http_error + organization" where
  "shared_org detail org s =
     and_then (get_current_org org s) (\<lambda>g. if og_is_personal g then Inl (Http 400 detail) else Inr g)"

definition update_organization ::
  "account_env \<Rightarrow> request \<Rightarrow> ident \<Rightarrow> org_changes \<Rightarrow> accounts \<Rightarrow> http_error + accounts" where
  "update_organization env rq org b s =
     and_then (require_permission ORG_WRITE env rq org s) (\<lambda>caller.
     and_then (shared_org ''Your personal workspace cannot be renamed.'' org s) (\<lambda>g.
       if oc_name b = None \<and> oc_description b = None then Inr s
       else if oc_name b = Some None then Inl (Http_db IntegrityError)
       else Inr (s\<lparr>ac_orgs := repo_update (rq_now rq) org
              (\<lambda>g. g\<lparr>og_name := (case oc_name b of Some (Some n) \<Rightarrow> n | _ \<Rightarrow> og_name g),
                     og_description := (case oc_description b of Some d \<Rightarrow> d | None \<Rightarrow> og_description g)\<rparr>)
              (ac_orgs s)\<rparr>)))"

definition delete_organization :: "account_env \<Rightarrow> request \<Rightarrow> ident \<Rightarrow> accounts \<Rightarrow> http_error + accounts" where
  "delete_organization env rq org s =
     and_then (require_permission ORG_DELETE env rq org s) (\<lambda>caller.
     and_then (shared_org ''Your personal workspace cannot be deleted.'' org s) (\<lambda>g.
       Inr (s\<lparr>ac_orgs := repo_soft_delete (rq_now rq) None org (ac_orgs s)\<rparr>)))"

definition list_members :: "account_env \<Rightarrow> request \<Rightarrow> ident \<Rightarrow> accounts \<Rightarrow> http_error + member_response list" where
  "list_members env rq org s =
     and_then (get_current_membership env rq org s) (\<lambda>_.
       Inr (map (\<lambda>m. to_member_response m
                  (Option.bind (ms_user_id m) (\<lambda>i. List.find (\<lambda>u. row_id u = i) (ac_users s))))
         (list_by_org_with_users org (ac_members s))))"

definition insert_membership :: "membership \<Rightarrow> accounts \<Rightarrow> repo_error + accounts" where
  "insert_membership m s =
     and_then (repo_create m (ac_members s)) (\<lambda>rows.
     and_then (checked uq_memberships rows) (\<lambda>rows. Inr (s\<lparr>ac_members := rows\<rparr>)))"

definition new_membership ::
  "micros \<Rightarrow> ident \<Rightarrow> ident \<Rightarrow> ident option \<Rightarrow> string \<Rightarrow> membership_role \<Rightarrow> membership" where
  "new_membership now i org u email role =
     \<lparr>row_id = i, row_created_at = now, row_updated_at = now, row_deleted_at = None, row_deleted_by = None,
      ms_organization_id = org, ms_user_id = u, ms_user_email = email, ms_role = role\<rparr>"

definition invite_member ::
  "account_env \<Rightarrow> request \<Rightarrow> ident \<Rightarrow> string \<Rightarrow> string \<Rightarrow> accounts \<Rightarrow> http_error + member_response \<times> accounts" where
  "invite_member env rq org email rolename s =
     and_then (require_permission ORG_MANAGE_MEMBERS env rq org s) (\<lambda>caller.
     and_then (shared_org ''Personal workspaces cannot invite members.'' org s) (\<lambda>g.
     and_then (parse_role rolename) (\<lambda>role.
     and_then (owner_grant_allowed role caller) (\<lambda>_.
     and_then (map_err Http_db (get_by_org_and_email org email (ac_members s))) (\<lambda>present.
     and_then (guard (present = None) (Http 409 ''This email is already a member of the organization'')) (\<lambda>_.
     and_then (map_err Http_db (us_get_by_email email (ac_users s))) (\<lambda>u.
       let (i, s) = draw s; m = new_membership (rq_now rq) i org (map_option row_id u) email role
       in and_then (map_err Http_db (insert_membership m s)) (\<lambda>s.
            Inr (to_member_response m u, fire_alert_safely env (rq_now rq) (member_added env org email role) s)))))))))"

definition member_not_found :: http_error where "member_not_found = Http 404 ''Member not found''"

definition get_member :: "ident \<Rightarrow> ident \<Rightarrow> accounts \<Rightarrow> http_error + membership" where
  "get_member org i s =
     and_then (or_else member_not_found (repo_get i (ac_members s))) (\<lambda>m.
       if ms_organization_id m \<noteq> org then Inl member_not_found else Inr m)"

definition set_role :: "micros \<Rightarrow> ident \<Rightarrow> membership_role \<Rightarrow> accounts \<Rightarrow> accounts" where
  "set_role now i role s = s\<lparr>ac_members := repo_update now i (\<lambda>m. m\<lparr>ms_role := role\<rparr>) (ac_members s)\<rparr>"

definition update_member_role ::
  "account_env \<Rightarrow> request \<Rightarrow> ident \<Rightarrow> ident \<Rightarrow> string \<Rightarrow> accounts \<Rightarrow> http_error + member_response \<times> accounts" where
  "update_member_role env rq org i rolename s =
     and_then (require_permission ORG_MANAGE_MEMBERS env rq org s) (\<lambda>caller.
     and_then (parse_role rolename) (\<lambda>role.
     and_then (owner_grant_allowed role caller) (\<lambda>_.
     and_then (get_member org i s) (\<lambda>target.
     and_then (if ms_role target = OWNER \<and> role \<noteq> OWNER
               then if row_id target = row_id caller
                    then Inl (Http 403 ''Owners cannot demote themselves - transfer ownership instead'')
                    else if count_owners org (ac_members s) \<le> 1
                    then Inl (Http 409 ''Cannot change the role of the organization's only owner'')
                    else Inr ()
               else Inr ()) (\<lambda>_.
     and_then (user_of (ms_user_id target) s) (\<lambda>u.
       Inr (to_member_response (target\<lparr>ms_role := role\<rparr>) u, set_role (rq_now rq) i role s)))))))"

definition remove_member ::
  "account_env \<Rightarrow> request \<Rightarrow> ident \<Rightarrow> ident \<Rightarrow> accounts \<Rightarrow> http_error + accounts" where
  "remove_member env rq org i s =
     and_then (require_permission ORG_MANAGE_MEMBERS env rq org s) (\<lambda>caller.
     and_then (get_member org i s) (\<lambda>target.
     and_then (if ms_role target = OWNER
               then if ms_role caller \<noteq> OWNER then Inl (Http 403 ''Only an owner can remove another owner'')
                    else if count_owners org (ac_members s) \<le> 1
                    then Inl (Http 409 ''Cannot remove the organization's only owner'')
                    else Inr ()
               else Inr ()) (\<lambda>_.
       Inr (fire_alert_safely env (rq_now rq) (member_removed env org (ms_user_email target) (ms_role target))
             (s\<lparr>ac_members := repo_soft_delete (rq_now rq) None i (ac_members s)\<rparr>)))))"

definition transfer_ownership ::
  "account_env \<Rightarrow> request \<Rightarrow> ident \<Rightarrow> ident \<Rightarrow> accounts \<Rightarrow> http_error + member_response \<times> accounts" where
  "transfer_ownership env rq org i s =
     and_then (require_permission ORG_TRANSFER_OWNERSHIP env rq org s) (\<lambda>caller.
     and_then (get_member org i s) (\<lambda>new_owner.
     and_then (guard (row_id new_owner \<noteq> row_id caller) (Http 422 ''You are already the owner'')) (\<lambda>_.
     and_then (user_of (ms_user_id new_owner) s) (\<lambda>u.
       Inr (to_member_response (new_owner\<lparr>ms_role := OWNER\<rparr>) u,
            set_role (rq_now rq) (row_id caller) ADMIN (set_role (rq_now rq) i OWNER s))))))"

section \<open>Invitations\<close>

datatype invitation_error =
    Cannot_invite_self | Already_member | Duplicate_pending | Invalid_invitation_token | Invitation_email_mismatch
  | Personal_organization | Invitation_db repo_error

definition INVITATION_EXPIRY_DAYS :: int where "INVITATION_EXPIRY_DAYS = 7"

definition insert_invitation :: "invitation \<Rightarrow> accounts \<Rightarrow> repo_error + accounts" where
  "insert_invitation v s = and_then (repo_create v (ac_invites s)) (\<lambda>rows. Inr (s\<lparr>ac_invites := rows\<rparr>))"

definition change_invitation :: "micros \<Rightarrow> ident \<Rightarrow> (invitation \<Rightarrow> invitation) \<Rightarrow> accounts \<Rightarrow> accounts" where
  "change_invitation now i f s = s\<lparr>ac_invites := repo_update now i f (ac_invites s)\<rparr>"

definition normal_email :: "string \<Rightarrow> string" where "normal_email e = py_lower (py_strip e)"

definition create_invitation ::
  "account_env \<Rightarrow> micros \<Rightarrow> organization \<Rightarrow> string \<Rightarrow> membership_role \<Rightarrow> user \<Rightarrow> accounts
   \<Rightarrow> invitation_error + invitation \<times> accounts" where
  "create_invitation env now g email role inviter s =
     (let norm = normal_email email
      in if og_is_personal g then Inl Personal_organization
         else if norm = normal_email (us_email inviter) then Inl Cannot_invite_self
         else and_then (map_err Invitation_db (get_by_org_and_email (row_id g) norm (ac_members s))) (\<lambda>present.
              if present \<noteq> None then Inl Already_member
              else and_then (map_err Invitation_db (get_pending_by_org_and_email now (row_id g) norm (ac_invites s))) (\<lambda>inv.
              if inv \<noteq> None then Inl Duplicate_pending
              else let (k, s) = draw s; raw = en_fresh_token env k; (i, s) = draw s;
                       v = \<lparr>row_id = i, row_created_at = now, row_updated_at = now, row_deleted_at = None,
                            row_deleted_by = None, iv_organization_id = row_id g, iv_email = norm, iv_role = role,
                            iv_token_hash = en_hash_token env raw, iv_status = IV_PENDING,
                            iv_created_by = Some (row_id inviter), iv_accepted_by = None,
                            iv_expires_at = now + INVITATION_EXPIRY_DAYS * day, iv_accepted_at = None,
                            iv_cancelled_at = None\<rparr>
                   in and_then (map_err Invitation_db (insert_invitation v s)) (\<lambda>s.
                        Inr (v, send_email (Invitation_email norm (og_name g) raw) s)))))"

definition resend_invitation ::
  "account_env \<Rightarrow> micros \<Rightarrow> invitation \<Rightarrow> organization \<Rightarrow> accounts \<Rightarrow> accounts" where
  "resend_invitation env now v g s =
     (let (k, s) = draw s; raw = en_fresh_token env k
      in send_email (Invitation_email (iv_email v) (og_name g) raw)
           (change_invitation now (row_id v)
             (\<lambda>v. v\<lparr>iv_token_hash := en_hash_token env raw, iv_status := IV_PENDING,
                    iv_expires_at := now + INVITATION_EXPIRY_DAYS * day\<rparr>) s))"

definition accept_invitation ::
  "account_env \<Rightarrow> micros \<Rightarrow> string \<Rightarrow> user \<Rightarrow> accounts \<Rightarrow> invitation_error + membership \<times> accounts" where
  "accept_invitation env now token u s =
     and_then (map_err Invitation_db (get_valid_by_token_hash now (en_hash_token env token) (ac_invites s))) (\<lambda>r.
     case r of
       None \<Rightarrow> Inl Invalid_invitation_token
     | Some v \<Rightarrow>
         if normal_email (iv_email v) \<noteq> normal_email (us_email u) then Inl Invitation_email_mismatch
         else and_then (map_err Invitation_db (repo_get (iv_organization_id v) (ac_orgs s))) (\<lambda>org.
         case org of
           None \<Rightarrow> Inl Invalid_invitation_token
         | Some g \<Rightarrow>
             let (i, s) = draw s;
                 m = new_membership now i (iv_organization_id v) (Some (row_id u)) (us_email u) (iv_role v)
             in and_then (map_err Invitation_db (insert_membership m s)) (\<lambda>s.
                let s = change_invitation now (row_id v)
                          (\<lambda>v. v\<lparr>iv_status := IV_ACCEPTED, iv_accepted_by := Some (row_id u), iv_accepted_at := Some now\<rparr>) s
                in and_then (map_err Invitation_db
                      (case iv_created_by v of None \<Rightarrow> Inr None | Some c \<Rightarrow> repo_get c (ac_users s))) (\<lambda>inviter.
                     Inr (m, case inviter of
                               None \<Rightarrow> s
                             | Some w \<Rightarrow> send_email (Invitation_accepted_email (us_email w) (og_name g)) s)))))"

definition decline_invitation ::
  "account_env \<Rightarrow> micros \<Rightarrow> string \<Rightarrow> accounts \<Rightarrow> invitation_error + accounts" where
  "decline_invitation env now token s =
     and_then (map_err Invitation_db (get_valid_by_token_hash now (en_hash_token env token) (ac_invites s))) (\<lambda>r.
     case r of
       None \<Rightarrow> Inl Invalid_invitation_token
     | Some v \<Rightarrow> Inr (change_invitation now (row_id v)
                        (\<lambda>v. v\<lparr>iv_status := IV_CANCELLED, iv_cancelled_at := Some now\<rparr>) s))"

definition cancel_invitation :: "micros \<Rightarrow> invitation \<Rightarrow> organization \<Rightarrow> accounts \<Rightarrow> accounts" where
  "cancel_invitation now v g s =
     send_email (Invitation_cancelled_email (iv_email v))
       (change_invitation now (row_id v) (\<lambda>v. v\<lparr>iv_status := IV_CANCELLED, iv_cancelled_at := Some now\<rparr>) s)"

text \<open>The handlers.\<close>

definition effective_status :: "micros \<Rightarrow> invitation \<Rightarrow> string" where
  "effective_status now v =
     (if iv_status v = IV_PENDING \<and> iv_expires_at v \<le> now then ''expired'' else invitation_value (iv_status v))"

definition list_invitations ::
  "account_env \<Rightarrow> request \<Rightarrow> ident \<Rightarrow> accounts \<Rightarrow> http_error + (invitation \<times> string) list" where
  "list_invitations env rq org s =
     and_then (require_permission ORG_MANAGE_MEMBERS env rq org s) (\<lambda>caller.
       Inr (map (\<lambda>v. (v, effective_status (rq_now rq) v)) (list_pending_by_org org (ac_invites s))))"

fun create_invitation_http :: "invitation_error \<Rightarrow> http_error" where
  "create_invitation_http Personal_organization = Http 400 ''Personal workspaces cannot invite members.''"
| "create_invitation_http Cannot_invite_self = Http 422 ''You cannot invite yourself''"
| "create_invitation_http Already_member = Http 409 ''This email is already a member of the organization''"
| "create_invitation_http Duplicate_pending = Http 409 ''This email already has a pending invitation''"
| "create_invitation_http (Invitation_db e) = Http_db e"
| "create_invitation_http _ = Http 500 ''An unexpected error occurred.''"

definition create_invitation_route ::
  "account_env \<Rightarrow> request \<Rightarrow> ident \<Rightarrow> string \<Rightarrow> string \<Rightarrow> accounts \<Rightarrow> 'r backends
   \<Rightarrow> (http_error + invitation \<times> accounts) \<times> 'r backends" where
  "create_invitation_route env rq org email rolename s b =
     (case and_then (get_current_user env rq s) (\<lambda>u.
           and_then (require_permission ORG_MANAGE_MEMBERS env rq org s) (\<lambda>caller.
           and_then (parse_role rolename) (\<lambda>role.
           and_then (owner_grant_allowed role caller) (\<lambda>_. Inr (u, role))))) of
        Inl e \<Rightarrow> (Inl e, b)
      | Inr (u, role) \<Rightarrow>
          let (d, b) = check_and_record EMAIL_RATE_LIMIT_WINDOW_SECONDS EMAIL_RATE_LIMIT_MAX_ATTEMPTS
                (of_int (rq_now rq) / 1000000) ''invitation'' (en_uuid env org @ '':'' @ normal_email email) b
          in if \<not> dc_allowed d
             then (Inl (Http 429 ''Too many invitations sent to this address. Please wait before retrying.''), b)
             else (and_then (get_current_org org s) (\<lambda>g.
                     map_err create_invitation_http (create_invitation env (rq_now rq) g email role u s)), b))"

definition invalid_invitation :: http_error where
  "invalid_invitation = Http 400 ''This invitation link is invalid or has expired.''"

fun accept_http :: "invitation_error \<Rightarrow> http_error" where
  "accept_http Invitation_email_mismatch = Http 403 ''This invitation was sent to a different email address.''"
| "accept_http Invalid_invitation_token = invalid_invitation"
| "accept_http (Invitation_db e) = Http_db e"
| "accept_http _ = Http 500 ''An unexpected error occurred.''"

definition accept_invitation_route ::
  "account_env \<Rightarrow> request \<Rightarrow> string \<Rightarrow> accounts \<Rightarrow> http_error + (ident \<times> string \<times> string) \<times> accounts" where
  "accept_invitation_route env rq token s =
     and_then (get_current_user env rq s) (\<lambda>u.
     and_then (map_err accept_http (accept_invitation env (rq_now rq) token u s)) (\<lambda>(m, s).
     and_then (map_err Http_db (repo_get (ms_organization_id m) (ac_orgs s))) (\<lambda>g.
       Inr ((ms_organization_id m, (case g of None \<Rightarrow> [] | Some g \<Rightarrow> og_name g), role_value (ms_role m)), s))))"

definition decline_invitation_route :: "account_env \<Rightarrow> request \<Rightarrow> string \<Rightarrow> accounts \<Rightarrow> http_error + accounts" where
  "decline_invitation_route env rq token s = map_err accept_http (decline_invitation env (rq_now rq) token s)"

definition resolve_and_authorize ::
  "ident \<Rightarrow> user \<Rightarrow> accounts \<Rightarrow> http_error + invitation \<times> organization \<times> membership" where
  "resolve_and_authorize i u s =
     and_then (or_else (Http 404 ''Invitation not found'') (repo_get i (ac_invites s))) (\<lambda>v.
     and_then (ensure_org_membership u (iv_organization_id v) s) (\<lambda>m.
     and_then (check_permission ORG_MANAGE_MEMBERS m) (\<lambda>_.
     and_then (get_current_org (iv_organization_id v) s) (\<lambda>g. Inr (v, g, m)))))"

definition resend_invitation_route :: "account_env \<Rightarrow> request \<Rightarrow> ident \<Rightarrow> accounts \<Rightarrow> http_error + accounts" where
  "resend_invitation_route env rq i s =
     and_then (get_current_user env rq s) (\<lambda>u.
     and_then (resolve_and_authorize i u s) (\<lambda>(v, g, m). Inr (resend_invitation env (rq_now rq) v g s)))"

definition cancel_invitation_route :: "account_env \<Rightarrow> request \<Rightarrow> ident \<Rightarrow> accounts \<Rightarrow> http_error + accounts" where
  "cancel_invitation_route env rq i s =
     and_then (get_current_user env rq s) (\<lambda>u.
     and_then (resolve_and_authorize i u s) (\<lambda>(v, g, m). Inr (cancel_invitation (rq_now rq) v g s)))"

section \<open>API keys\<close>

definition KEY_PREFIX :: string where "KEY_PREFIX = ''costorah_live_''"

datatype api_key_error =
    Invalid_permission string | Invalid_expiration string | Invalid_api_key | Api_key_expired | Organization_suspended
  | Key_db repo_error

definition validate_permissions :: "string list \<Rightarrow> api_key_error + string list" where
  "validate_permissions perms =
     (case List.find (\<lambda>v. parse_permission v = None) perms of
        Some v \<Rightarrow> Inl (Invalid_permission v)
      | None \<Rightarrow> Inr perms)"

definition resolve_expiration :: "micros \<Rightarrow> string \<Rightarrow> api_key_error + micros option" where
  "resolve_expiration now e =
     (if e = ''never'' then Inr None
      else if e = ''30d'' then Inr (Some (now + 30 * day))
      else if e = ''90d'' then Inr (Some (now + 90 * day))
      else Inl (Invalid_expiration e))"

definition key_expired :: "micros \<Rightarrow> api_key \<Rightarrow> bool" where
  "key_expired now k = (case ak_expires_at k of None \<Rightarrow> False | Some t \<Rightarrow> t \<le> now)"

definition generate_raw_key :: "account_env \<Rightarrow> nat \<Rightarrow> string \<times> string" where
  "generate_raw_key env n =
     (let secret = en_fresh_token env n in (KEY_PREFIX @ secret, KEY_PREFIX @ take 8 secret))"

definition insert_key :: "api_key \<Rightarrow> accounts \<Rightarrow> repo_error + accounts" where
  "insert_key k s =
     and_then (repo_create k (ac_keys s)) (\<lambda>rows.
     and_then (checked uq_api_keys rows) (\<lambda>rows. Inr (s\<lparr>ac_keys := rows\<rparr>)))"

record key_body =
  kb_name :: string
  kb_description :: "string option"
  kb_permissions :: "string list"
  kb_expiration :: string

definition create_key ::
  "account_env \<Rightarrow> micros \<Rightarrow> ident \<Rightarrow> key_body \<Rightarrow> ident \<Rightarrow> accounts \<Rightarrow> api_key_error + (api_key \<times> string) \<times> accounts" where
  "create_key env now org b creator s =
     and_then (validate_permissions (kb_permissions b)) (\<lambda>perms.
     and_then (resolve_expiration now (kb_expiration b)) (\<lambda>expires.
       let (n, s) = draw s; (raw, prefix) = generate_raw_key env n; (i, s) = draw s;
           k = \<lparr>row_id = i, row_created_at = now, row_updated_at = now, row_deleted_at = None, row_deleted_by = None,
                ak_organization_id = org, ak_name = kb_name b, ak_description = kb_description b,
                ak_key_prefix = prefix, ak_key_hash = en_hash_token env raw, ak_permissions = perms,
                ak_created_by = Some creator, ak_last_used_at = None, ak_expires_at = expires\<rparr>
       in and_then (map_err Key_db (insert_key k s)) (\<lambda>s. Inr ((k, raw), s))))"

definition validate_key :: "account_env \<Rightarrow> micros \<Rightarrow> string \<Rightarrow> accounts \<Rightarrow> repo_error + api_key option" where
  "validate_key env now raw s =
     and_then (ak_get_by_hash (en_hash_token env raw) (ac_keys s)) (\<lambda>k.
       Inr (case k of None \<Rightarrow> None | Some k \<Rightarrow> if key_expired now k then None else Some k))"

text \<open>Authentication by key; the context is the key (with its new \<open>last_used_at\<close>) and its organization.\<close>

definition context_permissions :: "api_key \<Rightarrow> permission list" where
  "context_permissions k = List.map_filter parse_permission (ak_permissions k)"

definition key_has_permission :: "api_key \<Rightarrow> permission \<Rightarrow> bool" where
  "key_has_permission k p \<longleftrightarrow> p \<in> set (context_permissions k)"

definition authenticate_key ::
  "account_env \<Rightarrow> micros \<Rightarrow> string \<Rightarrow> accounts \<Rightarrow> api_key_error + (api_key \<times> organization) \<times> accounts" where
  "authenticate_key env now raw s =
     and_then (map_err Key_db (ak_get_by_hash (en_hash_token env raw) (ac_keys s))) (\<lambda>r.
     case r of
       None \<Rightarrow> Inl Invalid_api_key
     | Some k \<Rightarrow>
         if key_expired now k then Inl Api_key_expired
         else and_then (map_err Key_db (repo_get (ak_organization_id k) (ac_orgs s))) (\<lambda>org.
         case org of
           None \<Rightarrow> Inl Organization_suspended
         | Some g \<Rightarrow>
             if og_status g \<noteq> OS_ACTIVE then Inl Organization_suspended
             else Inr ((k\<lparr>ak_last_used_at := Some now, row_updated_at := now\<rparr>, g),
                       s\<lparr>ac_keys := ak_update_last_used now (row_id k) (ac_keys s)\<rparr>)))"

text \<open>The \<open>Authorization\<close> header.\<close>

definition partition_space :: "string \<Rightarrow> string \<times> string" where
  "partition_space h =
     (takeWhile (\<lambda>c. c \<noteq> CHR '' '') h, tl (dropWhile (\<lambda>c. c \<noteq> CHR '' '') h))"

definition extract_bearer_token :: "string option \<Rightarrow> api_key_error + string" where
  "extract_bearer_token h =
     (case h of
        None \<Rightarrow> Inl Invalid_api_key
      | Some a \<Rightarrow>
          let (scheme, token) = partition_space a; token = py_strip token
          in if py_lower scheme \<noteq> ''bearer'' \<or> token = [] then Inl Invalid_api_key else Inr token)"

definition looks_like_api_key :: "string \<Rightarrow> bool" where
  "looks_like_api_key h = starts_with KEY_PREFIX (py_strip (snd (partition_space h)))"

fun key_http :: "api_key_error \<Rightarrow> http_error" where
  "key_http Invalid_api_key = Http 401 ''Invalid API Key''"
| "key_http Api_key_expired = Http 401 ''API Key expired''"
| "key_http Organization_suspended = Http 403 ''Organization suspended''"
| "key_http (Invalid_permission v) = Http 422 (''Unrecognized permission scope: '' @ v)"
| "key_http (Invalid_expiration v) = Http 500 ''An unexpected error occurred.''"
| "key_http (Key_db e) = Http_db e"

definition authenticate_api_key ::
  "account_env \<Rightarrow> micros \<Rightarrow> string option \<Rightarrow> accounts \<Rightarrow> http_error + (api_key \<times> organization) \<times> accounts" where
  "authenticate_api_key env now h s =
     map_err key_http (and_then (extract_bearer_token h) (\<lambda>raw. authenticate_key env now raw s))"

definition insufficient_key :: http_error where "insufficient_key = Http 403 ''Insufficient API Key permissions''"

definition require_api_key_permission ::
  "permission \<Rightarrow> account_env \<Rightarrow> micros \<Rightarrow> string option \<Rightarrow> accounts \<Rightarrow> http_error + (api_key \<times> organization) \<times> accounts" where
  "require_api_key_permission p env now h s =
     and_then (authenticate_api_key env now h s) (\<lambda>((k, g), s).
       if key_has_permission k p then Inr ((k, g), s) else Inl insufficient_key)"

definition get_membership_or_api_key ::
  "account_env \<Rightarrow> request \<Rightarrow> string option \<Rightarrow> ident \<Rightarrow> accounts \<Rightarrow> http_error + (membership + api_key \<times> organization) \<times> accounts" where
  "get_membership_or_api_key env rq h org s =
     (if case h of None \<Rightarrow> False | Some a \<Rightarrow> looks_like_api_key a
      then and_then (authenticate_api_key env (rq_now rq) h s) (\<lambda>(c, s). Inr (Inr c, s))
      else and_then (get_current_membership env rq org s) (\<lambda>m. Inr (Inl m, s)))"

definition require_membership_or_api_key ::
  "permission \<Rightarrow> account_env \<Rightarrow> request \<Rightarrow> string option \<Rightarrow> ident \<Rightarrow> accounts
   \<Rightarrow> http_error + (membership + api_key \<times> organization) \<times> accounts" where
  "require_membership_or_api_key p env rq h org s =
     and_then (get_membership_or_api_key env rq h org s) (\<lambda>(c, s).
       case c of
         Inr (k, g) \<Rightarrow>
           if row_id g \<noteq> org then Inl (key_http Invalid_api_key)
           else if \<not> key_has_permission k p then Inl insufficient_key
           else Inr (c, s)
       | Inl m \<Rightarrow> and_then (check_permission p m) (\<lambda>_. Inr (c, s)))"

text \<open>The handlers.\<close>

definition list_api_keys ::
  "account_env \<Rightarrow> request \<Rightarrow> string option \<Rightarrow> ident \<Rightarrow> accounts \<Rightarrow> http_error + api_key list \<times> accounts" where
  "list_api_keys env rq h org s =
     and_then (require_membership_or_api_key API_KEY_READ env rq h org s) (\<lambda>(_, s). Inr (ak_list org (ac_keys s), s))"

definition create_api_key ::
  "account_env \<Rightarrow> request \<Rightarrow> ident \<Rightarrow> key_body \<Rightarrow> accounts \<Rightarrow> http_error + (api_key \<times> string) \<times> accounts" where
  "create_api_key env rq org b s =
     and_then (get_current_user env rq s) (\<lambda>u.
     and_then (require_permission API_KEY_WRITE env rq org s) (\<lambda>caller.
     and_then (map_err key_http (create_key env (rq_now rq) org b (row_id u) s)) (\<lambda>((k, raw), s).
       Inr ((k, raw), fire_alert_safely env (rq_now rq)
              (api_key_event env API_KEY_CREATED INFO '' created''
                (''A new API key '' @ quoted (ak_name k) @ '' ('' @ ak_key_prefix k @ ''...) was created.'') k) s))))"

definition get_key :: "ident \<Rightarrow> ident \<Rightarrow> accounts \<Rightarrow> http_error + api_key" where
  "get_key org i s =
     and_then (or_else (Http 404 ''API key not found'') (repo_get i (ac_keys s))) (\<lambda>k.
       if ak_organization_id k \<noteq> org then Inl (Http 404 ''API key not found'') else Inr k)"

definition update_api_key ::
  "account_env \<Rightarrow> request \<Rightarrow> ident \<Rightarrow> ident \<Rightarrow> org_changes \<Rightarrow> accounts \<Rightarrow> http_error + accounts" where
  "update_api_key env rq org i b s =
     and_then (require_permission API_KEY_WRITE env rq org s) (\<lambda>caller.
     and_then (get_key org i s) (\<lambda>k.
       if oc_name b = None \<and> oc_description b = None then Inr s
       else if oc_name b = Some None then Inl (Http_db IntegrityError)
       else Inr (s\<lparr>ac_keys := repo_update (rq_now rq) i
              (\<lambda>k. k\<lparr>ak_name := (case oc_name b of Some (Some n) \<Rightarrow> n | _ \<Rightarrow> ak_name k),
                     ak_description := (case oc_description b of Some d \<Rightarrow> d | None \<Rightarrow> ak_description k)\<rparr>)
              (ac_keys s)\<rparr>)))"

definition delete_api_key :: "account_env \<Rightarrow> request \<Rightarrow> ident \<Rightarrow> ident \<Rightarrow> accounts \<Rightarrow> http_error + accounts" where
  "delete_api_key env rq org i s =
     and_then (get_current_user env rq s) (\<lambda>u.
     and_then (require_permission API_KEY_WRITE env rq org s) (\<lambda>caller.
     and_then (get_key org i s) (\<lambda>k.
       Inr (fire_alert_safely env (rq_now rq)
             (api_key_event env API_KEY_REVOKED MEDIUM '' revoked''
               (''API key '' @ quoted (ak_name k) @ '' ('' @ ak_key_prefix k @ ''...) was revoked.'') k)
             (s\<lparr>ac_keys := ak_delete (rq_now rq) (Some (row_id u)) i (ac_keys s)\<rparr>)))))"

section \<open>A small instance\<close>

text \<open>Concrete parameters and a database with an owner, an admin and an outsider, for evaluation.\<close>

definition demo_env :: account_env where
  "demo_env =
     \<lparr>en_hash_token = (\<lambda>t. CHR ''#'' # t), en_hash_password = (\<lambda>n p. CHR ''$'' # p),
      en_verify_password = (\<lambda>h p. h = CHR ''$'' # p), en_fresh_token = (\<lambda>n. replicate n (CHR ''t'')),
      en_slug_token = (\<lambda>k n. replicate (k + n) (CHR ''x'')),
      en_access_token = (\<lambda>u i e t. replicate u (CHR ''u'') @ replicate i (CHR ''s'')),
      en_decode_token = (\<lambda>now t. Some (length (filter (\<lambda>c. c = CHR ''u'') t), length (filter (\<lambda>c. c = CHR ''s'') t))),
      en_uuid = (\<lambda>i. replicate i (CHR ''i'')), en_sha256 = (\<lambda>x. x), en_access_minutes = 30, en_refresh_days = 7\<rparr>"

definition demo_user :: "ident \<Rightarrow> string \<Rightarrow> string \<Rightarrow> user" where
  "demo_user i email name =
     \<lparr>row_id = i, row_created_at = 0, row_updated_at = 0, row_deleted_at = None, row_deleted_by = None,
      us_email = email, us_username = None, us_display_name = name, us_status = US_ACTIVE, us_email_verified = True,
      us_avatar_url = None, us_bio = None, us_timezone = None, us_password_hash = Some ''$pw'', us_last_login_at = None,
      us_onboarding_completed_at = None, us_preferences = [], us_google_sub = None, us_google_email = None,
      us_google_linked_at = None, us_last_login_provider = None\<rparr>"

definition demo_session :: "ident \<Rightarrow> ident \<Rightarrow> session" where
  "demo_session i u =
     \<lparr>row_id = i, row_created_at = 0, row_updated_at = 0, row_deleted_at = None, row_deleted_by = None,
      ss_user_id = u, ss_refresh_token_hash = CHR ''#'' # replicate i (CHR ''r''), ss_expires_at = 1000,
      ss_revoked_at = None, ss_ip_address = None, ss_user_agent = None\<rparr>"

definition demo_org :: organization where
  "demo_org =
     \<lparr>row_id = 10, row_created_at = 0, row_updated_at = 0, row_deleted_at = None, row_deleted_by = None,
      og_name = ''Acme'', og_slug = ''acme'', og_description = None, og_is_personal = False, og_status = OS_ACTIVE\<rparr>"

definition demo_invitation :: invitation where
  "demo_invitation =
     \<lparr>row_id = 15, row_created_at = 0, row_updated_at = 0, row_deleted_at = None, row_deleted_by = None,
      iv_organization_id = 10, iv_email = ''ivan'', iv_role = OWNER, iv_token_hash = ''#old'', iv_status = IV_CANCELLED,
      iv_created_by = Some 1, iv_accepted_by = None, iv_expires_at = 50, iv_accepted_at = None, iv_cancelled_at = Some 3\<rparr>"

definition demo :: accounts where
  "demo =
     \<lparr>ac_users = [demo_user 1 ''olga'' ''Olga'', demo_user 2 ''adam'' ''Adam'', demo_user 3 ''ivan'' ''Ivan''],
      ac_sessions = [demo_session 21 1, demo_session 22 2, demo_session 23 3], ac_verify = [], ac_reset = [],
      ac_orgs = [demo_org],
      ac_members = [new_membership 0 11 10 (Some 1) ''olga'' OWNER, new_membership 0 12 10 (Some 2) ''adam'' ADMIN],
      ac_invites = [demo_invitation], ac_keys = [], ac_projects = [], ac_connections = [], ac_budgets = [],
      ac_alerts = alert_init [], ac_outbox = [], ac_next = 30\<rparr>"

definition demo_request :: "ident \<Rightarrow> request" where
  "demo_request u =
     \<lparr>rq_now = 100, rq_bearer = Some (replicate u (CHR ''u'') @ replicate (20 + u) (CHR ''s'')), rq_cookie = None\<rparr>"

end
