(* ===== verification/Json.thy ===== *)
theory Json
  imports Decimals
begin

text \<open>
  Decoded JSON and the Python operations the components apply to it: truth, \<open>get\<close>, iteration, \<open>int\<close>,
  \<open>float\<close>, \<open>str\<close> and \<open>datetime.fromtimestamp\<close>, each with its exceptions. A float is exact (\<open>rat\<close>);
  infinities and NaN are \<open>Js_nonfinite\<close> with their text. \<open>repr\<close> is the text of a float or a container.
\<close>

section \<open>JSON values\<close>

datatype json =
    Js_null
  | Js_bool bool
  | Js_int int
  | Js_float rat
  | Js_nonfinite string
  | Js_str string
  | Js_list "json list"
  | Js_dict "(string \<times> json) list"

datatype py_fault = Attribute_error | Type_error | Value_error | Overflow_error

fun js_truthy :: "json \<Rightarrow> bool" where
  "js_truthy Js_null = False"
| "js_truthy (Js_bool b) = b"
| "js_truthy (Js_int n) = (n \<noteq> 0)"
| "js_truthy (Js_float r) = (r \<noteq> 0)"
| "js_truthy (Js_nonfinite s) = True"
| "js_truthy (Js_str s) = (s \<noteq> [])"
| "js_truthy (Js_list xs) = (xs \<noteq> [])"
| "js_truthy (Js_dict d) = (d \<noteq> [])"

text \<open>\<open>x.get(k, default)\<close>, \<open>x[k]\<close> for a parsed body, \<open>for y in x\<close> and \<open>int(x)\<close>.\<close>

fun js_get :: "json \<Rightarrow> string \<Rightarrow> json \<Rightarrow> py_fault + json" where
  "js_get (Js_dict d) k dflt = Inr (case map_of d k of None \<Rightarrow> dflt | Some v \<Rightarrow> v)"
| "js_get _ k dflt = Inl Attribute_error"

fun js_iter :: "json \<Rightarrow> py_fault + json list" where
  "js_iter (Js_list xs) = Inr xs"
| "js_iter (Js_dict d) = Inr (map (\<lambda>e. Js_str (fst e)) d)"
| "js_iter (Js_str s) = Inr (map (\<lambda>c. Js_str [c]) s)"
| "js_iter _ = Inl Type_error"

fun js_to_int :: "json \<Rightarrow> py_fault + int" where
  "js_to_int (Js_int n) = Inr n"
| "js_to_int (Js_bool b) = Inr (if b then 1 else 0)"
| "js_to_int (Js_float r) = Inr (if 0 \<le> r then \<lfloor>r\<rfloor> else \<lceil>r\<rceil>)"
| "js_to_int (Js_nonfinite s) = Inl (if s = ''nan'' then Value_error else Overflow_error)"
| "js_to_int (Js_str s) = (case py_int s of None \<Rightarrow> Inl Value_error | Some n \<Rightarrow> Inr n)"
| "js_to_int _ = Inl Type_error"

definition show_int :: "int \<Rightarrow> string" where
  "show_int n = (if n < 0 then CHR ''-'' # show_nat (nat (- n)) else show_nat (nat n))"

text \<open>\<open>str(x)\<close>; \<open>str\<close> of a string is itself.\<close>

fun js_str :: "(json \<Rightarrow> string) \<Rightarrow> json \<Rightarrow> string" where
  "js_str repr Js_null = ''None''"
| "js_str repr (Js_bool b) = (if b then ''True'' else ''False'')"
| "js_str repr (Js_int n) = show_int n"
| "js_str repr (Js_nonfinite s) = s"
| "js_str repr (Js_str s) = s"
| "js_str repr x = repr x"

section \<open>Numbers\<close>

text \<open>\<open>float(s)\<close> on text: a sign, digits with single underscores, a fraction and an exponent, or a word.\<close>

fun digit_run :: "string \<Rightarrow> (nat \<times> nat) option" where
  "digit_run [] = Some (0, 0)"
| "digit_run [c] = (if is_digit c then Some (digit_val c, 1) else None)"
| "digit_run (c # d # cs) =
     (if \<not> is_digit c then None
      else map_option (\<lambda>(v, n). (digit_val c * 10 ^ n + v, n + 1))
             (if d = CHR ''_'' \<and> cs \<noteq> [] then digit_run cs else digit_run (d # cs)))"

definition split_first :: "(char \<Rightarrow> bool) \<Rightarrow> string \<Rightarrow> string \<times> string option" where
  "split_first p s =
     (takeWhile (\<lambda>c. \<not> p c) s, case dropWhile (\<lambda>c. \<not> p c) s of [] \<Rightarrow> None | _ # r \<Rightarrow> Some r)"

definition split_sign :: "string \<Rightarrow> bool \<times> string" where
  "split_sign s = (case s of [] \<Rightarrow> (False, []) | c # r \<Rightarrow>
     if c = CHR ''-'' then (True, r) else if c = CHR ''+'' then (False, r) else (False, s))"

definition mantissa :: "string \<Rightarrow> rat option" where
  "mantissa s =
     (let (whole, frac) = split_first (\<lambda>c. c = CHR ''.'') s; fr = (case frac of None \<Rightarrow> [] | Some f \<Rightarrow> f)
      in case (digit_run whole, digit_run fr) of
           (Some (v, n), Some (w, k)) \<Rightarrow>
             if n = 0 \<and> k = 0 then None else Some (of_nat v + of_nat w / 10 ^ k)
         | _ \<Rightarrow> None)"

definition py_float :: "string \<Rightarrow> json option" where
  "py_float s =
     (let (neg, t) = split_sign (py_lower (py_strip s))
      in if t = ''nan'' then Some (Js_nonfinite ''nan'')
         else if t = ''inf'' \<or> t = ''infinity'' then Some (Js_nonfinite (if neg then ''-inf'' else ''inf''))
         else
           (let (m, e) = split_first (\<lambda>c. c = CHR ''e'') t
            in case (mantissa m, case e of None \<Rightarrow> Some (False, 0) | Some x \<Rightarrow>
                       (let (n, d) = split_sign x in map_option (Pair n) (py_nat d))) of
                 (Some v, Some (en, ex)) \<Rightarrow>
                   (let r = (if en then v / 10 ^ ex else v * 10 ^ ex) in Some (Js_float (if neg then - r else r)))
               | _ \<Rightarrow> None))"

definition js_to_float :: "json \<Rightarrow> py_fault + rat" where
  "js_to_float x =
     (case x of
        Js_float r \<Rightarrow> Inr r | Js_int n \<Rightarrow> Inr (of_int n) | Js_bool b \<Rightarrow> Inr (if b then 1 else 0)
      | Js_str s \<Rightarrow> (case py_float s of Some (Js_float r) \<Rightarrow> Inr r | _ \<Rightarrow> Inl Value_error)
      | Js_nonfinite s \<Rightarrow> Inl Value_error
      | _ \<Rightarrow> Inl Type_error)"

text \<open>\<open>datetime.fromtimestamp(t, tz=UTC)\<close>: microseconds rounded half to even, years 1 to 9999.\<close>

definition from_timestamp :: "json \<Rightarrow> py_fault + micros" where
  "from_timestamp t =
     and_then (case t of Js_int n \<Rightarrow> Inr (of_int n) | Js_bool b \<Rightarrow> Inr (if b then 1 else 0) | Js_float r \<Rightarrow> Inr r
               | Js_nonfinite s \<Rightarrow> Inl (if s = ''nan'' then Value_error else Overflow_error) | _ \<Rightarrow> Inl Type_error)
       (\<lambda>r :: rat. let u = (let f = \<lfloor>r * 1000000\<rfloor>; d = r * 1000000 - of_int f
                      in if d < 1/2 \<or> (d = 1/2 \<and> even f) then f else f + 1)
            in if u < - 62135596800000000 \<or> 253402300800000000 \<le> u then Inl Value_error else Inr u)"

section \<open>Lists\<close>

fun map_results :: "('a \<Rightarrow> 'e + 'b) \<Rightarrow> 'a list \<Rightarrow> 'e + 'b list" where
  "map_results f [] = Inr []"
| "map_results f (x # xs) = and_then (f x) (\<lambda>y. and_then (map_results f xs) (\<lambda>ys. Inr (y # ys)))"

lemma map_results_Inl: "x \<in> set xs \<Longrightarrow> f x = Inl e \<Longrightarrow> \<exists>e'. map_results f xs = Inl e'"
proof (induction xs)
  case Nil
  then show ?case by simp
next
  case (Cons y ys)
  then show ?case by (cases "f y"; cases "map_results f ys") auto
qed

lemma map_results_Inr: "(\<And>x. x \<in> set xs \<Longrightarrow> f x = Inr (g x)) \<Longrightarrow> map_results f xs = Inr (map g xs)"
  by (induction xs) auto

end
