(* ===== verification/Realtime.thy ===== *)
theory Realtime
  imports Connections Access Json
begin

text \<open>
  The realtime gateway: \<open>realtime/events.py\<close>, \<open>realtime/event_bus.py\<close>, \<open>realtime/connection_manager.py\<close>,
  \<open>realtime/auth.py\<close> and the two endpoints of \<open>api/v1/realtime.py\<close>.

  Redis is a channel of messages towards the one subscriber of the process and, per key, a list with an
  expiry; the argument \<open>up\<close> says whether a call reaches it. A connection is identified by a number, its queue
  is the list of events not yet taken. The set of the connections of an organization is a list: the order in
  which they are served does not matter. The serialized envelope is opaque, of type \<open>'t\<close>, with the parameters
  \<open>re_dump\<close> and \<open>re_parse\<close>. Log
  lines and the Prometheus registry are left out, but for the two counters of the manager.
\<close>

section \<open>Events and channels\<close>

record bus_event =
  bv_event_id :: ident
  bv_timestamp :: micros
  bv_organization_id :: ident
  bv_type :: event_type
  bv_version :: int
  bv_payload :: "(string \<times> json) list"
  bv_trace_id :: "string option"
  bv_correlation_id :: "string option"

record 't realtime_env =
  re_dump :: "bus_event \<Rightarrow> 't"
  re_parse :: "'t \<Rightarrow> bus_event option"
  re_uuid :: "ident \<Rightarrow> string"
  re_parse_uuid :: "string \<Rightarrow> ident option"
  re_expired :: "micros \<Rightarrow> string \<Rightarrow> bool"

fun event_type_value :: "event_type \<Rightarrow> string" where
  "event_type_value USAGE_CREATED = ''usage.created''"
| "event_type_value USAGE_UPDATED = ''usage.updated''"
| "event_type_value BUDGET_THRESHOLD_REACHED = ''budget.threshold_reached''"
| "event_type_value EV_BUDGET_EXCEEDED = ''budget.exceeded''"
| "event_type_value EV_PROVIDER_ERROR = ''provider.error''"
| "event_type_value EV_PROVIDER_RECOVERY = ''provider.recovery''"
| "event_type_value EV_API_KEY_CREATED = ''api_key.created''"
| "event_type_value API_KEY_DELETED = ''api_key.deleted''"
| "event_type_value SDK_CONNECTED = ''sdk.connected''"
| "event_type_value SDK_DISCONNECTED = ''sdk.disconnected''"
| "event_type_value ORGANIZATION_UPDATED = ''organization.updated''"
| "event_type_value NOTIFICATION_CREATED = ''notification.created''"

definition org_channel :: "'t realtime_env \<Rightarrow> ident \<Rightarrow> string" where
  "org_channel env org = ''realtime:org:'' @ re_uuid env org"

definition org_id_from_channel :: "'t realtime_env \<Rightarrow> string \<Rightarrow> ident option" where
  "org_id_from_channel env channel =
     (let prefix = ''realtime:org:''
      in if \<not> starts_with prefix channel then None else re_parse_uuid env (drop (length prefix) channel))"

text \<open>A frame of the event stream; \<open>data\<close> is the text of the envelope.\<close>

definition format_sse :: "'t realtime_env \<Rightarrow> string \<Rightarrow> bus_event \<Rightarrow> string" where
  "format_sse env data e =
     ''id: '' @ re_uuid env (bv_event_id e) @ [char_of (10::nat)] @ ''event: '' @ event_type_value (bv_type e)
       @ [char_of (10::nat)] @ ''data: '' @ data @ [char_of (10::nat), char_of (10::nat)]"

section \<open>The bus\<close>

definition REPLAY_BUFFER_SIZE :: nat where "REPLAY_BUFFER_SIZE = 200"
definition REPLAY_TTL_SECONDS :: nat where "REPLAY_TTL_SECONDS = 3600"

record 't bus =
  bu_subscribed :: bool
  bu_channel :: "(string \<times> 't) list"
  bu_lists :: "string \<Rightarrow> ('t list \<times> secs) option"

definition replay_key :: "'t realtime_env \<Rightarrow> ident \<Rightarrow> string" where
  "replay_key env org = ''realtime:replay:'' @ re_uuid env org"

text \<open>A Redis list, absent once its time is over, and \<open>ltrim key -n -1\<close>.\<close>

definition redis_list :: "secs \<Rightarrow> string \<Rightarrow> 't bus \<Rightarrow> 't list" where
  "redis_list now key b = (case bu_lists b key of None \<Rightarrow> [] | Some (xs, expires) \<Rightarrow> if now < expires then xs else [])"

definition keep_last :: "nat \<Rightarrow> 'a list \<Rightarrow> 'a list" where
  "keep_last n xs = (if n = 0 then xs else drop (length xs - n) xs)"

definition publish :: "'t realtime_env \<Rightarrow> secs \<Rightarrow> bool \<Rightarrow> bus_event \<Rightarrow> 't bus \<Rightarrow> 't bus" where
  "publish env now up e b =
     (if \<not> up then b
      else let key = replay_key env (bv_organization_id e); text = re_dump env e;
               xs = keep_last REPLAY_BUFFER_SIZE (redis_list now key b @ [text])
           in b\<lparr>bu_channel := (if bu_subscribed b then bu_channel b @ [(org_channel env (bv_organization_id e), text)]
                               else bu_channel b),
                bu_lists := (bu_lists b)(key \<mapsto> (xs, now + of_nat REPLAY_TTL_SECONDS))\<rparr>)"

fun after_event :: "ident \<Rightarrow> bus_event list \<Rightarrow> bus_event list option" where
  "after_event i [] = None"
| "after_event i (e # es) = (if bv_event_id e = i then Some es else after_event i es)"

definition replay_since :: "'t realtime_env \<Rightarrow> secs \<Rightarrow> bool \<Rightarrow> ident \<Rightarrow> ident option \<Rightarrow> 't bus \<Rightarrow> bus_event list" where
  "replay_since env now up org last_event_id b =
     (if \<not> up then []
      else let events = List.map_filter (re_parse env) (redis_list now (replay_key env org) b)
           in case last_event_id of
                None \<Rightarrow> events
              | Some i \<Rightarrow> (case after_event i events of None \<Rightarrow> events | Some es \<Rightarrow> es))"

text \<open>What the subscription makes of one message; \<open>None\<close> is a message that is skipped.\<close>

definition read_message :: "'t realtime_env \<Rightarrow> string \<times> 't \<Rightarrow> (ident \<times> bus_event) option" where
  "read_message env msg =
     (case org_id_from_channel env (fst msg) of
        None \<Rightarrow> None
      | Some org \<Rightarrow> map_option (Pair org) (re_parse env (snd msg)))"

section \<open>The connection manager\<close>

datatype connection_kind = WEBSOCKET | SSE
datatype principal_kind = PK_USER | PK_API_KEY

record conn_info =
  wc_organization_id :: ident
  wc_kind :: connection_kind
  wc_principal_kind :: principal_kind
  wc_principal_id :: ident
  wc_reconnect_count :: nat
  wc_heartbeat_failures :: nat
  wc_queue :: "bus_event list"

definition QUEUE_MAXSIZE :: nat where "QUEUE_MAXSIZE = 256"

record manager =
  mg_connections :: "ident \<Rightarrow> conn_info option"
  mg_by_org :: "ident \<Rightarrow> ident list option"
  mg_next :: ident
  mg_loop :: bool
  mg_dispatched :: nat
  mg_dropped :: nat

definition manager_init :: manager where
  "manager_init = \<lparr>mg_connections = \<lambda>_. None, mg_by_org = \<lambda>_. None, mg_next = 0, mg_loop = False, mg_dispatched = 0, mg_dropped = 0\<rparr>"

record realtime_principal =
  pr_kind :: principal_kind
  pr_id :: ident
  pr_organization_id :: ident

definition members_of :: "ident \<Rightarrow> manager \<Rightarrow> ident list" where
  "members_of org m = (case mg_by_org m org of None \<Rightarrow> [] | Some ids \<Rightarrow> ids)"

definition register_connection :: "connection_kind \<Rightarrow> realtime_principal \<Rightarrow> nat \<Rightarrow> manager \<Rightarrow> ident \<times> manager" where
  "register_connection kind p reconnects m =
     (let i = mg_next m; org = pr_organization_id p;
          info = \<lparr>wc_organization_id = org, wc_kind = kind, wc_principal_kind = pr_kind p, wc_principal_id = pr_id p,
                  wc_reconnect_count = reconnects, wc_heartbeat_failures = 0, wc_queue = []\<rparr>
      in (i, m\<lparr>mg_next := i + 1, mg_connections := (mg_connections m)(i \<mapsto> info),
               mg_by_org := (mg_by_org m)(org \<mapsto> members_of org m @ [i])\<rparr>))"

definition unregister_connection :: "ident \<Rightarrow> manager \<Rightarrow> manager" where
  "unregister_connection i m =
     (case mg_connections m i of
        None \<Rightarrow> m
      | Some info \<Rightarrow>
          let m = m\<lparr>mg_connections := (mg_connections m)(i := None)\<rparr>; org = wc_organization_id info
          in case mg_by_org m org of
               None \<Rightarrow> m
             | Some ids \<Rightarrow>
                 let ids = filter (\<lambda>j. j \<noteq> i) ids
                 in m\<lparr>mg_by_org := (mg_by_org m)(org := (if ids = [] then None else Some ids))\<rparr>)"

text \<open>\<open>put_nowait\<close> on the bounded queue (\<open>None\<close> is \<open>QueueFull\<close>), then the callbacks, which count.\<close>

definition put_nowait :: "bus_event \<Rightarrow> conn_info \<Rightarrow> conn_info option" where
  "put_nowait e info =
     (if length (wc_queue info) < QUEUE_MAXSIZE then Some (info\<lparr>wc_queue := wc_queue info @ [e]\<rparr>) else None)"

definition dispatch_one :: "bus_event \<Rightarrow> ident \<Rightarrow> manager \<Rightarrow> manager" where
  "dispatch_one e i m =
     (case mg_connections m i of
        None \<Rightarrow> m
      | Some info \<Rightarrow>
          (case put_nowait e info of
             Some info \<Rightarrow> m\<lparr>mg_connections := (mg_connections m)(i \<mapsto> info), mg_dispatched := mg_dispatched m + 1\<rparr>
           | None \<Rightarrow> m\<lparr>mg_dropped := mg_dropped m + 1\<rparr>))"

definition dispatch :: "ident \<Rightarrow> bus_event \<Rightarrow> manager \<Rightarrow> manager" where
  "dispatch org e m = fold (dispatch_one e) (members_of org m) m"

definition connection_count :: "ident option \<Rightarrow> manager \<Rightarrow> nat" where
  "connection_count org m =
     (case org of
        None \<Rightarrow> length (filter (\<lambda>i. mg_connections m i \<noteq> None) [0..<mg_next m])
      | Some g \<Rightarrow> length (members_of g m))"

definition connections_for_org :: "ident \<Rightarrow> manager \<Rightarrow> conn_info list" where
  "connections_for_org org m = List.map_filter (mg_connections m) (members_of org m)"

definition record_heartbeat_failure :: "ident \<Rightarrow> manager \<Rightarrow> manager" where
  "record_heartbeat_failure i m =
     (case mg_connections m i of
        None \<Rightarrow> m
      | Some info \<Rightarrow>
          m\<lparr>mg_connections := (mg_connections m)(i \<mapsto> info\<lparr>wc_heartbeat_failures := wc_heartbeat_failures info + 1\<rparr>)\<rparr>)"

text \<open>The next step of the generator \<open>receive\<close>: it ends, hands over an event, or goes on waiting.\<close>

datatype received = Rc_stop | Rc_wait | Rc_event bus_event

definition receive_next :: "ident \<Rightarrow> manager \<Rightarrow> received \<times> manager" where
  "receive_next i m =
     (case mg_connections m i of
        None \<Rightarrow> (Rc_stop, m)
      | Some info \<Rightarrow>
          (case wc_queue info of
             [] \<Rightarrow> (Rc_wait, m)
           | e # q \<Rightarrow> (Rc_event e, m\<lparr>mg_connections := (mg_connections m)(i \<mapsto> info\<lparr>wc_queue := q\<rparr>)\<rparr>)))"

text \<open>The dispatch loop takes the next message while it runs. When the task ends, by \<open>stop\<close> or by an error of the
  subscription, which is logged, the subscription ends with it; only \<open>start\<close> begins a new one.\<close>

definition start_loop :: "manager \<times> 't bus \<Rightarrow> manager \<times> 't bus" where
  "start_loop s =
     (let (m, b) = s in if mg_loop m then s else (m\<lparr>mg_loop := True\<rparr>, b\<lparr>bu_subscribed := True, bu_channel := []\<rparr>))"

definition end_loop :: "manager \<times> 't bus \<Rightarrow> manager \<times> 't bus" where
  "end_loop s = (let (m, b) = s in (m\<lparr>mg_loop := False\<rparr>, b\<lparr>bu_subscribed := False, bu_channel := []\<rparr>))"

definition loop_message :: "'t realtime_env \<Rightarrow> manager \<times> 't bus \<Rightarrow> manager \<times> 't bus" where
  "loop_message env s =
     (let (m, b) = s
      in if \<not> mg_loop m then s
         else case bu_channel b of
           [] \<Rightarrow> s
         | msg # rest \<Rightarrow>
             ((case read_message env msg of None \<Rightarrow> m | Some (org, e) \<Rightarrow> dispatch org e m), b\<lparr>bu_channel := rest\<rparr>))"

section \<open>Authentication of a connection\<close>

datatype auth_reason =
    MISSING_TOKEN | INVALID_TOKEN | EXPIRED_TOKEN | USER_DISABLED | MISSING_ORGANIZATION | ORGANIZATION_NOT_FOUND
  | ORGANIZATION_INACTIVE | NOT_A_MEMBER | INSUFFICIENT_PERMISSIONS | ORGANIZATION_MISMATCH

datatype realtime_error = Denied auth_reason string | Realtime_db repo_error

definition extract_token :: "string option \<Rightarrow> string option \<Rightarrow> realtime_error + string" where
  "extract_token header query =
     (let from_header = (case header of None \<Rightarrow> None | Some h \<Rightarrow>
            (let (scheme, value) = partition_space h; value = py_strip value
             in if py_lower scheme = ''bearer'' \<and> value \<noteq> [] then Some value else None))
      in case from_header of
           Some v \<Rightarrow> Inr v
         | None \<Rightarrow>
             (case query of
                None \<Rightarrow> Inl (Denied MISSING_TOKEN ''No credentials provided (Authorization header or ?token= query parameter required)'')
              | Some q \<Rightarrow>
                  if q = [] then Inl (Denied MISSING_TOKEN ''No credentials provided (Authorization header or ?token= query parameter required)'')
                  else Inr q))"

fun key_denied :: "api_key_error \<Rightarrow> realtime_error" where
  "key_denied Api_key_expired = Denied EXPIRED_TOKEN ''API Key expired''"
| "key_denied Organization_suspended = Denied ORGANIZATION_INACTIVE ''Organization suspended''"
| "key_denied (Key_db e) = Realtime_db e"
| "key_denied _ = Denied INVALID_TOKEN ''Invalid API Key''"

definition authenticate_realtime_key ::
  "account_env \<Rightarrow> micros \<Rightarrow> string \<Rightarrow> ident option \<Rightarrow> accounts \<Rightarrow> realtime_error + realtime_principal \<times> accounts" where
  "authenticate_realtime_key env now token requested s =
     and_then (map_err key_denied (authenticate_key env now token s)) (\<lambda>((k, g), s).
       if \<not> key_has_permission k USAGE_READ
       then Inl (Denied INSUFFICIENT_PERMISSIONS ''API Key lacks the usage:read scope'')
       else if requested \<noteq> None \<and> requested \<noteq> Some (row_id g)
       then Inl (Denied ORGANIZATION_MISMATCH (''organization_id does not match this API Key'' @ CHR 0x27 # ''s organization''))
       else Inr (\<lparr>pr_kind = PK_API_KEY, pr_id = row_id k, pr_organization_id = row_id g\<rparr>, s))"

definition found :: "realtime_error \<Rightarrow> repo_error + 'a option \<Rightarrow> realtime_error + 'a" where
  "found err r = (case r of Inl e \<Rightarrow> Inl (Realtime_db e) | Inr None \<Rightarrow> Inl err | Inr (Some x) \<Rightarrow> Inr x)"

definition authenticate_realtime_jwt ::
  "account_env \<Rightarrow> 't realtime_env \<Rightarrow> micros \<Rightarrow> string \<Rightarrow> ident option \<Rightarrow> accounts \<Rightarrow> realtime_error + realtime_principal" where
  "authenticate_realtime_jwt env renv now token requested s =
     (case en_decode_token env now token of
        None \<Rightarrow> Inl (if re_expired renv now token then Denied EXPIRED_TOKEN ''Token expired'' else Denied INVALID_TOKEN ''Invalid token'')
      | Some (uid, sid) \<Rightarrow>
          and_then (found (Denied INVALID_TOKEN ''Session has been revoked'') (get_active now sid (ac_sessions s))) (\<lambda>_.
          and_then (found (Denied INVALID_TOKEN ''Invalid token'') (repo_get uid (ac_users s))) (\<lambda>u.
          if us_status u = US_DISABLED then Inl (Denied USER_DISABLED ''Account disabled'')
          else case requested of
            None \<Rightarrow> Inl (Denied MISSING_ORGANIZATION ''organization_id query parameter is required'')
          | Some org \<Rightarrow>
              and_then (found (Denied ORGANIZATION_NOT_FOUND ''Organization not found'') (repo_get org (ac_orgs s))) (\<lambda>g.
              if og_status g \<noteq> OS_ACTIVE then Inl (Denied ORGANIZATION_INACTIVE ''Organization is not active'')
              else and_then (found (Denied NOT_A_MEMBER ''Not a member of this organization'')
                     (get_by_org_and_email org (us_email u) (ac_members s))) (\<lambda>mb.
              if \<not> has_permission (ms_role mb) USAGE_READ
              then Inl (Denied INSUFFICIENT_PERMISSIONS ''Role lacks the usage:read permission'')
              else Inr \<lparr>pr_kind = PK_USER, pr_id = uid, pr_organization_id = org\<rparr>)))))"

definition authenticate_realtime_connection ::
  "account_env \<Rightarrow> 't realtime_env \<Rightarrow> micros \<Rightarrow> string \<Rightarrow> ident option \<Rightarrow> accounts
   \<Rightarrow> realtime_error + realtime_principal \<times> accounts" where
  "authenticate_realtime_connection env renv now token requested s =
     (if starts_with KEY_PREFIX token then authenticate_realtime_key env now token requested s
      else and_then (authenticate_realtime_jwt env renv now token requested s) (\<lambda>p. Inr (p, s)))"

section \<open>The endpoints\<close>

record 't gateway =
  gw_accounts :: accounts
  gw_limiter :: conn_limiter
  gw_manager :: manager
  gw_bus :: "'t bus"

record connect_request =
  cq_now :: micros
  cq_redis_up :: bool
  cq_ip :: "string option"
  cq_authorization :: "string option"
  cq_token :: "string option"
  cq_organization_id :: "ident option"
  cq_resume :: "string option"

definition request_seconds :: "connect_request \<Rightarrow> secs" where "request_seconds q = of_int (cq_now q) / 1000000"

text \<open>The part the endpoints share: the limiter, the token, the principal. The error is the refusal of each.\<close>

datatype refusal = Rate_limited | Auth_refused string | Broken repo_error

definition admit ::
  "account_env \<Rightarrow> 't realtime_env \<Rightarrow> connect_request \<Rightarrow> 't gateway \<Rightarrow> (refusal + realtime_principal) \<times> 't gateway" where
  "admit env renv q w =
     (let (ok, l) = conn_check WINDOW_SECONDS MAX_ATTEMPTS_PER_IP (cq_redis_up q) (request_seconds q) (cq_ip q) (gw_limiter w);
          w = w\<lparr>gw_limiter := l\<rparr>
      in if \<not> ok then (Inl Rate_limited, w)
         else case and_then (extract_token (cq_authorization q) (cq_token q)) (\<lambda>token.
                     authenticate_realtime_connection env renv (cq_now q) token (cq_organization_id q) (gw_accounts w)) of
           Inl (Denied r message) \<Rightarrow> (Inl (Auth_refused message), w)
         | Inl (Realtime_db e) \<Rightarrow> (Inl (Broken e), w)
         | Inr (p, s) \<Rightarrow> (Inr p, w\<lparr>gw_accounts := s\<rparr>))"

definition connect :: "connection_kind \<Rightarrow> nat \<Rightarrow> realtime_principal \<Rightarrow> 't gateway \<Rightarrow> ident \<times> 't gateway" where
  "connect kind reconnects p w =
     (let (i, m) = register_connection kind p reconnects (gw_manager w) in (i, w\<lparr>gw_manager := m\<rparr>))"

text \<open>\<open>websocket_gateway\<close> up to the two tasks: closed with a code and a reason, or open.\<close>

datatype websocket_answer = Ws_close nat string | Ws_crash repo_error | Ws_open ident

definition websocket_connect ::
  "account_env \<Rightarrow> 't realtime_env \<Rightarrow> connect_request \<Rightarrow> 't gateway \<Rightarrow> websocket_answer \<times> 't gateway" where
  "websocket_connect env renv q w =
     (let (r, w) = admit env renv q w
      in case r of
           Inl Rate_limited \<Rightarrow> (Ws_close 4429 ''Too many connection attempts'', w)
         | Inl (Auth_refused message) \<Rightarrow> (Ws_close 4401 message, w)
         | Inl (Broken e) \<Rightarrow> (Ws_crash e, w)
         | Inr p \<Rightarrow>
             let (i, w) = connect WEBSOCKET (if cq_resume q = None \<or> cq_resume q = Some [] then 0 else 1) p w in (Ws_open i, w))"

text \<open>\<open>sse_events\<close> up to the stream: the status and detail, or the connection and the event to resume after.\<close>

definition sse_connect ::
  "account_env \<Rightarrow> 't realtime_env \<Rightarrow> connect_request \<Rightarrow> 't gateway \<Rightarrow> (http_error + ident \<times> ident option) \<times> 't gateway" where
  "sse_connect env renv q w =
     (let (r, w) = admit env renv q w
      in case r of
           Inl Rate_limited \<Rightarrow> (Inl (Http 429 ''Too many connection attempts''), w)
         | Inl (Auth_refused message) \<Rightarrow> (Inl (Http 401 message), w)
         | Inl (Broken e) \<Rightarrow> (Inl (Http_db e), w)
         | Inr p \<Rightarrow>
             let resume = (case cq_resume q of None \<Rightarrow> None | Some [] \<Rightarrow> None | Some h \<Rightarrow> Some h);
                 (i, w) = connect SSE (if resume = None then 0 else 1) p w
             in (Inr (i, Option.bind resume (re_parse_uuid renv)), w))"

section \<open>The streams\<close>

text \<open>An SSE response: what was written, whether the generator \<open>receive\<close> still runs, whether the response goes
  on. The time limit of a wait cancels the generator, and a cancelled generator is finished: its next call
  stops the iteration.\<close>

datatype chunk = Ch_event bus_event | Ch_heartbeat

record sse_stream =
  sw_connection :: ident
  sw_chunks :: "chunk list"
  sw_generator :: bool
  sw_open :: bool

definition sse_start :: "'t realtime_env \<Rightarrow> secs \<Rightarrow> bool \<Rightarrow> ident \<Rightarrow> ident option \<Rightarrow> 't gateway \<Rightarrow> sse_stream" where
  "sse_start renv now up i last_event_id w =
     (let replayed = (case (last_event_id, mg_connections (gw_manager w) i) of
            (Some e, Some info) \<Rightarrow> replay_since renv now up (wc_organization_id info) (Some e) (gw_bus w)
          | _ \<Rightarrow> [])
      in \<lparr>sw_connection = i, sw_chunks = map Ch_event replayed, sw_generator = True, sw_open = True\<rparr>)"

text \<open>One turn of the loop of \<open>event_stream\<close>. The state of the manager is the one at the end of the wait: when
  the queue is empty then, the thirty seconds have passed without an event.\<close>

definition sse_turn :: "sse_stream \<times> manager \<Rightarrow> sse_stream \<times> manager" where
  "sse_turn sm =
     (let (t, m) = sm
      in if \<not> sw_open t then sm
         else if \<not> sw_generator t then (t\<lparr>sw_open := False\<rparr>, unregister_connection (sw_connection t) m)
         else case receive_next (sw_connection t) m of
           (Rc_event e, m) \<Rightarrow> (t\<lparr>sw_chunks := sw_chunks t @ [Ch_event e]\<rparr>, m)
         | (Rc_wait, m) \<Rightarrow> (t\<lparr>sw_chunks := sw_chunks t @ [Ch_heartbeat], sw_generator := False\<rparr>, m)
         | (Rc_stop, m) \<Rightarrow> (t\<lparr>sw_open := False\<rparr>, unregister_connection (sw_connection t) m))"

text \<open>The two tasks of a WebSocket: forwarding one event, and one heartbeat, which ends the connection when no
  text arrives in time.\<close>

definition ws_forward :: "ident \<Rightarrow> manager \<Rightarrow> bus_event option \<times> manager" where
  "ws_forward i m = (case receive_next i m of (Rc_event e, m) \<Rightarrow> (Some e, m) | (_, m) \<Rightarrow> (None, m))"

definition ws_heartbeat :: "ident \<Rightarrow> bool \<Rightarrow> manager \<Rightarrow> (nat \<times> string) option \<times> manager" where
  "ws_heartbeat i answered m =
     (if answered then (None, m)
      else (Some (4408, ''Heartbeat timeout''), unregister_connection i (record_heartbeat_failure i m)))"

end
