(* ===== verification/Realtime_Laws.thy ===== *)
theory Realtime_Laws
  imports Realtime
begin

text \<open>
  Properties of the realtime gateway: who may open a stream, what a connection receives under any interleaving
  of publications, connections and reads, what a reconnecting client is sent, and how a stream ends.
\<close>

section \<open>The queue of a connection\<close>

definition put_or_drop :: "bus_event \<Rightarrow> conn_info \<Rightarrow> conn_info" where
  "put_or_drop e info = (case put_nowait e info of Some j \<Rightarrow> j | None \<Rightarrow> info)"

definition take_events :: "nat \<Rightarrow> conn_info \<Rightarrow> bus_event list \<times> conn_info" where
  "take_events n info = (take n (wc_queue info), info\<lparr>wc_queue := drop n (wc_queue info)\<rparr>)"

interpretation rt_queue: bounded_fifo wc_queue "\<lambda>_. QUEUE_MAXSIZE" put_or_drop take_events
  by unfold_locales (auto simp: put_or_drop_def put_nowait_def take_events_def)

lemma put_or_drop_simps [simp]:
  "wc_organization_id (put_or_drop e info) = wc_organization_id info"
  "wc_queue (put_or_drop e info) =
     (if length (wc_queue info) < QUEUE_MAXSIZE then wc_queue info @ [e] else wc_queue info)"
  by (simp_all add: put_or_drop_def put_nowait_def)

section \<open>Dispatch\<close>

lemma dispatch_one_connections:
  "mg_connections (dispatch_one e i m) = (mg_connections m)(i := map_option (put_or_drop e) (mg_connections m i))"
  by (auto simp: dispatch_one_def put_or_drop_def put_nowait_def fun_eq_iff split: option.split)

lemma dispatch_one_rest [simp]:
  "mg_by_org (dispatch_one e i m) = mg_by_org m" "mg_next (dispatch_one e i m) = mg_next m"
  "mg_loop (dispatch_one e i m) = mg_loop m"
  by (simp_all add: dispatch_one_def split: option.split)

lemma dispatch_one_dropped:
  "mg_dropped (dispatch_one e i m) =
     (case mg_connections m i of
        None \<Rightarrow> mg_dropped m
      | Some info \<Rightarrow> if length (wc_queue info) < QUEUE_MAXSIZE then mg_dropped m else mg_dropped m + 1)"
  by (simp add: dispatch_one_def put_nowait_def split: option.split)

lemma fold_dispatch_rest [simp]:
  "mg_by_org (fold (dispatch_one e) ids m) = mg_by_org m" "mg_next (fold (dispatch_one e) ids m) = mg_next m"
  "mg_loop (fold (dispatch_one e) ids m) = mg_loop m"
  by (induction ids arbitrary: m) simp_all

lemma fold_dispatch_connections:
  "distinct ids \<Longrightarrow> mg_connections (fold (dispatch_one e) ids m) j =
     (if j \<in> set ids then map_option (put_or_drop e) (mg_connections m j) else mg_connections m j)"
  by (induction ids arbitrary: m) (auto simp: dispatch_one_connections)

lemma fold_dispatch_dropped:
  assumes "distinct ids"
  shows "mg_dropped m \<le> mg_dropped (fold (dispatch_one e) ids m)
    \<and> (mg_dropped (fold (dispatch_one e) ids m) = mg_dropped m \<longrightarrow>
        (\<forall>i \<in> set ids. \<forall>info. mg_connections m i = Some info \<longrightarrow> length (wc_queue info) < QUEUE_MAXSIZE))"
  using assms
proof (induction ids arbitrary: m)
  case (Cons i ids)
  then have ih: "mg_dropped (dispatch_one e i m) \<le> mg_dropped (fold (dispatch_one e) ids (dispatch_one e i m))"
    "mg_dropped (fold (dispatch_one e) ids (dispatch_one e i m)) = mg_dropped (dispatch_one e i m) \<Longrightarrow>
       \<forall>j \<in> set ids. \<forall>info. mg_connections (dispatch_one e i m) j = Some info \<longrightarrow> length (wc_queue info) < QUEUE_MAXSIZE"
    by auto
  have le: "mg_dropped m \<le> mg_dropped (dispatch_one e i m)" by (simp add: dispatch_one_dropped split: option.split)
  have other: "mg_connections (dispatch_one e i m) j = mg_connections m j" if "j \<in> set ids" for j
    using that Cons.prems by (auto simp: dispatch_one_connections)
  show ?case
  proof (intro conjI impI ballI allI)
    show "mg_dropped m \<le> mg_dropped (fold (dispatch_one e) (i # ids) m)" using ih(1) le by simp
    fix j info
    assume eq: "mg_dropped (fold (dispatch_one e) (i # ids) m) = mg_dropped m" and j: "j \<in> set (i # ids)"
      and c: "mg_connections m j = Some info"
    from eq ih(1) le have same: "mg_dropped (dispatch_one e i m) = mg_dropped m"
      "mg_dropped (fold (dispatch_one e) ids (dispatch_one e i m)) = mg_dropped (dispatch_one e i m)" by simp_all
    show "length (wc_queue info) < QUEUE_MAXSIZE"
    proof (cases "j = i")
      case True
      with same(1) c show ?thesis by (simp add: dispatch_one_dropped split: if_splits)
    next
      case False
      with j have "j \<in> set ids" by simp
      with ih(2) [OF same(2)] other c show ?thesis by auto
    qed
  qed
qed simp

section \<open>The registry\<close>

definition registry_ok :: "manager \<Rightarrow> bool" where
  "registry_ok m \<longleftrightarrow>
     (\<forall>org i. i \<in> set (members_of org m) \<longleftrightarrow> (\<exists>info. mg_connections m i = Some info \<and> wc_organization_id info = org))
     \<and> (\<forall>org. distinct (members_of org m)) \<and> (\<forall>i. mg_connections m i \<noteq> None \<longrightarrow> i < mg_next m)"

lemma registry_members: "registry_ok m \<Longrightarrow> i \<in> set (members_of org m) \<longleftrightarrow> (\<exists>info. mg_connections m i = Some info \<and> wc_organization_id info = org)"
  by (simp add: registry_ok_def)

lemma registry_distinct: "registry_ok m \<Longrightarrow> distinct (members_of org m)"
  by (simp add: registry_ok_def)

text \<open>A change of the connections that keeps their organizations keeps the registry.\<close>

lemma registry_keep:
  assumes "registry_ok m" and "mg_by_org m' = mg_by_org m" and "mg_next m' = mg_next m"
    and "\<And>i. map_option wc_organization_id (mg_connections m' i) = map_option wc_organization_id (mg_connections m i)"
  shows "registry_ok m'"
proof -
  have mem: "members_of org m' = members_of org m" for org by (simp add: members_of_def assms(2))
  have c: "(\<exists>info. mg_connections m' i = Some info \<and> wc_organization_id info = org) \<longleftrightarrow>
      (\<exists>info. mg_connections m i = Some info \<and> wc_organization_id info = org)" for i org
    using assms(4) [of i] by (cases "mg_connections m' i"; cases "mg_connections m i") auto
  have n: "mg_connections m' i \<noteq> None \<longleftrightarrow> mg_connections m i \<noteq> None" for i
    using assms(4) [of i] by (cases "mg_connections m' i"; cases "mg_connections m i") auto
  show ?thesis using assms(1) unfolding registry_ok_def mem c n assms(3) .
qed

lemma registry_dispatch: "registry_ok m \<Longrightarrow> registry_ok (dispatch org e m)"
  by (rule registry_keep [of m])
    (simp_all add: dispatch_def fold_dispatch_connections registry_distinct option.map_comp comp_def)

lemma registry_register:
  assumes ok: "registry_ok m"
  shows "registry_ok (snd (register_connection kind p n m))"
proof -
  have new: "mg_next m \<notin> set (members_of org m)" for org
    using ok by (auto simp: registry_ok_def)
  have free: "mg_connections m (mg_next m) = None" using ok unfolding registry_ok_def by (meson less_irrefl)
  show ?thesis
    using ok new free unfolding registry_ok_def
    by (auto simp: register_connection_def Let_def members_of_def less_Suc_eq split: option.splits if_splits)
qed

lemma members_unregister:
  assumes ok: "registry_ok m" and i: "mg_connections m i = Some info"
  shows "members_of org (unregister_connection i m) = filter (\<lambda>j. j \<noteq> i) (members_of org m)"
proof -
  have "i \<notin> set (members_of org m)" if "org \<noteq> wc_organization_id info"
    using that i registry_members [OF ok] by auto
  then have "filter (\<lambda>j. j \<noteq> i) (members_of org m) = members_of org m" if "org \<noteq> wc_organization_id info"
    using that by (auto simp: filter_id_conv)
  moreover have "mg_by_org m (wc_organization_id info) \<noteq> None"
    using i registry_members [OF ok, of i "wc_organization_id info"]
    by (cases "mg_by_org m (wc_organization_id info)") (simp_all add: members_of_def)
  ultimately show ?thesis
    using i by (auto simp: unregister_connection_def Let_def members_of_def split: option.splits)
qed

lemma unregister_connections: "mg_connections (unregister_connection i m) = (mg_connections m)(i := None)"
  by (auto simp: unregister_connection_def Let_def fun_eq_iff split: option.split)

lemma unregister_rest [simp]:
  "mg_next (unregister_connection i m) = mg_next m" "mg_dropped (unregister_connection i m) = mg_dropped m"
  by (simp_all add: unregister_connection_def Let_def split: option.split)

lemma registry_unregister:
  assumes ok: "registry_ok m"
  shows "registry_ok (unregister_connection i m)"
proof (cases "mg_connections m i")
  case None
  then show ?thesis using ok by (simp add: unregister_connection_def)
next
  case (Some info)
  note mem = members_unregister [OF ok Some]
  show ?thesis
    using ok unfolding registry_ok_def mem unregister_connections unregister_rest by auto
qed

lemma receive_keeps_org:
  "map_option wc_organization_id (mg_connections (snd (receive_next i m)) j) = map_option wc_organization_id (mg_connections m j)"
  by (auto simp: receive_next_def split: option.split list.split)

lemma receive_rest [simp]:
  "mg_by_org (snd (receive_next i m)) = mg_by_org m" "mg_next (snd (receive_next i m)) = mg_next m"
  "mg_dropped (snd (receive_next i m)) = mg_dropped m" "mg_loop (snd (receive_next i m)) = mg_loop m"
  by (simp_all add: receive_next_def split: option.split list.split)

lemma registry_receive: "registry_ok m \<Longrightarrow> registry_ok (snd (receive_next i m))"
  by (rule registry_keep [of m]) (simp_all add: receive_keeps_org)

lemma registry_heartbeat: "registry_ok m \<Longrightarrow> registry_ok (record_heartbeat_failure i m)"
  by (rule registry_keep [of m]) (auto simp: record_heartbeat_failure_def split: option.split)

section \<open>All interleavings\<close>

text \<open>What the process does, with a record of the events its loop dispatched and, for each connection, where that
  record stood at its registration and what it has taken since.\<close>

record 't world =
  rw_manager :: manager
  rw_bus :: "'t bus"
  rw_log :: "bus_event list"
  rw_from :: "ident \<Rightarrow> nat"
  rw_taken :: "ident \<Rightarrow> bus_event list"

definition message_events :: "'t realtime_env \<Rightarrow> manager \<times> 't bus \<Rightarrow> bus_event list" where
  "message_events env s =
     (let (m, b) = s
      in if \<not> mg_loop m then []
         else case bu_channel b of [] \<Rightarrow> [] | msg # _ \<Rightarrow> (case read_message env msg of None \<Rightarrow> [] | Some (org, e) \<Rightarrow> [e]))"

inductive world_step :: "'t realtime_env \<Rightarrow> 't world \<Rightarrow> 't world \<Rightarrow> bool" for env where
  ws_publish: "world_step env w (w\<lparr>rw_bus := publish env now up e (rw_bus w)\<rparr>)"
| ws_loop: "loop_message env (rw_manager w, rw_bus w) = (m, b) \<Longrightarrow>
    world_step env w (w\<lparr>rw_manager := m, rw_bus := b, rw_log := rw_log w @ message_events env (rw_manager w, rw_bus w)\<rparr>)"
| ws_start: "start_loop (rw_manager w, rw_bus w) = (m, b) \<Longrightarrow> world_step env w (w\<lparr>rw_manager := m, rw_bus := b\<rparr>)"
| ws_end: "end_loop (rw_manager w, rw_bus w) = (m, b) \<Longrightarrow> world_step env w (w\<lparr>rw_manager := m, rw_bus := b\<rparr>)"
| ws_register: "register_connection kind p n (rw_manager w) = (i, m) \<Longrightarrow>
    world_step env w (w\<lparr>rw_manager := m, rw_from := (rw_from w)(i := length (rw_log w)), rw_taken := (rw_taken w)(i := [])\<rparr>)"
| ws_unregister: "world_step env w (w\<lparr>rw_manager := unregister_connection i (rw_manager w)\<rparr>)"
| ws_take: "receive_next i (rw_manager w) = (Rc_event e, m) \<Longrightarrow>
    world_step env w (w\<lparr>rw_manager := m, rw_taken := (rw_taken w)(i := rw_taken w i @ [e])\<rparr>)"
| ws_heartbeat: "world_step env w (w\<lparr>rw_manager := record_heartbeat_failure i (rw_manager w)\<rparr>)"

inductive world_reach :: "'t realtime_env \<Rightarrow> 't world \<Rightarrow> 't world \<Rightarrow> bool" for env where
  wr_refl: "world_reach env w w"
| wr_step: "world_reach env w u \<Longrightarrow> world_step env u v \<Longrightarrow> world_reach env w v"

definition world_init :: "'t world" where
  "world_init = \<lparr>rw_manager = manager_init, rw_bus = \<lparr>bu_subscribed = False, bu_channel = [], bu_lists = \<lambda>_. None\<rparr>,
     rw_log = [], rw_from = \<lambda>_. 0, rw_taken = \<lambda>_. []\<rparr>"

text \<open>The laws of the serializer and of the UUID text.\<close>

definition codec_ok :: "'t realtime_env \<Rightarrow> bool" where
  "codec_ok env \<longleftrightarrow> (\<forall>e. re_parse env (re_dump env e) = Some e) \<and> (\<forall>i. re_parse_uuid env (re_uuid env i) = Some i)"

lemma channel_roundtrip: "codec_ok env \<Longrightarrow> org_id_from_channel env (org_channel env org) = Some org"
  by (simp add: codec_ok_def org_id_from_channel_def org_channel_def starts_with_def)

text \<open>Every message on the channel is an event on the channel of its own organization.\<close>

definition channel_ok :: "'t realtime_env \<Rightarrow> 't bus \<Rightarrow> bool" where
  "channel_ok env b \<longleftrightarrow>
     (\<forall>msg \<in> set (bu_channel b). \<exists>e. read_message env msg = Some (bv_organization_id e, e))"

lemma read_published:
  "codec_ok env \<Longrightarrow> read_message env (org_channel env (bv_organization_id e), re_dump env e) = Some (bv_organization_id e, e)"
  by (simp add: read_message_def channel_roundtrip codec_ok_def)

lemma channel_publish: "codec_ok env \<Longrightarrow> channel_ok env b \<Longrightarrow> channel_ok env (publish env now up e b)"
  using read_published [of env e] by (auto simp: publish_def channel_ok_def Let_def)

text \<open>The events of the log a connection is owed since its registration.\<close>

definition owed :: "'t world \<Rightarrow> ident \<Rightarrow> ident \<Rightarrow> bus_event list" where
  "owed w i org = filter (\<lambda>e. bv_organization_id e = org) (drop (rw_from w i) (rw_log w))"

definition served :: "'t world \<Rightarrow> ident \<Rightarrow> bool" where
  "served w i \<longleftrightarrow>
     (\<forall>info. mg_connections (rw_manager w) i = Some info \<longrightarrow>
        length (wc_queue info) \<le> QUEUE_MAXSIZE \<and> rw_from w i \<le> length (rw_log w)
        \<and> subseq (rw_taken w i @ wc_queue info) (owed w i (wc_organization_id info))
        \<and> (mg_dropped (rw_manager w) = 0 \<longrightarrow> rw_taken w i @ wc_queue info = owed w i (wc_organization_id info)))"

definition world_ok :: "'t realtime_env \<Rightarrow> 't world \<Rightarrow> bool" where
  "world_ok env w \<longleftrightarrow> registry_ok (rw_manager w) \<and> channel_ok env (rw_bus w) \<and> (\<forall>i. served w i)"

text \<open>One dispatched event: the connections of its organization are owed it and get it, or it is dropped.\<close>

lemma served_dispatch:
  assumes reg: "registry_ok (rw_manager w)" and sv: "served w i" and org: "bv_organization_id e = org"
  shows "served (w\<lparr>rw_manager := dispatch org e (rw_manager w), rw_bus := b, rw_log := rw_log w @ [e]\<rparr>) i"
proof -
  let ?m = "rw_manager w" and ?w = "w\<lparr>rw_manager := dispatch org e (rw_manager w), rw_bus := b, rw_log := rw_log w @ [e]\<rparr>"
  note dis = registry_distinct [OF reg, of org]
  note drp = fold_dispatch_dropped [OF dis, of ?m e]
  show ?thesis
    unfolding served_def
  proof (intro allI impI)
    fix info assume info: "mg_connections (rw_manager ?w) i = Some info"
    then obtain old where old: "mg_connections ?m i = Some old"
      and new: "info = (if i \<in> set (members_of org ?m) then put_or_drop e old else old)"
      by (auto simp: dispatch_def fold_dispatch_connections [OF dis] split: if_splits)
    have mem: "i \<in> set (members_of org ?m) \<longleftrightarrow> wc_organization_id old = org"
      using old registry_members [OF reg] by auto
    have ow: "owed ?w i g = owed w i g @ (if bv_organization_id e = g then [e] else [])" if "rw_from w i \<le> length (rw_log w)" for g
      using that by (simp add: owed_def)
    from sv old have s: "length (wc_queue old) \<le> QUEUE_MAXSIZE" "rw_from w i \<le> length (rw_log w)"
      "subseq (rw_taken w i @ wc_queue old) (owed w i (wc_organization_id old))"
      "mg_dropped ?m = 0 \<Longrightarrow> rw_taken w i @ wc_queue old = owed w i (wc_organization_id old)"
      by (auto simp: served_def)
    show "length (wc_queue info) \<le> QUEUE_MAXSIZE \<and> rw_from ?w i \<le> length (rw_log ?w)
        \<and> subseq (rw_taken ?w i @ wc_queue info) (owed ?w i (wc_organization_id info))
        \<and> (mg_dropped (rw_manager ?w) = 0 \<longrightarrow> rw_taken ?w i @ wc_queue info = owed ?w i (wc_organization_id info))"
    proof (cases "wc_organization_id old = org")
      case False
      then have "info = old" using new mem by simp
      moreover have "mg_dropped (rw_manager ?w) = 0 \<Longrightarrow> mg_dropped ?m = 0" using drp by (simp add: dispatch_def)
      ultimately show ?thesis using s ow [OF s(2)] False org by auto
    next
      case True
      then have n: "info = put_or_drop e old" using new mem by simp
      have full: "length (wc_queue old) < QUEUE_MAXSIZE" "mg_dropped ?m = 0" if "mg_dropped (rw_manager ?w) = 0"
        using that drp mem True old by (auto simp: dispatch_def)
      have sub: "subseq (rw_taken w i @ wc_queue info) (owed w i org @ [e])"
        using s(3) True n subseq_append [of "rw_taken w i @ wc_queue old" "[e]" "owed w i org"]
        by (auto intro: subseq_rev_drop_many)
      show ?thesis using s n True ow [OF s(2)] org sub full by auto
    qed
  qed
qed

lemma served_same:
  "served w i \<Longrightarrow> mg_connections (rw_manager v) i = mg_connections (rw_manager w) i \<Longrightarrow>
   mg_dropped (rw_manager v) = mg_dropped (rw_manager w) \<Longrightarrow> rw_log v = rw_log w \<Longrightarrow>
   rw_from v i = rw_from w i \<Longrightarrow> rw_taken v i = rw_taken w i \<Longrightarrow> served v i"
  by (simp add: served_def owed_def)

lemma register_state:
  "register_connection kind p n m = (i, m') \<Longrightarrow> i = mg_next m \<and> mg_dropped m' = mg_dropped m
    \<and> (\<exists>info. mg_connections m' = (mg_connections m)(i \<mapsto> info) \<and> wc_queue info = [] \<and> wc_organization_id info = pr_organization_id p)"
  by (auto simp: register_connection_def Let_def)

lemma served_register:
  assumes r: "register_connection kind p n (rw_manager w) = (i, m)" and sv: "served w j"
  shows "served (w\<lparr>rw_manager := m, rw_from := (rw_from w)(i := length (rw_log w)), rw_taken := (rw_taken w)(i := [])\<rparr>) j"
proof (cases "j = i")
  case True
  then show ?thesis using register_state [OF r] by (auto simp: served_def owed_def)
next
  case False
  then show ?thesis using register_state [OF r] by (intro served_same [OF sv]) auto
qed

lemma served_take:
  assumes t: "receive_next i (rw_manager w) = (Rc_event e, m)" and sv: "served w j"
  shows "served (w\<lparr>rw_manager := m, rw_taken := (rw_taken w)(i := rw_taken w i @ [e])\<rparr>) j"
proof (cases "j = i")
  case True
  then show ?thesis using t sv
    by (auto simp: served_def owed_def receive_next_def split: option.splits list.splits)
next
  case False
  have "mg_connections m j = mg_connections (rw_manager w) j"
    using t False by (auto simp: receive_next_def split: option.splits list.splits)
  moreover have "mg_dropped m = mg_dropped (rw_manager w)" using receive_rest(3) [of i "rw_manager w"] t by simp
  ultimately show ?thesis using False by (intro served_same [OF sv]) auto
qed

lemma served_heartbeat: "served w j \<Longrightarrow> served (w\<lparr>rw_manager := record_heartbeat_failure i (rw_manager w)\<rparr>) j"
  by (auto simp: served_def owed_def record_heartbeat_failure_def split: option.split)

lemma served_unregister: "served w j \<Longrightarrow> served (w\<lparr>rw_manager := unregister_connection i (rw_manager w)\<rparr>) j"
  by (auto simp: served_def owed_def unregister_connections)

lemma world_ok_loop:
  assumes ok: "world_ok env w" and l: "loop_message env (rw_manager w, rw_bus w) = (m, b)"
  shows "world_ok env (w\<lparr>rw_manager := m, rw_bus := b, rw_log := rw_log w @ message_events env (rw_manager w, rw_bus w)\<rparr>)"
proof (cases "mg_loop (rw_manager w) \<and> bu_channel (rw_bus w) \<noteq> []")
  case False
  then have "m = rw_manager w" "b = rw_bus w" "message_events env (rw_manager w, rw_bus w) = []"
    using l by (auto simp: loop_message_def message_events_def split: list.splits if_splits)
  then show ?thesis using ok by (simp add: world_ok_def)
next
  case True
  then obtain msg rest where ch: "bu_channel (rw_bus w) = msg # rest" by (cases "bu_channel (rw_bus w)") auto
  then obtain e where e: "read_message env msg = Some (bv_organization_id e, e)"
    using ok by (auto simp: world_ok_def channel_ok_def)
  have m: "m = dispatch (bv_organization_id e) e (rw_manager w)" "b = (rw_bus w)\<lparr>bu_channel := rest\<rparr>"
    "message_events env (rw_manager w, rw_bus w) = [e]"
    using l True ch e by (auto simp: loop_message_def message_events_def)
  have "channel_ok env b" using ok ch m(2) by (simp add: world_ok_def channel_ok_def)
  moreover have "served (w\<lparr>rw_manager := m, rw_bus := b, rw_log := rw_log w @ [e]\<rparr>) i" for i
    unfolding m(1) using ok by (intro served_dispatch) (simp_all add: world_ok_def)
  ultimately show ?thesis using ok m by (simp add: world_ok_def registry_dispatch)
qed

lemma world_ok_step:
  assumes codec: "codec_ok env" and step: "world_step env w v" and ok: "world_ok env w"
  shows "world_ok env v"
  using step
proof cases
  case (ws_publish now up e)
  have "served v i" for i by (rule served_same [of w]) (use ok ws_publish in \<open>simp_all add: world_ok_def\<close>)
  with ws_publish ok show ?thesis by (simp add: world_ok_def channel_publish [OF codec])
next
  case (ws_loop m b)
  with world_ok_loop [OF ok] show ?thesis by simp
next
  case (ws_start m b)
  then have s: "mg_connections m = mg_connections (rw_manager w)" "mg_by_org m = mg_by_org (rw_manager w)"
    "mg_next m = mg_next (rw_manager w)" "mg_dropped m = mg_dropped (rw_manager w)" "channel_ok env b"
    using ok by (auto simp: start_loop_def world_ok_def channel_ok_def split: if_splits)
  have "served v i" for i by (rule served_same [of w]) (use ok ws_start s in \<open>simp_all add: world_ok_def\<close>)
  moreover have "registry_ok m" using ok s by (intro registry_keep [of "rw_manager w" m]) (simp_all add: world_ok_def)
  ultimately show ?thesis using ws_start s by (simp add: world_ok_def)
next
  case (ws_end m b)
  then have s: "m = (rw_manager w)\<lparr>mg_loop := False\<rparr>" "channel_ok env b" by (auto simp: end_loop_def channel_ok_def)
  have "served v i" for i by (rule served_same [of w]) (use ok ws_end s in \<open>simp_all add: world_ok_def\<close>)
  moreover have "registry_ok m" using ok s by (intro registry_keep [of "rw_manager w" m]) (simp_all add: world_ok_def)
  ultimately show ?thesis using ws_end s by (simp add: world_ok_def)
next
  case (ws_register kind p n i m)
  then have "registry_ok m" using ok registry_register [of "rw_manager w" kind p n] by (simp add: world_ok_def)
  then show ?thesis using ws_register ok served_register [OF ws_register(2)] by (simp add: world_ok_def)
next
  case (ws_unregister i)
  then show ?thesis using ok by (simp add: world_ok_def registry_unregister served_unregister)
next
  case (ws_take i e m)
  then have "registry_ok m" using ok registry_receive [of "rw_manager w" i] by (simp add: world_ok_def)
  then show ?thesis using ws_take ok served_take [OF ws_take(2)] by (simp add: world_ok_def)
next
  case (ws_heartbeat i)
  then show ?thesis using ok by (simp add: world_ok_def registry_heartbeat served_heartbeat)
qed

lemma world_ok_init: "world_ok env world_init"
  by (simp add: world_ok_def world_init_def registry_ok_def channel_ok_def served_def manager_init_def members_of_def)

lemma world_ok_reach: "world_reach env w v \<Longrightarrow> codec_ok env \<Longrightarrow> world_ok env w \<Longrightarrow> world_ok env v"
  by (induction rule: world_reach.induct) (auto intro: world_ok_step)

text \<open>C19: however publications, the dispatch loop, connections, reads and heartbeats interleave, what a connection
  has taken and what waits in its queue are, in this order, events of its own organization that the loop
  dispatched since it was registered, each at most once; as long as no queue overflowed they are all of them; and
  no queue ever holds more than 256 events.\<close>

theorem connection_receives_its_events:
  assumes "world_reach env world_init w" and "codec_ok env" and "mg_connections (rw_manager w) i = Some info"
  shows "length (wc_queue info) \<le> 256
    \<and> subseq (rw_taken w i @ wc_queue info)
        (filter (\<lambda>e. bv_organization_id e = wc_organization_id info) (drop (rw_from w i) (rw_log w)))
    \<and> (mg_dropped (rw_manager w) = 0 \<longrightarrow> rw_taken w i @ wc_queue info =
        filter (\<lambda>e. bv_organization_id e = wc_organization_id info) (drop (rw_from w i) (rw_log w)))"
  using world_ok_reach [OF assms(1,2) world_ok_init] assms(3)
  by (auto simp: world_ok_def served_def owed_def QUEUE_MAXSIZE_def)

section \<open>Who may listen\<close>

definition entitled :: "account_env \<Rightarrow> micros \<Rightarrow> realtime_principal \<Rightarrow> accounts \<Rightarrow> bool" where
  "entitled env now p s =
     (case pr_kind p of
        PK_USER \<Rightarrow>
          (\<exists>u sid d g mb. repo_get (pr_id p) (ac_users s) = Inr (Some u) \<and> us_status u \<noteq> US_DISABLED
             \<and> get_active now sid (ac_sessions s) = Inr (Some d)
             \<and> repo_get (pr_organization_id p) (ac_orgs s) = Inr (Some g) \<and> og_status g = OS_ACTIVE
             \<and> get_by_org_and_email (pr_organization_id p) (us_email u) (ac_members s) = Inr (Some mb)
             \<and> has_permission (ms_role mb) USAGE_READ)
      | PK_API_KEY \<Rightarrow>
          (\<exists>raw k g. ak_get_by_hash (en_hash_token env raw) (ac_keys s) = Inr (Some k) \<and> row_id k = pr_id p
             \<and> \<not> key_expired now k \<and> repo_get (ak_organization_id k) (ac_orgs s) = Inr (Some g) \<and> og_status g = OS_ACTIVE
             \<and> row_id g = pr_organization_id p \<and> USAGE_READ \<in> set (context_permissions k)))"

lemma found_Inr: "found err r = Inr x \<longleftrightarrow> r = Inr (Some x)"
  by (auto simp: found_def split: sum.split option.split)

lemma jwt_entitled:
  "authenticate_realtime_jwt env renv now token requested s = Inr p \<Longrightarrow> entitled env now p s"
  by (auto simp: authenticate_realtime_jwt_def entitled_def found_Inr elim!: and_then_InrE
      split: option.split_asm if_split_asm) blast

lemma context_permissions_used [simp]:
  "context_permissions (k\<lparr>ak_last_used_at := a, row_updated_at := b\<rparr>) = context_permissions k"
  by (simp add: context_permissions_def)

lemma key_entitled:
  "authenticate_realtime_key env now token requested s = Inr (p, s') \<Longrightarrow> entitled env now p s"
  by (auto simp: authenticate_realtime_key_def authenticate_key_def entitled_def key_has_permission_def
      elim!: and_then_InrE split: option.split_asm if_split_asm) blast+

lemma admit_entitled:
  "admit env renv q w = (Inr p, w') \<Longrightarrow> entitled env (cq_now q) p (gw_accounts w) \<and> gw_manager w' = gw_manager w"
  by (auto simp: admit_def Let_def split_def authenticate_realtime_connection_def jwt_entitled key_entitled
      elim!: and_then_InrE split: if_split_asm sum.split_asm realtime_error.split_asm)

lemma connect_state:
  "connect kind n p w = (i, w') \<Longrightarrow> \<exists>info. mg_connections (gw_manager w') i = Some info
     \<and> wc_organization_id info = pr_organization_id p \<and> wc_principal_id info = pr_id p \<and> wc_principal_kind info = pr_kind p"
  by (auto simp: connect_def register_connection_def Let_def)


section \<open>The end of an idle stream\<close>

text \<open>C22: an event stream does not survive thirty seconds without an event: the wait that ends with the heartbeat
  has cancelled the generator, so the next turn closes the response and drops the connection, with whatever
  events were queued for it meanwhile.\<close>

theorem idle_stream_closes:
  assumes "sw_open t" and "sw_generator t"
    and "mg_connections m (sw_connection t) = Some info" and "wc_queue info = []"
  shows "\<exists>t1 t2 m3. sse_turn (t, m) = (t1, m) \<and> sw_open t1 \<and> sse_turn (t1, m2) = (t2, m3) \<and> \<not> sw_open t2
    \<and> sw_chunks t2 = sw_chunks t @ [Ch_heartbeat] \<and> mg_connections m3 (sw_connection t) = None"
  using assms by (simp add: sse_turn_def receive_next_def unregister_connections Let_def)

section \<open>Reconnecting\<close>

definition publish_run :: "'t realtime_env \<Rightarrow> (secs \<times> bus_event) list \<Rightarrow> 't bus \<Rightarrow> 't bus" where
  "publish_run env es b = fold (\<lambda>(t, e). publish env t True e) es b"

fun pump :: "'t realtime_env \<Rightarrow> nat \<Rightarrow> manager \<times> 't bus \<Rightarrow> manager \<times> 't bus" where
  "pump env 0 s = s"
| "pump env (Suc n) s = pump env n (loop_message env s)"

lemma keep_last_twice: "0 < n \<Longrightarrow> keep_last n (keep_last n xs @ ys) = keep_last n (xs @ ys)"
  by (cases "n \<le> length xs") (simp_all add: keep_last_def add.commute)

lemma publish_run_snoc: "publish_run env (es @ [(t, e)]) b = publish env t True e (publish_run env es b)"
  by (simp add: publish_run_def)

lemma publish_run_list:
  assumes "\<forall>x \<in> set es. bv_organization_id (snd x) = org \<and> t0 \<le> fst x \<and> fst x < t0 + 3600"
    and "t0 \<le> now" and "now < t0 + 3600"
    and "\<forall>t. t0 \<le> t \<longrightarrow> t < t0 + 3600 \<longrightarrow> redis_list t (replay_key env org) b = xs" and "length xs \<le> 200"
  shows "redis_list now (replay_key env org) (publish_run env es b) = keep_last 200 (xs @ map (re_dump env \<circ> snd) es)"
  using assms
proof (induction es arbitrary: now rule: rev_induct)
  case Nil
  then show ?case by (simp add: publish_run_def keep_last_def)
next
  case (snoc x es)
  obtain t e where x: "x = (t, e)" by (cases x)
  have te: "bv_organization_id e = org" "t0 \<le> t" "t < t0 + 3600" using snoc.prems(1) x by auto
  have ih: "redis_list t (replay_key env org) (publish_run env es b) = keep_last 200 (xs @ map (re_dump env \<circ> snd) es)"
    using snoc.prems te by (intro snoc.IH) auto
  have "redis_list now (replay_key env org) (publish env t True e (publish_run env es b)) =
      keep_last 200 (keep_last 200 (xs @ map (re_dump env \<circ> snd) es) @ [re_dump env e])"
    using te ih snoc.prems(2,3)
    by (simp add: publish_def Let_def redis_list_def REPLAY_BUFFER_SIZE_def REPLAY_TTL_SECONDS_def)
  then show ?case by (simp add: x publish_run_snoc keep_last_twice comp_def)
qed

lemma publish_run_channel:
  assumes "\<forall>x \<in> set es. bv_organization_id (snd x) = org" and "bu_subscribed b"
  shows "bu_channel (publish_run env es b) = bu_channel b @ map (\<lambda>x. (org_channel env org, re_dump env (snd x))) es
    \<and> bu_subscribed (publish_run env es b)"
  using assms
proof (induction es rule: rev_induct)
  case (snoc x es)
  obtain t e where x: "x = (t, e)" by (cases x)
  with snoc.prems(1) have "bv_organization_id e = org" by simp
  with snoc x show ?case by (simp add: publish_run_snoc publish_def Let_def)
qed (simp add: publish_run_def)

lemma pump_messages:
  assumes "codec_ok env" and "mg_loop m" and "\<forall>e \<in> set es. bv_organization_id e = org"
    and "bu_channel b = map (\<lambda>e. (org_channel env org, re_dump env e)) es"
  shows "pump env (length es) (m, b) = (fold (dispatch org) es m, b\<lparr>bu_channel := []\<rparr>)"
  using assms
proof (induction es arbitrary: m b)
  case (Cons e es)
  have "read_message env (org_channel env org, re_dump env e) = Some (org, e)"
    using read_published [OF Cons.prems(1), of e] Cons.prems(3) by simp
  with Cons.prems have s: "loop_message env (m, b) =
      (dispatch org e m, b\<lparr>bu_channel := map (\<lambda>e. (org_channel env org, re_dump env e)) es\<rparr>)"
    by (simp add: loop_message_def)
  have l: "mg_loop (dispatch org e m)" using Cons.prems(2) by (simp add: dispatch_def)
  show ?case using Cons.IH [OF Cons.prems(1) l, of "b\<lparr>bu_channel := map (\<lambda>e. (org_channel env org, re_dump env e)) es\<rparr>"]
      Cons.prems(3) by (simp add: s)
qed simp

lemma dispatch_run_queue:
  assumes "registry_ok m" and "mg_connections m i = Some info" and "wc_organization_id info = org"
  shows "mg_connections (fold (dispatch org) es m) i = Some (fold put_or_drop es info)"
  using assms
proof (induction es arbitrary: m info)
  case (Cons e es)
  have "mg_connections (dispatch org e m) i = Some (put_or_drop e info)"
    using Cons.prems registry_members [OF Cons.prems(1), of i org]
    by (simp add: dispatch_def fold_dispatch_connections registry_distinct)
  then show ?case using Cons.IH [OF registry_dispatch [OF Cons.prems(1)]] Cons.prems(3) by simp
qed simp

lemma registry_dispatch_run: "registry_ok m \<Longrightarrow> registry_ok (fold (dispatch org) es m)"
  by (induction es arbitrary: m) (simp_all add: registry_dispatch)

lemma after_event_found:
  "bv_event_id e \<notin> set (map bv_event_id xs) \<Longrightarrow> after_event (bv_event_id e) (xs @ e # ys) = Some ys"
  by (induction xs) auto

lemma parse_dumps: "codec_ok env \<Longrightarrow> List.map_filter (re_parse env) (map (re_dump env \<circ> snd) es) = map snd es"
  by (induction es) (simp_all add: codec_ok_def List.map_filter_simps)

lemma publish_and_pump:
  assumes codec: "codec_ok env" and es: "\<forall>x \<in> set es. bv_organization_id (snd x) = org"
    and m: "mg_loop m" and b: "bu_subscribed b" "bu_channel b = []"
  shows "pump env (length es) (m, publish_run env es b) =
      (fold (dispatch org) (map snd es) m, (publish_run env es b)\<lparr>bu_channel := []\<rparr>)
    \<and> bu_subscribed (publish_run env es b)"
proof -
  note c = publish_run_channel [OF es b(1)]
  have "bu_channel (publish_run env es b) = map (\<lambda>e. (org_channel env org, re_dump env e)) (map snd es)"
    using c b(2) by simp
  moreover have "\<forall>e \<in> set (map snd es). bv_organization_id e = org" using es by simp
  ultimately show ?thesis
    using pump_messages [OF codec m, of "map snd es" org "publish_run env es b"] c by simp
qed

text \<open>What a client with a known last event gets: the replay, and then the queue of its new connection.\<close>

lemma keep_last_suffix:
  assumes "length (x # ys) \<le> n"
  shows "\<exists>zs. keep_last n (xs @ x # ys) = zs @ x # ys \<and> set zs \<subseteq> set xs"
proof (intro exI conjI)
  show "set (drop (length (xs @ x # ys) - n) xs) \<subseteq> set xs" by (rule set_drop_subset)
  show "keep_last n (xs @ x # ys) = drop (length (xs @ x # ys) - n) xs @ x # ys"
    using assms by (cases n) (simp_all add: keep_last_def)
qed

lemma map_keep_last: "keep_last n (map f xs) = map f (keep_last n xs)"
  by (simp add: keep_last_def drop_map)

lemma replay_suffix:
  assumes codec: "codec_ok env"
    and l: "redis_list now (replay_key env org) b = keep_last 200 (map (re_dump env \<circ> snd) (known @ (t, last_event) # missed))"
    and "length missed < 200" and "distinct (map (bv_event_id \<circ> snd) (known @ (t, last_event) # missed))"
  shows "replay_since env now True org (Some (bv_event_id last_event)) b = map snd missed"
proof -
  obtain zs where zs: "keep_last 200 (known @ (t, last_event) # missed) = zs @ (t, last_event) # missed" "set zs \<subseteq> set known"
    using keep_last_suffix [of "(t, last_event)" missed 200 known] assms(3) by auto
  have "bv_event_id last_event \<notin> set (map bv_event_id (map snd zs))"
    using assms(4) zs(2) by (auto simp: image_iff)
  then have "after_event (bv_event_id last_event) (map snd zs @ last_event # map snd missed) = Some (map snd missed)"
    by (rule after_event_found)
  moreover have "List.map_filter (re_parse env) (redis_list now (replay_key env org) b) = map snd zs @ last_event # map snd missed"
    unfolding l map_keep_last zs(1) using parse_dumps [OF codec, of "zs @ (t, last_event) # missed"] by simp
  ultimately show ?thesis by (simp add: replay_since_def)
qed

text \<open>C20: a client that resumes its event stream is sent every event after the last one it knows: those it missed and
  those published while it reconnects come from the replay, those since its registration from its queue. The
  events of the window between registration and replay are sent twice. (No more than 200 events are replayed and
  256 queued, and the publications lie within the hour of the buffer.)\<close>

theorem resumed_stream_complete:
  fixes env :: "'t realtime_env"
  assumes codec: "codec_ok env" and reg: "registry_ok m" and loop: "mg_loop m"
    and bus: "bu_subscribed b" "bu_channel b = []" "bu_lists b (replay_key env org) = None"
    and ev: "\<forall>x \<in> set (known @ (t1, last_event) # missed @ window @ later).
          bv_organization_id (snd x) = org \<and> t0 \<le> fst x \<and> fst x < t0 + 3600"
    and now: "t0 \<le> now" "now < t0 + 3600"
    and ids: "distinct (map (bv_event_id \<circ> snd) (known @ (t1, last_event) # missed @ window))"
    and room: "length (missed @ window) < 200" "length (window @ later) \<le> 256" and org: "pr_organization_id p = org"
    and s1: "pump env (length (known @ (t1, last_event) # missed)) (m, publish_run env (known @ (t1, last_event) # missed) b) = (m1, b1)"
    and r: "register_connection SSE p n m1 = (i, m2)"
    and s2: "pump env (length window) (m2, publish_run env window b1) = (m3, b3)"
    and s3: "pump env (length later) (m3, publish_run env later b3) = (m4, b4)"
  shows "replay_since env now True org (Some (bv_event_id last_event)) b3 = map snd (missed @ window)
    \<and> (\<exists>info. mg_connections m4 i = Some info \<and> wc_queue info = map snd (window @ later))"
proof -
  let ?before = "known @ (t1, last_event) # missed"
  note pumped = publish_and_pump [OF codec]
  have e: "\<forall>x \<in> set ?before. bv_organization_id (snd x) = org" "\<forall>x \<in> set window. bv_organization_id (snd x) = org"
    "\<forall>x \<in> set later. bv_organization_id (snd x) = org" using ev by auto
  have loops: "mg_loop (fold (dispatch org) es ma) = mg_loop ma" for es ma
    by (induction es arbitrary: ma) (simp_all add: dispatch_def)
  have m1: "m1 = fold (dispatch org) (map snd ?before) m" "b1 = (publish_run env ?before b)\<lparr>bu_channel := []\<rparr>" "bu_subscribed b1"
    using trans [OF s1 [symmetric] conjunct1 [OF pumped [OF e(1) loop bus(1,2)]]] conjunct2 [OF pumped [OF e(1) loop bus(1,2)]] by simp_all
  have c1: "bu_channel b1 = []" using m1 by simp
  have "mg_loop m1" unfolding m1(1) loops by (rule loop)
  then have l1: "mg_loop m2" using r by (auto simp: register_connection_def Let_def)
  have m3: "m3 = fold (dispatch org) (map snd window) m2" "b3 = (publish_run env window b1)\<lparr>bu_channel := []\<rparr>" "bu_subscribed b3"
    using trans [OF s2 [symmetric] conjunct1 [OF pumped [OF e(2) l1 m1(3) c1]]] conjunct2 [OF pumped [OF e(2) l1 m1(3) c1]] by simp_all
  have l3: "mg_loop m3" and c3: "bu_channel b3 = []" using m3 l1 loops by simp_all
  have m4: "m4 = fold (dispatch org) (map snd later) m3"
    using trans [OF s3 [symmetric] conjunct1 [OF pumped [OF e(3) l3 m3(3) c3]]] by simp
  have reg2: "registry_ok m2"
    using registry_register [OF registry_dispatch_run [OF reg, of org "map snd ?before"], of SSE p n] r unfolding m1(1) by simp
  obtain info where info: "mg_connections m2 i = Some info" "wc_queue info = []" "wc_organization_id info = org"
    using register_state [OF r] org by auto
  have "mg_connections m4 i = Some (fold put_or_drop (map snd (window @ later)) info)"
    using dispatch_run_queue [OF reg2 info(1,3), of "map snd (window @ later)"] m3(1) m4 by simp
  moreover have "wc_queue (fold put_or_drop (map snd (window @ later)) info) = map snd (window @ later)"
    using rt_queue.fold_put_items [of info "map snd (window @ later)"] info(2) room(2) by (simp add: QUEUE_MAXSIZE_def)
  moreover have "redis_list t (replay_key env org) b3 = keep_last 200 (map (re_dump env \<circ> snd) (?before @ window))"
    if t: "t0 \<le> t" "t < t0 + 3600" for t
  proof -
    have one: "redis_list t (replay_key env org) (publish_run env ?before b) = keep_last 200 ([] @ map (re_dump env \<circ> snd) ?before)"
      if "t0 \<le> t" "t < t0 + 3600" for t
      using ev that bus(3) by (intro publish_run_list [where ?t0.0 = t0]) (auto simp: redis_list_def)
    have chan: "redis_list t key (x\<lparr>bu_channel := c\<rparr>) = redis_list t key x" for t key c and x :: "'t bus"
      by (simp add: redis_list_def)
    have "redis_list t (replay_key env org) (publish_run env window b1) =
        keep_last 200 (keep_last 200 (map (re_dump env \<circ> snd) ?before) @ map (re_dump env \<circ> snd) window)"
      using ev t one m1(2) by (intro publish_run_list [where ?t0.0 = t0]) (auto simp: chan keep_last_def)
    then show ?thesis using m3(2) by (simp add: chan keep_last_twice)
  qed
  ultimately show ?thesis
    using replay_suffix [OF codec, of now org b3 known t1 last_event "missed @ window"] now ids room(1) by simp
qed

section \<open>Instances\<close>

definition demo_rt :: "bus_event realtime_env" where
  "demo_rt =
     \<lparr>re_dump = (\<lambda>e. e), re_parse = Some, re_uuid = (\<lambda>i. replicate i (CHR ''i'')), re_parse_uuid = (\<lambda>t. Some (length t)),
      re_expired = (\<lambda>_ _. False)\<rparr>"

definition demo_event :: "nat \<Rightarrow> bus_event" where
  "demo_event i =
     \<lparr>bv_event_id = i, bv_timestamp = 0, bv_organization_id = 10, bv_type = USAGE_CREATED, bv_version = 1, bv_payload = [],
      bv_trace_id = None, bv_correlation_id = None\<rparr>"

definition demo_principal :: realtime_principal where
  "demo_principal = \<lparr>pr_kind = PK_USER, pr_id = 1, pr_organization_id = 10\<rparr>"

lemma demo_codec: "codec_ok demo_rt"
  by (simp add: codec_ok_def demo_rt_def)

text \<open>A run: the loop starts, a client connects, an event is published and dispatched.\<close>

definition demo_started :: "bus_event world" where
  "demo_started =
     (let w = (world_init :: bus_event world); s = start_loop (rw_manager w, rw_bus w)
      in w\<lparr>rw_manager := fst s, rw_bus := snd s\<rparr>)"

definition demo_connected :: "bus_event world" where
  "demo_connected =
     (let (i, m) = register_connection SSE demo_principal 0 (rw_manager demo_started)
      in demo_started\<lparr>rw_manager := m, rw_from := (rw_from demo_started)(i := 0), rw_taken := (rw_taken demo_started)(i := [])\<rparr>)"

definition demo_published :: "bus_event world" where
  "demo_published = demo_connected\<lparr>rw_bus := publish demo_rt 5 True (demo_event 1) (rw_bus demo_connected)\<rparr>"

definition demo_dispatched :: "bus_event world" where
  "demo_dispatched =
     (let s = (rw_manager demo_published, rw_bus demo_published); r = loop_message demo_rt s
      in demo_published\<lparr>rw_manager := fst r, rw_bus := snd r, rw_log := rw_log demo_published @ message_events demo_rt s\<rparr>)"

lemmas demo_worlds = demo_started_def demo_connected_def demo_published_def demo_dispatched_def world_init_def manager_init_def
  start_loop_def register_connection_def members_of_def publish_def loop_message_def redis_list_def Let_def demo_principal_def

lemma demo_read: "read_message demo_rt (org_channel demo_rt 10, demo_event i) = Some (10, demo_event i)"
  using read_published [OF demo_codec, of "demo_event i"] by (simp add: demo_event_def demo_rt_def)

lemma demo_dump [simp]: "re_dump demo_rt e = e" "bv_organization_id (demo_event i) = 10" "bv_event_id (demo_event i) = i"
  by (simp_all add: demo_rt_def demo_event_def)

lemma demo_run: "world_reach demo_rt world_init demo_dispatched"
proof -
  have "world_step demo_rt world_init demo_started"
    unfolding demo_started_def Let_def by (rule ws_start) simp
  moreover have "rw_log demo_started = []" by (simp add: demo_started_def world_init_def Let_def)
  then have "world_step demo_rt demo_started demo_connected"
    using ws_register [of SSE demo_principal 0 demo_started "fst (register_connection SSE demo_principal 0 (rw_manager demo_started))"
        "snd (register_connection SSE demo_principal 0 (rw_manager demo_started))" demo_rt]
    by (simp add: demo_connected_def split_def Let_def)
  moreover have "world_step demo_rt demo_connected demo_published"
    unfolding demo_published_def by (rule ws_publish)
  moreover have "world_step demo_rt demo_published demo_dispatched"
    unfolding demo_dispatched_def Let_def by (rule ws_loop) simp
  ultimately show ?thesis by (meson wr_refl wr_step)
qed

theorem connection_receives_its_events_witness:
  "\<exists>info. mg_connections (rw_manager demo_dispatched) 0 = Some info \<and> wc_queue info = [demo_event 1]
    \<and> length (wc_queue info) \<le> 256
    \<and> subseq (rw_taken demo_dispatched 0 @ wc_queue info)
        (filter (\<lambda>e. bv_organization_id e = wc_organization_id info) (drop (rw_from demo_dispatched 0) (rw_log demo_dispatched)))
    \<and> (mg_dropped (rw_manager demo_dispatched) = 0 \<longrightarrow> rw_taken demo_dispatched 0 @ wc_queue info =
        filter (\<lambda>e. bv_organization_id e = wc_organization_id info) (drop (rw_from demo_dispatched 0) (rw_log demo_dispatched)))"
proof -
  let ?c = "mg_connections (rw_manager demo_dispatched) 0"
  have c: "?c \<noteq> None" and q: "wc_queue (the ?c) = [demo_event 1]"
    by (simp_all add: demo_worlds demo_read dispatch_def dispatch_one_def put_nowait_def QUEUE_MAXSIZE_def)
  from c have i: "?c = Some (the ?c)" by simp
  show ?thesis
    by (rule exI [of _ "the ?c"]) (use i q connection_receives_its_events [OF demo_run demo_codec i] in blast)
qed

definition demo_gateway :: "bus_event gateway" where
  "demo_gateway =
     \<lparr>gw_accounts = demo, gw_limiter = \<lparr>cl_redis = None, cl_hits = \<lambda>_. []\<rparr>, gw_manager = rw_manager demo_started,
      gw_bus = rw_bus demo_started\<rparr>"

definition demo_connect :: connect_request where
  "demo_connect =
     \<lparr>cq_now = 100, cq_redis_up = False, cq_ip = Some ''10.0.0.1'', cq_authorization = None,
      cq_token = Some (CHR ''u'' # replicate 21 (CHR ''s'')), cq_organization_id = Some 10, cq_resume = None\<rparr>"


definition demo_stream :: sse_stream where
  "demo_stream = \<lparr>sw_connection = 0, sw_chunks = [], sw_generator = True, sw_open = True\<rparr>"

theorem idle_stream_closes_witness:
  "\<exists>t1 t2 m3. sse_turn (demo_stream, rw_manager demo_published) = (t1, rw_manager demo_published) \<and> sw_open t1
    \<and> sse_turn (t1, rw_manager demo_dispatched) = (t2, m3) \<and> \<not> sw_open t2
    \<and> sw_chunks t2 = sw_chunks demo_stream @ [Ch_heartbeat] \<and> mg_connections m3 (sw_connection demo_stream) = None"
proof (rule idle_stream_closes)
  let ?c = "mg_connections (rw_manager demo_published) (sw_connection demo_stream)"
  show "?c = Some (the ?c)" and "wc_queue (the ?c) = []" by (simp_all add: demo_worlds demo_stream_def)
qed (simp_all add: demo_stream_def)

definition demo_pump :: "nat list \<Rightarrow> manager \<times> bus_event bus \<Rightarrow> manager \<times> bus_event bus" where
  "demo_pump ids s = pump demo_rt (length ids) (fst s, publish_run demo_rt (map (\<lambda>i. (5, demo_event i)) ids) (snd s))"

definition demo_joined :: "manager \<times> bus_event bus" where
  "demo_joined =
     (let s = demo_pump [1, 2] (rw_manager demo_started, rw_bus demo_started)
      in (snd (register_connection SSE demo_principal 1 (fst s)), snd s))"

theorem resumed_stream_complete_witness:
  "replay_since demo_rt 6 True 10 (Some 1) (snd (demo_pump [3] demo_joined)) = [demo_event 2, demo_event 3]
    \<and> (\<exists>info. mg_connections (fst (demo_pump [4] (demo_pump [3] demo_joined))) 0 = Some info
         \<and> wc_queue info = [demo_event 3, demo_event 4])"
proof -
  let ?s1 = "demo_pump [1, 2] (rw_manager demo_started, rw_bus demo_started)"
  let ?j = "register_connection SSE demo_principal 1 (fst ?s1)"
  have i: "fst ?j = 0"
    using publish_and_pump [OF demo_codec, of "map (\<lambda>i. (5, demo_event i)) [1, 2]" 10 "rw_manager demo_started" "rw_bus demo_started"]
    by (simp add: register_connection_def Let_def demo_pump_def demo_worlds dispatch_def)
  have j: "demo_joined = (snd ?j, snd ?s1)" by (simp add: demo_joined_def Let_def)
  have reg: "registry_ok (rw_manager demo_started)"
    using world_ok_reach [OF wr_step [OF wr_refl ws_start [OF surjective_pairing]] demo_codec world_ok_init]
    by (simp add: demo_started_def world_ok_def Let_def)
  have id: "bv_event_id (demo_event k) = k" "bv_organization_id (demo_event k) = 10" for k by (simp_all add: demo_event_def)
  have st: "mg_loop (rw_manager demo_started)" "bu_subscribed (rw_bus demo_started)" "bu_channel (rw_bus demo_started) = []"
    "bu_lists (rw_bus demo_started) (replay_key demo_rt 10) = None"
    by (simp_all add: demo_started_def Let_def start_loop_def world_init_def manager_init_def)
  have "replay_since demo_rt 6 True 10 (Some (bv_event_id (demo_event 1))) (snd (demo_pump [3] demo_joined))
        = map snd ([(5 :: secs, demo_event 2)] @ [(5, demo_event 3)])
    \<and> (\<exists>info. mg_connections (fst (demo_pump [4] (demo_pump [3] demo_joined))) (fst ?j) = Some info
         \<and> wc_queue info = map snd ([(5 :: secs, demo_event 3)] @ [(5, demo_event 4)]))"
    by (rule resumed_stream_complete [OF demo_codec reg st, where known = "[]" and ?t1.0 = 5 and ?t0.0 = 5
          and p = demo_principal and ?m1.0 = "fst ?s1" and ?b1.0 = "snd ?s1" and n = 1 and ?m2.0 = "snd ?j"
          and ?m3.0 = "fst (demo_pump [3] demo_joined)" and ?b3.0 = "snd (demo_pump [3] demo_joined)"
          and ?b4.0 = "snd (demo_pump [4] (demo_pump [3] demo_joined))"])
      (simp_all add: id demo_pump_def j demo_principal_def)
  then show ?thesis unfolding i by simp
qed

end
