(* ===== verification/Alert_Rules.thy ===== *)
theory Alert_Rules
  imports Alerts Decimals
begin

text \<open>
  What decides whether an alert is raised and shown: \<open>alerts/conditions.py\<close> (comparisons and the
  AND/OR/NOT tree), \<open>alerts/rule_engine.py\<close>, \<open>alerts/preferences.py\<close>, and the rule, preference and
  suppression handlers of \<open>api/v1/alerts.py\<close>. A number is the rational that \<open>Decimal(str(x))\<close>
  denotes; parsing the text of a decimal is the parameter \<open>parse\<close> of the rule handlers.
\<close>

section \<open>Conditions\<close>

datatype alert_operator = OP_GT | OP_LT | OP_EQ | OP_GTE | OP_LTE

fun compare :: "alert_operator \<Rightarrow> rat \<Rightarrow> rat \<Rightarrow> bool" where
  "compare OP_GT a b = (b < a)"
| "compare OP_LT a b = (a < b)"
| "compare OP_EQ a b = (a = b)"
| "compare OP_GTE a b = (b \<le> a)"
| "compare OP_LTE a b = (a \<le> b)"

definition percent_increase :: "rat \<Rightarrow> rat \<Rightarrow> rat" where
  "percent_increase prev cur =
     (if prev = 0 then 0 else dec_mult (dec_div (dec_add cur (- prev)) prev) 100)"

definition rolling_average :: "rat list \<Rightarrow> rat" where
  "rolling_average vs = (if vs = [] then 0 else dec_div (foldl dec_add 0 vs) (of_nat (length vs)))"

datatype logical_operator = L_AND | L_OR | L_NOT

datatype condition =
    Leaf string alert_operator rat
  | Composite logical_operator "condition list"

datatype condition_error = MissingField string | NotArity

type_synonym cond_context = "string \<Rightarrow> rat option"

fun evaluate :: "condition \<Rightarrow> cond_context \<Rightarrow> condition_error + bool"
  and all_children :: "condition list \<Rightarrow> cond_context \<Rightarrow> condition_error + bool"
  and any_child :: "condition list \<Rightarrow> cond_context \<Rightarrow> condition_error + bool" where
  "evaluate (Leaf field oper threshold) ctx =
     (case ctx field of None \<Rightarrow> Inl (MissingField field) | Some v \<Rightarrow> Inr (compare oper v threshold))"
| "evaluate (Composite L_NOT cs) ctx =
     (case cs of [c] \<Rightarrow> and_then (evaluate c ctx) (\<lambda>b. Inr (\<not> b)) | _ \<Rightarrow> Inl NotArity)"
| "evaluate (Composite L_AND cs) ctx = all_children cs ctx"
| "evaluate (Composite L_OR cs) ctx = any_child cs ctx"
| "all_children [] ctx = Inr True"
| "all_children (c # cs) ctx = and_then (evaluate c ctx) (\<lambda>b. if b then all_children cs ctx else Inr False)"
| "any_child [] ctx = Inr False"
| "any_child (c # cs) ctx = and_then (evaluate c ctx) (\<lambda>b. if b then Inr True else any_child cs ctx)"

text \<open>The fields a tree reads and its reading as a Boolean formula, the reference for \<open>evaluate\<close>.\<close>

fun cond_fields :: "condition \<Rightarrow> string set" where
  "cond_fields (Leaf f oper t) = {f}"
| "cond_fields (Composite l cs) = (\<Union>c \<in> set cs. cond_fields c)"

fun cond_ok :: "condition \<Rightarrow> bool" where
  "cond_ok (Leaf f oper t) = True"
| "cond_ok (Composite l cs) = ((l = L_NOT \<longrightarrow> length cs = 1) \<and> (\<forall>c \<in> set cs. cond_ok c))"

fun holds :: "condition \<Rightarrow> (string \<Rightarrow> rat) \<Rightarrow> bool" where
  "holds (Leaf f oper t) v = compare oper (v f) t"
| "holds (Composite L_NOT cs) v = (\<not> (\<exists>c \<in> set cs. holds c v))"
| "holds (Composite L_AND cs) v = (\<forall>c \<in> set cs. holds c v)"
| "holds (Composite L_OR cs) v = (\<exists>c \<in> set cs. holds c v)"

lemma evaluate_holds:
  "cond_ok c \<Longrightarrow> \<forall>f \<in> cond_fields c. ctx f = Some (v f) \<Longrightarrow> evaluate c ctx = Inr (holds c v)"
  "\<forall>c \<in> set cs. cond_ok c \<Longrightarrow> \<forall>c \<in> set cs. \<forall>f \<in> cond_fields c. ctx f = Some (v f) \<Longrightarrow>
     all_children cs ctx = Inr (\<forall>c \<in> set cs. holds c v)"
  "\<forall>c \<in> set cs. cond_ok c \<Longrightarrow> \<forall>c \<in> set cs. \<forall>f \<in> cond_fields c. ctx f = Some (v f) \<Longrightarrow>
     any_child cs ctx = Inr (\<exists>c \<in> set cs. holds c v)"
proof (induction c ctx and cs ctx and cs ctx rule: evaluate_all_children_any_child.induct)
  case (2 cs ctx)
  then obtain c where c: "cs = [c]" by (cases cs) auto
  with 2 show ?case by simp
qed simp_all

lemma evaluate_errors:
  "evaluate c ctx = Inl (MissingField f) \<Longrightarrow> f \<in> cond_fields c \<and> ctx f = None"
  "all_children cs ctx = Inl (MissingField f) \<Longrightarrow> \<exists>c \<in> set cs. f \<in> cond_fields c \<and> ctx f = None"
  "any_child cs ctx = Inl (MissingField f) \<Longrightarrow> \<exists>c \<in> set cs. f \<in> cond_fields c \<and> ctx f = None"
proof (induction c ctx and cs ctx and cs ctx rule: evaluate_all_children_any_child.induct)
  case (2 cs ctx)
  then show ?case by (auto simp: and_then_Inl_iff split: list.splits)
qed (auto simp: and_then_Inl_iff split: option.splits if_splits)

section \<open>Rules\<close>

record alert_rule = base_row +
  ar_organization_id :: ident
  ar_type :: alert_type
  ar_name :: string
  ar_severity :: alert_severity
  ar_operator :: alert_operator
  ar_threshold :: rat
  ar_enabled :: bool
  ar_created_by :: "ident option"

definition list_enabled_for_type :: "ident \<Rightarrow> alert_type \<Rightarrow> alert_rule list \<Rightarrow> alert_rule list" where
  "list_enabled_for_type org t rows =
     filter (\<lambda>r. ar_organization_id r = org \<and> ar_type r = t \<and> ar_enabled r) (active_query rows)"

definition rules_for_org :: "ident \<Rightarrow> alert_rule list \<Rightarrow> alert_rule list" where
  "rules_for_org org rows = order_desc row_created_at (filter (\<lambda>r. ar_organization_id r = org) (active_query rows))"

fun match_rules :: "rat \<Rightarrow> alert_rule list \<Rightarrow> alert_rule list" where
  "match_rules v [] = []"
| "match_rules v (r # rs) =
     (if compare (ar_operator r) v (ar_threshold r) then r # match_rules v rs else match_rules v rs)"

definition evaluate_type :: "ident \<Rightarrow> alert_type \<Rightarrow> rat \<Rightarrow> alert_rule list \<Rightarrow> alert_rule list" where
  "evaluate_type org t v rows = match_rules v (list_enabled_for_type org t rows)"

section \<open>Enumerations in requests\<close>

definition alert_types :: "alert_type list" where
  "alert_types = [BUDGET_THRESHOLD, BUDGET_EXCEEDED, DAILY_SPEND_SPIKE, HOURLY_SPEND_SPIKE, PROVIDER_ERROR,
     PROVIDER_RECOVERY, SDK_OFFLINE, SDK_RECONNECTED, API_KEY_CREATED, API_KEY_REVOKED, API_KEY_EXPIRED,
     ORG_MEMBER_ADDED, ORG_MEMBER_REMOVED, HIGH_LATENCY, RATE_LIMIT_SPIKE, LARGE_COST_INCREASE,
     USAGE_INGESTION_FAILURE, WEBHOOK_DELIVERY_FAILURE]"

definition severities :: "(string \<times> alert_severity) list" where
  "severities = [(''info'', INFO), (''low'', LOW), (''medium'', MEDIUM), (''high'', HIGH), (''critical'', CRITICAL)]"

definition operators :: "(string \<times> alert_operator) list" where
  "operators = [(''gt'', OP_GT), (''lt'', OP_LT), (''eq'', OP_EQ), (''gte'', OP_GTE), (''lte'', OP_LTE)]"

definition scopes :: "(string \<times> suppression_scope) list" where
  "scopes = [(''organization'', Scope_organization), (''provider'', Scope_provider), (''alert_type'', Scope_alert_type)]"

definition parse_enum :: "(string \<times> 'e) list \<Rightarrow> string \<Rightarrow> alert_http + 'e" where
  "parse_enum members v = (case map_of members v of None \<Rightarrow> Inl Alert_invalid | Some e \<Rightarrow> Inr e)"

definition parse_alert_type :: "string \<Rightarrow> alert_http + alert_type" where
  "parse_alert_type v = parse_enum (map (\<lambda>t. (alert_type_value t, t)) alert_types) v"

lemma alert_types_complete: "t \<in> set alert_types"
  by (cases t) (simp_all add: alert_types_def)

lemma alert_type_value_inj: "alert_type_value a = alert_type_value b \<Longrightarrow> a = b"
  by (cases a; cases b) simp_all

lemma parse_alert_type_value: "parse_alert_type (alert_type_value t) = Inr t"
  by (cases t) (simp_all add: parse_alert_type_def parse_enum_def alert_types_def)

section \<open>Rule and suppression handlers\<close>

definition get_org_rule :: "ident \<Rightarrow> ident \<Rightarrow> alert_rule list \<Rightarrow> alert_http + alert_rule" where
  "get_org_rule org i rows =
     (case repo_get i rows of
        Inl e \<Rightarrow> Inl (Alert_repo e)
      | Inr None \<Rightarrow> Inl Alert_not_found
      | Inr (Some r) \<Rightarrow> if ar_organization_id r \<noteq> org then Inl Alert_not_found else Inr r)"

record rule_body =
  rb_alert_type :: string
  rb_name :: string
  rb_severity :: string
  rb_operator :: string
  rb_threshold :: string
  rb_enabled :: bool

definition create_rule ::
  "(string \<Rightarrow> rat option) \<Rightarrow> micros \<Rightarrow> ident \<Rightarrow> ident \<Rightarrow> ident \<Rightarrow> rule_body \<Rightarrow> alert_rule list \<Rightarrow> alert_http + alert_rule list" where
  "create_rule parse now i org user body rows =
     and_then (parse_alert_type (rb_alert_type body)) (\<lambda>t.
     and_then (parse_enum severities (rb_severity body)) (\<lambda>sev.
     and_then (parse_enum operators (rb_operator body)) (\<lambda>oper.
     case parse (rb_threshold body) of
       None \<Rightarrow> Inl Alert_invalid
     | Some threshold \<Rightarrow>
         (case repo_create
            \<lparr>row_id = i, row_created_at = now, row_updated_at = now, row_deleted_at = None, row_deleted_by = None,
             ar_organization_id = org, ar_type = t, ar_name = rb_name body, ar_severity = sev, ar_operator = oper,
             ar_threshold = threshold, ar_enabled = rb_enabled body, ar_created_by = Some user\<rparr> rows of
            Inl e \<Rightarrow> Inl (Alert_repo e) | Inr rows' \<Rightarrow> Inr rows'))))"

record rule_patch =
  rp_name :: "string option"
  rp_severity :: "string option"
  rp_operator :: "string option"
  rp_threshold :: "string option"
  rp_enabled :: "bool option"

definition opt_parse :: "'a option \<Rightarrow> ('a \<Rightarrow> 'e + 'b) \<Rightarrow> 'e + 'b option" where
  "opt_parse x f = (case x of None \<Rightarrow> Inr None | Some v \<Rightarrow> and_then (f v) (\<lambda>y. Inr (Some y)))"

definition set_if :: "'a option \<Rightarrow> ('a \<Rightarrow> 'r \<Rightarrow> 'r) \<Rightarrow> 'r \<Rightarrow> 'r" where
  "set_if x f r = (case x of None \<Rightarrow> r | Some v \<Rightarrow> f v r)"

definition update_rule ::
  "(string \<Rightarrow> rat option) \<Rightarrow> micros \<Rightarrow> ident \<Rightarrow> ident \<Rightarrow> rule_patch \<Rightarrow> alert_rule list \<Rightarrow> alert_http + alert_rule list" where
  "update_rule parse now org i body rows =
     and_then (get_org_rule org i rows) (\<lambda>r.
     and_then (opt_parse (rp_severity body) (parse_enum severities)) (\<lambda>sev.
     and_then (opt_parse (rp_operator body) (parse_enum operators)) (\<lambda>oper.
     and_then (opt_parse (rp_threshold body) (\<lambda>t. case parse t of None \<Rightarrow> Inl Alert_invalid | Some v \<Rightarrow> Inr v)) (\<lambda>thr.
       if rp_name body = None \<and> sev = None \<and> oper = None \<and> thr = None \<and> rp_enabled body = None then Inr rows
       else Inr (repo_update now i
              (set_if (rp_name body) (\<lambda>v r. r\<lparr>ar_name := v\<rparr>)
               \<circ> set_if sev (\<lambda>v r. r\<lparr>ar_severity := v\<rparr>)
               \<circ> set_if oper (\<lambda>v r. r\<lparr>ar_operator := v\<rparr>)
               \<circ> set_if thr (\<lambda>v r. r\<lparr>ar_threshold := v\<rparr>)
               \<circ> set_if (rp_enabled body) (\<lambda>v r. r\<lparr>ar_enabled := v\<rparr>)) rows)))))"

definition delete_rule :: "micros \<Rightarrow> ident \<Rightarrow> ident \<Rightarrow> alert_rule list \<Rightarrow> alert_http + alert_rule list" where
  "delete_rule now org i rows =
     and_then (get_org_rule org i rows) (\<lambda>r. Inr (repo_soft_delete now None i rows))"

definition create_suppression ::
  "micros \<Rightarrow> ident \<Rightarrow> ident \<Rightarrow> string \<Rightarrow> string option \<Rightarrow> micros option \<Rightarrow> micros option
   \<Rightarrow> alert_suppression list \<Rightarrow> alert_http + alert_suppression list" where
  "create_suppression now i org scope target starts ends rows =
     and_then (parse_enum scopes scope) (\<lambda>sc.
     and_then (case target of
                 Some t \<Rightarrow> if sc = Scope_alert_type then and_then (parse_alert_type t) (\<lambda>_. Inr ()) else Inr ()
               | None \<Rightarrow> Inr ()) (\<lambda>_.
     case repo_create
        \<lparr>row_id = i, row_created_at = now, row_updated_at = now, row_deleted_at = None, row_deleted_by = None,
         sp_organization_id = org, sp_scope = sc, sp_target = target,
         sp_starts_at = (case starts of None \<Rightarrow> now | Some t \<Rightarrow> t), sp_ends_at = ends\<rparr> rows of
       Inl e \<Rightarrow> Inl (Alert_repo e) | Inr rows' \<Rightarrow> Inr rows'))"

definition delete_suppression ::
  "micros \<Rightarrow> ident \<Rightarrow> ident \<Rightarrow> alert_suppression list \<Rightarrow> alert_http + alert_suppression list" where
  "delete_suppression now org i rows =
     (case repo_get i rows of
        Inl e \<Rightarrow> Inl (Alert_repo e)
      | Inr None \<Rightarrow> Inl Alert_not_found
      | Inr (Some s) \<Rightarrow>
          if sp_organization_id s \<noteq> org then Inl Alert_not_found else Inr (repo_soft_delete now None i rows))"

section \<open>Preferences\<close>

record alert_preference = base_row +
  pf_organization_id :: ident
  pf_user_id :: ident
  pf_enabled_types :: "string list"
  pf_min_severity :: alert_severity
  pf_quiet_start :: "int option"
  pf_quiet_end :: "int option"
  pf_timezone :: string
  pf_daily_digest :: bool
  pf_immediate :: bool
  pf_max_notifications :: "int option"

definition pref_for_user :: "ident \<Rightarrow> ident \<Rightarrow> alert_preference list \<Rightarrow> repo_error + alert_preference option" where
  "pref_for_user org user rows =
     scalar_one_or_none (filter (\<lambda>p. pf_organization_id p = org \<and> pf_user_id p = user) (active_query rows))"

definition default_pref :: "micros \<Rightarrow> ident \<Rightarrow> ident \<Rightarrow> ident \<Rightarrow> alert_preference" where
  "default_pref now i org user =
     \<lparr>row_id = i, row_created_at = now, row_updated_at = now, row_deleted_at = None, row_deleted_by = None,
      pf_organization_id = org, pf_user_id = user, pf_enabled_types = [], pf_min_severity = INFO,
      pf_quiet_start = None, pf_quiet_end = None, pf_timezone = ''UTC'', pf_daily_digest = False,
      pf_immediate = True, pf_max_notifications = None\<rparr>"

definition get_or_default :: "micros \<Rightarrow> ident \<Rightarrow> ident \<Rightarrow> ident \<Rightarrow> alert_preference list \<Rightarrow> repo_error + alert_preference" where
  "get_or_default now i org user rows =
     and_then (pref_for_user org user rows) (\<lambda>p.
       Inr (case p of Some x \<Rightarrow> x | None \<Rightarrow> default_pref now i org user))"

text \<open>\<open>now\<close> is a UTC time; the stored time zone is not consulted.\<close>

definition minute_of_day :: "micros \<Rightarrow> int" where
  "minute_of_day now = now div 60000000 mod 1440"

lemma minute_of_day_range: "0 \<le> minute_of_day now \<and> minute_of_day now < 1440"
  by (simp add: minute_of_day_def)

definition is_within_quiet_hours :: "alert_preference \<Rightarrow> micros \<Rightarrow> bool" where
  "is_within_quiet_hours p now =
     (case (pf_quiet_start p, pf_quiet_end p) of
        (Some s, Some e) \<Rightarrow>
          let m = minute_of_day now
          in if s \<le> e then s \<le> m \<and> m < e else s \<le> m \<or> m < e
      | _ \<Rightarrow> False)"

definition should_surface :: "alert_preference \<Rightarrow> alert \<Rightarrow> bool" where
  "should_surface p a =
     (if severity_rank (al_severity a) < severity_rank (pf_min_severity p) then False
      else if pf_enabled_types p \<noteq> [] \<and> alert_type_value (al_type a) \<notin> set (pf_enabled_types p) then False
      else True)"

datatype pref_error = Pref_invalid | Pref_value_error | Pref_repo repo_error

fun partition_colon :: "string \<Rightarrow> string \<times> string" where
  "partition_colon [] = ([], [])"
| "partition_colon (c # cs) =
     (if c = CHR '':'' then ([], cs) else (let (a, b) = partition_colon cs in (c # a, b)))"

definition minute_to_hhmm :: "nat option \<Rightarrow> string option" where
  "minute_to_hhmm m = map_option (\<lambda>m. two_digits (m div 60) @ '':'' @ two_digits (m mod 60)) m"

definition hhmm_to_minute :: "string \<Rightarrow> pref_error + int option" where
  "hhmm_to_minute v =
     (if v = [] then Inr None
      else let (h, m) = partition_colon v
           in case (py_int h, py_int m) of
                (Some h, Some m) \<Rightarrow>
                  if 0 \<le> h \<and> h < 24 \<and> 0 \<le> m \<and> m < 60 then Inr (Some (h * 60 + m)) else Inl Pref_value_error
              | _ \<Rightarrow> Inl Pref_value_error)"

record pref_patch =
  pp_types :: "string list option"
  pp_severity :: "string option"
  pp_start :: "string option"
  pp_end :: "string option"
  pp_timezone :: "string option"
  pp_daily :: "bool option"
  pp_immediate :: "bool option"
  pp_max :: "int option"

fun check_types :: "string list \<Rightarrow> pref_error + unit" where
  "check_types [] = Inr ()"
| "check_types (t # ts) = (case parse_alert_type t of Inl e \<Rightarrow> Inl Pref_invalid | Inr _ \<Rightarrow> check_types ts)"

definition update_preferences ::
  "micros \<Rightarrow> ident \<Rightarrow> ident \<Rightarrow> ident \<Rightarrow> pref_patch \<Rightarrow> alert_preference list \<Rightarrow> pref_error + alert_preference list" where
  "update_preferences now i org user body rows =
     (case pref_for_user org user rows of
        Inl e \<Rightarrow> Inl (Pref_repo e)
      | Inr existing \<Rightarrow>
          and_then (case pp_types body of None \<Rightarrow> Inr () | Some ts \<Rightarrow> check_types ts) (\<lambda>_.
          and_then (opt_parse (pp_severity body)
             (\<lambda>v. case parse_enum severities v of Inl e \<Rightarrow> Inl Pref_invalid | Inr x \<Rightarrow> Inr x)) (\<lambda>sev.
          and_then (opt_parse (pp_start body) hhmm_to_minute) (\<lambda>qs.
          and_then (opt_parse (pp_end body) hhmm_to_minute) (\<lambda>qe.
            let f = set_if (pp_types body) (\<lambda>v r. r\<lparr>pf_enabled_types := v\<rparr>)
                  \<circ> set_if sev (\<lambda>v r. r\<lparr>pf_min_severity := v\<rparr>)
                  \<circ> set_if qs (\<lambda>v r. r\<lparr>pf_quiet_start := v\<rparr>)
                  \<circ> set_if qe (\<lambda>v r. r\<lparr>pf_quiet_end := v\<rparr>)
                  \<circ> set_if (pp_timezone body) (\<lambda>v r. r\<lparr>pf_timezone := v\<rparr>)
                  \<circ> set_if (pp_daily body) (\<lambda>v r. r\<lparr>pf_daily_digest := v\<rparr>)
                  \<circ> set_if (pp_immediate body) (\<lambda>v r. r\<lparr>pf_immediate := v\<rparr>)
                  \<circ> set_if (pp_max body) (\<lambda>v r. r\<lparr>pf_max_notifications := Some v\<rparr>)
            in case existing of
                 None \<Rightarrow> (case repo_create (f (default_pref now i org user)) rows of
                            Inl e \<Rightarrow> Inl (Pref_repo e) | Inr rows' \<Rightarrow> Inr rows')
               | Some p \<Rightarrow> Inr (repo_update now (row_id p) f rows))))))"

section \<open>Properties\<close>

text \<open>Quiet hours are the minutes from the start up to the end on the 24-hour dial.\<close>

lemma dial_distance:
  assumes "0 \<le> s" "s < 1440" "0 \<le> m" "m < (1440 :: int)"
  shows "(m - s) mod 1440 = (if s \<le> m then m - s else m - s + 1440)"
proof (cases "s \<le> m")
  case True
  with assms show ?thesis by (simp add: mod_pos_pos_trivial)
next
  case False
  have "(m - s) mod 1440 = (m - s + 1440) mod 1440" by simp
  also have "\<dots> = m - s + 1440" using False assms by (intro mod_pos_pos_trivial) auto
  finally show ?thesis using False by simp
qed

lemma quiet_dial:
  assumes "0 \<le> s" "s < 1440" "0 \<le> e" "e < 1440" "0 \<le> m" "m < (1440 :: int)"
  shows "(if s \<le> e then s \<le> m \<and> m < e else s \<le> m \<or> m < e) \<longleftrightarrow> (m - s) mod 1440 < (e - s) mod 1440"
  using assms by (simp add: dial_distance)

lemma partition_colon_digits:
  "list_all is_digit h \<Longrightarrow> partition_colon (h @ CHR '':'' # m) = (h, m)"
proof (induction h)
  case (Cons c h)
  then have "c \<noteq> CHR '':''" by (auto simp: is_digit_def)
  with Cons show ?case by simp
qed simp

lemma two_digits_digits: "n < 100 \<Longrightarrow> list_all is_digit (two_digits n) \<and> two_digits n \<noteq> []"
  by (auto simp: two_digits_def show_nat.simps [of n] show_nat.simps [of "n div 10"] is_digit_def of_digit_char)

lemma hhmm_roundtrip:
  assumes "m < 1440"
  shows "hhmm_to_minute (the (minute_to_hhmm (Some m))) = Inr (Some (int m))"
proof -
  have h: "m div 60 < 24" and k: "m mod 60 < 60" using assms by auto
  have p: "partition_colon (two_digits (m div 60) @ CHR '':'' # two_digits (m mod 60))
      = (two_digits (m div 60), two_digits (m mod 60))"
    using two_digits_digits [of "m div 60"] h by (intro partition_colon_digits) auto
  have i: "py_int (two_digits (m div 60)) = Some (int (m div 60))" "py_int (two_digits (m mod 60)) = Some (int (m mod 60))"
    using h k by (simp_all add: py_int_two_digits)
  have "int (m div 60) * 60 + int (m mod 60) = int m"
    by (metis div_mult_mod_eq of_nat_add of_nat_mult of_nat_numeral)
  with h show ?thesis
    using i by (simp add: hhmm_to_minute_def minute_to_hhmm_def p zdiv_int [symmetric] zmod_int [symmetric])
qed

text \<open>A quiet-hours window entered as two wall-clock times is kept as written, and is in force
  exactly on the arc of the 24-hour dial from its start to its end, windows across midnight included.\<close>

theorem quiet_hours_dial:
  assumes "a < 1440" and "b < 1440"
    and "hhmm_to_minute (the (minute_to_hhmm (Some a))) = Inr (pf_quiet_start p)"
    and "hhmm_to_minute (the (minute_to_hhmm (Some b))) = Inr (pf_quiet_end p)"
  shows "is_within_quiet_hours p now \<longleftrightarrow> (minute_of_day now - int a) mod 1440 < (int b - int a) mod 1440"
proof -
  have "pf_quiet_start p = Some (int a)" "pf_quiet_end p = Some (int b)"
    using assms hhmm_roundtrip [OF assms(1)] hhmm_roundtrip [OF assms(2)] by simp_all
  then show ?thesis
    using quiet_dial [of "int a" "int b" "minute_of_day now"] assms(1,2) minute_of_day_range [of now]
    by (simp only: is_within_quiet_hours_def prod.case option.case Let_def)
qed

theorem quiet_hours_dial_witness:
  "is_within_quiet_hours ((default_pref 0 1 1 1)\<lparr>pf_quiet_start := Some 1320, pf_quiet_end := Some 420\<rparr>) 3600000000
     \<longleftrightarrow> (minute_of_day 3600000000 - int 1320) mod 1440 < (int 420 - int 1320) mod 1440"
  by (rule quiet_hours_dial) (use hhmm_roundtrip [of 1320] hhmm_roundtrip [of 420] in simp_all)

text \<open>On a context that has the fields of a well-formed condition tree, \<open>evaluate\<close> returns its Boolean
  reading; it reports a missing field only if the tree reads that field and the context lacks it.\<close>

theorem condition_evaluation:
  assumes "cond_ok c"
  shows "((\<forall>f \<in> cond_fields c. ctx f = Some (v f)) \<longrightarrow> evaluate c ctx = Inr (holds c v))
    \<and> (evaluate c ctx = Inl (MissingField f) \<longrightarrow> f \<in> cond_fields c \<and> ctx f = None)"
  using evaluate_holds(1) [OF assms] evaluate_errors(1) by blast

theorem condition_evaluation_witness:
  "evaluate (Composite L_AND [Leaf ''cost'' OP_GT 10, Composite L_NOT [Leaf ''n'' OP_LTE 3]])
      [''cost'' \<mapsto> 12, ''n'' \<mapsto> 5] = Inr True"
  using condition_evaluation [of "Composite L_AND [Leaf ''cost'' OP_GT 10, Composite L_NOT [Leaf ''n'' OP_LTE 3]]"
      "[''cost'' \<mapsto> 12, ''n'' \<mapsto> 5]" "\<lambda>f. if f = ''cost'' then 12 else 5"] by simp

end
