(* ===== verification/Scheduler.thy ===== *)
theory Scheduler
  imports Connections
begin

text \<open>
  The background scheduler of \<open>services/usage_sync_scheduler.py\<close>: the settings of an organization, the
  dispatch of due organizations with its two guards (the set of running organizations of the process and the
  Redis lock with an expiry), the execution of a job, and the views for monitoring. Several processes share one
  Redis: a fleet steps by dispatches, starts and ends of jobs, in any order. Redis and the result of the
  synchronisation are inputs of a step; job identifiers are drawn by the caller.
\<close>

section \<open>Settings\<close>

text \<open>A value of the JSON settings; \<open>Py_container\<close> is a list or a dictionary, empty or not.\<close>

datatype py_value = Py_none | Py_bool bool | Py_int int | Py_float rat | Py_str string | Py_container bool

type_synonym sync_settings = "(string \<times> py_value) list"

definition DEFAULT_INTERVAL_SECONDS :: int where "DEFAULT_INTERVAL_SECONDS = 3600"
definition MIN_INTERVAL_SECONDS :: int where "MIN_INTERVAL_SECONDS = 300"
definition MAX_INTERVAL_SECONDS :: int where "MAX_INTERVAL_SECONDS = 86400"

definition INTERVAL_PRESETS :: "(string \<times> int) list" where
  "INTERVAL_PRESETS = [(''5m'', 300), (''15m'', 900), (''1h'', 3600), (''6h'', 21600), (''24h'', 86400)]"

text \<open>\<open>int(raw)\<close>; \<open>None\<close> is the \<open>TypeError\<close> or \<open>ValueError\<close>.\<close>

fun py_to_int :: "py_value \<Rightarrow> int option" where
  "py_to_int Py_none = None"
| "py_to_int (Py_bool b) = Some (if b then 1 else 0)"
| "py_to_int (Py_int n) = Some n"
| "py_to_int (Py_float x) = Some (if 0 \<le> x then \<lfloor>x\<rfloor> else \<lceil>x\<rceil>)"
| "py_to_int (Py_str s) = py_int s"
| "py_to_int (Py_container _) = None"

fun py_truthy :: "py_value \<Rightarrow> bool" where
  "py_truthy Py_none = False"
| "py_truthy (Py_bool b) = b"
| "py_truthy (Py_int n) = (n \<noteq> 0)"
| "py_truthy (Py_float x) = (x \<noteq> 0)"
| "py_truthy (Py_str s) = (s \<noteq> [])"
| "py_truthy (Py_container nonempty) = nonempty"

definition interval_seconds_for :: "sync_settings \<Rightarrow> int" where
  "interval_seconds_for st =
     (let raw = (case map_of st ''interval_seconds'' of None \<Rightarrow> Py_int DEFAULT_INTERVAL_SECONDS | Some v \<Rightarrow> v)
      in case py_to_int raw of
           None \<Rightarrow> DEFAULT_INTERVAL_SECONDS
         | Some v \<Rightarrow> max MIN_INTERVAL_SECONDS (min MAX_INTERVAL_SECONDS v))"

definition auto_sync_enabled_for :: "sync_settings \<Rightarrow> bool" where
  "auto_sync_enabled_for st = (case map_of st ''auto_sync_enabled'' of None \<Rightarrow> False | Some v \<Rightarrow> py_truthy v)"

text \<open>The first preset at the least distance.\<close>

fun nearest_preset :: "int \<Rightarrow> (string \<times> int) \<Rightarrow> (string \<times> int) list \<Rightarrow> string" where
  "nearest_preset n best [] = fst best"
| "nearest_preset n best (p # ps) =
     nearest_preset n (if \<bar>snd p - n\<bar> < \<bar>snd best - n\<bar> then p else best) ps"

definition interval_label_for :: "int \<Rightarrow> string" where
  "interval_label_for n =
     (case List.find (\<lambda>p. snd p = n) INTERVAL_PRESETS of
        Some p \<Rightarrow> fst p
      | None \<Rightarrow> nearest_preset n (hd INTERVAL_PRESETS) (tl INTERVAL_PRESETS))"

lemma interval_clamped: "300 \<le> interval_seconds_for st \<and> interval_seconds_for st \<le> 86400"
  by (auto simp: interval_seconds_for_def DEFAULT_INTERVAL_SECONDS_def MIN_INTERVAL_SECONDS_def MAX_INTERVAL_SECONDS_def
      Let_def split: option.splits)

section \<open>Jobs of a process\<close>

datatype job_status = J_QUEUED | J_RUNNING | J_COMPLETED | J_FAILED

record job =
  jb_id :: ident
  jb_organization_id :: ident
  jb_status :: job_status
  jb_queued_at :: micros
  jb_started_at :: "micros option"
  jb_completed_at :: "micros option"
  jb_connections_synced :: nat
  jb_connections_failed :: nat
  jb_records_imported :: nat
  jb_retry_count :: nat
  jb_failed :: bool

text \<open>
  A scheduler: the job history (a bounded deque, oldest first), the running organizations, the tasks in flight
  (the job objects their coroutines hold, shared with the history), and the tick count. \<open>sc_redis\<close> tells
  whether a Redis client is configured.
\<close>

record sched =
  sc_jobs :: "job list"
  sc_history_limit :: nat
  sc_running :: "ident list"
  sc_tasks :: "job list"
  sc_max_concurrent :: nat
  sc_ticks :: nat
  sc_redis :: bool

definition sched_init :: "nat \<Rightarrow> nat \<Rightarrow> bool \<Rightarrow> sched" where
  "sched_init max_concurrent history_limit redis =
     \<lparr>sc_jobs = [], sc_history_limit = history_limit, sc_running = [], sc_tasks = [],
      sc_max_concurrent = max_concurrent, sc_ticks = 0, sc_redis = redis\<rparr>"

definition failure_streak :: "ident \<Rightarrow> job list \<Rightarrow> nat" where
  "failure_streak org jobs =
     length (takeWhile (\<lambda>j. jb_status j = J_FAILED) (filter (\<lambda>j. jb_organization_id j = org) (rev jobs)))"

definition is_due :: "micros \<Rightarrow> ident \<Rightarrow> int \<Rightarrow> collection_run list \<Rightarrow> repo_error + bool \<times> micros" where
  "is_due now org interval runs =
     and_then (cn_latest_for_org org (Some T_SCHEDULED) None runs) (\<lambda>latest.
       case latest of
         None \<Rightarrow> Inr (True, now)
       | Some r \<Rightarrow>
           let anchor = (case cn_completed_at r of None \<Rightarrow> cn_started_at r | Some t \<Rightarrow> t);
               next_run = anchor + interval * 1000000
           in Inr (next_run \<le> now, next_run))"

section \<open>The Redis lock\<close>

type_synonym locks = "ident \<Rightarrow> micros option"

text \<open>\<open>SET key NX EX ttl\<close>: an expired key is no key. \<open>up\<close> tells whether Redis answers.\<close>

definition redis_set_nx :: "micros \<Rightarrow> ident \<Rightarrow> int \<Rightarrow> locks \<Rightarrow> bool \<times> locks" where
  "redis_set_nx now k ttl m =
     (case m k of
        Some e \<Rightarrow> if now < e then (False, m) else (True, m(k \<mapsto> now + ttl * 1000000))
      | None \<Rightarrow> (True, m(k \<mapsto> now + ttl * 1000000)))"

definition acquire_lock :: "bool \<Rightarrow> bool \<Rightarrow> micros \<Rightarrow> ident \<Rightarrow> int \<Rightarrow> locks \<Rightarrow> bool \<times> locks" where
  "acquire_lock configured up now org interval m =
     (if \<not> configured then (True, m)
      else let ttl = max 60 (min interval MAX_INTERVAL_SECONDS)
           in if up then redis_set_nx now org ttl m else (True, m))"

definition release_lock :: "bool \<Rightarrow> bool \<Rightarrow> ident \<Rightarrow> locks \<Rightarrow> locks" where
  "release_lock configured up org m = (if configured \<and> up then m(org := None) else m)"

section \<open>Dispatch\<close>

definition push_job :: "job \<Rightarrow> sched \<Rightarrow> sched" where
  "push_job j s = s\<lparr>sc_jobs := last_n (sc_history_limit s) (sc_jobs s @ [j])\<rparr>"

definition maybe_dispatch ::
  "bool \<Rightarrow> micros \<Rightarrow> ident \<Rightarrow> ident \<Rightarrow> sync_settings \<Rightarrow> collection_run list \<Rightarrow> sched \<Rightarrow> locks
   \<Rightarrow> repo_error + job option \<times> sched \<times> locks" where
  "maybe_dispatch up now i org settings runs s m =
     (if org \<in> set (sc_running s) then Inr (None, s, m)
      else let interval = interval_seconds_for settings
           in and_then (is_due now org interval runs) (\<lambda>(due, _).
                if \<not> due then Inr (None, s, m)
                else let (acquired, m1) = acquire_lock (sc_redis s) up now org interval m
                     in if \<not> acquired then Inr (None, s, m1)
                        else let j = \<lparr>jb_id = i, jb_organization_id = org, jb_status = J_QUEUED, jb_queued_at = now,
                                      jb_started_at = None, jb_completed_at = None, jb_connections_synced = 0,
                                      jb_connections_failed = 0, jb_records_imported = 0,
                                      jb_retry_count = failure_streak org (sc_jobs s), jb_failed = False\<rparr>;
                                 s1 = push_job j s
                             in Inr (Some j, s1\<lparr>sc_running := org # sc_running s1, sc_tasks := sc_tasks s1 @ [j]\<rparr>, m1)))"

text \<open>One tick over the snapshots of all pages; the first error ends it, as \<open>_run_loop\<close> logs it.\<close>

fun tick_orgs ::
  "bool \<Rightarrow> micros \<Rightarrow> collection_run list \<Rightarrow> (ident \<times> ident \<times> sync_settings) list \<Rightarrow> sched \<Rightarrow> locks
   \<Rightarrow> job list \<times> sched \<times> locks" where
  "tick_orgs up now runs [] s m = ([], s, m)"
| "tick_orgs up now runs ((i, org, st) # os) s m =
     (case maybe_dispatch up now i org st runs s m of
        Inl _ \<Rightarrow> ([], s, m)
      | Inr (j, s1, m1) \<Rightarrow>
          (let (js, s2, m2) = tick_orgs up now runs os s1 m1
           in ((case j of None \<Rightarrow> js | Some j \<Rightarrow> j # js), s2, m2)))"

definition tick ::
  "bool \<Rightarrow> micros \<Rightarrow> collection_run list \<Rightarrow> (ident \<times> ident \<times> sync_settings) list \<Rightarrow> sched \<Rightarrow> locks
   \<Rightarrow> job list \<times> sched \<times> locks" where
  "tick up now runs orgs s m = tick_orgs up now runs orgs (s\<lparr>sc_ticks := sc_ticks s + 1\<rparr>) m"

section \<open>Execution\<close>

text \<open>A change of a job object is seen in the history and by its task.\<close>

definition change_job :: "ident \<Rightarrow> (job \<Rightarrow> job) \<Rightarrow> sched \<Rightarrow> sched" where
  "change_job i f s =
     s\<lparr>sc_jobs := map (\<lambda>j. if jb_id j = i then f j else j) (sc_jobs s),
       sc_tasks := map (\<lambda>j. if jb_id j = i then f j else j) (sc_tasks s)\<rparr>"

text \<open>A queued job starts when the semaphore has room.\<close>

definition job_start :: "micros \<Rightarrow> ident \<Rightarrow> sched \<Rightarrow> sched" where
  "job_start now i s =
     (if length (filter (\<lambda>j. jb_status j = J_RUNNING) (sc_tasks s)) < sc_max_concurrent s
         \<and> (\<exists>j \<in> set (sc_tasks s). jb_id j = i \<and> jb_status j = J_QUEUED)
      then change_job i (\<lambda>j. j\<lparr>jb_status := J_RUNNING, jb_started_at := Some now\<rparr>) s else s)"

definition job_outcome :: "collection_run list option \<Rightarrow> job \<Rightarrow> job" where
  "job_outcome result j =
     (case result of
        None \<Rightarrow> j\<lparr>jb_status := J_FAILED, jb_failed := True\<rparr>
      | Some runs \<Rightarrow>
          (let failed = length (filter (\<lambda>r. cn_status r = R_FAILED) runs)
           in j\<lparr>jb_connections_synced := length (filter (\<lambda>r. cn_status r = R_COMPLETED) runs),
                jb_connections_failed := failed,
                jb_records_imported := sum_list (map cn_events_collected runs),
                jb_status := (if failed = 0 then J_COMPLETED else J_FAILED)\<rparr>))"

text \<open>The end of a running job: \<open>result\<close> is the runs of the committed synchronisation, or an exception.\<close>

definition job_end ::
  "bool \<Rightarrow> micros \<Rightarrow> ident \<Rightarrow> collection_run list option \<Rightarrow> sched \<Rightarrow> locks \<Rightarrow> sched \<times> locks" where
  "job_end up now i result s m =
     (case List.find (\<lambda>j. jb_id j = i \<and> jb_status j = J_RUNNING) (sc_tasks s) of
        None \<Rightarrow> (s, m)
      | Some j \<Rightarrow>
          (let s1 = change_job i (\<lambda>j. (job_outcome result j)\<lparr>jb_completed_at := Some now\<rparr>) s;
               org = jb_organization_id j
           in (s1\<lparr>sc_running := removeAll org (sc_running s1), sc_tasks := filter (\<lambda>j. jb_id j \<noteq> i) (sc_tasks s1)\<rparr>,
               release_lock (sc_redis s) up org m)))"

section \<open>Views\<close>

definition current_job_for :: "ident \<Rightarrow> sched \<Rightarrow> job option" where
  "current_job_for org s = List.find (\<lambda>j. jb_organization_id j = org) (rev (sc_jobs s))"

definition jobs_for :: "ident \<Rightarrow> nat \<Rightarrow> sched \<Rightarrow> job list" where
  "jobs_for org limit s = take limit (filter (\<lambda>j. jb_organization_id j = org) (rev (sc_jobs s)))"

record org_status =
  og_auto_sync_enabled :: bool
  og_interval_seconds :: int
  og_last_sync_at :: "micros option"
  og_last_sync_status :: "run_status option"
  og_next_sync_at :: "micros option"
  og_current_job :: "job option"

definition get_org_status ::
  "micros \<Rightarrow> ident \<Rightarrow> sync_settings \<Rightarrow> collection_run list \<Rightarrow> sched \<Rightarrow> repo_error + org_status" where
  "get_org_status now org st runs s =
     and_then (cn_latest_for_org org (Some T_SCHEDULED) None runs) (\<lambda>latest.
       let enabled = auto_sync_enabled_for st; interval = interval_seconds_for st
       in Inr \<lparr>og_auto_sync_enabled = enabled, og_interval_seconds = interval,
               og_last_sync_at = (case latest of None \<Rightarrow> None | Some r \<Rightarrow> cn_completed_at r),
               og_last_sync_status = map_option cn_status latest,
               og_next_sync_at =
                 (if \<not> enabled then None
                  else case latest of
                         None \<Rightarrow> Some now
                       | Some r \<Rightarrow> Some ((case cn_completed_at r of None \<Rightarrow> cn_started_at r | Some t \<Rightarrow> t)
                                        + interval * 1000000)),
               og_current_job = current_job_for org s\<rparr>)"

definition scheduler_health :: "org_status \<Rightarrow> bool \<Rightarrow> string" where
  "scheduler_health st running =
     (if \<not> og_auto_sync_enabled st then ''disabled''
      else if \<not> running then ''not_running''
      else if og_last_sync_status st = Some R_FAILED then ''degraded''
      else ''healthy'')"

record snapshot =
  sn_active :: nat
  sn_queued :: nat
  sn_completed :: nat
  sn_failed :: nat
  sn_last_execution :: "micros option"

definition monitoring_snapshot :: "sched \<Rightarrow> snapshot" where
  "monitoring_snapshot s =
     (let n = (\<lambda>st. length (filter (\<lambda>j. jb_status j = st) (sc_jobs s)));
          ends = List.map_filter jb_completed_at (sc_jobs s)
      in \<lparr>sn_active = n J_RUNNING, sn_queued = n J_QUEUED, sn_completed = n J_COMPLETED, sn_failed = n J_FAILED,
          sn_last_execution = (if ends = [] then None else Some (Max (set ends)))\<rparr>)"

section \<open>A fleet of processes\<close>

record fleet =
  fl_procs :: "nat \<Rightarrow> sched"
  fl_locks :: locks
  fl_next_id :: ident

definition fleet_init :: "sched \<Rightarrow> fleet" where
  "fleet_init s = \<lparr>fl_procs = (\<lambda>_. s), fl_locks = (\<lambda>_. None), fl_next_id = 0\<rparr>"

text \<open>Events name the process, whether Redis answers, and the time; a dispatch also the organization, its
  settings and the runs that are committed, an end the job and the result of its synchronisation.\<close>

datatype fleet_event =
    F_dispatch nat bool micros ident sync_settings "collection_run list"
  | F_start nat micros ident
  | F_end nat bool micros ident "collection_run list option"

fun fleet_step :: "fleet_event \<Rightarrow> fleet \<Rightarrow> fleet" where
  "fleet_step (F_dispatch p up now org st runs) f =
     (case maybe_dispatch up now (fl_next_id f) org st runs (fl_procs f p) (fl_locks f) of
        Inl _ \<Rightarrow> f
      | Inr (_, s, m) \<Rightarrow> \<lparr>fl_procs = (fl_procs f)(p := s), fl_locks = m, fl_next_id = fl_next_id f + 1\<rparr>)"
| "fleet_step (F_start p now i) f = f\<lparr>fl_procs := (fl_procs f)(p := job_start now i (fl_procs f p))\<rparr>"
| "fleet_step (F_end p up now i result) f =
     (let (s, m) = job_end up now i result (fl_procs f p) (fl_locks f)
      in f\<lparr>fl_procs := (fl_procs f)(p := s), fl_locks := m\<rparr>)"

definition fleet_run :: "fleet_event list \<Rightarrow> fleet \<Rightarrow> fleet" where
  "fleet_run evs f = fold fleet_step evs f"

text \<open>No dispatch happens while Redis is down, nor while a job of its organization is older than the least
  life of a lock, five minutes.\<close>

definition prompt_event :: "fleet_event \<Rightarrow> fleet \<Rightarrow> bool" where
  "prompt_event ev f =
     (case ev of
        F_dispatch _ up now org _ _ \<Rightarrow>
          up \<and> (\<forall>p. \<forall>j \<in> set (sc_tasks (fl_procs f p)). jb_organization_id j = org \<longrightarrow> now < jb_queued_at j + 300000000)
      | _ \<Rightarrow> True)"

fun prompt :: "fleet_event list \<Rightarrow> fleet \<Rightarrow> bool" where
  "prompt [] f = True"
| "prompt (ev # evs) f = (prompt_event ev f \<and> prompt evs (fleet_step ev f))"

definition fleet_inv :: "fleet \<Rightarrow> bool" where
  "fleet_inv f \<longleftrightarrow>
     (\<forall>p. sc_redis (fl_procs f p) \<and> distinct (map jb_id (sc_tasks (fl_procs f p)))
        \<and> (\<forall>j \<in> set (sc_tasks (fl_procs f p)). jb_id j < fl_next_id f
             \<and> (\<exists>e. fl_locks f (jb_organization_id j) = Some e \<and> jb_queued_at j + 300000000 \<le> e)))
   \<and> (\<forall>p q. \<forall>i \<in> set (sc_tasks (fl_procs f p)). \<forall>j \<in> set (sc_tasks (fl_procs f q)).
        jb_organization_id i = jb_organization_id j \<longrightarrow> p = q \<and> jb_id i = jb_id j)"

text \<open>A change of a job that keeps its identifier, organization and queue time keeps the invariant.\<close>

definition same_task :: "job \<Rightarrow> job \<Rightarrow> bool" where
  "same_task i j \<longleftrightarrow> jb_id i = jb_id j \<and> jb_organization_id i = jb_organization_id j \<and> jb_queued_at i = jb_queued_at j"

lemma fleet_invD:
  assumes "fleet_inv f"
  shows "sc_redis (fl_procs f p)" and "distinct (map jb_id (sc_tasks (fl_procs f p)))"
    and "j \<in> set (sc_tasks (fl_procs f p)) \<Longrightarrow> jb_id j < fl_next_id f"
    and "j \<in> set (sc_tasks (fl_procs f p)) \<Longrightarrow>
      \<exists>e. fl_locks f (jb_organization_id j) = Some e \<and> jb_queued_at j + 300000000 \<le> e"
    and "i \<in> set (sc_tasks (fl_procs f p)) \<Longrightarrow> j \<in> set (sc_tasks (fl_procs f q))
      \<Longrightarrow> jb_organization_id i = jb_organization_id j \<Longrightarrow> p = q \<and> jb_id i = jb_id j"
  using assms unfolding fleet_inv_def by blast+

lemma fleet_invI:
  assumes "\<And>p. sc_redis (fl_procs f p)" and "\<And>p. distinct (map jb_id (sc_tasks (fl_procs f p)))"
    and "\<And>p j. j \<in> set (sc_tasks (fl_procs f p)) \<Longrightarrow> jb_id j < fl_next_id f
      \<and> (\<exists>e. fl_locks f (jb_organization_id j) = Some e \<and> jb_queued_at j + 300000000 \<le> e)"
    and "\<And>p q i j. i \<in> set (sc_tasks (fl_procs f p)) \<Longrightarrow> j \<in> set (sc_tasks (fl_procs f q))
      \<Longrightarrow> jb_organization_id i = jb_organization_id j \<Longrightarrow> p = q \<and> jb_id i = jb_id j"
  shows "fleet_inv f"
  unfolding fleet_inv_def using assms by blast

lemma fleet_inv_next:
  assumes inv: "fleet_inv f"
  shows "fleet_inv (f\<lparr>fl_next_id := fl_next_id f + 1\<rparr>)" (is "fleet_inv ?f")
proof (rule fleet_invI)
  show "sc_redis (fl_procs ?f p)" for p using fleet_invD(1) [OF inv] by simp
  show "distinct (map jb_id (sc_tasks (fl_procs ?f p)))" for p using fleet_invD(2) [OF inv] by simp
  show "jb_id j < fl_next_id ?f \<and> (\<exists>e. fl_locks ?f (jb_organization_id j) = Some e \<and> jb_queued_at j + 300000000 \<le> e)"
    if "j \<in> set (sc_tasks (fl_procs ?f p))" for p j
    using fleet_invD(3,4) [OF inv, of j p] that by simp
  show "p = q \<and> jb_id i = jb_id j"
    if "i \<in> set (sc_tasks (fl_procs ?f p))" "j \<in> set (sc_tasks (fl_procs ?f q))"
      "jb_organization_id i = jb_organization_id j" for p q i j
    using fleet_invD(5) [OF inv, of i p j q] that by simp
qed

lemma fleet_inv_shrink:
  assumes inv: "fleet_inv f" and "sc_redis s" and "distinct (map jb_id (sc_tasks s))"
    and task: "\<And>j. j \<in> set (sc_tasks s) \<Longrightarrow> \<exists>i \<in> set (sc_tasks (fl_procs f p)). same_task i j"
    and lock: "\<And>q j. j \<in> set (sc_tasks (((fl_procs f)(p := s)) q)) \<Longrightarrow> m (jb_organization_id j) = fl_locks f (jb_organization_id j)"
  shows "fleet_inv (f\<lparr>fl_procs := (fl_procs f)(p := s), fl_locks := m\<rparr>)" (is "fleet_inv ?f")
proof (rule fleet_invI)
  have old: "\<exists>i \<in> set (sc_tasks (fl_procs f q)). same_task i j" if "j \<in> set (sc_tasks (fl_procs ?f q))" for q j
    using that task by (cases "q = p") (auto simp: same_task_def)
  show "sc_redis (fl_procs ?f q)" for q using fleet_invD(1) [OF inv] assms(2) by simp
  show "distinct (map jb_id (sc_tasks (fl_procs ?f q)))" for q using fleet_invD(2) [OF inv] assms(3) by simp
  show "jb_id j < fl_next_id ?f \<and> (\<exists>e. fl_locks ?f (jb_organization_id j) = Some e \<and> jb_queued_at j + 300000000 \<le> e)"
    if j: "j \<in> set (sc_tasks (fl_procs ?f q))" for q j
  proof -
    obtain i where i: "i \<in> set (sc_tasks (fl_procs f q))" "same_task i j" using old [OF j] by blast
    have "m (jb_organization_id j) = fl_locks f (jb_organization_id j)" using lock j by simp
    with fleet_invD(3,4) [OF inv i(1)] i(2) show ?thesis by (simp add: same_task_def)
  qed
  show "q = r \<and> jb_id i = jb_id j"
    if ij: "i \<in> set (sc_tasks (fl_procs ?f q))" "j \<in> set (sc_tasks (fl_procs ?f r))"
      "jb_organization_id i = jb_organization_id j" for q r i j
  proof -
    obtain i' j' where "i' \<in> set (sc_tasks (fl_procs f q))" "same_task i' i" "j' \<in> set (sc_tasks (fl_procs f r))" "same_task j' j"
      using old [OF ij(1)] old [OF ij(2)] by blast
    with fleet_invD(5) [OF inv, of i' q j' r] ij(3) show ?thesis by (simp add: same_task_def)
  qed
qed

lemma change_job_tasks:
  assumes "\<And>j. same_task j (g j)"
  shows "map jb_id (sc_tasks (change_job i g s)) = map jb_id (sc_tasks s)"
    and "j \<in> set (sc_tasks (change_job i g s)) \<Longrightarrow> \<exists>k \<in> set (sc_tasks s). same_task k j"
  using assms by (auto simp: change_job_def same_task_def)

lemma job_start_inv:
  assumes "fleet_inv f"
  shows "fleet_inv (fleet_step (F_start p now i) f)"
proof -
  let ?s = "job_start now i (fl_procs f p)"
  have st: "same_task j (j\<lparr>jb_status := J_RUNNING, jb_started_at := Some now\<rparr>)" for j by (simp add: same_task_def)
  have "fleet_inv (f\<lparr>fl_procs := (fl_procs f)(p := ?s), fl_locks := fl_locks f\<rparr>)"
  proof (rule fleet_inv_shrink [OF assms])
    show "sc_redis ?s" using fleet_invD(1) [OF assms] by (simp add: job_start_def change_job_def)
    show "distinct (map jb_id (sc_tasks ?s))"
      using fleet_invD(2) [OF assms, of p] change_job_tasks(1) [OF st, of i "fl_procs f p"] by (simp add: job_start_def)
    show "\<exists>k \<in> set (sc_tasks (fl_procs f p)). same_task k j" if "j \<in> set (sc_tasks ?s)" for j
      using that change_job_tasks(2) [OF st, of j i "fl_procs f p"]
      by (cases "?s = fl_procs f p") (auto simp: job_start_def same_task_def split: if_splits)
  qed simp
  then show ?thesis by simp
qed

lemma job_end_inv:
  assumes "fleet_inv f"
  shows "fleet_inv (fleet_step (F_end p up now i result) f)"
proof (cases "List.find (\<lambda>j. jb_id j = i \<and> jb_status j = J_RUNNING) (sc_tasks (fl_procs f p))")
  case None
  then show ?thesis using assms by (simp add: job_end_def)
next
  case (Some t)
  let ?s = "fl_procs f p"
  let ?g = "\<lambda>j. (job_outcome result j)\<lparr>jb_completed_at := Some now\<rparr>"
  let ?s1 = "change_job i ?g ?s" and ?org = "jb_organization_id t"
  let ?s2 = "?s1\<lparr>sc_running := removeAll ?org (sc_running ?s1), sc_tasks := filter (\<lambda>j. jb_id j \<noteq> i) (sc_tasks ?s1)\<rparr>"
  let ?m = "release_lock (sc_redis ?s) up ?org (fl_locks f)"
  have t: "t \<in> set (sc_tasks ?s)" "jb_id t = i" using find_Some_mem [OF Some] by auto
  have st: "same_task j (?g j)" for j by (simp add: same_task_def job_outcome_def Let_def split: option.split)
  have keep: "\<exists>k \<in> set (sc_tasks ?s). same_task k j" if "j \<in> set (sc_tasks ?s1)" for j
    using change_job_tasks(2) [OF st that] .
  have other: "jb_organization_id j \<noteq> ?org" if j: "j \<in> set (sc_tasks (((fl_procs f)(p := ?s2)) q))" for q j
  proof
    assume eq: "jb_organization_id j = ?org"
    obtain k where k: "k \<in> set (sc_tasks (fl_procs f q))" "same_task k j" "q = p \<longrightarrow> jb_id j \<noteq> i"
      using j keep by (cases "q = p") (auto simp: same_task_def)
    have "q = p \<and> jb_id k = jb_id t"
      by (rule fleet_invD(5) [OF assms k(1) t(1)]) (use k(2) eq in \<open>simp add: same_task_def\<close>)
    with k t(2) show False by (simp add: same_task_def)
  qed
  have "fleet_inv (f\<lparr>fl_procs := (fl_procs f)(p := ?s2), fl_locks := ?m\<rparr>)"
  proof (rule fleet_inv_shrink [OF assms])
    show "sc_redis ?s2" using fleet_invD(1) [OF assms] by (simp add: change_job_def)
    show "distinct (map jb_id (sc_tasks ?s2))"
      using fleet_invD(2) [OF assms, of p] change_job_tasks(1) [OF st, of i ?s] by (simp add: distinct_map_filter)
    show "\<exists>k \<in> set (sc_tasks ?s). same_task k j" if "j \<in> set (sc_tasks ?s2)" for j using that keep by auto
    show "?m (jb_organization_id j) = fl_locks f (jb_organization_id j)"
      if "j \<in> set (sc_tasks (((fl_procs f)(p := ?s2)) q))" for q j
      using other [OF that] by (simp add: release_lock_def)
  qed
  then show ?thesis by (simp add: job_end_def Some Let_def)
qed

lemma acquire_up:
  assumes "acquire_lock True True now org (interval_seconds_for st) m = (ok, m')"
  shows "ok \<Longrightarrow> (\<forall>e. m org = Some e \<longrightarrow> e \<le> now) \<and> m' = m(org \<mapsto> now + interval_seconds_for st * 1000000)"
    and "\<not> ok \<Longrightarrow> m' = m"
  using assms interval_clamped [of st]
  by (auto simp: acquire_lock_def redis_set_nx_def Let_def MAX_INTERVAL_SECONDS_def split: option.splits if_splits)

lemma maybe_dispatch_cases:
  assumes "maybe_dispatch up now i org st runs s m = Inr (r, s', m')"
  obtains (skip) "r = None" "s' = s" "m' = m \<or> m' = snd (acquire_lock (sc_redis s) up now org (interval_seconds_for st) m)"
      "m' = m \<or> \<not> fst (acquire_lock (sc_redis s) up now org (interval_seconds_for st) m)"
  | (dispatch) j next_run where "r = Some j" "org \<notin> set (sc_running s)"
      "is_due now org (interval_seconds_for st) runs = Inr (True, next_run)"
      "acquire_lock (sc_redis s) up now org (interval_seconds_for st) m = (True, m')"
      "jb_id j = i" "jb_organization_id j = org" "jb_queued_at j = now" "jb_status j = J_QUEUED"
      "sc_tasks s' = sc_tasks s @ [j]" "sc_redis s' = sc_redis s" "sc_running s' = org # sc_running s"
  using assms
  by (auto simp: maybe_dispatch_def push_job_def and_then_Inr_iff Let_def split: if_splits prod.splits)

lemma dispatch_inv:
  assumes inv: "fleet_inv f" and pr: "prompt_event (F_dispatch p up now org st runs) f"
  shows "fleet_inv (fleet_step (F_dispatch p up now org st runs) f)"
proof (cases "maybe_dispatch up now (fl_next_id f) org st runs (fl_procs f p) (fl_locks f)")
  case (Inl e)
  with inv show ?thesis by simp
next
  case (Inr x)
  obtain r s m where x: "x = (r, s, m)" by (cases x)
  have up: "up" and young: "\<And>q j. j \<in> set (sc_tasks (fl_procs f q)) \<Longrightarrow> jb_organization_id j = org \<Longrightarrow> now < jb_queued_at j + 300000000"
    using pr by (auto simp: prompt_event_def)
  have redis: "sc_redis (fl_procs f p)" by (rule fleet_invD(1) [OF inv])
  let ?f = "\<lparr>fl_procs = (fl_procs f)(p := s), fl_locks = m, fl_next_id = fl_next_id f + 1\<rparr>"
  have "fleet_inv ?f"
    using Inr [unfolded x]
  proof (cases rule: maybe_dispatch_cases)
    case skip
    obtain ok m1 where a: "acquire_lock True True now org (interval_seconds_for st) (fl_locks f) = (ok, m1)"
      by (cases "acquire_lock True True now org (interval_seconds_for st) (fl_locks f)")
    have "acquire_lock (sc_redis (fl_procs f p)) up now org (interval_seconds_for st) (fl_locks f) = (ok, m1)"
      using a redis up by (simp only: eqTrueI)
    from skip(3,4) [unfolded this fst_conv snd_conv] acquire_up(2) [OF a] have "m = fl_locks f" by blast
    then have "?f = f\<lparr>fl_next_id := fl_next_id f + 1\<rparr>" using skip(2) by simp
    moreover have "fleet_inv (f\<lparr>fl_next_id := fl_next_id f + 1\<rparr>)"
      by (rule fleet_inv_next [OF inv])
    ultimately show ?thesis by simp
  next
    case (dispatch j next_run)
    have acq: "acquire_lock True True now org (interval_seconds_for st) (fl_locks f) = (True, m)"
      using dispatch(4) redis up by simp
    define e where "e = now + interval_seconds_for st * 1000000"
    have e: "now + 300000000 \<le> e" "m = (fl_locks f)(org \<mapsto> e)"
      using acquire_up(1) [OF acq] interval_clamped [of st] by (simp_all add: e_def)
    have free: "jb_organization_id k \<noteq> org" if "k \<in> set (sc_tasks (fl_procs f q))" for q k
    proof
      assume k: "jb_organization_id k = org"
      with fleet_invD(4) [OF inv that] obtain d where "fl_locks f org = Some d" "jb_queued_at k + 300000000 \<le> d" by blast
      with acquire_up(1) [OF acq] young [OF that k] show False by fastforce
    qed
    have mem: "k = j \<and> q = p \<or> k \<in> set (sc_tasks (fl_procs f q))" if "k \<in> set (sc_tasks (fl_procs ?f q))" for q k
      using that dispatch(9) by (cases "q = p") auto
    show ?thesis
    proof (rule fleet_invI)
      show "sc_redis (fl_procs ?f q)" for q using fleet_invD(1) [OF inv] dispatch(10) by simp
      show "distinct (map jb_id (sc_tasks (fl_procs ?f q)))" for q
        using fleet_invD(2,3) [OF inv] dispatch(5,9) by (cases "q = p") fastforce+
      show "jb_id k < fl_next_id ?f \<and> (\<exists>e. fl_locks ?f (jb_organization_id k) = Some e \<and> jb_queued_at k + 300000000 \<le> e)"
        if k: "k \<in> set (sc_tasks (fl_procs ?f q))" for q k
        using mem [OF k]
      proof
        assume "k = j \<and> q = p"
        then show ?thesis using dispatch(5-7) e by simp
      next
        assume k: "k \<in> set (sc_tasks (fl_procs f q))"
        show ?thesis using fleet_invD(3,4) [OF inv k] free [OF k] e(2) by auto
      qed
      show "q = r \<and> jb_id k = jb_id l"
        if kl: "k \<in> set (sc_tasks (fl_procs ?f q))" "l \<in> set (sc_tasks (fl_procs ?f r))"
          "jb_organization_id k = jb_organization_id l" for q r k l
        using mem [OF kl(1)] mem [OF kl(2)] kl(3) free dispatch(6) fleet_invD(5) [OF inv] by metis
    qed
  qed
  then show ?thesis using Inr x by simp
qed

lemma fleet_run_inv: "fleet_inv f \<Longrightarrow> prompt evs f \<Longrightarrow> fleet_inv (fleet_run evs f)"
proof (induction evs arbitrary: f)
  case (Cons ev evs)
  have "fleet_inv (fleet_step ev f)"
    using Cons.prems job_start_inv job_end_inv dispatch_inv by (cases ev) auto
  with Cons show ?case by (simp add: fleet_run_def)
qed (simp add: fleet_run_def)

section \<open>Properties\<close>

text \<open>C40: with Redis up, no two jobs of one organization are in flight anywhere in the fleet, whatever the
  interleaving of dispatches, starts and ends in any number of processes, as long as no dispatch comes five
  minutes or more after an unfinished job of the same organization was queued.\<close>

theorem org_lock_excludes:
  assumes "f = fleet_run evs (fleet_init (sched_init n h True))" and "prompt evs (fleet_init (sched_init n h True))"
    and "i \<in> set (sc_tasks (fl_procs f p))" and "j \<in> set (sc_tasks (fl_procs f q))"
    and "jb_organization_id i = jb_organization_id j"
  shows "p = q \<and> i = j"
proof -
  have "fleet_inv (fleet_init (sched_init n h True))"
    by (rule fleet_invI) (simp_all add: fleet_init_def sched_init_def)
  then have inv: "fleet_inv f" using fleet_run_inv assms(1,2) by blast
  have "p = q \<and> jb_id i = jb_id j" by (rule fleet_invD(5) [OF inv assms(3-5)])
  with assms(3,4) fleet_invD(2) [OF inv, of p] show ?thesis by (auto simp: distinct_map inj_on_def)
qed

definition minute :: micros where "minute = 60000000"

definition two_dispatches :: "fleet_event list" where
  "two_dispatches = [F_dispatch 0 True 0 7 [] [], F_start 0 0 0, F_dispatch 1 True (4 * minute) 7 [] []]"

theorem org_lock_excludes_witness:
  "\<exists>f. f = fleet_run two_dispatches (fleet_init (sched_init 5 200 True))
     \<and> length (sc_tasks (fl_procs f 0)) = 1 \<and> sc_tasks (fl_procs f 1) = []"
proof -
  let ?f = "fleet_run two_dispatches (fleet_init (sched_init 5 200 True))"
  have pr: "prompt two_dispatches (fleet_init (sched_init 5 200 True))"
    by (simp add: two_dispatches_def minute_def prompt_event_def fleet_init_def sched_init_def maybe_dispatch_def push_job_def
        is_due_def cn_latest_for_org_def list_page_def active_query_def order_rows_def order_desc_def first_item_def
        scalar_first_def acquire_lock_def redis_set_nx_def MAX_INTERVAL_SECONDS_def job_start_def change_job_def
        interval_seconds_for_def DEFAULT_INTERVAL_SECONDS_def MIN_INTERVAL_SECONDS_def last_n_def Let_def)
  have t0: "length (sc_tasks (fl_procs ?f 0)) = 1 \<and> jb_organization_id (hd (sc_tasks (fl_procs ?f 0))) = 7"
    and t1: "list_all (\<lambda>j. jb_organization_id j = 7) (sc_tasks (fl_procs ?f 1))" by code_simp+
  have "hd (sc_tasks (fl_procs ?f 0)) \<in> set (sc_tasks (fl_procs ?f 0))" using t0 by (cases "sc_tasks (fl_procs ?f 0)") auto
  note only = org_lock_excludes [OF refl pr this]
  have "sc_tasks (fl_procs ?f 1) = []"
  proof (rule ccontr)
    assume "sc_tasks (fl_procs ?f 1) \<noteq> []"
    then have "hd (sc_tasks (fl_procs ?f 1)) \<in> set (sc_tasks (fl_procs ?f 1))" by (rule hd_in_set)
    moreover from this t1 have "jb_organization_id (hd (sc_tasks (fl_procs ?f 1))) = 7" by (simp only: list_all_iff)
    ultimately have "(0 :: nat) = 1" using only [of "hd (sc_tasks (fl_procs ?f 1))" 1] t0 by metis
    then show False by simp
  qed
  with t0 show ?thesis by blast
qed

text \<open>A job that outlives the lock breaks the exclusion for its successors too: the second process
  dispatches the organization when the lock has expired, the end of the first job deletes the lock of the
  second, and a third process dispatches the organization while the second still runs.\<close>

theorem late_job_unlocks_others:
  "(let f = fleet_run
        [F_dispatch 0 True 0 7 [(''interval_seconds'', Py_int 300)] [], F_start 0 0 0,
         F_dispatch 1 True (5 * minute) 7 [(''interval_seconds'', Py_int 300)] [], F_start 1 (5 * minute) 1,
         F_end 0 True (6 * minute) 0 None,
         F_dispatch 2 True (6 * minute) 7 [(''interval_seconds'', Py_int 300)] [], F_start 2 (6 * minute) 2]
        (fleet_init (sched_init 5 200 True))
    in map (\<lambda>p. map (\<lambda>j. (jb_organization_id j, jb_status j)) (sc_tasks (fl_procs f p))) [0, 1, 2])
   = [[], [(7, J_RUNNING)], [(7, J_RUNNING)]]"
  by code_simp

text \<open>An organization is dispatched only when its last scheduled run ended (or, without an end, began) a
  whole interval ago, and the interval is between five minutes and a day whatever its settings hold; but an
  organization without a scheduled run, such as one without connections, is dispatched at every tick at which
  it is not already in work, whatever the interval.\<close>

theorem dispatch_interval:
  assumes "maybe_dispatch up now i org st runs s m = Inr (r, s', m')"
  shows "(\<forall>j x. r = Some j \<and> cn_latest_for_org org (Some T_SCHEDULED) None runs = Inr (Some x) \<longrightarrow>
      (case cn_completed_at x of None \<Rightarrow> cn_started_at x | Some t \<Rightarrow> t) + interval_seconds_for st * 1000000 \<le> now)
    \<and> 300 \<le> interval_seconds_for st \<and> interval_seconds_for st \<le> 86400
    \<and> (cn_latest_for_org org (Some T_SCHEDULED) None runs = Inr None \<and> org \<notin> set (sc_running s)
        \<and> (\<forall>e. m org = Some e \<longrightarrow> e \<le> now) \<longrightarrow> r \<noteq> None)"
proof (intro conjI allI impI)
  fix j x
  assume r: "r = Some j \<and> cn_latest_for_org org (Some T_SCHEDULED) None runs = Inr (Some x)"
  show "(case cn_completed_at x of None \<Rightarrow> cn_started_at x | Some t \<Rightarrow> t) + interval_seconds_for st * 1000000 \<le> now"
    using assms
  proof (cases rule: maybe_dispatch_cases)
    case (dispatch j next_run)
    with r show ?thesis by (simp add: is_due_def Let_def)
  qed (use r in simp)
next
  assume "cn_latest_for_org org (Some T_SCHEDULED) None runs = Inr None \<and> org \<notin> set (sc_running s)
        \<and> (\<forall>e. m org = Some e \<longrightarrow> e \<le> now)"
  then show "r \<noteq> None"
    using assms by (auto simp: maybe_dispatch_def is_due_def acquire_lock_def redis_set_nx_def Let_def
        split: if_splits option.splits prod.splits)
qed (use interval_clamped [of st] in auto)

theorem dispatch_interval_witness:
  "\<exists>j s' m'. maybe_dispatch True minute 1 7 [(''interval_seconds'', Py_int 86400)] []
     (sched_init 5 200 True) (\<lambda>_. None) = Inr (Some j, s', m')"
proof -
  obtain r s' m' where d: "maybe_dispatch True minute 1 7 [(''interval_seconds'', Py_int 86400)] []
     (sched_init 5 200 True) (\<lambda>_. None) = Inr (r, s', m')"
  proof -
    have "is_ok (maybe_dispatch True minute 1 7 [(''interval_seconds'', Py_int 86400)] [] (sched_init 5 200 True) (\<lambda>_. None))"
      by code_simp
    then show ?thesis using that unfolding is_ok_iff by (metis prod.collapse)
  qed
  have "cn_latest_for_org 7 (Some T_SCHEDULED) None [] = Inr None" by code_simp
  with dispatch_interval [OF d] have "r \<noteq> None" by (simp add: sched_init_def)
  with d show ?thesis by blast
qed

end
