(* ===== verification/Auth.thy ===== *)
theory Auth
  imports Access
begin

text \<open>
  Accounts and sessions: \<open>auth/service.py\<close> (\<open>AuthService\<close>) and \<open>auth/slug.py\<close>. The ORM object of the
  authenticated user is the row of that user: assigning a column and flushing is an update of the row. Audit log
  lines are left out; a Google login starts from the verified identity.
\<close>

section \<open>Errors and slugs\<close>

datatype auth_error =
    Email_already_registered | Invalid_credentials | Account_disabled | Email_not_verified | Email_already_verified
  | Invalid_token | Google_already_linked | Last_auth_method | No_personal_workspace
  | Owner_of_shared_workspace string | Password_already_configured | Username_taken | Slug_exhausted
  | Auth_db repo_error

definition slug_char :: "char \<Rightarrow> bool" where
  "slug_char c \<longleftrightarrow> is_digit c \<or> (97 \<le> (of_char c :: nat) \<and> (of_char c :: nat) \<le> 122)"

fun hyphenate :: "bool \<Rightarrow> string \<Rightarrow> string" where
  "hyphenate in_run [] = []"
| "hyphenate in_run (c # cs) =
     (if slug_char c then c # hyphenate False cs
      else if in_run then hyphenate True cs else CHR ''-'' # hyphenate True cs)"

definition slugify :: "string \<Rightarrow> string \<Rightarrow> string" where
  "slugify rnd v = (let slug = strip_char (CHR ''-'') (hyphenate False (py_lower v)) in if slug = [] then rnd else slug)"

text \<open>\<open>unique_slug\<close>: the loop with fuel; the \<open>n\<close>-th evaluation of \<open>slugify\<close> draws its own random token.\<close>

fun slug_loop :: "nat \<Rightarrow> (nat \<Rightarrow> string) \<Rightarrow> (string \<Rightarrow> bool) \<Rightarrow> string \<Rightarrow> nat \<Rightarrow> string \<Rightarrow> string option" where
  "slug_loop 0 rnd used base n candidate = None"
| "slug_loop (Suc fuel) rnd used base n candidate =
     (if used candidate then slug_loop fuel rnd used base (n + 1) (slugify (rnd n) base @ ''-'' @ show_nat (n + 1))
      else Some candidate)"

definition unique_slug :: "nat \<Rightarrow> (nat \<Rightarrow> string) \<Rightarrow> (string \<Rightarrow> bool) \<Rightarrow> string \<Rightarrow> string option" where
  "unique_slug fuel rnd used base = slug_loop fuel rnd used base 1 (slugify (rnd 0) base)"

section \<open>Sessions and workspaces\<close>

record token_pair =
  tp_access_token :: string
  tp_refresh_token :: string
  tp_expires_in :: int

definition insert_user :: "user \<Rightarrow> accounts \<Rightarrow> repo_error + accounts" where
  "insert_user u s =
     and_then (repo_create u (ac_users s)) (\<lambda>rows.
     and_then (checked uq_users rows) (\<lambda>rows. Inr (s\<lparr>ac_users := rows\<rparr>)))"

definition insert_org :: "organization \<Rightarrow> accounts \<Rightarrow> repo_error + accounts" where
  "insert_org g s =
     and_then (repo_create g (ac_orgs s)) (\<lambda>rows.
     and_then (checked uq_organizations rows) (\<lambda>rows. Inr (s\<lparr>ac_orgs := rows\<rparr>)))"

text \<open>Assigning columns of a user and flushing; the constraints are checked by the database.\<close>

definition save_user :: "micros \<Rightarrow> ident \<Rightarrow> (user \<Rightarrow> user) \<Rightarrow> accounts \<Rightarrow> auth_error + accounts" where
  "save_user now i f s =
     map_err Auth_db (and_then (checked uq_users (repo_update now i f (ac_users s))) (\<lambda>rows. Inr (s\<lparr>ac_users := rows\<rparr>)))"

definition issue_session ::
  "account_env \<Rightarrow> micros \<Rightarrow> user \<Rightarrow> string option \<Rightarrow> string option \<Rightarrow> accounts \<Rightarrow> auth_error + token_pair \<times> accounts" where
  "issue_session env now u ip ua s =
     (let (k, s) = draw s; raw = en_fresh_token env k; (i, s) = draw s;
          row = \<lparr>row_id = i, row_created_at = now, row_updated_at = now, row_deleted_at = None, row_deleted_by = None,
                 ss_user_id = row_id u, ss_refresh_token_hash = en_hash_token env raw,
                 ss_expires_at = now + en_refresh_days env * day, ss_revoked_at = None, ss_ip_address = ip, ss_user_agent = ua\<rparr>
      in and_then (map_err Auth_db (repo_create row (ac_sessions s))) (\<lambda>rows.
           Inr (\<lparr>tp_access_token = en_access_token env (row_id u) i (us_email u) now, tp_refresh_token = raw,
                 tp_expires_in = en_access_minutes env * 60\<rparr>, s\<lparr>ac_sessions := rows\<rparr>)))"

definition create_workspace ::
  "account_env \<Rightarrow> micros \<Rightarrow> user \<Rightarrow> string \<Rightarrow> string \<Rightarrow> bool \<Rightarrow> accounts \<Rightarrow> auth_error + organization \<times> accounts" where
  "create_workspace env now u name slug_seed is_personal s =
     (let (i, s) = draw s; (k, s) = draw s
      in case unique_slug (length (ac_orgs s) + 1) (en_slug_token env k) (slug_exists (ac_orgs s)) slug_seed of
           None \<Rightarrow> Inl Slug_exhausted
         | Some slug \<Rightarrow>
             let g = \<lparr>row_id = i, row_created_at = now, row_updated_at = now, row_deleted_at = None, row_deleted_by = None,
                      og_name = name, og_slug = slug, og_description = None, og_is_personal = is_personal, og_status = OS_ACTIVE\<rparr>
             in and_then (map_err Auth_db (insert_org g s)) (\<lambda>s.
                let (j, s) = draw s
                in and_then (map_err Auth_db (insert_membership
                       (new_membership now j i (Some (row_id u)) (us_email u) OWNER) s)) (\<lambda>s. Inr (g, s))))"

definition create_personal_workspace :: "account_env \<Rightarrow> micros \<Rightarrow> user \<Rightarrow> accounts \<Rightarrow> auth_error + organization \<times> accounts" where
  "create_personal_workspace env now u s =
     create_workspace env now u (us_display_name u @ CHR 0x27 # ''s Workspace'') (us_display_name u @ ''-workspace'') True s"

definition name_or :: "string option \<Rightarrow> string \<Rightarrow> string" where
  "name_or name dflt =
     (let n = (case name of None \<Rightarrow> [] | Some x \<Rightarrow> py_strip x) in if n = [] then dflt else n)"

definition upgrade_to_business ::
  "micros \<Rightarrow> user \<Rightarrow> string option \<Rightarrow> accounts \<Rightarrow> auth_error + organization \<times> accounts" where
  "upgrade_to_business now u name s =
     (case List.find (\<lambda>(m, g). og_is_personal g \<and> ms_role m = OWNER)
             (list_by_user_email_with_orgs (us_email u) (ac_orgs s) (ac_members s)) of
        None \<Rightarrow> Inl No_personal_workspace
      | Some (m, g) \<Rightarrow>
          let f = (\<lambda>g. g\<lparr>og_is_personal := False, og_name := name_or name ''My Team''\<rparr>)
          in Inr (f g, send_email (Welcome_email (us_email u))
                   (s\<lparr>ac_orgs := repo_update now (row_id g) f (ac_orgs s)\<rparr>)))"

section \<open>Verification tokens\<close>

definition new_token :: "account_env \<Rightarrow> micros \<Rightarrow> ident \<Rightarrow> ident \<Rightarrow> string \<Rightarrow> micros \<Rightarrow> token_row" where
  "new_token env now i u raw expires =
     \<lparr>row_id = i, row_created_at = now, row_updated_at = now, row_deleted_at = None, row_deleted_by = None,
      tk_user_id = u, tk_token_hash = en_hash_token env raw, tk_expires_at = expires, tk_used_at = None\<rparr>"

definition create_verification_token ::
  "account_env \<Rightarrow> micros \<Rightarrow> ident \<Rightarrow> accounts \<Rightarrow> auth_error + string \<times> accounts" where
  "create_verification_token env now u s =
     (let s = s\<lparr>ac_verify := invalidate_for_user now u (ac_verify s)\<rparr>; (k, s) = draw s; raw = en_fresh_token env k;
          (i, s) = draw s
      in and_then (map_err Auth_db (repo_create (new_token env now i u raw (now + day)) (ac_verify s))) (\<lambda>rows.
           Inr (raw, s\<lparr>ac_verify := rows\<rparr>)))"

definition send_verification_email :: "account_env \<Rightarrow> micros \<Rightarrow> user \<Rightarrow> accounts \<Rightarrow> auth_error + accounts" where
  "send_verification_email env now u s =
     and_then (create_verification_token env now (row_id u) s) (\<lambda>(raw, s).
       Inr (send_email (Verification_email (us_email u) raw) s))"

definition resend_verification_email :: "account_env \<Rightarrow> micros \<Rightarrow> string \<Rightarrow> accounts \<Rightarrow> auth_error + accounts" where
  "resend_verification_email env now email s =
     and_then (map_err Auth_db (us_get_by_email email (ac_users s))) (\<lambda>u.
     case u of
       None \<Rightarrow> Inr s
     | Some u \<Rightarrow> if us_email_verified u then Inr s else send_verification_email env now u s)"

definition verify_email :: "account_env \<Rightarrow> micros \<Rightarrow> string \<Rightarrow> accounts \<Rightarrow> auth_error + user \<times> accounts" where
  "verify_email env now token s =
     and_then (map_err Auth_db (get_valid_by_hash now (en_hash_token env token) (ac_verify s))) (\<lambda>t.
     case t of
       None \<Rightarrow> Inl Invalid_token
     | Some t \<Rightarrow>
         and_then (map_err Auth_db (repo_get (tk_user_id t) (ac_users s))) (\<lambda>u.
         case u of
           None \<Rightarrow> Inl Invalid_token
         | Some u \<Rightarrow>
             if us_email_verified u then Inl Email_already_verified
             else let f = (\<lambda>u. u\<lparr>us_status := (if us_status u = US_INVITED then US_ACTIVE else us_status u),
                                  us_email_verified := True\<rparr>)
                  in and_then (save_user now (row_id u) f (s\<lparr>ac_verify := mark_used now (row_id t) (ac_verify s)\<rparr>)) (\<lambda>s.
                       Inr (f u, send_email (Welcome_email (us_email u)) s))))"

section \<open>Registration and login\<close>

definition new_user :: "micros \<Rightarrow> ident \<Rightarrow> string \<Rightarrow> string \<Rightarrow> user" where
  "new_user now i email name =
     \<lparr>row_id = i, row_created_at = now, row_updated_at = now, row_deleted_at = None, row_deleted_by = None,
      us_email = email, us_username = None, us_display_name = name, us_status = US_ACTIVE, us_email_verified = False,
      us_avatar_url = None, us_bio = None, us_timezone = None, us_password_hash = None, us_last_login_at = None,
      us_onboarding_completed_at = None, us_preferences = [], us_google_sub = None, us_google_email = None,
      us_google_linked_at = None, us_last_login_provider = None\<rparr>"

datatype account_type = Personal | Business

record register_body =
  rb_email :: string
  rb_password :: string
  rb_display_name :: string
  rb_account_type :: account_type
  rb_organization_name :: "string option"

text \<open>A business registration gets a second workspace, and lands in it.\<close>

definition landing_workspace ::
  "account_env \<Rightarrow> micros \<Rightarrow> register_body \<Rightarrow> user \<Rightarrow> organization \<times> accounts \<Rightarrow> auth_error + organization \<times> accounts" where
  "landing_workspace env now b u gs =
     (case rb_account_type b of
        Personal \<Rightarrow> Inr gs
      | Business \<Rightarrow>
          let n = name_or (rb_organization_name b) (rb_display_name b @ CHR 0x27 # ''s Team'')
          in create_workspace env now u n n False (snd gs))"

definition register ::
  "account_env \<Rightarrow> micros \<Rightarrow> register_body \<Rightarrow> accounts \<Rightarrow> auth_error + (user \<times> organization) \<times> accounts" where
  "register env now b s =
     (if email_exists (rb_email b) None (ac_users s) then Inl Email_already_registered
      else let (i, s) = draw s; (k, s) = draw s;
               u = (new_user now i (rb_email b) (rb_display_name b))\<lparr>us_password_hash := Some (en_hash_password env k (rb_password b))\<rparr>
           in and_then (map_err Auth_db (insert_user u s)) (\<lambda>s.
              and_then (create_personal_workspace env now u s) (\<lambda>gs.
              and_then (landing_workspace env now b u gs) (\<lambda>(g, s).
              and_then (send_verification_email env now u s) (\<lambda>s. Inr ((u, g), s))))))"

definition login ::
  "account_env \<Rightarrow> micros \<Rightarrow> string \<Rightarrow> string \<Rightarrow> string option \<Rightarrow> string option \<Rightarrow> accounts
   \<Rightarrow> auth_error + (token_pair \<times> user) \<times> accounts" where
  "login env now email password ip ua s =
     and_then (map_err Auth_db (us_get_by_email email (ac_users s))) (\<lambda>r.
     case r of
       None \<Rightarrow> Inl Invalid_credentials
     | Some u \<Rightarrow>
         (case us_password_hash u of
            None \<Rightarrow> Inl Invalid_credentials
          | Some h \<Rightarrow>
              if \<not> en_verify_password env h password then Inl Invalid_credentials
              else if us_status u = US_DISABLED then Inl Account_disabled
              else if \<not> us_email_verified u then Inl Email_not_verified
              else and_then (issue_session env now u ip ua
                     (s\<lparr>ac_members := link_pending_by_email now (us_email u) (row_id u) (ac_members s)\<rparr>)) (\<lambda>(pair, s).
                     Inr ((pair, u), s\<lparr>ac_users := update_last_login now (row_id u) (Some ''password'') (ac_users s)\<rparr>))))"

record google_identity =
  gi_sub :: string
  gi_email :: string
  gi_display_name :: string
  gi_avatar_url :: "string option"

definition link_columns :: "micros \<Rightarrow> string \<Rightarrow> string \<Rightarrow> user \<Rightarrow> user" where
  "link_columns now gsub email u =
     u\<lparr>us_google_sub := Some gsub, us_google_email := Some email, us_google_linked_at := Some now\<rparr>"

text \<open>The first step of a Google login: the linked account, the account of that e-mail (linked now), or a new
  one; the flag says it is new.\<close>

definition google_account ::
  "micros \<Rightarrow> google_identity \<Rightarrow> accounts \<Rightarrow> auth_error + (user \<times> bool) \<times> accounts" where
  "google_account now gi s =
     and_then (map_err Auth_db (us_get_by_google_sub (gi_sub gi) (ac_users s))) (\<lambda>linked.
     case linked of
       Some u \<Rightarrow> Inr ((u, False), s)
     | None \<Rightarrow>
         and_then (map_err Auth_db (us_get_by_email (gi_email gi) (ac_users s))) (\<lambda>present.
         case present of
           Some u \<Rightarrow>
             and_then (save_user now (row_id u) (link_columns now (gi_sub gi) (gi_email gi)) s) (\<lambda>s.
               Inr ((link_columns now (gi_sub gi) (gi_email gi) u, False), s))
         | None \<Rightarrow>
             let (i, s) = draw s;
                 u = link_columns now (gi_sub gi) (gi_email gi)
                       ((new_user now i (gi_email gi) (gi_display_name gi))
                          \<lparr>us_email_verified := True, us_avatar_url := gi_avatar_url gi\<rparr>)
             in and_then (map_err Auth_db (insert_user u s)) (\<lambda>s. Inr ((u, True), s))))"

definition login_or_register_with_google ::
  "account_env \<Rightarrow> micros \<Rightarrow> google_identity \<Rightarrow> string option \<Rightarrow> string option \<Rightarrow> accounts
   \<Rightarrow> auth_error + (token_pair \<times> user \<times> organization option \<times> bool) \<times> accounts" where
  "login_or_register_with_google env now gi ip ua s =
     and_then (google_account now gi s) (\<lambda>((u, is_new), s).
       if us_status u = US_DISABLED then Inl Account_disabled
       else and_then (if is_new then and_then (create_personal_workspace env now u s) (\<lambda>(g, s). Inr (Some g, s))
                      else Inr (None, s)) (\<lambda>(org, s).
            and_then (issue_session env now u ip ua
              (s\<lparr>ac_members := link_pending_by_email now (us_email u) (row_id u) (ac_members s)\<rparr>)) (\<lambda>(pair, s).
              let s = s\<lparr>ac_users := update_last_login now (row_id u) (Some ''google'') (ac_users s)\<rparr>
              in Inr ((pair, u, org, is_new), if is_new then send_email (Welcome_email (us_email u)) s else s))))"

definition link_google :: "micros \<Rightarrow> user \<Rightarrow> string \<Rightarrow> string \<Rightarrow> accounts \<Rightarrow> auth_error + accounts" where
  "link_google now u gsub email s =
     and_then (map_err Auth_db (us_get_by_google_sub gsub (ac_users s))) (\<lambda>other.
       if case other of None \<Rightarrow> False | Some w \<Rightarrow> row_id w \<noteq> row_id u then Inl Google_already_linked
       else save_user now (row_id u) (link_columns now gsub email) s)"

definition unlink_google :: "micros \<Rightarrow> user \<Rightarrow> accounts \<Rightarrow> auth_error + accounts" where
  "unlink_google now u s =
     (if us_password_hash u = None then Inl Last_auth_method
      else save_user now (row_id u)
             (\<lambda>u. u\<lparr>us_google_sub := None, us_google_email := None, us_google_linked_at := None\<rparr>) s)"

section \<open>Session and profile operations\<close>

definition logout :: "micros \<Rightarrow> ident \<Rightarrow> accounts \<Rightarrow> accounts" where
  "logout now sid s = s\<lparr>ac_sessions := revoke now sid (ac_sessions s)\<rparr>"

definition complete_onboarding :: "micros \<Rightarrow> user \<Rightarrow> accounts \<Rightarrow> auth_error + accounts" where
  "complete_onboarding now u s = save_user now (row_id u) (\<lambda>u. u\<lparr>us_onboarding_completed_at := Some now\<rparr>) s"

text \<open>A field that was not sent is \<open>None\<close>, one that was sent as null is \<open>Some None\<close>.\<close>

record profile_body =
  pb_display_name :: "string option option"
  pb_username :: "string option option"
  pb_avatar_url :: "string option option"
  pb_bio :: "string option option"
  pb_timezone :: "string option option"

definition set_field :: "'a option \<Rightarrow> 'a \<Rightarrow> 'a" where
  "set_field sent_value old = (case sent_value of None \<Rightarrow> old | Some v \<Rightarrow> v)"

definition update_profile :: "micros \<Rightarrow> user \<Rightarrow> profile_body \<Rightarrow> accounts \<Rightarrow> auth_error + accounts" where
  "update_profile now u b s =
     (if (case pb_username b of Some (Some n) \<Rightarrow> n \<noteq> [] \<and> username_exists n (Some (row_id u)) (ac_users s) | _ \<Rightarrow> False)
      then Inl Username_taken
      else save_user now (row_id u)
             (\<lambda>u. u\<lparr>us_display_name := (case pb_display_name b of Some (Some n) \<Rightarrow> n | _ \<Rightarrow> us_display_name u),
                    us_username := set_field (pb_username b) (us_username u),
                    us_avatar_url := set_field (pb_avatar_url b) (us_avatar_url u),
                    us_bio := set_field (pb_bio b) (us_bio u),
                    us_timezone := set_field (pb_timezone b) (us_timezone u)\<rparr>) s)"

definition update_user_preferences :: "micros \<Rightarrow> user \<Rightarrow> metadata \<Rightarrow> accounts \<Rightarrow> auth_error + accounts" where
  "update_user_preferences now u patch s =
     save_user now (row_id u) (\<lambda>u. u\<lparr>us_preferences := merge_metadata (us_preferences u) patch\<rparr>) s"

definition password_matches :: "account_env \<Rightarrow> user \<Rightarrow> string \<Rightarrow> bool" where
  "password_matches env u password =
     (case us_password_hash u of None \<Rightarrow> False | Some h \<Rightarrow> en_verify_password env h password)"

definition set_password_hash :: "account_env \<Rightarrow> micros \<Rightarrow> user \<Rightarrow> string \<Rightarrow> accounts \<Rightarrow> auth_error + accounts" where
  "set_password_hash env now u password s =
     (let (k, s) = draw s
      in save_user now (row_id u) (\<lambda>u. u\<lparr>us_password_hash := Some (en_hash_password env k password)\<rparr>) s)"

definition change_password ::
  "account_env \<Rightarrow> micros \<Rightarrow> user \<Rightarrow> string \<Rightarrow> string \<Rightarrow> ident \<Rightarrow> accounts \<Rightarrow> auth_error + accounts" where
  "change_password env now u current_password new_password sid s =
     (if \<not> password_matches env u current_password then Inl Invalid_credentials
      else and_then (set_password_hash env now u new_password s) (\<lambda>s.
             Inr (s\<lparr>ac_sessions := revoke_all_for_user_except now (row_id u) sid (ac_sessions s)\<rparr>)))"

definition set_password :: "account_env \<Rightarrow> micros \<Rightarrow> user \<Rightarrow> string \<Rightarrow> accounts \<Rightarrow> auth_error + accounts" where
  "set_password env now u password s =
     (if us_password_hash u \<noteq> None then Inl Password_already_configured
      else set_password_hash env now u password s)"

section \<open>Deleting an account\<close>

definition soft_delete_all ::
  "micros \<Rightarrow> ident \<Rightarrow> ('a base_row_scheme) list \<Rightarrow> ('a base_row_scheme) list \<Rightarrow> ('a base_row_scheme) list" where
  "soft_delete_all now by items rows = fold (\<lambda>r. repo_soft_delete now (Some by) (row_id r)) items rows"

definition cascade_delete_organization ::
  "micros \<Rightarrow> ident \<Rightarrow> ident \<Rightarrow> accounts \<Rightarrow> auth_error + accounts" where
  "cascade_delete_organization now by org s =
     and_then (map_err Auth_db (pj_list_by_org org 1000 None ''asc'' (ac_projects s))) (\<lambda>projects.
     and_then (map_err Auth_db (pc_list_by_org org 1000 None ''asc'' (ac_connections s))) (\<lambda>connections.
       let s = s\<lparr>ac_projects := soft_delete_all now by (pg_items projects) (ac_projects s),
                 ac_connections := soft_delete_all now by (pg_items connections) (ac_connections s),
                 ac_budgets := soft_delete_all now by (budgets_for_org org False (ac_budgets s)) (ac_budgets s),
                 ac_keys := soft_delete_all now by (ak_list org (ac_keys s)) (ac_keys s),
                 ac_invites := fold (\<lambda>v. sql_update_where (\<lambda>x. row_id x = row_id v)
                                  (\<lambda>x. x\<lparr>iv_status := IV_CANCELLED, iv_cancelled_at := Some now, row_updated_at := now\<rparr>))
                                 (list_pending_by_org org (ac_invites s)) (ac_invites s)\<rparr>
       in and_then (map_err Auth_db (repo_get org (ac_orgs s))) (\<lambda>g.
            Inr (case g of None \<Rightarrow> s
                 | Some g \<Rightarrow> s\<lparr>ac_orgs := repo_soft_delete now (Some by) org (ac_orgs s)\<rparr>))))"

fun cascade_all :: "micros \<Rightarrow> ident \<Rightarrow> ident list \<Rightarrow> accounts \<Rightarrow> auth_error + accounts" where
  "cascade_all now by [] s = Inr s"
| "cascade_all now by (org # orgs) s =
     and_then (cascade_delete_organization now by org s) (cascade_all now by orgs)"

definition delete_account :: "account_env \<Rightarrow> micros \<Rightarrow> user \<Rightarrow> string \<Rightarrow> accounts \<Rightarrow> auth_error + accounts" where
  "delete_account env now u password s =
     (if \<not> password_matches env u password then Inl Invalid_credentials
      else let owned = filter (\<lambda>(m, g). ms_role m = OWNER)
                         (list_by_user_email_with_orgs (us_email u) (ac_orgs s) (ac_members s))
           in case List.find (\<lambda>(m, g). list_ex (\<lambda>x. ms_user_email x \<noteq> us_email u)
                               (list_by_org_with_users (ms_organization_id m) (ac_members s))) owned of
                Some (m, g) \<Rightarrow> Inl (Owner_of_shared_workspace (og_name g))
              | None \<Rightarrow>
                  and_then (cascade_all now (row_id u) (map (\<lambda>(m, g). ms_organization_id m) owned) s) (\<lambda>s.
                    Inr (s\<lparr>ac_users := repo_soft_delete now (Some (row_id u)) (row_id u) (ac_users s),
                           ac_sessions := revoke_all_for_user now (row_id u) (ac_sessions s)\<rparr>)))"

section \<open>Refreshing and resetting\<close>

text \<open>The two statements of \<open>refresh\<close>: the lookup and the rotation.\<close>

definition refresh_lookup ::
  "account_env \<Rightarrow> micros \<Rightarrow> string \<Rightarrow> accounts \<Rightarrow> auth_error + session \<times> user" where
  "refresh_lookup env now token s =
     and_then (map_err Auth_db (get_active_by_token_hash now (en_hash_token env token) (ac_sessions s))) (\<lambda>r.
     case r of
       None \<Rightarrow> Inl Invalid_token
     | Some d \<Rightarrow>
         and_then (map_err Auth_db (repo_get (ss_user_id d) (ac_users s))) (\<lambda>u.
         case u of
           None \<Rightarrow> Inl Invalid_token
         | Some u \<Rightarrow> if us_status u = US_DISABLED then Inl Invalid_token else Inr (d, u)))"

definition refresh_rotate :: "account_env \<Rightarrow> micros \<Rightarrow> session \<times> user \<Rightarrow> accounts \<Rightarrow> token_pair \<times> accounts" where
  "refresh_rotate env now du s =
     (let (d, u) = du; (k, s) = draw s; raw = en_fresh_token env k
      in (\<lparr>tp_access_token = en_access_token env (row_id u) (row_id d) (us_email u) now, tp_refresh_token = raw,
           tp_expires_in = en_access_minutes env * 60\<rparr>,
          s\<lparr>ac_sessions := rotate_session now (row_id d) (en_hash_token env raw) (now + en_refresh_days env * day)
                             (ac_sessions s)\<rparr>))"

definition refresh :: "account_env \<Rightarrow> micros \<Rightarrow> string \<Rightarrow> accounts \<Rightarrow> auth_error + token_pair \<times> accounts" where
  "refresh env now token s = and_then (refresh_lookup env now token s) (\<lambda>du. Inr (refresh_rotate env now du s))"

definition create_password_reset_token ::
  "account_env \<Rightarrow> micros \<Rightarrow> string \<Rightarrow> accounts \<Rightarrow> auth_error + string option \<times> accounts" where
  "create_password_reset_token env now email s =
     and_then (map_err Auth_db (us_get_by_email email (ac_users s))) (\<lambda>r.
     case r of
       None \<Rightarrow> Inr (None, s)
     | Some u \<Rightarrow>
         let s = s\<lparr>ac_reset := invalidate_for_user now (row_id u) (ac_reset s)\<rparr>; (k, s) = draw s;
             raw = en_fresh_token env k; (i, s) = draw s
         in and_then (map_err Auth_db (repo_create (new_token env now i (row_id u) raw (now + 3600000000)) (ac_reset s)))
              (\<lambda>rows. Inr (Some raw, send_email (Password_reset_email (us_email u) raw) (s\<lparr>ac_reset := rows\<rparr>))))"

definition reset_password :: "account_env \<Rightarrow> micros \<Rightarrow> string \<Rightarrow> string \<Rightarrow> accounts \<Rightarrow> auth_error + accounts" where
  "reset_password env now token password s =
     and_then (map_err Auth_db (get_valid_by_hash now (en_hash_token env token) (ac_reset s))) (\<lambda>t.
     case t of
       None \<Rightarrow> Inl Invalid_token
     | Some t \<Rightarrow>
         and_then (map_err Auth_db (repo_get (tk_user_id t) (ac_users s))) (\<lambda>u.
         case u of
           None \<Rightarrow> Inl Invalid_token
         | Some u \<Rightarrow>
             and_then (set_password_hash env now u password
               (s\<lparr>ac_reset := mark_used now (row_id t) (ac_reset s)\<rparr>)) (\<lambda>s.
               Inr (s\<lparr>ac_sessions := revoke_all_for_user now (row_id u) (ac_sessions s)\<rparr>))))"

end
