(* ===== verification/Web_Text.thy ===== *)
theory Web_Text
  imports Json
begin

text \<open>
  Texts the web handlers build with the standard library: \<open>json.dumps\<close> with its default separators and
  ASCII escapes, \<open>base64.b64encode\<close>, \<open>base64.urlsafe_b64encode\<close>, \<open>urllib.parse.quote\<close> and
  \<open>secrets.compare_digest\<close> on text. A character is a code point below 256.
\<close>

section \<open>JSON text\<close>

definition hex_digit :: "bool \<Rightarrow> nat \<Rightarrow> char" where
  "hex_digit capital n =
     (if n < 10 then char_of (48 + n) else if capital then char_of (55 + n) else char_of (87 + n))"

definition hex_byte :: "bool \<Rightarrow> char \<Rightarrow> string" where
  "hex_byte capital c = [hex_digit capital (of_char c div 16), hex_digit capital (of_char c mod 16)]"

definition printable :: "char \<Rightarrow> bool" where
  "printable c \<longleftrightarrow> 32 \<le> (of_char c :: nat) \<and> (of_char c :: nat) < 127"

definition json_char :: "char \<Rightarrow> string" where
  "json_char c =
     (let n = (of_char c :: nat)
      in if n = 34 then [char_of (92::nat), c] else if n = 92 then [c, c]
         else if n = 10 then char_of (92::nat) # ''n'' else if n = 13 then char_of (92::nat) # ''r''
         else if n = 9 then char_of (92::nat) # ''t'' else if n = 8 then char_of (92::nat) # ''b''
         else if n = 12 then char_of (92::nat) # ''f''
         else if printable c then [c] else char_of (92::nat) # ''u00'' @ hex_byte False c)"

definition json_text :: "string \<Rightarrow> string" where
  "json_text s = char_of (34::nat) # concat (map json_char s) @ [char_of (34::nat)]"

fun join_with :: "string \<Rightarrow> string list \<Rightarrow> string" where
  "join_with sep [] = []"
| "join_with sep [x] = x"
| "join_with sep (x # y # xs) = x @ sep @ join_with sep (y # xs)"

fun json_dumps :: "(rat \<Rightarrow> string) \<Rightarrow> json \<Rightarrow> string" where
  "json_dumps repr Js_null = ''null''"
| "json_dumps repr (Js_bool b) = (if b then ''true'' else ''false'')"
| "json_dumps repr (Js_int n) = show_int n"
| "json_dumps repr (Js_float r) = repr r"
| "json_dumps repr (Js_nonfinite s) =
     (if s = ''nan'' then ''NaN'' else if s = ''inf'' then ''Infinity'' else ''-Infinity'')"
| "json_dumps repr (Js_str s) = json_text s"
| "json_dumps repr (Js_list xs) = ''['' @ join_with '', '' (map (json_dumps repr) xs) @ '']''"
| "json_dumps repr (Js_dict d) =
     ''{'' @ join_with '', '' (map (\<lambda>(k, v). json_text k @ '': '' @ json_dumps repr v) d) @ ''}''"

section \<open>Base 64 and percent encoding\<close>

definition b64_digit :: "nat \<Rightarrow> char" where
  "b64_digit n =
     (if n < 26 then char_of (65 + n) else if n < 52 then char_of (71 + n) else if n < 62 then char_of (n - 4)
      else if n = 62 then CHR ''+'' else CHR ''/'')"

fun b64encode :: "string \<Rightarrow> string" where
  "b64encode [] = []"
| "b64encode [a] =
     (let x = of_char a in [b64_digit (x div 4), b64_digit (x mod 4 * 16), CHR ''='', CHR ''=''])"
| "b64encode [a, b] =
     (let x = of_char a; y = of_char b
      in [b64_digit (x div 4), b64_digit (x mod 4 * 16 + y div 16), b64_digit (y mod 16 * 4), CHR ''=''])"
| "b64encode (a # b # c # r) =
     (let x = of_char a; y = of_char b; z = of_char c
      in [b64_digit (x div 4), b64_digit (x mod 4 * 16 + y div 16), b64_digit (y mod 16 * 4 + z div 64),
          b64_digit (z mod 64)] @ b64encode r)"

definition urlsafe_b64encode :: "string \<Rightarrow> string" where
  "urlsafe_b64encode s =
     map (\<lambda>c. if c = CHR ''+'' then CHR ''-'' else if c = CHR ''/'' then CHR ''_'' else c) (b64encode s)"

definition unreserved :: "char \<Rightarrow> bool" where
  "unreserved c \<longleftrightarrow> (let n = (of_char c :: nat) in (48 \<le> n \<and> n \<le> 57) \<or> (65 \<le> n \<and> n \<le> 90) \<or> (97 \<le> n \<and> n \<le> 122)
     \<or> c \<in> set ''_.-~'')"

text \<open>On ASCII text; the handlers quote nothing else.\<close>

definition quote_url :: "string \<Rightarrow> string \<Rightarrow> string" where
  "quote_url safe s =
     concat (map (\<lambda>c. if unreserved c \<or> c \<in> set safe then [c] else CHR ''%'' # hex_byte True c) s)"

section \<open>Comparing in constant time\<close>

text \<open>\<open>compare_digest\<close> raises a \<open>TypeError\<close> on text that is not ASCII.\<close>

definition is_ascii :: "string \<Rightarrow> bool" where
  "is_ascii s \<longleftrightarrow> list_all (\<lambda>c. (of_char c :: nat) < 128) s"

definition compare_digest :: "string \<Rightarrow> string \<Rightarrow> py_fault + bool" where
  "compare_digest a b = (if is_ascii a \<and> is_ascii b then Inr (a = b) else Inl Type_error)"

lemma compare_digest_Inr: "compare_digest a b = Inr r \<longleftrightarrow> is_ascii a \<and> is_ascii b \<and> r = (a = b)"
  by (auto simp: compare_digest_def)

lemma quote_url_id: "list_all unreserved s \<Longrightarrow> quote_url safe s = s"
  by (induction s) (simp_all add: quote_url_def)

end
