(* ===== verification/Auth_Api.thy ===== *)
theory Auth_Api
  imports Auth Web_Text
begin

text \<open>
  The handlers of \<open>api/v1/auth.py\<close> with \<open>auth/cookies.py\<close>, and the OAuth exchange with Google of
  \<open>auth/google_oauth.py\<close>. A handler sees the tables (\<open>accounts\<close>); when it ends with an error the
  transaction is rolled back and the caller keeps the old tables. The two rate limiters live outside the
  transaction: the handlers that use one take the whole \<open>api\<close> and return it on every path. A request is
  judged at one instant. Validation of the request body, audit log lines and header-only details (\<open>httponly\<close>,
  \<open>samesite\<close>, \<open>path\<close>, which never vary) are left out. Signing of the OAuth state, the key set of Google, its
  token endpoint and the URL builder of httpx are the parameters of \<open>google_env\<close>.
\<close>

section \<open>Settings, replies and failures\<close>

record auth_settings =
  se_google_client_id :: "string option"
  se_google_client_secret :: "string option"
  se_api_base_url :: string
  se_dashboard_url :: string
  se_is_production :: bool
  se_cookie_domain :: "string option"

datatype cookie =
    Set_cookie string string int bool "string option"
  | Delete_cookie string "string option"

record 'a web_reply =
  rp_body :: 'a
  rp_cookies :: "cookie list"

record failure =
  fl_error :: http_error
  fl_headers :: "(string \<times> string) list"

definition plain :: "'a \<Rightarrow> 'a web_reply" where "plain x = \<lparr>rp_body = x, rp_cookies = []\<rparr>"

definition fails :: "http_error \<Rightarrow> failure" where "fails e = \<lparr>fl_error = e, fl_headers = []\<rparr>"

definition bearer_challenge :: "string \<times> string" where "bearer_challenge = (''WWW-Authenticate'', ''Bearer'')"

text \<open>An exception no handler names ends in the catch-all handler of \<open>main.py\<close>.\<close>

definition unhandled :: failure where "unhandled = fails (Http 500 ''An unexpected error occurred.'')"

definition other_fault :: "auth_error \<Rightarrow> failure" where
  "other_fault e = (case e of Auth_db d \<Rightarrow> fails (Http_db d) | _ \<Rightarrow> unhandled)"

definition signed_in :: "account_env \<Rightarrow> request \<Rightarrow> accounts \<Rightarrow> failure + user" where
  "signed_in env rq s =
     map_err (\<lambda>e. if e = unauthorized then \<lparr>fl_error = e, fl_headers = [bearer_challenge]\<rparr> else fails e)
       (get_current_user env rq s)"

record client =
  cn_ip :: "string option"
  cn_agent :: "string option"

section \<open>Session cookies\<close>

definition ACCESS_TOKEN_COOKIE :: string where "ACCESS_TOKEN_COOKIE = ''costorah_access_token''"
definition REFRESH_TOKEN_COOKIE :: string where "REFRESH_TOKEN_COOKIE = ''costorah_refresh_token''"

definition set_session_cookies :: "account_env \<Rightarrow> auth_settings \<Rightarrow> token_pair \<Rightarrow> cookie list" where
  "set_session_cookies env st p =
     [Set_cookie ACCESS_TOKEN_COOKIE (tp_access_token p) (tp_expires_in p) (se_is_production st) (se_cookie_domain st),
      Set_cookie REFRESH_TOKEN_COOKIE (tp_refresh_token p) (en_refresh_days env * 24 * 60 * 60) (se_is_production st)
        (se_cookie_domain st)]"

definition clear_session_cookies :: "auth_settings \<Rightarrow> cookie list" where
  "clear_session_cookies st =
     [Delete_cookie ACCESS_TOKEN_COOKIE (se_cookie_domain st), Delete_cookie REFRESH_TOKEN_COOKIE (se_cookie_domain st)]"

section \<open>Public views\<close>

record user_public =
  up_id :: string
  up_email :: string
  up_username :: "string option"
  up_display_name :: string
  up_status :: string
  up_email_verified :: bool
  up_onboarding_completed :: bool
  up_avatar_url :: "string option"
  up_bio :: "string option"
  up_timezone :: "string option"
  up_created_at :: micros
  up_preferences :: metadata
  up_google_linked :: bool
  up_google_email :: "string option"
  up_last_login_provider :: "string option"
  up_password_configured :: bool

fun user_status_value :: "user_status \<Rightarrow> string" where
  "user_status_value US_ACTIVE = ''active''"
| "user_status_value US_INVITED = ''invited''"
| "user_status_value US_DISABLED = ''disabled''"

definition external_id :: "account_env \<Rightarrow> string \<Rightarrow> ident \<Rightarrow> string" where
  "external_id env kind i = kind @ ''_'' @ filter (\<lambda>c. c \<noteq> CHR ''-'') (en_uuid env i)"

definition build_user_public :: "account_env \<Rightarrow> user \<Rightarrow> user_public" where
  "build_user_public env u =
     \<lparr>up_id = external_id env ''usr'' (row_id u), up_email = us_email u, up_username = us_username u,
      up_display_name = us_display_name u, up_status = user_status_value (us_status u),
      up_email_verified = us_email_verified u, up_onboarding_completed = (us_onboarding_completed_at u \<noteq> None),
      up_avatar_url = us_avatar_url u, up_bio = us_bio u, up_timezone = us_timezone u,
      up_created_at = row_created_at u, up_preferences = us_preferences u,
      up_google_linked = (us_google_sub u \<noteq> None), up_google_email = us_google_email u,
      up_last_login_provider = us_last_login_provider u, up_password_configured = (us_password_hash u \<noteq> None)\<rparr>"

record workspace_public =
  wp_id :: string
  wp_name :: string
  wp_slug :: string
  wp_is_personal :: bool

definition workspace_view :: "account_env \<Rightarrow> organization \<Rightarrow> workspace_public" where
  "workspace_view env g =
     \<lparr>wp_id = en_uuid env (row_id g), wp_name = og_name g, wp_slug = og_slug g, wp_is_personal = og_is_personal g\<rparr>"

text \<open>The ORM object of a user the handler holds: its row after the statements of the service.\<close>

definition current_row :: "user \<Rightarrow> accounts \<Rightarrow> user" where
  "current_row u s = (case List.find (\<lambda>x. row_id x = row_id u) (ac_users s) of None \<Rightarrow> u | Some x \<Rightarrow> x)"

definition user_reply :: "account_env \<Rightarrow> user \<Rightarrow> accounts \<Rightarrow> failure + user_public web_reply \<times> accounts" where
  "user_reply env u s = Inr (plain (build_user_public env (current_row u s)), s)"

section \<open>Registration and login\<close>

record register_response =
  rr_email_verification_required :: bool
  rr_user :: user_public
  rr_workspace :: workspace_public

definition register_failure :: "auth_error \<Rightarrow> failure" where
  "register_failure e =
     (if e = Email_already_registered then fails (Http 409 ''An account with this email already exists'')
      else other_fault e)"

definition register_route ::
  "account_env \<Rightarrow> micros \<Rightarrow> register_body \<Rightarrow> accounts \<Rightarrow> failure + register_response web_reply \<times> accounts" where
  "register_route env now b s =
     and_then (map_err register_failure (register env now b s)) (\<lambda>((u, g), s).
       Inr (plain \<lparr>rr_email_verification_required = True, rr_user = build_user_public env (current_row u s),
                   rr_workspace = workspace_view env g\<rparr>, s))"

text \<open>The application state: the tables, the Redis server the limiters share, and the memory of each.\<close>

record 'r api =
  ap_accounts :: accounts
  ap_redis :: "'r redis_ops option"
  ap_server :: 'r
  ap_login_memory :: memory_backend
  ap_email_memory :: memory_backend

definition login_limiter :: "'r api \<Rightarrow> 'r backends" where
  "login_limiter a = \<lparr>bk_redis = ap_redis a, bk_server = ap_server a, bk_memory = ap_login_memory a\<rparr>"

definition email_limiter :: "'r api \<Rightarrow> 'r backends" where
  "email_limiter a = \<lparr>bk_redis = ap_redis a, bk_server = ap_server a, bk_memory = ap_email_memory a\<rparr>"

definition put_login_limiter :: "'r backends \<Rightarrow> 'r api \<Rightarrow> 'r api" where
  "put_login_limiter b a = a\<lparr>ap_server := bk_server b, ap_login_memory := bk_memory b\<rparr>"

definition put_email_limiter :: "'r backends \<Rightarrow> 'r api \<Rightarrow> 'r api" where
  "put_email_limiter b a = a\<lparr>ap_server := bk_server b, ap_email_memory := bk_memory b\<rparr>"

record clock =
  tm_now :: micros
  tm_mono :: secs

definition wall_seconds :: "clock \<Rightarrow> secs" where "wall_seconds c = of_int (tm_now c) / 1000000"

definition too_many :: "string \<Rightarrow> decision \<Rightarrow> failure" where
  "too_many detail d = \<lparr>fl_error = Http 429 detail, fl_headers = [(''Retry-After'', show_int (dc_retry_after d))]\<rparr>"

record token_response =
  tr_access_token :: string
  tr_refresh_token :: string
  tr_expires_in :: int

definition token_view :: "token_pair \<Rightarrow> token_response" where
  "token_view p =
     \<lparr>tr_access_token = tp_access_token p, tr_refresh_token = tp_refresh_token p, tr_expires_in = tp_expires_in p\<rparr>"

definition login_failure :: "auth_error \<Rightarrow> failure" where
  "login_failure e =
     (case e of
        Invalid_credentials \<Rightarrow> \<lparr>fl_error = Http 401 ''Invalid email or password'', fl_headers = [bearer_challenge]\<rparr>
      | Account_disabled \<Rightarrow> fails (Http 403 ''Your account has been disabled'')
      | Email_not_verified \<Rightarrow> fails (Http 403 ''Please verify your email before signing in.'')
      | _ \<Rightarrow> other_fault e)"

definition login_route ::
  "account_env \<Rightarrow> login_policy \<Rightarrow> auth_settings \<Rightarrow> clock \<Rightarrow> client \<Rightarrow> string \<Rightarrow> string \<Rightarrow> 'r api
   \<Rightarrow> (failure + (token_response \<times> user_public) web_reply) \<times> 'r api" where
  "login_route env p st c cl email password a =
     (let (d, b) = login_check p (wall_seconds c) (cn_ip cl) email (login_limiter a); a = put_login_limiter b a
      in if \<not> dc_allowed d then (Inl (too_many ''Too many login attempts. Please try again later.'' d), a)
         else case login env (tm_now c) email password (cn_ip cl) (cn_agent cl) (ap_accounts a) of
           Inl e \<Rightarrow>
             (Inl (login_failure e),
              if e = Invalid_credentials
              then put_login_limiter (record_failure p (wall_seconds c) (tm_mono c) email (login_limiter a)) a else a)
         | Inr ((pair, u), s) \<Rightarrow>
             (Inr \<lparr>rp_body = (token_view pair, build_user_public env (current_row u s)),
                   rp_cookies = set_session_cookies env st pair\<rparr>,
              (put_login_limiter (record_success email (login_limiter a)) a)\<lparr>ap_accounts := s\<rparr>))"

section \<open>The authenticated account\<close>

definition me_route :: "account_env \<Rightarrow> request \<Rightarrow> accounts \<Rightarrow> failure + user_public web_reply \<times> accounts" where
  "me_route env rq s = and_then (signed_in env rq s) (\<lambda>u. user_reply env u s)"

definition current_session_id :: "account_env \<Rightarrow> request \<Rightarrow> ident option" where
  "current_session_id env rq =
     (case request_token rq of
        None \<Rightarrow> None
      | Some t \<Rightarrow> if t = [] then None else map_option snd (en_decode_token env (rq_now rq) t))"

definition update_profile_route ::
  "account_env \<Rightarrow> request \<Rightarrow> profile_body \<Rightarrow> accounts \<Rightarrow> failure + user_public web_reply \<times> accounts" where
  "update_profile_route env rq b s =
     and_then (signed_in env rq s) (\<lambda>u.
     and_then (map_err (\<lambda>e. if e = Username_taken then fails (Http 409 ''This username is already taken'')
                            else other_fault e)
                (update_profile (rq_now rq) u b s)) (user_reply env u))"

definition update_preferences_route ::
  "account_env \<Rightarrow> request \<Rightarrow> metadata \<Rightarrow> accounts \<Rightarrow> failure + user_public web_reply \<times> accounts" where
  "update_preferences_route env rq patch s =
     and_then (signed_in env rq s) (\<lambda>u.
     and_then (map_err other_fault (update_user_preferences (rq_now rq) u patch s)) (user_reply env u))"

definition change_password_route ::
  "account_env \<Rightarrow> request \<Rightarrow> string \<Rightarrow> string \<Rightarrow> accounts \<Rightarrow> failure + string web_reply \<times> accounts" where
  "change_password_route env rq current_password new_password s =
     and_then (signed_in env rq s) (\<lambda>u.
       let (sid, s) = (case current_session_id env rq of Some i \<Rightarrow> (i, s) | None \<Rightarrow> draw s)
       in and_then (map_err (\<lambda>e. if e = Invalid_credentials then fails (Http 401 ''Current password is incorrect'')
                                 else other_fault e)
                     (change_password env (rq_now rq) u current_password new_password sid s)) (\<lambda>s.
            Inr (plain ''Password changed successfully'', s)))"

definition set_password_route ::
  "account_env \<Rightarrow> request \<Rightarrow> string \<Rightarrow> accounts \<Rightarrow> failure + user_public web_reply \<times> accounts" where
  "set_password_route env rq password s =
     and_then (signed_in env rq s) (\<lambda>u.
     and_then (map_err (\<lambda>e. if e = Password_already_configured
                            then fails (Http 409 ''A password is already set for this account - use change-password instead'')
                            else other_fault e)
                (set_password env (rq_now rq) u password s)) (user_reply env u))"

definition upgrade_to_business_route ::
  "account_env \<Rightarrow> request \<Rightarrow> string option \<Rightarrow> accounts \<Rightarrow> failure + workspace_public web_reply \<times> accounts" where
  "upgrade_to_business_route env rq name s =
     and_then (signed_in env rq s) (\<lambda>u.
     and_then (map_err (\<lambda>e. if e = No_personal_workspace then fails (Http 404 ''No personal workspace found to upgrade'')
                            else other_fault e)
                (upgrade_to_business (rq_now rq) u name s)) (\<lambda>(g, s). Inr (plain (workspace_view env g), s)))"

definition delete_failure :: "auth_error \<Rightarrow> failure" where
  "delete_failure e =
     (case e of
        Invalid_credentials \<Rightarrow> fails (Http 401 ''Password is incorrect'')
      | Owner_of_shared_workspace n \<Rightarrow>
          fails (Http 409 (''You are the sole owner of '' @ quoted n @ '', which has other members. ''
            @ ''Transfer ownership or remove its other members before deleting your account.''))
      | _ \<Rightarrow> other_fault e)"

definition delete_account_route ::
  "account_env \<Rightarrow> auth_settings \<Rightarrow> request \<Rightarrow> string \<Rightarrow> accounts \<Rightarrow> failure + unit web_reply \<times> accounts" where
  "delete_account_route env st rq password s =
     and_then (signed_in env rq s) (\<lambda>u.
     and_then (map_err delete_failure (delete_account env (rq_now rq) u password s)) (\<lambda>s.
       Inr (\<lparr>rp_body = (), rp_cookies = clear_session_cookies st\<rparr>, s)))"

definition complete_onboarding_route ::
  "account_env \<Rightarrow> request \<Rightarrow> accounts \<Rightarrow> failure + user_public web_reply \<times> accounts" where
  "complete_onboarding_route env rq s =
     and_then (signed_in env rq s) (\<lambda>u.
     and_then (map_err other_fault (complete_onboarding (rq_now rq) u s)) (user_reply env u))"

definition logout_route ::
  "account_env \<Rightarrow> auth_settings \<Rightarrow> request \<Rightarrow> accounts \<Rightarrow> failure + unit web_reply \<times> accounts" where
  "logout_route env st rq s =
     and_then (signed_in env rq s) (\<lambda>u.
       Inr (\<lparr>rp_body = (), rp_cookies = clear_session_cookies st\<rparr>,
            case current_session_id env rq of None \<Rightarrow> s | Some i \<Rightarrow> logout (rq_now rq) i s))"

definition refresh_route ::
  "account_env \<Rightarrow> auth_settings \<Rightarrow> micros \<Rightarrow> string \<Rightarrow> accounts \<Rightarrow> failure + token_response web_reply \<times> accounts" where
  "refresh_route env st now token s =
     and_then (map_err (\<lambda>e. if e = Invalid_token
                            then \<lparr>fl_error = Http 401 ''Refresh token is invalid or expired'', fl_headers = [bearer_challenge]\<rparr>
                            else other_fault e)
                (refresh env now token s)) (\<lambda>(pair, s).
       Inr (\<lparr>rp_body = token_view pair, rp_cookies = set_session_cookies env st pair\<rparr>, s))"

section \<open>Verification and reset e-mails\<close>

definition token_failure :: "string \<Rightarrow> auth_error \<Rightarrow> failure" where
  "token_failure detail e = (if e = Invalid_token then fails (Http 400 detail) else other_fault e)"

text \<open>Both \<open>verify-email\<close> routes; an address that is verified already is a success.\<close>

definition verify_email_route :: "account_env \<Rightarrow> micros \<Rightarrow> string \<Rightarrow> accounts \<Rightarrow> failure + string web_reply \<times> accounts" where
  "verify_email_route env now token s =
     (case verify_email env now token s of
        Inl e \<Rightarrow>
          if e = Email_already_verified then Inr (plain ''Email address is already verified'', s)
          else Inl (token_failure ''Verification token is invalid or expired'' e)
      | Inr (u, s) \<Rightarrow> Inr (plain ''Email verified successfully'', s))"

text \<open>A route that sends an e-mail: the window of its scope and address is counted first.\<close>

definition rate_limited_email ::
  "string \<Rightarrow> string \<Rightarrow> string \<Rightarrow> clock \<Rightarrow> string \<Rightarrow> (accounts \<Rightarrow> auth_error + accounts) \<Rightarrow> 'r api
   \<Rightarrow> (failure + string web_reply) \<times> 'r api" where
  "rate_limited_email scope too_many_text answer c email action a =
     (let (d, b) = check_and_record EMAIL_RATE_LIMIT_WINDOW_SECONDS EMAIL_RATE_LIMIT_MAX_ATTEMPTS (wall_seconds c)
                     scope (py_lower email) (email_limiter a);
          a = put_email_limiter b a
      in if \<not> dc_allowed d then (Inl (too_many too_many_text d), a)
         else case action (ap_accounts a) of
           Inl e \<Rightarrow> (Inl (other_fault e), a)
         | Inr s \<Rightarrow> (Inr (plain answer), a\<lparr>ap_accounts := s\<rparr>))"

definition resend_verification_route ::
  "account_env \<Rightarrow> clock \<Rightarrow> string \<Rightarrow> 'r api \<Rightarrow> (failure + string web_reply) \<times> 'r api" where
  "resend_verification_route env c email =
     rate_limited_email ''verify'' ''Too many verification emails requested. Please try again later.''
       (''If an account with that email exists and isn'' @ CHR 0x27 # ''t verified, a new link has been sent'') c email
       (resend_verification_email env (tm_now c) email)"

definition forgot_password_route ::
  "account_env \<Rightarrow> clock \<Rightarrow> string \<Rightarrow> 'r api \<Rightarrow> (failure + string web_reply) \<times> 'r api" where
  "forgot_password_route env c email =
     rate_limited_email ''reset'' ''Too many reset emails requested. Please try again later.''
       ''If an account with that email exists, a reset link has been sent'' c email
       (\<lambda>s. and_then (create_password_reset_token env (tm_now c) email s) (\<lambda>(raw, s). Inr s))"

definition reset_password_route ::
  "account_env \<Rightarrow> micros \<Rightarrow> string \<Rightarrow> string \<Rightarrow> accounts \<Rightarrow> failure + string web_reply \<times> accounts" where
  "reset_password_route env now token password s =
     and_then (map_err (token_failure ''Reset token is invalid or expired'') (reset_password env now token password s))
       (\<lambda>s. Inr (plain ''Password has been reset successfully'', s))"

section \<open>The exchange with Google\<close>

text \<open>\<open>G_fault\<close> is an exception that is not a \<open>GoogleOAuthError\<close>.\<close>

datatype google_error = G_not_configured | G_state | G_exchange | G_invalid_token | G_fault py_fault

record state_claims =
  sc_csrf_id :: string
  sc_nonce :: string
  sc_code_verifier :: string
  sc_mode :: string
  sc_redirect_path :: "string option"
  sc_user_id :: "string option"
  sc_iat :: int
  sc_exp :: int

record oauth_flow =
  fw_csrf_id :: string
  fw_nonce :: string
  fw_code_verifier :: string
  fw_mode :: string
  fw_redirect_path :: string
  fw_user_id :: "string option"

text \<open>The claims of an ID token that the code reads, and the answer of the token endpoint: unreachable, or a
  status with its decoded body (\<open>None\<close> when the body is not JSON).\<close>

record id_claims =
  ic_iss :: "string option"
  ic_nonce :: "string option"
  ic_email :: "string option"
  ic_email_verified :: bool
  ic_sub :: "string option"
  ic_name :: "string option"
  ic_picture :: "string option"

datatype token_answer = Unreachable | Token_answer nat "json option"

text \<open>\<open>ge_read_state\<close> checks signature, expiry (30 s leeway) and required claims at the instant given.
  \<open>ge_id_claims now token key audience\<close> is the decoding of an ID token.\<close>

record google_env =
  ge_random :: "nat \<Rightarrow> nat \<Rightarrow> string"
  ge_sha256 :: "string \<Rightarrow> string"
  ge_sign_state :: "state_claims \<Rightarrow> string"
  ge_read_state :: "micros \<Rightarrow> string \<Rightarrow> state_claims option"
  ge_url :: "string \<Rightarrow> (string \<times> string) list \<Rightarrow> string"
  ge_token_endpoint :: "(string \<times> string) list \<Rightarrow> token_answer"
  ge_signing_key :: "json \<Rightarrow> string option"
  ge_id_claims :: "micros \<Rightarrow> json \<Rightarrow> string \<Rightarrow> string \<Rightarrow> id_claims option"
  ge_parse_uuid :: "string \<Rightarrow> ident option"

definition GOOGLE_AUTHORIZE_URL :: string where
  "GOOGLE_AUTHORIZE_URL = ''https://accounts.google.com/o/oauth2/v2/auth''"

definition GOOGLE_ISSUERS :: "string list" where
  "GOOGLE_ISSUERS = [''https://accounts.google.com'', ''accounts.google.com'']"

definition OAUTH_STATE_COOKIE :: string where "OAUTH_STATE_COOKIE = ''costorah_oauth_state''"
definition STATE_TTL_MINUTES :: int where "STATE_TTL_MINUTES = 10"

definition truthy :: "string option \<Rightarrow> bool" where "truthy v \<longleftrightarrow> v \<noteq> None \<and> v \<noteq> Some []"

definition pkce_challenge :: "google_env \<Rightarrow> string \<Rightarrow> string" where
  "pkce_challenge ge verifier = rstrip_char (CHR ''='') (urlsafe_b64encode (ge_sha256 ge verifier))"

definition flow_claims :: "micros \<Rightarrow> oauth_flow \<Rightarrow> state_claims" where
  "flow_claims now w =
     \<lparr>sc_csrf_id = fw_csrf_id w, sc_nonce = fw_nonce w, sc_code_verifier = fw_code_verifier w, sc_mode = fw_mode w,
      sc_redirect_path = Some (fw_redirect_path w), sc_user_id = fw_user_id w, sc_iat = now div 1000000,
      sc_exp = (now + STATE_TTL_MINUTES * 60000000) div 1000000\<rparr>"

definition new_flow :: "google_env \<Rightarrow> string \<Rightarrow> string \<Rightarrow> string option \<Rightarrow> accounts \<Rightarrow> oauth_flow \<times> accounts" where
  "new_flow ge mode path user_id s =
     (let (i, s) = draw s; (j, s) = draw s; (k, s) = draw s
      in (\<lparr>fw_csrf_id = ge_random ge 24 i, fw_nonce = ge_random ge 24 j,
           fw_code_verifier = take 128 (ge_random ge 64 k), fw_mode = mode, fw_redirect_path = path,
           fw_user_id = user_id\<rparr>, s))"

definition encode_oauth_state ::
  "google_env \<Rightarrow> micros \<Rightarrow> string \<Rightarrow> string \<Rightarrow> string option \<Rightarrow> accounts \<Rightarrow> (string \<times> oauth_flow) \<times> accounts" where
  "encode_oauth_state ge now mode path user_id s =
     (let (w, s) = new_flow ge mode path user_id s in ((ge_sign_state ge (flow_claims now w), w), s))"

definition decode_oauth_state :: "google_env \<Rightarrow> micros \<Rightarrow> string \<Rightarrow> google_error + oauth_flow" where
  "decode_oauth_state ge now token =
     (case ge_read_state ge now token of
        None \<Rightarrow> Inl G_state
      | Some p \<Rightarrow>
          Inr \<lparr>fw_csrf_id = sc_csrf_id p, fw_nonce = sc_nonce p, fw_code_verifier = sc_code_verifier p,
               fw_mode = sc_mode p, fw_redirect_path = (case sc_redirect_path p of None \<Rightarrow> ''/'' | Some r \<Rightarrow> r),
               fw_user_id = sc_user_id p\<rparr>)"

definition verify_state_match :: "string option \<Rightarrow> string option \<Rightarrow> google_error + unit" where
  "verify_state_match cookie_value query_value =
     (case (cookie_value, query_value) of
        (Some c, Some q) \<Rightarrow>
          if c = [] \<or> q = [] then Inl G_state
          else and_then (map_err G_fault (compare_digest c q)) (\<lambda>same. guard same G_state)
      | _ \<Rightarrow> Inl G_state)"

definition build_authorize_url ::
  "google_env \<Rightarrow> auth_settings \<Rightarrow> string \<Rightarrow> string \<Rightarrow> string \<Rightarrow> string \<Rightarrow> string option \<Rightarrow> google_error + string" where
  "build_authorize_url ge st redirect_uri state nonce challenge login_hint =
     (case se_google_client_id st of
        None \<Rightarrow> Inl G_not_configured
      | Some client_id \<Rightarrow>
          if client_id = [] then Inl G_not_configured
          else Inr (ge_url ge GOOGLE_AUTHORIZE_URL
            ([(''client_id'', client_id), (''redirect_uri'', redirect_uri), (''response_type'', ''code''),
              (''scope'', ''openid email profile''), (''state'', state), (''nonce'', nonce),
              (''code_challenge'', challenge), (''code_challenge_method'', ''S256''), (''access_type'', ''online''),
              (''prompt'', ''select_account'')]
             @ (case login_hint of None \<Rightarrow> [] | Some h \<Rightarrow> if h = [] then [] else [(''login_hint'', h)]))))"

text \<open>\<open>"id_token" in body\<close> and \<open>body["id_token"]\<close> on whatever JSON the endpoint sent.\<close>

fun body_has :: "string \<Rightarrow> json \<Rightarrow> py_fault + bool" where
  "body_has k (Js_dict d) = Inr (k \<in> set (map fst d))"
| "body_has k (Js_list xs) = Inr (Js_str k \<in> set xs)"
| "body_has k (Js_str t) = Inr (contains k t)"
| "body_has k _ = Inl Type_error"

fun body_item :: "string \<Rightarrow> json \<Rightarrow> py_fault + json" where
  "body_item k (Js_dict d) = Inr (case map_of d k of None \<Rightarrow> Js_null | Some v \<Rightarrow> v)"
| "body_item k _ = Inl Type_error"

definition google_oauth_configured :: "auth_settings \<Rightarrow> bool" where
  "google_oauth_configured st \<longleftrightarrow> truthy (se_google_client_id st) \<and> truthy (se_google_client_secret st)"

definition exchange_code_for_tokens ::
  "google_env \<Rightarrow> auth_settings \<Rightarrow> string \<Rightarrow> string \<Rightarrow> string \<Rightarrow> google_error + json" where
  "exchange_code_for_tokens ge st code redirect_uri verifier =
     (if \<not> google_oauth_configured st then Inl G_not_configured
      else case ge_token_endpoint ge
                  [(''client_id'', the (se_google_client_id st)), (''client_secret'', the (se_google_client_secret st)),
                   (''code'', code), (''code_verifier'', verifier), (''grant_type'', ''authorization_code''),
                   (''redirect_uri'', redirect_uri)] of
             Unreachable \<Rightarrow> Inl G_exchange
           | Token_answer status body \<Rightarrow>
               if status \<noteq> 200 then Inl G_exchange
               else case body of
                 None \<Rightarrow> Inl (G_fault Value_error)
               | Some b \<Rightarrow>
                   and_then (map_err G_fault (body_has ''id_token'' b)) (\<lambda>present.
                     if present then Inr b else Inl G_exchange))"

definition before_at :: "string \<Rightarrow> string" where "before_at email = takeWhile (\<lambda>c. c \<noteq> CHR ''@'') email"

definition verify_google_id_token ::
  "google_env \<Rightarrow> auth_settings \<Rightarrow> micros \<Rightarrow> json \<Rightarrow> string \<Rightarrow> google_error + google_identity" where
  "verify_google_id_token ge st now id_token expected_nonce =
     (if \<not> truthy (se_google_client_id st) then Inl G_not_configured
      else case Option.bind (ge_signing_key ge id_token)
                  (\<lambda>key. ge_id_claims ge now id_token key (the (se_google_client_id st))) of
             None \<Rightarrow> Inl G_invalid_token
           | Some cl \<Rightarrow>
               if (case ic_iss cl of None \<Rightarrow> True | Some i \<Rightarrow> i \<notin> set GOOGLE_ISSUERS) then Inl G_invalid_token
               else if \<not> truthy (ic_nonce cl) then Inl G_invalid_token
               else and_then (map_err G_fault (compare_digest (the (ic_nonce cl)) expected_nonce)) (\<lambda>same.
                 if \<not> same then Inl G_invalid_token
                 else if \<not> truthy (ic_email cl) then Inl G_invalid_token
                 else if \<not> ic_email_verified cl then Inl G_invalid_token
                 else if \<not> truthy (ic_sub cl) then Inl G_invalid_token
                 else Inr \<lparr>gi_sub = the (ic_sub cl), gi_email = the (ic_email cl),
                           gi_display_name = (if truthy (ic_name cl) then the (ic_name cl)
                                              else before_at (the (ic_email cl))),
                           gi_avatar_url = ic_picture cl\<rparr>))"

text \<open>\<open>parse_user_id\<close>: \<open>uuid.UUID\<close> raises on text that is no UUID.\<close>

definition parse_user_id :: "google_env \<Rightarrow> string option \<Rightarrow> py_fault + ident option" where
  "parse_user_id ge raw =
     (case raw of
        None \<Rightarrow> Inr None
      | Some r \<Rightarrow> (case ge_parse_uuid ge r of None \<Rightarrow> Inl Value_error | Some i \<Rightarrow> Inr (Some i)))"

section \<open>The routes of Google sign-in\<close>

definition google_redirect_uri :: "auth_settings \<Rightarrow> string" where
  "google_redirect_uri st = rstrip_char (CHR ''/'') (se_api_base_url st) @ ''/v1/auth/google/callback''"

definition oauth_state_cookie :: "auth_settings \<Rightarrow> string \<Rightarrow> cookie" where
  "oauth_state_cookie st token = Set_cookie OAUTH_STATE_COOKIE token (STATE_TTL_MINUTES * 60) (se_is_production st) None"

definition clear_oauth_state_cookie :: cookie where
  "clear_oauth_state_cookie = Delete_cookie OAUTH_STATE_COOKIE None"

definition google_unavailable :: failure where
  "google_unavailable = fails (Http 503 ''Google sign-in is not configured on this deployment'')"

text \<open>The common part of \<open>google/start\<close> and \<open>google/link\<close>: a state, its URL, and the cookie of the state.\<close>

definition begin_google ::
  "google_env \<Rightarrow> auth_settings \<Rightarrow> micros \<Rightarrow> string \<Rightarrow> string \<Rightarrow> string option \<Rightarrow> string option \<Rightarrow> accounts
   \<Rightarrow> failure + string web_reply \<times> accounts" where
  "begin_google ge st now mode path user_id hint s =
     (let ((token, flow), s) = encode_oauth_state ge now mode path user_id s
      in and_then (map_err (\<lambda>_. unhandled) (build_authorize_url ge st (google_redirect_uri st) token (fw_nonce flow)
             (pkce_challenge ge (fw_code_verifier flow)) hint)) (\<lambda>url.
           Inr (\<lparr>rp_body = url, rp_cookies = [oauth_state_cookie st token]\<rparr>, s)))"

definition google_start_route ::
  "google_env \<Rightarrow> auth_settings \<Rightarrow> micros \<Rightarrow> accounts \<Rightarrow> failure + string web_reply \<times> accounts" where
  "google_start_route ge st now s =
     (if \<not> google_oauth_configured st then Inl google_unavailable
      else begin_google ge st now ''login'' ''/'' None None s)"

definition google_link_start_route ::
  "account_env \<Rightarrow> google_env \<Rightarrow> auth_settings \<Rightarrow> request \<Rightarrow> accounts \<Rightarrow> failure + string web_reply \<times> accounts" where
  "google_link_start_route env ge st rq s =
     and_then (signed_in env rq s) (\<lambda>u.
       if \<not> google_oauth_configured st then Inl google_unavailable
       else begin_google ge st (rq_now rq) ''link'' ''/settings'' (Some (en_uuid env (row_id u))) (Some (us_email u)) s)"

text \<open>The page the browser is sent to; the session travels in the fragment.\<close>

definition handoff_payload :: "account_env \<Rightarrow> token_pair \<Rightarrow> user \<Rightarrow> organization option \<Rightarrow> json" where
  "handoff_payload env pair u org =
     Js_dict
      ([(''access_token'', Js_str (tp_access_token pair)), (''refresh_token'', Js_str (tp_refresh_token pair)),
        (''user'', Js_dict
          [(''id'', Js_str (external_id env ''usr'' (row_id u))), (''email'', Js_str (us_email u)),
           (''username'', (case us_username u of None \<Rightarrow> Js_null | Some n \<Rightarrow> Js_str n)),
           (''display_name'', Js_str (us_display_name u)), (''status'', Js_str (user_status_value (us_status u))),
           (''email_verified'', Js_bool (us_email_verified u)),
           (''onboarding_completed'', Js_bool (us_onboarding_completed_at u \<noteq> None)),
           (''password_configured'', Js_bool (us_password_hash u \<noteq> None))])]
       @ (case org of
            None \<Rightarrow> []
          | Some g \<Rightarrow>
              [(''workspace'', Js_dict
                 [(''id'', Js_str (en_uuid env (row_id g))), (''name'', Js_str (og_name g)),
                  (''is_personal'', Js_bool (og_is_personal g))])]))"

definition dashboard_base :: "auth_settings \<Rightarrow> string" where
  "dashboard_base st = rstrip_char (CHR ''/'') (se_dashboard_url st)"

definition build_dashboard_handoff_url ::
  "account_env \<Rightarrow> auth_settings \<Rightarrow> string \<Rightarrow> token_pair \<Rightarrow> user \<Rightarrow> organization option \<Rightarrow> string" where
  "build_dashboard_handoff_url env st path pair u org =
     dashboard_base st @ path @ ''#session=''
       @ quote_url [] (b64encode (json_dumps (\<lambda>_. []) (handoff_payload env pair u org)))"

definition google_fail :: "auth_settings \<Rightarrow> string \<Rightarrow> string web_reply" where
  "google_fail st reason =
     \<lparr>rp_body = dashboard_base st @ ''/login?google_error='' @ quote_url ''/'' reason, rp_cookies = [clear_oauth_state_cookie]\<rparr>"

text \<open>The callback before it touches the tables: the flow of the state, then the identity Google vouches for.
  A failure is either a redirect with its reason or an exception nobody catches.\<close>

datatype callback_fault = Redirected string | Uncaught

definition callback_flow ::
  "google_env \<Rightarrow> micros \<Rightarrow> string option \<Rightarrow> string \<Rightarrow> callback_fault + oauth_flow" where
  "callback_flow ge now cookie_state state =
     map_err (\<lambda>e. case e of G_fault _ \<Rightarrow> Uncaught | _ \<Rightarrow> Redirected ''invalid_state'')
       (and_then (verify_state_match cookie_state (Some state)) (\<lambda>_. decode_oauth_state ge now state))"

definition callback_identity ::
  "google_env \<Rightarrow> auth_settings \<Rightarrow> micros \<Rightarrow> string \<Rightarrow> oauth_flow \<Rightarrow> callback_fault + google_identity" where
  "callback_identity ge st now code flow =
     map_err (\<lambda>e. case e of G_fault _ \<Rightarrow> Uncaught | G_invalid_token \<Rightarrow> Redirected ''invalid_token''
                          | _ \<Rightarrow> Redirected ''token_exchange_failed'')
       (and_then (exchange_code_for_tokens ge st code (google_redirect_uri st) (fw_code_verifier flow)) (\<lambda>body.
        and_then (map_err G_fault (body_item ''id_token'' body)) (\<lambda>id_token.
          verify_google_id_token ge st now id_token (fw_nonce flow))))"

definition callback_link ::
  "google_env \<Rightarrow> auth_settings \<Rightarrow> micros \<Rightarrow> oauth_flow \<Rightarrow> google_identity \<Rightarrow> accounts
   \<Rightarrow> failure + string web_reply \<times> accounts" where
  "callback_link ge st now flow gi s =
     and_then (map_err (\<lambda>_. unhandled) (parse_user_id ge (fw_user_id flow))) (\<lambda>target.
     and_then (case target of None \<Rightarrow> Inr None
               | Some i \<Rightarrow> map_err (\<lambda>d. fails (Http_db d)) (repo_get i (ac_users s))) (\<lambda>u.
     case u of
       None \<Rightarrow> Inr (google_fail st ''link_target_not_found'', s)
     | Some u \<Rightarrow>
         (case link_google now u (gi_sub gi) (gi_email gi) s of
            Inl e \<Rightarrow> if e = Google_already_linked then Inr (google_fail st ''already_linked'', s) else Inl (other_fault e)
          | Inr s \<Rightarrow>
              Inr (\<lparr>rp_body = dashboard_base st @ ''/settings?google_linked=1'', rp_cookies = [clear_oauth_state_cookie]\<rparr>, s))))"

definition callback_login ::
  "account_env \<Rightarrow> auth_settings \<Rightarrow> micros \<Rightarrow> client \<Rightarrow> google_identity \<Rightarrow> accounts
   \<Rightarrow> failure + string web_reply \<times> accounts" where
  "callback_login env st now cl gi s =
     and_then (map_err other_fault (login_or_register_with_google env now gi (cn_ip cl) (cn_agent cl) s))
       (\<lambda>((pair, u, org, is_new), s).
          Inr (\<lparr>rp_body = build_dashboard_handoff_url env st (if is_new then ''/onboarding'' else ''/'') pair
                            (current_row u s) org,
                rp_cookies = set_session_cookies env st pair @ [clear_oauth_state_cookie]\<rparr>, s))"

definition google_callback_route ::
  "account_env \<Rightarrow> google_env \<Rightarrow> auth_settings \<Rightarrow> micros \<Rightarrow> client \<Rightarrow> string option \<Rightarrow> string option \<Rightarrow> string option
   \<Rightarrow> string option \<Rightarrow> accounts \<Rightarrow> failure + string web_reply \<times> accounts" where
  "google_callback_route env ge st now cl cookie_state code state error s =
     (if truthy error then Inr (google_fail st ''google_denied'', s)
      else if \<not> google_oauth_configured st then Inr (google_fail st ''not_configured'', s)
      else if \<not> truthy code \<or> \<not> truthy state then Inr (google_fail st ''missing_code_or_state'', s)
      else case and_then (callback_flow ge now cookie_state (the state)) (\<lambda>flow.
                  and_then (callback_identity ge st now (the code) flow) (\<lambda>gi. Inr (flow, gi))) of
             Inl Uncaught \<Rightarrow> Inl unhandled
           | Inl (Redirected reason) \<Rightarrow> Inr (google_fail st reason, s)
           | Inr (flow, gi) \<Rightarrow>
               if fw_mode flow = ''link'' then callback_link ge st now flow gi s
               else callback_login env st now cl gi s)"

definition google_unlink_route :: "account_env \<Rightarrow> request \<Rightarrow> accounts \<Rightarrow> failure + user_public web_reply \<times> accounts" where
  "google_unlink_route env rq s =
     and_then (signed_in env rq s) (\<lambda>u.
     and_then (map_err (\<lambda>e. if e = Last_auth_method
                            then fails (Http 400 (''This account has no password set - Google is the only way to sign in. ''
                                                  @ ''Set a password before unlinking Google.''))
                            else other_fault e)
                (unlink_google (rq_now rq) u s)) (user_reply env u))"

end
