(* ===== verification/Access_Control.thy ===== *)
theory Access_Control
  imports Access
begin

text \<open>
  What the handlers of \<open>Access\<close> guarantee together: any sequence of requests by any callers is a run of
  \<open>handle\<close>, with an error rolling its transaction back. An organization keeps an owner, only owners make
  owners (except through a resent invitation), and an API key gives exactly its scopes in its own
  organization.
\<close>

section \<open>Runs of requests\<close>

datatype access_request =
    Update_organization ident org_changes
  | Delete_organization ident
  | Invite_member ident string string
  | Update_member_role ident ident string
  | Remove_member ident ident
  | Transfer_ownership ident ident
  | Create_invitation ident string string
  | Accept_invitation string
  | Decline_invitation string
  | Resend_invitation ident
  | Cancel_invitation ident
  | List_api_keys "string option" ident
  | Create_api_key ident key_body
  | Update_api_key ident ident org_changes
  | Delete_api_key ident ident

fun handle ::
  "account_env \<Rightarrow> request \<Rightarrow> access_request \<Rightarrow> 'r backends \<Rightarrow> accounts \<Rightarrow> (http_error + accounts) \<times> 'r backends" where
  "handle env rq (Update_organization org c) b s = (update_organization env rq org c s, b)"
| "handle env rq (Delete_organization org) b s = (delete_organization env rq org s, b)"
| "handle env rq (Invite_member org email role) b s = (and_then (invite_member env rq org email role s) (\<lambda>(_, s). Inr s), b)"
| "handle env rq (Update_member_role org i role) b s =
     (and_then (update_member_role env rq org i role s) (\<lambda>(_, s). Inr s), b)"
| "handle env rq (Remove_member org i) b s = (remove_member env rq org i s, b)"
| "handle env rq (Transfer_ownership org i) b s = (and_then (transfer_ownership env rq org i s) (\<lambda>(_, s). Inr s), b)"
| "handle env rq (Create_invitation org email role) b s =
     (let (r, b) = create_invitation_route env rq org email role s b in (and_then r (\<lambda>(_, s). Inr s), b))"
| "handle env rq (Accept_invitation token) b s = (and_then (accept_invitation_route env rq token s) (\<lambda>(_, s). Inr s), b)"
| "handle env rq (Decline_invitation token) b s = (decline_invitation_route env rq token s, b)"
| "handle env rq (Resend_invitation i) b s = (resend_invitation_route env rq i s, b)"
| "handle env rq (Cancel_invitation i) b s = (cancel_invitation_route env rq i s, b)"
| "handle env rq (List_api_keys h org) b s = (and_then (list_api_keys env rq h org s) (\<lambda>(_, s). Inr s), b)"
| "handle env rq (Create_api_key org body) b s = (and_then (create_api_key env rq org body s) (\<lambda>(_, s). Inr s), b)"
| "handle env rq (Update_api_key org i c) b s = (update_api_key env rq org i c s, b)"
| "handle env rq (Delete_api_key org i) b s = (delete_api_key env rq org i s, b)"

fun serve :: "account_env \<Rightarrow> (request \<times> access_request) list \<Rightarrow> 'r backends \<Rightarrow> accounts \<Rightarrow> accounts" where
  "serve env [] b s = s"
| "serve env ((rq, q) # qs) b s =
     (let (r, b) = handle env rq q b s in serve env qs b (case r of Inl _ \<Rightarrow> s | Inr s' \<Rightarrow> s'))"

section \<open>Which tables a step touches\<close>

lemma draw_members [simp]: "ac_members (snd (draw s)) = ac_members s"
  by (simp add: draw_def)

lemma send_email_members [simp]: "ac_members (send_email e s) = ac_members s"
  by (simp add: send_email_def)

lemma change_invitation_members [simp]: "ac_members (change_invitation now i f s) = ac_members s"
  by (simp add: change_invitation_def)

lemma fire_alert_members [simp]: "ac_members (fire_alert_safely env now f s) = ac_members s"
  by (simp add: fire_alert_safely_def draw_def split: sum.splits)

lemma insert_invitation_members: "insert_invitation v s = Inr s' \<Longrightarrow> ac_members s' = ac_members s"
  by (auto simp: insert_invitation_def and_then_Inr_iff)

lemma insert_key_members: "insert_key k s = Inr s' \<Longrightarrow> ac_members s' = ac_members s"
  by (auto simp: insert_key_def and_then_Inr_iff)

lemma insert_membership_Inr:
  "insert_membership m s = Inr s' \<longleftrightarrow>
     row_id m \<notin> row_id ` set (ac_members s) \<and> uq_memberships (ac_members s @ [m])
     \<and> s' = s\<lparr>ac_members := ac_members s @ [m]\<rparr>"
  by (auto simp: insert_membership_def and_then_Inr_iff repo_create_Inr)

lemma or_else_Inr [simp]: "or_else e r = Inr x \<longleftrightarrow> r = Inr (Some x)"
  by (auto simp: or_else_def split: sum.splits option.splits)

lemmas step_defs = and_then_Inr_iff split_def Let_def

lemma create_invitation_members:
  "create_invitation env now g email role u s = Inr (v, s') \<Longrightarrow> ac_members s' = ac_members s"
  by (auto simp: create_invitation_def step_defs dest!: insert_invitation_members split: if_splits)

lemma resend_members [simp]: "ac_members (resend_invitation env now v g s) = ac_members s"
  by (simp add: resend_invitation_def split_def Let_def)

lemma cancel_members [simp]: "ac_members (cancel_invitation now v g s) = ac_members s"
  by (simp add: cancel_invitation_def)

lemma decline_members: "decline_invitation env now token s = Inr s' \<Longrightarrow> ac_members s' = ac_members s"
  by (auto simp: decline_invitation_def elim!: and_then_InrE split: option.split_asm)

lemma authenticate_key_members:
  "authenticate_key env now raw s = Inr (c, s') \<Longrightarrow> ac_members s' = ac_members s"
  by (auto simp: authenticate_key_def elim!: and_then_InrE split: option.split_asm if_split_asm)

lemma list_api_keys_members: "list_api_keys env rq h org s = Inr (ks, s') \<Longrightarrow> ac_members s' = ac_members s"
  by (auto simp: list_api_keys_def require_membership_or_api_key_def get_membership_or_api_key_def
      authenticate_api_key_def elim!: and_then_InrE split: if_split_asm sum.split_asm prod.split_asm
      dest!: authenticate_key_members)

lemma create_key_members: "create_key env now org b u s = Inr (r, s') \<Longrightarrow> ac_members s' = ac_members s"
  by (auto simp: create_key_def step_defs dest!: insert_key_members)

text \<open>The rows a successful request leaves in the membership table: unchanged, one more, one role changed
  or one deleted, or an ownership handed over.\<close>

datatype member_change = Same | Added membership | Role_set ident membership_role | Gone ident | Handed ident ident

fun apply_change :: "micros \<Rightarrow> member_change \<Rightarrow> membership list \<Rightarrow> membership list" where
  "apply_change now Same rows = rows"
| "apply_change now (Added m) rows = rows @ [m]"
| "apply_change now (Role_set i role) rows = repo_update now i (\<lambda>m. m\<lparr>ms_role := role\<rparr>) rows"
| "apply_change now (Gone i) rows = repo_soft_delete now None i rows"
| "apply_change now (Handed i j) rows =
     repo_update now j (\<lambda>m. m\<lparr>ms_role := ADMIN\<rparr>) (repo_update now i (\<lambda>m. m\<lparr>ms_role := OWNER\<rparr>) rows)"

definition caller_of :: "account_env \<Rightarrow> request \<Rightarrow> ident \<Rightarrow> accounts \<Rightarrow> permission \<Rightarrow> membership \<Rightarrow> bool" where
  "caller_of env rq org s p m \<longleftrightarrow> get_current_membership env rq org s = Inr m \<and> has_permission (ms_role m) p"

fun change_ok :: "account_env \<Rightarrow> request \<Rightarrow> accounts \<Rightarrow> member_change \<Rightarrow> bool" where
  "change_ok env rq s Same = True"
| "change_ok env rq s (Added m) =
     (row_id m \<notin> row_id ` set (ac_members s) \<and> uq_memberships (ac_members s @ [m]) \<and> row_deleted_at m = None
      \<and> (ms_role m = OWNER \<longrightarrow>
           (\<exists>c. caller_of env rq (ms_organization_id m) s ORG_MANAGE_MEMBERS c \<and> ms_role c = OWNER)
         \<or> (\<exists>v \<in> set (ac_invites s). invitation_open (rq_now rq) v \<and> iv_role v = OWNER
              \<and> iv_organization_id v = ms_organization_id m \<and> normal_email (iv_email v) = normal_email (ms_user_email m))))"
| "change_ok env rq s (Role_set i role) =
     (\<exists>org c t. caller_of env rq org s ORG_MANAGE_MEMBERS c \<and> get_member org i s = Inr t
        \<and> (role = OWNER \<longrightarrow> ms_role c = OWNER)
        \<and> (ms_role t = OWNER \<and> role \<noteq> OWNER \<longrightarrow> i \<noteq> row_id c \<and> 1 < count_owners org (ac_members s)))"
| "change_ok env rq s (Gone i) =
     (\<exists>org c t. caller_of env rq org s ORG_MANAGE_MEMBERS c \<and> get_member org i s = Inr t
        \<and> (ms_role t = OWNER \<longrightarrow> ms_role c = OWNER \<and> 1 < count_owners org (ac_members s)))"
| "change_ok env rq s (Handed i j) =
     (\<exists>org c t. caller_of env rq org s ORG_TRANSFER_OWNERSHIP c \<and> get_member org i s = Inr t \<and> j = row_id c \<and> i \<noteq> j)"

lemma require_permission_Inr:
  "require_permission p env rq org s = Inr m \<longleftrightarrow> caller_of env rq org s p m"
  by (auto simp: require_permission_def check_permission_def caller_of_def and_then_Inr_iff)

lemma get_member_Inr:
  "get_member org i s = Inr m \<longleftrightarrow> repo_get i (ac_members s) = Inr (Some m) \<and> ms_organization_id m = org"
  by (auto simp: get_member_def and_then_Inr_iff)

lemma repo_get_mem: "repo_get i rows = Inr (Some r) \<Longrightarrow> r \<in> set rows \<and> row_id r = i \<and> row_deleted_at r = None"
proof -
  assume "repo_get i rows = Inr (Some r)"
  then have "filter (\<lambda>r. row_id r = i) (active_query rows) = [r]" by (simp add: repo_get_def scalar_one_Some)
  then have "r \<in> set (filter (\<lambda>r. row_id r = i) (active_query rows))" by simp
  then show ?thesis by (simp add: set_active)
qed

lemma owner_grant_Inr: "owner_grant_allowed role c = Inr u \<longleftrightarrow> (role = OWNER \<longrightarrow> ms_role c = OWNER)"
  by (auto simp: owner_grant_allowed_def)

lemma new_membership_simps [simp]:
  "row_id (new_membership now i org u email role) = i"
  "row_deleted_at (new_membership now i org u email role) = None"
  "ms_organization_id (new_membership now i org u email role) = org"
  "ms_user_email (new_membership now i org u email role) = email"
  "ms_role (new_membership now i org u email role) = role"
  by (simp_all add: new_membership_def)

lemma invite_member_change:
  assumes "invite_member env rq org email rolename s = Inr (r, s')"
  shows "\<exists>m. ac_members s' = ac_members s @ [m] \<and> change_ok env rq s (Added m)"
  using assms
  by (auto simp: invite_member_def require_permission_Inr owner_grant_Inr insert_membership_Inr split_def Let_def
      elim!: and_then_InrE)

lemma accept_change:
  assumes "accept_invitation env (rq_now rq) token u s = Inr (m, s')"
  shows "ac_members s' = ac_members s @ [m] \<and> change_ok env rq s (Added m)"
proof -
  from assms obtain r where r: "get_valid_by_token_hash (rq_now rq) (en_hash_token env token) (ac_invites s) = Inr r"
    and rest: "(case r of None \<Rightarrow> Inl Invalid_invitation_token | Some v \<Rightarrow>
         if normal_email (iv_email v) \<noteq> normal_email (us_email u) then Inl Invitation_email_mismatch
         else and_then (map_err Invitation_db (repo_get (iv_organization_id v) (ac_orgs s))) (\<lambda>org.
         case org of
           None \<Rightarrow> Inl Invalid_invitation_token
         | Some g \<Rightarrow>
             let (i, s) = draw s;
                 m = new_membership (rq_now rq) i (iv_organization_id v) (Some (row_id u)) (us_email u) (iv_role v)
             in and_then (map_err Invitation_db (insert_membership m s)) (\<lambda>s.
                let s = change_invitation (rq_now rq) (row_id v)
                          (\<lambda>v. v\<lparr>iv_status := IV_ACCEPTED, iv_accepted_by := Some (row_id u), iv_accepted_at := Some (rq_now rq)\<rparr>) s
                in and_then (map_err Invitation_db
                      (case iv_created_by v of None \<Rightarrow> Inr None | Some c \<Rightarrow> repo_get c (ac_users s))) (\<lambda>inviter.
                     Inr (m, case inviter of
                               None \<Rightarrow> s
                             | Some w \<Rightarrow> send_email (Invitation_accepted_email (us_email w) (og_name g)) s))))) = Inr (m, s')"
    unfolding accept_invitation_def by (auto elim!: and_then_InrE)
  from r rest obtain v where v: "r = Some v" by (cases r) auto
  have "v \<in> set (ac_invites s)" and "invitation_open (rq_now rq) v"
    using scalar_one_mem [OF r [unfolded v get_valid_by_token_hash_def]] by (simp_all add: set_active)
  with rest v show ?thesis
    by (auto simp: insert_membership_Inr split_def Let_def elim!: and_then_InrE split: if_split_asm option.split_asm)
qed

lemma update_role_change:
  assumes "update_member_role env rq org i rolename s = Inr (r, s')"
  shows "\<exists>role. ac_members s' = apply_change (rq_now rq) (Role_set i role) (ac_members s) \<and> change_ok env rq s (Role_set i role)"
  using assms
  by (auto simp: update_member_role_def require_permission_Inr owner_grant_Inr set_role_def get_member_Inr
      elim!: and_then_InrE split: if_split_asm dest!: repo_get_mem)
    (auto simp: caller_of_def)

lemma remove_change:
  assumes "remove_member env rq org i s = Inr s'"
  shows "ac_members s' = apply_change (rq_now rq) (Gone i) (ac_members s) \<and> change_ok env rq s (Gone i)"
proof -
  from assms obtain c t where c: "caller_of env rq org s ORG_MANAGE_MEMBERS c" and t: "get_member org i s = Inr t"
    and ok: "ms_role t = OWNER \<Longrightarrow> ms_role c = OWNER \<and> 1 < count_owners org (ac_members s)"
    and s': "ac_members s' = repo_soft_delete (rq_now rq) None i (ac_members s)"
    by (fastforce simp: remove_member_def require_permission_Inr elim!: and_then_InrE split: if_split_asm)
  from c t ok have "change_ok env rq s (Gone i)" by auto
  with s' show ?thesis by simp
qed

lemma transfer_change:
  assumes "transfer_ownership env rq org i s = Inr (r, s')"
  shows "\<exists>j. ac_members s' = apply_change (rq_now rq) (Handed i j) (ac_members s) \<and> change_ok env rq s (Handed i j)"
proof -
  from assms obtain c t where c: "caller_of env rq org s ORG_TRANSFER_OWNERSHIP c"
    and t: "get_member org i s = Inr t" and ne: "row_id t \<noteq> row_id c"
    and s': "s' = set_role (rq_now rq) (row_id c) ADMIN (set_role (rq_now rq) i OWNER s)"
    by (auto simp: transfer_ownership_def require_permission_Inr elim!: and_then_InrE)
  from t have "row_id t = i" by (auto simp: get_member_Inr dest: repo_get_mem)
  with c t ne have "change_ok env rq s (Handed i (row_id c))" by auto
  moreover have "ac_members s' = apply_change (rq_now rq) (Handed i (row_id c)) (ac_members s)"
    by (simp add: s' set_role_def)
  ultimately show ?thesis by blast
qed

lemma handle_change:
  assumes "handle env rq q b s = (Inr s', b')"
  shows "\<exists>c. ac_members s' = apply_change (rq_now rq) c (ac_members s) \<and> change_ok env rq s c"
proof -
  have same: ?thesis if "ac_members s' = ac_members s"
    using that by (intro exI [where x = Same]) simp
  show ?thesis
  proof (cases q)
    case (Invite_member org email role)
    with assms obtain r where "invite_member env rq org email role s = Inr (r, s')" by (auto elim!: and_then_InrE)
    then obtain m where "ac_members s' = ac_members s @ [m]" and "change_ok env rq s (Added m)"
      using invite_member_change by blast
    then show ?thesis by (intro exI [where x = "Added m"]) simp
  next
    case (Update_member_role org i role)
    with assms obtain r where "update_member_role env rq org i role s = Inr (r, s')" by (auto elim!: and_then_InrE)
    then show ?thesis using update_role_change by blast
  next
    case (Remove_member org i)
    with assms have "remove_member env rq org i s = Inr s'" by simp
    then show ?thesis using remove_change by blast
  next
    case (Transfer_ownership org i)
    with assms obtain r where "transfer_ownership env rq org i s = Inr (r, s')" by (auto elim!: and_then_InrE)
    then show ?thesis using transfer_change by blast
  next
    case (Accept_invitation token)
    with assms obtain u m s1 where "accept_invitation env (rq_now rq) token u s = Inr (m, s1)" and "s' = s1"
      by (auto simp: accept_invitation_route_def split_def elim!: and_then_InrE)
    then have "ac_members s' = ac_members s @ [m]" and "change_ok env rq s (Added m)"
      using accept_change by blast+
    then show ?thesis by (intro exI [where x = "Added m"]) simp
  next
    case (Create_invitation org email role)
    with assms show ?thesis
      by (intro same) (auto simp: create_invitation_route_def split_def Let_def elim!: and_then_InrE
          dest: create_invitation_members split: sum.split_asm if_split_asm)
  next
    case (List_api_keys h org)
    with assms show ?thesis by (intro same) (auto elim!: and_then_InrE dest: list_api_keys_members)
  next
    case (Create_api_key org body)
    with assms show ?thesis
      by (intro same) (auto simp: create_api_key_def split_def elim!: and_then_InrE dest!: create_key_members)
  next
    case (Update_organization org c)
    with assms show ?thesis by (intro same) (auto simp: update_organization_def elim!: and_then_InrE split: if_split_asm)
  next
    case (Delete_organization org)
    with assms show ?thesis by (intro same) (auto simp: delete_organization_def elim!: and_then_InrE)
  next
    case (Decline_invitation token)
    with assms show ?thesis by (intro same) (auto simp: decline_invitation_route_def dest: decline_members)
  next
    case (Resend_invitation i)
    with assms show ?thesis by (intro same) (auto simp: resend_invitation_route_def elim!: and_then_InrE)
  next
    case (Cancel_invitation i)
    with assms show ?thesis by (intro same) (auto simp: cancel_invitation_route_def elim!: and_then_InrE)
  next
    case (Update_api_key org i c)
    with assms show ?thesis by (intro same) (auto simp: update_api_key_def elim!: and_then_InrE split: if_split_asm)
  next
    case (Delete_api_key org i)
    with assms show ?thesis by (intro same) (auto simp: delete_api_key_def elim!: and_then_InrE)
  qed
qed

section \<open>An organization keeps an owner\<close>

lemma table_unique: "table_wf rows \<Longrightarrow> x \<in> set rows \<Longrightarrow> y \<in> set rows \<Longrightarrow> row_id x = row_id y \<Longrightarrow> x = y"
  by (metis distinct_map inj_onD table_wf_def)

lemma set_owners_of:
  "m \<in> set (owners_of org rows) \<longleftrightarrow>
     m \<in> set rows \<and> row_deleted_at m = None \<and> ms_organization_id m = org \<and> ms_role m = OWNER"
  by (auto simp: owners_of_def set_active)

lemma count_owners_length: "count_owners org rows = length (owners_of org rows)"
  by (simp add: count_owners_def owners_of_def repo_count_def)

lemma caller_member:
  assumes "caller_of env rq org s p c"
  shows "c \<in> set (ac_members s)" and "row_deleted_at c = None" and "ms_organization_id c = org"
    and "has_permission (ms_role c) p"
proof -
  from assms have "get_current_membership env rq org s = Inr c" and "has_permission (ms_role c) p"
    by (simp_all add: caller_of_def)
  moreover from this(1) obtain u :: user where "and_then (get_current_org org s) (\<lambda>g.
       or_else forbidden (get_by_org_and_email (row_id g) (us_email u) (ac_members s))) = Inr c"
    unfolding get_current_membership_def by (rule and_then_InrE)
  moreover from this obtain g :: organization where "repo_get org (ac_orgs s) = Inr (Some g)"
    and c: "get_by_org_and_email (row_id g) (us_email u) (ac_members s) = Inr (Some c)"
    by (rule and_then_InrE) (simp add: get_current_org_def)
  ultimately show "has_permission (ms_role c) p" and "c \<in> set (ac_members s)" and "row_deleted_at c = None"
    and "ms_organization_id c = org"
    using scalar_one_mem [OF c [unfolded get_by_org_and_email_def]] repo_get_mem [of org "ac_orgs s" g]
    by (simp_all add: set_active)
qed

lemma get_member_mem:
  "get_member org i s = Inr t \<Longrightarrow>
     t \<in> set (ac_members s) \<and> row_id t = i \<and> row_deleted_at t = None \<and> ms_organization_id t = org"
  by (auto simp: get_member_Inr dest: repo_get_mem)

lemma other_owner:
  assumes "table_wf rows" and "1 < count_owners org rows"
  shows "\<exists>m \<in> set (owners_of org rows). row_id m \<noteq> i"
proof -
  have d: "distinct (map row_id (owners_of org rows))"
    using assms(1) by (simp add: owners_of_def active_query_def table_wf_def distinct_map_filter)
  from assms(2) obtain a b rest where "owners_of org rows = a # b # rest"
    unfolding count_owners_length by (cases "owners_of org rows" rule: remdups_adj.cases) auto
  with d show ?thesis by (metis distinct_length_2_or_more list.set_intros list.simps(9))
qed

lemma untouched_owner:
  "m \<in> set (owners_of org rows) \<Longrightarrow> \<not> P m \<Longrightarrow> m \<in> set (owners_of org (sql_update_where P f rows))"
  by (simp add: set_owners_of update_where_keeps)

lemma change_keeps_wf:
  assumes "change_ok env rq s c" and "table_wf (ac_members s)"
  shows "table_wf (apply_change now c (ac_members s))"
  using assms
  by (cases c) (auto simp: table_wf_def repo_update_def repo_soft_delete_def row_soft_delete_def map_update_where)

lemma survivor:
  assumes wf: "table_wf rows" and own: "owners_of org rows \<noteq> []" and t: "t \<in> set rows"
    and ok: "ms_organization_id t = org \<Longrightarrow> ms_role t = OWNER \<Longrightarrow> 1 < count_owners org rows"
  shows "\<exists>m \<in> set (owners_of org rows). row_id m \<noteq> row_id t"
proof (cases "t \<in> set (owners_of org rows)")
  case True
  then show ?thesis using other_owner [OF wf ok] by (simp add: set_owners_of)
next
  case False
  from own obtain m where m: "m \<in> set (owners_of org rows)" by (cases "owners_of org rows") auto
  with False have "m \<noteq> t" by auto
  with m t table_unique [OF wf] have "row_id m \<noteq> row_id t" by (auto simp: set_owners_of)
  with m show ?thesis by blast
qed

lemma handed_keeps_owner:
  assumes wf: "table_wf rows" and own: "owners_of org rows \<noteq> []"
    and t: "t \<in> set rows" "row_deleted_at t = None" and c: "c \<in> set rows"
    and orgs: "ms_organization_id c = ms_organization_id t" and ne: "row_id t \<noteq> row_id c"
  shows "owners_of org (apply_change now (Handed (row_id t) (row_id c)) rows) \<noteq> []"
proof -
  let ?r1 = "repo_update now (row_id t) (\<lambda>m. m\<lparr>ms_role := OWNER\<rparr>) rows"
  have "\<exists>m \<in> set (owners_of org ?r1). row_id m \<noteq> row_id c"
  proof (cases "ms_organization_id t = org")
    case True
    let ?t = "t\<lparr>ms_role := OWNER, row_updated_at := now\<rparr>"
    have "?t \<in> set (owners_of org ?r1)"
      using t True by (auto simp: set_owners_of repo_update_def set_update_where image_iff intro!: bexI [of _ t])
    with ne show ?thesis by (intro bexI [of _ ?t]) simp_all
  next
    case False
    from own obtain m where m: "m \<in> set (owners_of org rows)" by (cases "owners_of org rows") auto
    with False orgs have "m \<noteq> c" and "m \<noteq> t" by (auto simp: set_owners_of)
    with m c t(1) table_unique [OF wf, of m] have "row_id m \<noteq> row_id c" "row_id m \<noteq> row_id t"
      by (auto simp: set_owners_of)
    with m show ?thesis unfolding repo_update_def by (blast intro: untouched_owner)
  qed
  then show ?thesis
    unfolding apply_change.simps repo_update_def [of _ "row_id c"] 
    by (metis empty_iff empty_set untouched_owner [where P = "\<lambda>r. row_id r = row_id c"])
qed

lemma change_keeps_owner:
  assumes ok: "change_ok env rq s c" and wf: "table_wf (ac_members s)" and own: "owners_of org (ac_members s) \<noteq> []"
  shows "owners_of org (apply_change now c (ac_members s)) \<noteq> []"
proof (cases c)
  case Same
  with own show ?thesis by simp
next
  case (Added m)
  with own show ?thesis by (simp add: owners_of_def active_query_def)
next
  case (Role_set i role)
  with ok obtain og t where t: "get_member og i s = Inr t"
    and cnt: "ms_role t = OWNER \<and> role \<noteq> OWNER \<Longrightarrow> 1 < count_owners og (ac_members s)" by auto
  note tm = get_member_mem [OF t]
  show ?thesis
  proof (cases "role = OWNER")
    case True
    from own obtain m where m: "m \<in> set (owners_of org (ac_members s))" by (cases "owners_of org (ac_members s)") auto
    then have "(if row_id m = i then m\<lparr>ms_role := OWNER, row_updated_at := now\<rparr> else m)
        \<in> set (owners_of org (apply_change now c (ac_members s)))"
      by (auto simp: Role_set True set_owners_of repo_update_def set_update_where image_iff intro!: bexI [of _ m])
    then show ?thesis by (metis empty_iff empty_set)
  next
    case False
    with survivor [OF wf own, of t] tm cnt obtain m where "m \<in> set (owners_of org (ac_members s))" "row_id m \<noteq> i"
      by auto
    then have "m \<in> set (owners_of org (apply_change now c (ac_members s)))"
      unfolding Role_set apply_change.simps repo_update_def by (intro untouched_owner)
    then show ?thesis by (metis empty_iff empty_set)
  qed
next
  case (Gone i)
  with ok obtain og t where t: "get_member og i s = Inr t"
    and cnt: "ms_role t = OWNER \<Longrightarrow> 1 < count_owners og (ac_members s)" by auto
  from survivor [OF wf own, of t] get_member_mem [OF t] cnt
  obtain m where "m \<in> set (owners_of org (ac_members s))" "row_id m \<noteq> i" by auto
  then have "m \<in> set (owners_of org (apply_change now c (ac_members s)))"
    unfolding Gone apply_change.simps repo_soft_delete_def by (intro untouched_owner)
  then show ?thesis by (metis empty_iff empty_set)
next
  case (Handed i j)
  with ok obtain og cl t where "caller_of env rq og s ORG_TRANSFER_OWNERSHIP cl" and "get_member og i s = Inr t"
    and "j = row_id cl" and "i \<noteq> j" by auto
  then show ?thesis
    using handed_keeps_owner [OF wf own, of t cl now] caller_member(1,3) get_member_mem [of og i s t] Handed by auto
qed

text \<open>C24: whatever requests are served, by whatever callers and with whatever outcomes, an organization that
  has an owner membership keeps one: demotions, removals and transfers never leave it without.\<close>

theorem owner_survives:
  assumes "table_wf (ac_members s)" and "owners_of org (ac_members s) \<noteq> []"
  shows "owners_of org (ac_members (serve env qs b s)) \<noteq> []"
  using assms
proof (induction env qs b s rule: serve.induct)
  case (1 env b s)
  then show ?case by simp
next
  case (2 env rq q qs b s)
  obtain r b' where r: "handle env rq q b s = (r, b')" by (cases "handle env rq q b s")
  show ?case
  proof (cases r)
    case (Inl e)
    with r 2 show ?thesis by simp
  next
    case (Inr s')
    with r handle_change obtain c where c: "ac_members s' = apply_change (rq_now rq) c (ac_members s)"
      and ok: "change_ok env rq s c" by metis
    have "table_wf (ac_members s')" and "owners_of org (ac_members s') \<noteq> []"
      using change_keeps_wf [OF ok 2(2)] change_keeps_owner [OF ok 2(2,3)] c by simp_all
    with 2(1) [OF r [symmetric]] Inr r show ?thesis by simp
  qed
qed

theorem owner_survives_witness:
  "owners_of 10 (ac_members (serve demo_env
     [(demo_request 2, Remove_member 10 11), (demo_request 1, Update_member_role 10 11 ''viewer''),
      (demo_request 1, Transfer_ownership 10 12)] (memory_only mb_init) demo)) \<noteq> []"
  by (rule owner_survives; code_simp)

section \<open>Who makes owners\<close>

lemma transfer_needs_owner: "has_permission r ORG_TRANSFER_OWNERSHIP \<Longrightarrow> r = OWNER"
  by (cases r) (simp_all add: has_permission_def perm_lists)

lemma owner_has_all: "has_permission OWNER p"
  by (simp add: has_permission_def all_permissions_all)

text \<open>C30: a request that succeeds and leaves an owner that the organization did not have is either one of
  an owner of the same organization, or it accepts an open invitation to the owner role that was sent to
  the address of the new owner: no admin, member, viewer, API key or stranger can appoint an owner directly.\<close>

theorem only_owners_make_owners:
  assumes h: "handle env rq q b s = (Inr s', b')" and wf: "table_wf (ac_members s)"
    and m: "m \<in> set (owners_of org (ac_members s'))" and new: "row_id m \<notin> row_id ` set (owners_of org (ac_members s))"
  shows "(\<exists>c \<in> set (ac_members s). ms_organization_id c = org \<and> ms_role c = OWNER \<and> row_deleted_at c = None
             \<and> get_current_membership env rq org s = Inr c)
       \<or> (\<exists>v \<in> set (ac_invites s). invitation_open (rq_now rq) v \<and> iv_role v = OWNER \<and> iv_organization_id v = org
             \<and> normal_email (iv_email v) = normal_email (ms_user_email m))"
proof -
  have by_caller: ?thesis if "caller_of env rq org s p c" and "ms_role c = OWNER" for p c
    using that caller_member(1-3) [OF that(1)] by (auto simp: caller_of_def)
  obtain ch where ms: "ac_members s' = apply_change (rq_now rq) ch (ac_members s)" and ok: "change_ok env rq s ch"
    using handle_change [OF h] by blast
  show ?thesis
  proof (cases ch)
    case Same
    with ms m new show ?thesis by simp
  next
    case (Added x)
    with ms m new have "m = x" by (auto simp: set_owners_of)
    with ok Added m by_caller show ?thesis by (auto simp: set_owners_of)
  next
    case (Role_set i role)
    with ok obtain og c t where c: "caller_of env rq og s ORG_MANAGE_MEMBERS c" and t: "get_member og i s = Inr t"
      and r: "role = OWNER \<Longrightarrow> ms_role c = OWNER" by auto
    from m ms Role_set obtain x where x: "x \<in> set (ac_members s)"
      and mx: "m = (if row_id x = i then x\<lparr>ms_role := role, row_updated_at := rq_now rq\<rparr> else x)"
      by (auto simp: set_owners_of repo_update_def set_update_where)
    with m new have i: "row_id x = i" by (auto simp: set_owners_of)
    with mx m have "role = OWNER" and "ms_organization_id x = org" by (auto simp: set_owners_of)
    moreover have "x = t" using get_member_mem [OF t] x i table_unique [OF wf] by blast
    ultimately show ?thesis using by_caller c r get_member_mem [OF t] by auto
  next
    case (Gone i)
    with m ms have "m \<in> set (owners_of org (ac_members s))"
      by (auto simp: set_owners_of repo_soft_delete_def set_update_where row_soft_delete_def split: if_splits)
    with new show ?thesis by simp
  next
    case (Handed i j)
    with ok obtain og c t where c: "caller_of env rq og s ORG_TRANSFER_OWNERSHIP c" and t: "get_member og i s = Inr t"
      by auto
    from m ms Handed obtain x where x: "x \<in> set (ac_members s)" and "row_id m = row_id x" and "ms_organization_id m = ms_organization_id x"
      and mx: "row_id x \<noteq> i \<Longrightarrow> ms_role m = OWNER \<Longrightarrow> ms_role x = OWNER \<and> row_deleted_at x = row_deleted_at m"
      by (auto simp: set_owners_of repo_update_def set_update_where split: if_splits)
    moreover from this m new have "row_id x = i" by (force simp: set_owners_of)
    moreover have "x = t" using get_member_mem [OF t] x \<open>row_id x = i\<close> table_unique [OF wf] by blast
    ultimately have "og = org" using m get_member_mem [OF t] by (simp add: set_owners_of)
    with by_caller c show ?thesis using transfer_needs_owner caller_member(4) [OF c] by blast
  qed
qed

lemma demo_transfer:
  "(case handle demo_env (demo_request 1) (Transfer_ownership 10 12) (memory_only mb_init) demo of
      (Inl _, _) \<Rightarrow> [] | (Inr s', _) \<Rightarrow> map row_id (owners_of 10 (ac_members s'))) = [12]"
  by code_simp

lemma demo_wf: "table_wf (ac_members demo)" "map row_id (owners_of 10 (ac_members demo)) = [11]" "table_wf (ac_invites demo)"
  "table_wf (ac_users demo)"
  by code_simp+

theorem only_owners_make_owners_witness:
  "\<exists>s' b' m. handle demo_env (demo_request 1) (Transfer_ownership 10 12) (memory_only mb_init) demo = (Inr s', b')
     \<and> m \<in> set (owners_of 10 (ac_members s')) \<and>
     ((\<exists>c \<in> set (ac_members demo). ms_organization_id c = 10 \<and> ms_role c = OWNER \<and> row_deleted_at c = None
             \<and> get_current_membership demo_env (demo_request 1) 10 demo = Inr c)
       \<or> (\<exists>v \<in> set (ac_invites demo). invitation_open (rq_now (demo_request 1)) v \<and> iv_role v = OWNER
             \<and> iv_organization_id v = 10 \<and> normal_email (iv_email v) = normal_email (ms_user_email m)))"
proof -
  obtain r b' where h: "handle demo_env (demo_request 1) (Transfer_ownership 10 12) (memory_only mb_init) demo = (r, b')"
    by (cases "handle demo_env (demo_request 1) (Transfer_ownership 10 12) (memory_only mb_init) demo")
  with demo_transfer obtain s' where r: "r = Inr s'" and ids: "map row_id (owners_of 10 (ac_members s')) = [12]"
    by (cases r) simp_all
  then obtain m where m: "owners_of 10 (ac_members s') = [m]" "row_id m = 12" by auto
  have "row_id m \<notin> set (map row_id (owners_of 10 (ac_members demo)))" unfolding demo_wf(2) by (simp add: m)
  then have "row_id m \<notin> row_id ` set (owners_of 10 (ac_members demo))" by simp
  with only_owners_make_owners [OF h [unfolded r] demo_wf(1), of m 10] m h r show ?thesis by auto
qed

text \<open>The invitation need not be the owner's any more: a resent invitation is pending again whatever its
  state was.\<close>

lemma scalar_one_singleton: "rs = [r] \<Longrightarrow> scalar_one_or_none rs = Inr (Some r)"
  by (simp add: scalar_one_Some)

definition hash_unused :: "string \<Rightarrow> invitation list \<Rightarrow> bool" where
  "hash_unused h rows \<longleftrightarrow> list_all (\<lambda>v. iv_token_hash v \<noteq> h) rows"

lemma resent_valid:
  assumes v: "repo_get (row_id v) (ac_invites s) = Inr (Some v)" and wf: "table_wf (ac_invites s)"
    and h: "hash_unused (en_hash_token env (en_fresh_token env (ac_next s))) (ac_invites s)" and late: "later < now + 7 * day"
  shows "get_valid_by_token_hash later (en_hash_token env (en_fresh_token env (ac_next s)))
           (ac_invites (resend_invitation env now v g s))
       = Inr (Some (v\<lparr>iv_token_hash := en_hash_token env (en_fresh_token env (ac_next s)), iv_status := IV_PENDING,
                      iv_expires_at := now + 7 * day, row_updated_at := now\<rparr>))"
proof -
  let ?h = "en_hash_token env (en_fresh_token env (ac_next s))"
  let ?f = "\<lambda>v. v\<lparr>iv_token_hash := ?h, iv_status := IV_PENDING, iv_expires_at := now + 7 * day, row_updated_at := now\<rparr>"
  have inv: "ac_invites (resend_invitation env now v g s) = sql_update_where (\<lambda>r. row_id r = row_id v) ?f (ac_invites s)"
    by (simp add: resend_invitation_def draw_def send_email_def change_invitation_def repo_update_def
        INVITATION_EXPIRY_DAYS_def Let_def)
  note vm = repo_get_mem [OF v]
  have "filter (\<lambda>x. iv_token_hash x = ?h \<and> invitation_open later x \<and> row_deleted_at x = None)
          (sql_update_where (\<lambda>r. row_id r = row_id v) ?f rows) = [?f v]"
    if "v \<in> set rows" "distinct (map row_id rows)" "hash_unused ?h rows" for rows
    using that
  proof (induction rows)
    case Nil
    then show ?case by simp
  next
    case (Cons a rows)
    have rest: "filter (\<lambda>x. iv_token_hash x = ?h \<and> invitation_open later x \<and> row_deleted_at x = None) rows = []"
      using Cons.prems(3) by (auto simp: hash_unused_def filter_empty_conv list_all_iff)
    show ?case
    proof (cases "a = v")
      case True
      with Cons.prems have "row_id v \<notin> row_id ` set rows" by simp
      then have "sql_update_where (\<lambda>r. row_id r = row_id v) ?f rows = rows" by (rule filter_no_key)
      with rest True vm late show ?thesis by (simp add: update_where_Cons invitation_open_def)
    next
      case False
      with Cons.prems have "v \<in> set rows" and "row_id a \<noteq> row_id v" by (auto simp: rev_image_eqI)
      with Cons show ?thesis by (simp add: update_where_Cons hash_unused_def)
    qed
  qed
  with vm wf h show ?thesis
    unfolding inv by (simp add: get_valid_by_token_hash_def active_query_def scalar_one_Some table_wf_def conj_ac)
qed

lemma repo_get_total: "table_wf rows \<Longrightarrow> \<exists>r. repo_get i rows = Inr r"
proof -
  assume wf: "table_wf rows"
  show ?thesis
  proof (cases "\<exists>y \<in> set rows. row_id y = i \<and> row_deleted_at y = None")
    case True
    then show ?thesis using repo_get_iff [OF wf] by blast
  next
    case False
    then have "filter (\<lambda>y. row_id y = i) (active_query rows) = []" by (auto simp: filter_empty_conv set_active)
    then show ?thesis by (simp add: repo_get_def scalar_one_or_none_def)
  qed
qed

lemma accept_succeeds:
  assumes v: "get_valid_by_token_hash now (en_hash_token env token) (ac_invites s) = Inr (Some v)"
    and w: "normal_email (iv_email v) = normal_email (us_email w)"
    and g: "repo_get (iv_organization_id v) (ac_orgs s) = Inr (Some g)" and us: "table_wf (ac_users s)"
    and x: "x = new_membership now (ac_next s) (iv_organization_id v) (Some (row_id w)) (us_email w) (iv_role v)"
    and mem: "ac_next s \<notin> row_id ` set (ac_members s)" "uq_memberships (ac_members s @ [x])"
  shows "\<exists>s'. accept_invitation env now token w s = Inr (x, s') \<and> ac_members s' = ac_members s @ [x]"
proof -
  obtain r where "(case iv_created_by v of None \<Rightarrow> Inr None | Some c \<Rightarrow> repo_get c (ac_users s)) = Inr r"
    using repo_get_total [OF us] by (cases "iv_created_by v") auto
  moreover have "insert_membership x (s\<lparr>ac_next := Suc (ac_next s)\<rparr>) = Inr (s\<lparr>ac_next := Suc (ac_next s), ac_members := ac_members s @ [x]\<rparr>)"
    using mem x by (simp add: insert_membership_Inr)
  ultimately show ?thesis
    using v w g x by (auto simp: accept_invitation_def map_err_def draw_def Let_def change_invitation_def split: option.split)
qed

text \<open>An admin can give the owner role away. An invitation to the owner role that an owner sent and then
  cancelled (or that was used or declined) becomes valid again when any admin resends it, and whoever holds
  the invited address joins as an owner with it.\<close>

theorem admin_revives_owner_invitation:
  assumes adm: "resolve_and_authorize i u s = Inr (v, g, m)" and "ms_role m = ADMIN"
    and v: "iv_role v = OWNER" "iv_status v \<noteq> IV_PENDING"
    and inv: "table_wf (ac_invites s)" "hash_unused (en_hash_token env (en_fresh_token env (ac_next s))) (ac_invites s)"
    and w: "normal_email (us_email w) = normal_email (iv_email v)" and later: "later < now + 7 * day"
    and mem: "ac_next s + 1 \<notin> row_id ` set (ac_members s)"
      "uq_memberships (ac_members s @ [new_membership later (ac_next s + 1) (row_id g) (Some (row_id w)) (us_email w) OWNER])"
    and us: "table_wf (ac_users s)"
  shows "\<exists>x s'. accept_invitation env later (en_fresh_token env (ac_next s)) w (resend_invitation env now v g s) = Inr (x, s')
     \<and> x \<in> set (owners_of (row_id g) (ac_members s')) \<and> ms_user_id x = Some (row_id w)"
proof -
  from adm have gv: "repo_get i (ac_invites s) = Inr (Some v)" and g: "repo_get (iv_organization_id v) (ac_orgs s) = Inr (Some g)"
    by (auto simp: resolve_and_authorize_def get_current_org_def elim!: and_then_InrE)
  let ?s = "resend_invitation env now v g s"
  let ?x = "new_membership later (ac_next s + 1) (row_id g) (Some (row_id w)) (us_email w) OWNER"
  have parts: "ac_next ?s = ac_next s + 1" "ac_orgs ?s = ac_orgs s" "ac_users ?s = ac_users s"
    by (simp_all add: resend_invitation_def draw_def send_email_def change_invitation_def Let_def)
  have gid: "iv_organization_id v = row_id g" using repo_get_mem [OF g] by simp
  have "repo_get (row_id v) (ac_invites s) = Inr (Some v)" using gv repo_get_mem [OF gv] by simp
  note valid = resent_valid [OF this inv later, where g = g]
  have "\<exists>s'. accept_invitation env later (en_fresh_token env (ac_next s)) w ?s = Inr (?x, s')
      \<and> ac_members s' = ac_members ?s @ [?x]"
    by (rule accept_succeeds [OF valid]) (use w g gid us mem v in \<open>simp_all add: parts\<close>)
  then show ?thesis by (auto simp: set_owners_of new_membership_def)
qed

theorem admin_revives_owner_invitation_witness:
  "\<exists>x s'. accept_invitation demo_env 200 (en_fresh_token demo_env 30) (demo_user 3 ''ivan'' ''Ivan'')
       (resend_invitation demo_env 100 demo_invitation demo_org demo) = Inr (x, s')
     \<and> x \<in> set (owners_of 10 (ac_members s')) \<and> ms_user_id x = Some 3"
proof -
  have "resolve_and_authorize 15 (demo_user 2 ''adam'' ''Adam'') demo
      = Inr (demo_invitation, demo_org, new_membership 0 12 10 (Some 2) ''adam'' ADMIN)" by code_simp
  moreover have "ac_next demo = 30" "row_id demo_org = 10" by code_simp+
  moreover have "hash_unused (en_hash_token demo_env (en_fresh_token demo_env 30)) (ac_invites demo)" by code_simp
  moreover have "31 \<notin> row_id ` set (ac_members demo)" by code_simp
  moreover have "uq_memberships (ac_members demo @ [new_membership 200 31 10 (Some 3) ''ivan'' OWNER])" by code_simp
  moreover have "iv_role demo_invitation = OWNER" "iv_status demo_invitation \<noteq> IV_PENDING" by code_simp+
  moreover have "normal_email (us_email (demo_user 3 ''ivan'' ''Ivan'')) = normal_email (iv_email demo_invitation)" by code_simp
  moreover have "(200 :: micros) < 100 + 7 * day" by (simp add: day_def)
  moreover have "row_id (demo_user 3 ''ivan'' ''Ivan'') = 3" "us_email (demo_user 3 ''ivan'' ''Ivan'') = ''ivan''"
    by (simp_all add: demo_user_def)
  ultimately show ?thesis
    using admin_revives_owner_invitation [of 15 "demo_user 2 ''adam'' ''Adam''" demo demo_invitation demo_org
        "new_membership 0 12 10 (Some 2) ''adam'' ADMIN" demo_env "demo_user 3 ''ivan'' ''Ivan''" 200 100] demo_wf(3,4)
    by simp
qed

section \<open>API keys\<close>

lemma fire_alert_tables [simp]:
  "ac_keys (fire_alert_safely env now f s) = ac_keys s" "ac_orgs (fire_alert_safely env now f s) = ac_orgs s"
  by (simp_all add: fire_alert_safely_def draw_def split: sum.splits)

lemma validate_permissions_Inr:
  "validate_permissions ps = Inr qs \<longleftrightarrow> qs = ps \<and> (\<forall>v \<in> set ps. parse_permission v \<noteq> None)"
  by (auto simp: validate_permissions_def find_None_iff_all split: option.splits dest: find_Some_mem)

lemma create_api_key_Inr:
  assumes "create_api_key env rq org b s = Inr ((k, raw), s1)"
  shows "ac_keys s1 = ac_keys s @ [k]" and "ac_orgs s1 = ac_orgs s" and "uq_api_keys (ac_keys s @ [k])"
    and "row_id k \<notin> row_id ` set (ac_keys s)" and "ak_key_hash k = en_hash_token env raw" and "row_deleted_at k = None"
    and "ak_permissions k = kb_permissions b" and "ak_organization_id k = org"
    and "\<exists>c. caller_of env rq org s API_KEY_WRITE c"
proof -
  from assms obtain s2 u m where c: "create_key env (rq_now rq) org b u s = Inr ((k, raw), s2)"
    and s1: "ac_keys s1 = ac_keys s2" "ac_orgs s1 = ac_orgs s2" and m: "caller_of env rq org s API_KEY_WRITE m"
    by (auto simp: create_api_key_def require_permission_Inr elim!: and_then_InrE intro: that)
  from m show "\<exists>c. caller_of env rq org s API_KEY_WRITE c" by blast
  from c have all: "ac_keys s2 = ac_keys s @ [k] \<and> ac_orgs s2 = ac_orgs s \<and> uq_api_keys (ac_keys s @ [k])
      \<and> row_id k \<notin> row_id ` set (ac_keys s) \<and> ak_key_hash k = en_hash_token env raw \<and> row_deleted_at k = None
      \<and> ak_permissions k = kb_permissions b \<and> ak_organization_id k = org"
    by (auto simp: create_key_def validate_permissions_Inr insert_key_def repo_create_Inr draw_def generate_raw_key_def Let_def
        elim!: and_then_InrE)
  then show "ac_keys s1 = ac_keys s @ [k]" and "ac_orgs s1 = ac_orgs s" and "uq_api_keys (ac_keys s @ [k])"
    and "row_id k \<notin> row_id ` set (ac_keys s)" and "ak_key_hash k = en_hash_token env raw" and "row_deleted_at k = None"
    and "ak_permissions k = kb_permissions b" and "ak_organization_id k = org"
    using s1 by simp_all
qed

lemma get_key_by_hash:
  assumes "uq_api_keys rows" and "k \<in> set rows" and "row_deleted_at k = None"
  shows "ak_get_by_hash (ak_key_hash k) rows = Inr (Some k)"
proof -
  have "distinct (map ak_key_hash (active_query rows))"
    using assms(1) by (simp add: uq_api_keys_def active_query_def distinct_map_filter)
  with assms(2,3) have "filter (\<lambda>x. ak_key_hash x = ak_key_hash k) (active_query rows) = [k]"
    by (intro filter_key_unique) (simp_all add: set_active)
  then show ?thesis by (simp add: ak_get_by_hash_def scalar_one_Some)
qed

lemma deleted_key_gone:
  assumes uq: "uq_api_keys rows" and k: "k \<in> set rows"
  shows "ak_get_by_hash (ak_key_hash k) (repo_soft_delete now by (row_id k) rows) = Inr None"
proof -
  have "ak_key_hash x = ak_key_hash k \<Longrightarrow> x \<in> set rows \<Longrightarrow> x = k" for x
    using uq k by (auto simp: uq_api_keys_def distinct_map dest: inj_onD)
  then have "filter (\<lambda>x. ak_key_hash x = ak_key_hash k) (active_query (repo_soft_delete now by (row_id k) rows)) = []"
    by (auto simp: filter_empty_conv set_active repo_soft_delete_def set_update_where row_soft_delete_def split: if_splits)
  then show ?thesis by (simp add: ak_get_by_hash_def scalar_one_None)
qed

lemma key_permissions_exact: "key_has_permission k p \<longleftrightarrow> permission_value p \<in> set (ak_permissions k)"
proof -
  have "key_has_permission k p \<longleftrightarrow> (\<exists>v \<in> set (ak_permissions k). parse_permission v = Some p)"
    by (auto simp: key_has_permission_def context_permissions_def map_filter_def image_iff split: option.splits)
  then show ?thesis by (simp add: parse_permission_Some)
qed

text \<open>C32: the secret returned when a key is created authenticates from then on as the organization it was made
  for, with exactly the scopes asked for; after the expiry it is refused as expired, while the organization
  is suspended or archived it is refused, and once the key is revoked it is unknown.\<close>

theorem api_key_lifecycle:
  assumes c: "create_api_key env rq org b s = Inr ((k, raw), s1)" and g: "repo_get org (ac_orgs s) = Inr (Some g)"
  shows "(\<not> key_expired now k \<longrightarrow> og_status g = OS_ACTIVE \<longrightarrow>
       (\<exists>k' s2. authenticate_key env now raw s1 = Inr ((k', g), s2) \<and> row_id k' = row_id k \<and> ak_organization_id k' = org
          \<and> (\<forall>p. key_has_permission k' p \<longleftrightarrow> permission_value p \<in> set (kb_permissions b))))
     \<and> (key_expired now k \<longrightarrow> authenticate_key env now raw s1 = Inl Api_key_expired)
     \<and> (\<not> key_expired now k \<longrightarrow> og_status g \<noteq> OS_ACTIVE \<longrightarrow> authenticate_key env now raw s1 = Inl Organization_suspended)
     \<and> (\<forall>rq' s2. delete_api_key env rq' org (row_id k) s1 = Inr s2 \<longrightarrow> authenticate_key env now raw s2 = Inl Invalid_api_key)"
proof (intro conjI impI allI)
  note k = create_api_key_Inr [OF c]
  have found: "ak_get_by_hash (en_hash_token env raw) (ac_keys s1) = Inr (Some k)"
    using get_key_by_hash [of "ac_keys s1" k] k by simp
  note defs = authenticate_key_def found map_err_def k(2,8) g
  show "authenticate_key env now raw s1 = Inl Api_key_expired" if "key_expired now k"
    using that by (simp add: defs)
  show "authenticate_key env now raw s1 = Inl Organization_suspended" if "\<not> key_expired now k" "og_status g \<noteq> OS_ACTIVE"
    using that by (simp add: defs)
  show "\<exists>k' s2. authenticate_key env now raw s1 = Inr ((k', g), s2) \<and> row_id k' = row_id k \<and> ak_organization_id k' = org
          \<and> (\<forall>p. key_has_permission k' p \<longleftrightarrow> permission_value p \<in> set (kb_permissions b))"
    if "\<not> key_expired now k" "og_status g = OS_ACTIVE"
    using that k(7,8) by (simp add: defs key_permissions_exact)
  fix rq' s2
  assume "delete_api_key env rq' org (row_id k) s1 = Inr s2"
  then obtain u :: user where "ac_keys s2 = repo_soft_delete (rq_now rq') (Some (row_id u)) (row_id k) (ac_keys s1)"
    by (auto simp: delete_api_key_def ak_delete_def elim!: and_then_InrE)
  with deleted_key_gone [of "ac_keys s1" k] k have "ak_get_by_hash (en_hash_token env raw) (ac_keys s2) = Inr None" by simp
  then show "authenticate_key env now raw s2 = Inl Invalid_api_key" by (simp add: authenticate_key_def map_err_def)
qed

definition demo_key_body :: key_body where
  "demo_key_body = \<lparr>kb_name = ''ci'', kb_description = None, kb_permissions = [''org:delete''], kb_expiration = ''30d''\<rparr>"

lemma demo_key:
  "(case create_api_key demo_env (demo_request 2) 10 demo_key_body demo of
      Inl _ \<Rightarrow> None | Inr ((k, raw), s1) \<Rightarrow> Some (key_expired 200 k)) = Some False"
  by code_simp

theorem api_key_lifecycle_witness:
  "\<exists>k raw s1 k' s2. create_api_key demo_env (demo_request 2) 10 demo_key_body demo = Inr ((k, raw), s1)
     \<and> authenticate_key demo_env 200 raw s1 = Inr ((k', demo_org), s2) \<and> key_has_permission k' ORG_DELETE"
proof -
  obtain k raw s1 where c: "create_api_key demo_env (demo_request 2) 10 demo_key_body demo = Inr ((k, raw), s1)"
    and "\<not> key_expired 200 k"
    using demo_key by (cases "create_api_key demo_env (demo_request 2) 10 demo_key_body demo") auto
  moreover have "repo_get 10 (ac_orgs demo) = Inr (Some demo_org)" "og_status demo_org = OS_ACTIVE" by code_simp+
  moreover have "permission_value ORG_DELETE \<in> set (kb_permissions demo_key_body)" by code_simp
  ultimately show ?thesis using api_key_lifecycle [OF c, of demo_org 200] by blast
qed

text \<open>The scopes are not bounded by the creator's own: an admin's key may delete the organization.\<close>

lemma admin_key_outranks_admin:
  assumes "create_api_key env rq org b s = Inr ((k, raw), s1)" and "''org:delete'' \<in> set (kb_permissions b)"
  shows "key_has_permission k ORG_DELETE \<and> \<not> has_permission ADMIN ORG_DELETE"
  using assms create_api_key_Inr(7) [OF assms(1)] by (simp add: key_permissions_exact has_permission_def perm_lists)

text \<open>The list of API keys is confined to one organization: the keys returned all belong to it, and the
  caller is either a member whose role may read keys, or presents a live key of the very same organization
  (active) with the scope to read keys.\<close>

lemma list_api_keys_guarded:
  assumes "list_api_keys env rq h org s = Inr (ks, s')"
  shows "(\<forall>k \<in> set ks. ak_organization_id k = org \<and> row_deleted_at k = None)
     \<and> ((\<exists>m. caller_of env rq org s API_KEY_READ m)
        \<or> (\<exists>raw k g. authenticate_key env (rq_now rq) raw s = Inr ((k, g), s') \<and> ak_organization_id k = org
              \<and> row_id g = org \<and> og_status g = OS_ACTIVE \<and> \<not> key_expired (rq_now rq) k
              \<and> permission_value API_KEY_READ \<in> set (ak_permissions k)))"
proof -
  from assms obtain c where c: "require_membership_or_api_key API_KEY_READ env rq h org s = Inr (c, s')"
    and ks: "ks = ak_list org (ac_keys s')" by (auto simp: list_api_keys_def elim!: and_then_InrE)
  show ?thesis
  proof (cases c)
    case (Inl m)
    with c have "caller_of env rq org s API_KEY_READ m"
      by (auto simp: require_membership_or_api_key_def get_membership_or_api_key_def caller_of_def check_permission_def
          elim!: and_then_InrE split: if_split_asm sum.split_asm prod.split_asm)
    with ks show ?thesis by (auto simp: ak_list_def)
  next
    case (Inr kg)
    with c obtain raw k g where a: "authenticate_key env (rq_now rq) raw s = Inr ((k, g), s')" and org: "row_id g = org"
      and p: "key_has_permission k API_KEY_READ"
      by (auto simp: require_membership_or_api_key_def get_membership_or_api_key_def authenticate_api_key_def
          elim!: and_then_InrE split: if_split_asm sum.split_asm prod.split_asm)
    from a have "og_status g = OS_ACTIVE \<and> ak_organization_id k = row_id g \<and> \<not> key_expired (rq_now rq) k"
      by (auto simp: authenticate_key_def key_expired_def elim!: and_then_InrE split: if_split_asm option.split_asm dest!: repo_get_mem)
    with a org p ks show ?thesis by (auto simp: ak_list_def key_permissions_exact)
  qed
qed

section \<open>Every operation is guarded\<close>

text \<open>The permission an operation needs and the organization in which it needs it; accepting and declining need the
  invitation's token instead.\<close>

fun needed :: "access_request \<Rightarrow> accounts \<Rightarrow> (ident \<times> permission) option" where
  "needed (Update_organization org c) s = Some (org, ORG_WRITE)"
| "needed (Delete_organization org) s = Some (org, ORG_DELETE)"
| "needed (Invite_member org e r) s = Some (org, ORG_MANAGE_MEMBERS)"
| "needed (Update_member_role org i r) s = Some (org, ORG_MANAGE_MEMBERS)"
| "needed (Remove_member org i) s = Some (org, ORG_MANAGE_MEMBERS)"
| "needed (Transfer_ownership org i) s = Some (org, ORG_TRANSFER_OWNERSHIP)"
| "needed (Create_invitation org e r) s = Some (org, ORG_MANAGE_MEMBERS)"
| "needed (Accept_invitation t) s = None"
| "needed (Decline_invitation t) s = None"
| "needed (Resend_invitation i) s =
     map_option (\<lambda>v. (iv_organization_id v, ORG_MANAGE_MEMBERS)) (List.find (\<lambda>v. row_id v = i) (ac_invites s))"
| "needed (Cancel_invitation i) s =
     map_option (\<lambda>v. (iv_organization_id v, ORG_MANAGE_MEMBERS)) (List.find (\<lambda>v. row_id v = i) (ac_invites s))"
| "needed (List_api_keys h org) s = Some (org, API_KEY_READ)"
| "needed (Create_api_key org b) s = Some (org, API_KEY_WRITE)"
| "needed (Update_api_key org i c) s = Some (org, API_KEY_WRITE)"
| "needed (Delete_api_key org i) s = Some (org, API_KEY_WRITE)"

lemma resolve_caller:
  assumes "resolve_and_authorize i u s = Inr (v, g, m)" and "get_current_user env rq s = Inr u"
    and wf: "table_wf (ac_invites s)"
  shows "caller_of env rq (iv_organization_id v) s ORG_MANAGE_MEMBERS m
     \<and> List.find (\<lambda>v. row_id v = i) (ac_invites s) = Some v"
proof
  from assms(1) have v: "repo_get i (ac_invites s) = Inr (Some v)"
    and e: "ensure_org_membership u (iv_organization_id v) s = Inr m" and p: "has_permission (ms_role m) ORG_MANAGE_MEMBERS"
    by (auto simp: resolve_and_authorize_def check_permission_def elim!: and_then_InrE split: if_split_asm)
  from e obtain g :: organization where "get_current_org (iv_organization_id v) s = Inr g"
    and "get_by_org_and_email (iv_organization_id v) (us_email u) (ac_members s) = Inr (Some m)"
    by (auto simp: ensure_org_membership_def elim!: and_then_InrE split: if_split_asm)
  moreover from this(1) have "row_id g = iv_organization_id v" by (auto simp: get_current_org_def dest: repo_get_mem)
  ultimately show "caller_of env rq (iv_organization_id v) s ORG_MANAGE_MEMBERS m"
    using assms(2) p by (simp add: caller_of_def get_current_membership_def and_then_Inr_iff)
  have "distinct (map row_id (ac_invites s))" using wf by (simp add: table_wf_def)
  from find_key_unique [OF this, of v] repo_get_mem [OF v]
  show "List.find (\<lambda>v. row_id v = i) (ac_invites s) = Some v" by simp
qed

text \<open>C25: every operation that succeeds was asked for by someone entitled to it: a live session of an account
  that is not disabled, whose e-mail holds a membership with the needed permission in the very
  organization that is read or changed, or (for reading keys) a live API key of that organization with the scope.\<close>

theorem complete_mediation:
  assumes h: "handle env rq q b s = (Inr s', b')" and n: "needed q s = Some (org, p)" and wf: "table_wf (ac_invites s)"
  shows "(\<exists>u m. get_current_user env rq s = Inr u \<and> us_status u \<noteq> US_DISABLED \<and> m \<in> set (ac_members s)
            \<and> ms_organization_id m = org \<and> ms_user_email m = us_email u \<and> row_deleted_at m = None \<and> has_permission (ms_role m) p)
       \<or> (\<exists>raw k g. authenticate_key env (rq_now rq) raw s = Inr ((k, g), s') \<and> ak_organization_id k = org \<and> p = API_KEY_READ
            \<and> permission_value API_KEY_READ \<in> set (ak_permissions k))"
proof -
  have by_caller: ?thesis if c: "caller_of env rq org s p m" for m
  proof -
    from c have "get_current_membership env rq org s = Inr m" by (simp add: caller_of_def)
    then obtain u g where u: "get_current_user env rq s = Inr u"
      and m: "get_by_org_and_email (row_id (g :: organization)) (us_email u) (ac_members s) = Inr (Some m)"
      by (auto simp: get_current_membership_def elim!: and_then_InrE)
    have "ms_user_email m = us_email u"
      using scalar_one_mem [OF m [unfolded get_by_org_and_email_def]] by simp
    moreover have "us_status u \<noteq> US_DISABLED"
      using u by (auto simp: get_current_user_def elim!: and_then_InrE split: option.split_asm prod.split_asm if_split_asm)
    ultimately show ?thesis using u caller_member [OF c] by blast
  qed
  have "(\<exists>m. caller_of env rq org s p m)
      \<or> (\<exists>raw k g. authenticate_key env (rq_now rq) raw s = Inr ((k, g), s') \<and> ak_organization_id k = org \<and> p = API_KEY_READ
            \<and> permission_value API_KEY_READ \<in> set (ak_permissions k))"
  proof (cases q)
    case (List_api_keys hd og)
    with h obtain ks where "list_api_keys env rq hd og s = Inr (ks, s')" by (auto elim!: and_then_InrE)
    from list_api_keys_guarded [OF this] n List_api_keys show ?thesis by fastforce
  next
    case (Create_invitation og e r)
    with h n show ?thesis
      by (auto simp: create_invitation_route_def require_permission_Inr split_def Let_def elim!: and_then_InrE
          split: sum.split_asm)
  next
    case (Resend_invitation i)
    with h n wf show ?thesis
      by (auto simp: resend_invitation_route_def elim!: and_then_InrE dest!: resolve_caller)
  next
    case (Cancel_invitation i)
    with h n wf show ?thesis
      by (auto simp: cancel_invitation_route_def elim!: and_then_InrE dest!: resolve_caller)
  qed (use h n in \<open>auto simp: update_organization_def delete_organization_def invite_member_def update_member_role_def
      remove_member_def transfer_ownership_def create_api_key_def update_api_key_def delete_api_key_def
      require_permission_Inr elim!: and_then_InrE\<close>)
  with by_caller show ?thesis by blast
qed

theorem complete_mediation_witness:
  "\<exists>s' b'. handle demo_env (demo_request 1) (Transfer_ownership 10 12) (memory_only mb_init) demo = (Inr s', b')
     \<and> (\<exists>u m. get_current_user demo_env (demo_request 1) demo = Inr u \<and> m \<in> set (ac_members demo)
            \<and> ms_user_email m = us_email u \<and> has_permission (ms_role m) ORG_TRANSFER_OWNERSHIP)"
proof -
  obtain r b' where h: "handle demo_env (demo_request 1) (Transfer_ownership 10 12) (memory_only mb_init) demo = (r, b')"
    by (cases "handle demo_env (demo_request 1) (Transfer_ownership 10 12) (memory_only mb_init) demo")
  with demo_transfer obtain s' where r: "r = Inr s'" by (cases r) simp_all
  show ?thesis using complete_mediation [OF h [unfolded r], of 10 ORG_TRANSFER_OWNERSHIP] demo_wf(3) h r by auto
qed

end
