(* ===== verification/Auth_Laws.thy ===== *)
theory Auth_Laws
  imports Auth Access_Control
begin

text \<open>
  What the account operations of \<open>Auth\<close> guarantee: which logins succeed, what ends a session, how refresh
  tokens and single-use tokens are consumed, what deleting an account leaves behind, and that slug
  generation ends.
\<close>

section \<open>Single rows of well-formed tables\<close>

lemma get_by_email_iff:
  assumes "uq_users rows"
  shows "us_get_by_email e rows = Inr (Some u) \<longleftrightarrow> u \<in> set rows \<and> us_email u = e \<and> row_deleted_at u = None"
proof
  assume "us_get_by_email e rows = Inr (Some u)"
  then show "u \<in> set rows \<and> us_email u = e \<and> row_deleted_at u = None"
    using scalar_one_mem by (fastforce simp: us_get_by_email_def active_query_def)
next
  assume u: "u \<in> set rows \<and> us_email u = e \<and> row_deleted_at u = None"
  have "distinct (map us_email rows)" using assms by (simp add: uq_users_def)
  from scalar_key [OF this, of u "\<lambda>u. row_deleted_at u = None"] u
  show "us_get_by_email e rows = Inr (Some u)" by (simp add: us_get_by_email_def active_query_def)
qed

section \<open>What ends a session\<close>

definition no_live_session :: "ident \<Rightarrow> session list \<Rightarrow> bool" where
  "no_live_session u rows \<longleftrightarrow> list_all (\<lambda>d. ss_user_id d = u \<longrightarrow> row_deleted_at d \<noteq> None \<or> ss_revoked_at d \<noteq> None) rows"

lemma revoke_all_ends: "no_live_session u (revoke_all_for_user now u rows)"
  unfolding no_live_session_def list_all_iff
proof
  fix d
  assume "d \<in> set (revoke_all_for_user now u rows)"
  then obtain x where "d = (if row_deleted_at x = None \<and> ss_user_id x = u \<and> ss_revoked_at x = None
      then x\<lparr>ss_revoked_at := Some now, row_updated_at := now\<rparr> else x)"
    unfolding revoke_all_for_user_def revoke_where_def set_update_where by blast
  then show "ss_user_id d = u \<longrightarrow> row_deleted_at d \<noteq> None \<or> ss_revoked_at d \<noteq> None"
    by (cases "row_deleted_at x = None \<and> ss_user_id x = u \<and> ss_revoked_at x = None") simp_all
qed

lemma no_live_refresh:
  assumes "no_live_session i (ac_sessions s)" and "refresh_lookup env now token s = Inr (d, u)"
  shows "row_id u \<noteq> i"
proof -
  from assms(2) have d: "get_active_by_token_hash now (en_hash_token env token) (ac_sessions s) = Inr (Some d)"
    and u: "repo_get (ss_user_id d) (ac_users s) = Inr (Some u)"
    by (auto simp: refresh_lookup_def elim!: and_then_InrE split: option.split_asm if_split_asm)
  have "d \<in> set (ac_sessions s) \<and> row_deleted_at d = None \<and> ss_revoked_at d = None"
    using scalar_one_mem [OF d [unfolded get_active_by_token_hash_def]] by (simp add: set_active session_live_def)
  with assms(1) repo_get_mem [OF u] show ?thesis by (auto simp: no_live_session_def list_all_iff)
qed

lemma no_live_active:
  assumes "no_live_session i (ac_sessions s)" and "get_active now sid (ac_sessions s) = Inr (Some d)"
  shows "ss_user_id d \<noteq> i"
  using assms scalar_one_mem [OF assms(2) [unfolded get_active_def]]
  by (auto simp: no_live_session_def list_all_iff set_active session_live_def)

lemma used_token_invalid:
  assumes t: "get_valid_by_hash now h rows = Inr (Some t)" and later: "now \<le> later"
  shows "get_valid_by_hash later h (mark_used now (row_id t) rows) = Inr None"
proof -
  have one: "filter (\<lambda>x. token_valid now x \<and> tk_token_hash x = h) rows = [t]"
    using t by (simp add: get_valid_by_hash_def scalar_one_Some)
  have "\<not> (token_valid later y \<and> tk_token_hash y = h)" if y: "y \<in> set (mark_used now (row_id t) rows)" for y
  proof
    assume v: "token_valid later y \<and> tk_token_hash y = h"
    from y obtain x where x: "x \<in> set rows" and yx: "y = (if row_id x = row_id t then x\<lparr>tk_used_at := Some now, row_updated_at := now\<rparr> else x)"
      by (auto simp: mark_used_def set_update_where)
    with v have "y = x" and "row_id x \<noteq> row_id t" by (auto simp: token_valid_def split: if_splits)
    with v x later have "x \<in> set (filter (\<lambda>x. token_valid now x \<and> tk_token_hash x = h) rows)"
      by (auto simp: token_valid_def)
    with one \<open>row_id x \<noteq> row_id t\<close> show False by simp
  qed
  then have "filter (\<lambda>x. token_valid later x \<and> tk_token_hash x = h) (mark_used now (row_id t) rows) = []"
    by (simp add: filter_empty_conv)
  then show ?thesis by (simp add: get_valid_by_hash_def scalar_one_None)
qed

lemma save_user_Inr:
  "save_user now i f s = Inr s' \<longleftrightarrow>
     uq_users (repo_update now i f (ac_users s)) \<and> s' = s\<lparr>ac_users := repo_update now i f (ac_users s)\<rparr>"
  by (auto simp: save_user_def and_then_Inr_iff)

lemma repo_update_get:
  assumes "table_wf rows" and "u \<in> set rows" and "row_deleted_at u = None"
    and "row_id (f u) = row_id u" and "row_deleted_at (f u) = None"
  shows "(f u)\<lparr>row_updated_at := now\<rparr> \<in> set (repo_update now (row_id u) f rows)"
  using assms by (force simp: repo_update_def set_update_where)


fun succeeds :: "'e + 'a \<Rightarrow> bool" where
  "succeeds (Inl e) = False"
| "succeeds (Inr x) = True"

lemma succeedsD: "succeeds r \<Longrightarrow> \<exists>x. r = Inr x"
  by (cases r) simp_all

lemma demo_law: "en_verify_password demo_env (en_hash_password demo_env n p) p"
  by (simp add: demo_env_def)

definition demo_reset :: accounts where
  "demo_reset = demo\<lparr>ac_reset := [new_token demo_env 0 60 3 ''rst'' 500]\<rparr>"


section \<open>Refresh tokens\<close>

definition hash_new :: "string \<Rightarrow> session list \<Rightarrow> bool" where
  "hash_new h rows \<longleftrightarrow> list_all (\<lambda>d. ss_refresh_token_hash d \<noteq> h) rows"

lemma refresh_lookup_Inr:
  assumes "refresh_lookup env now token s = Inr (d, u)"
  shows "filter (\<lambda>x. row_deleted_at x = None \<and> ss_refresh_token_hash x = en_hash_token env token \<and> session_live now x) (ac_sessions s) = [d]"
    and "repo_get (ss_user_id d) (ac_users s) = Inr (Some u)" and "us_status u \<noteq> US_DISABLED"
proof -
  from assms have d: "get_active_by_token_hash now (en_hash_token env token) (ac_sessions s) = Inr (Some d)"
    and "repo_get (ss_user_id d) (ac_users s) = Inr (Some u) \<and> us_status u \<noteq> US_DISABLED"
    by (auto simp: refresh_lookup_def elim!: and_then_InrE split: option.split_asm if_split_asm)
  then show "repo_get (ss_user_id d) (ac_users s) = Inr (Some u)" and "us_status u \<noteq> US_DISABLED" by simp_all
  from d show "filter (\<lambda>x. row_deleted_at x = None \<and> ss_refresh_token_hash x = en_hash_token env token \<and> session_live now x)
      (ac_sessions s) = [d]"
    by (simp add: get_active_by_token_hash_def active_query_def scalar_one_Some)
qed

lemma refresh_lookup_intro:
  assumes "filter (\<lambda>x. row_deleted_at x = None \<and> ss_refresh_token_hash x = en_hash_token env token \<and> session_live now x) (ac_sessions s) = [d]"
    and "repo_get (ss_user_id d) (ac_users s) = Inr (Some u)" and "us_status u \<noteq> US_DISABLED"
  shows "refresh_lookup env now token s = Inr (d, u)"
  using assms by (simp add: refresh_lookup_def get_active_by_token_hash_def active_query_def scalar_one_or_none_def map_err_def)

lemma refresh_lookup_none:
  assumes "filter (\<lambda>x. row_deleted_at x = None \<and> ss_refresh_token_hash x = en_hash_token env token \<and> session_live now x) (ac_sessions s) = []"
  shows "refresh_lookup env now token s = Inl Invalid_token"
  using assms by (simp add: refresh_lookup_def get_active_by_token_hash_def active_query_def scalar_one_or_none_def map_err_def)

definition rotated :: "micros \<Rightarrow> string \<Rightarrow> micros \<Rightarrow> session \<Rightarrow> session" where
  "rotated now h expires d = d\<lparr>ss_refresh_token_hash := h, ss_expires_at := expires, row_updated_at := now\<rparr>"

lemma rotate_new_hash:
  assumes "table_wf rows" and "d \<in> set rows" and "row_deleted_at d = None" and "ss_revoked_at d = None"
    and "hash_new h rows" and "later < expires"
  shows "filter (\<lambda>x. row_deleted_at x = None \<and> ss_refresh_token_hash x = h \<and> session_live later x)
      (rotate_session now (row_id d) h expires rows) = [rotated now h expires d]"
  using assms
proof (induction rows)
  case Nil
  then show ?case by simp
next
  case (Cons a rows)
  show ?case
  proof (cases "a = d")
    case True
    with Cons.prems(1) have no: "row_id d \<notin> row_id ` set rows" by (simp add: table_wf_def)
    then have "rotate_session now (row_id d) h expires rows = rows"
      unfolding rotate_session_def sql_update_where_def by (intro map_idI) (auto simp: image_iff)
    moreover have "filter (\<lambda>x. row_deleted_at x = None \<and> ss_refresh_token_hash x = h \<and> session_live later x) rows = []"
      using Cons.prems(5) by (auto simp: filter_empty_conv hash_new_def list_all_iff)
    ultimately show ?thesis
      using True Cons.prems by (simp add: rotate_session_def update_where_Cons rotated_def session_live_def)
  next
    case False
    with Cons.prems have "d \<in> set rows" and "row_id a \<noteq> row_id d" by (auto simp: table_wf_def rev_image_eqI)
    with Cons show ?thesis by (simp add: rotate_session_def update_where_Cons hash_new_def table_wf_def)
  qed
qed

lemma rotate_old_hash:
  assumes one: "filter (\<lambda>x. row_deleted_at x = None \<and> ss_refresh_token_hash x = old \<and> session_live now x) rows = [d]"
    and "h \<noteq> old" and "now \<le> later"
  shows "filter (\<lambda>x. row_deleted_at x = None \<and> ss_refresh_token_hash x = old \<and> session_live later x)
      (rotate_session tm (row_id d) h expires rows) = []"
proof -
  have "\<not> (row_deleted_at y = None \<and> ss_refresh_token_hash y = old \<and> session_live later y)"
    if y: "y \<in> set (rotate_session tm (row_id d) h expires rows)" for y
  proof
    assume v: "row_deleted_at y = None \<and> ss_refresh_token_hash y = old \<and> session_live later y"
    from y obtain x where x: "x \<in> set rows"
      and yx: "y = (if row_id x = row_id d \<and> row_deleted_at x = None then rotated tm h expires x else x)"
      unfolding rotate_session_def set_update_where rotated_def by blast
    have no: "\<not> (row_id x = row_id d \<and> row_deleted_at x = None)"
    proof
      assume "row_id x = row_id d \<and> row_deleted_at x = None"
      then have "ss_refresh_token_hash y = h" using yx by (simp add: rotated_def)
      with v \<open>h \<noteq> old\<close> show False by simp
    qed
    with yx have "y = x" by auto
    with v x \<open>now \<le> later\<close> have "x \<in> set (filter (\<lambda>x. row_deleted_at x = None \<and> ss_refresh_token_hash x = old \<and> session_live now x) rows)"
      by (simp add: session_live_def)
    with one no v \<open>y = x\<close> show False by simp
  qed
  then show ?thesis by (simp add: filter_empty_conv)
qed

lemma refresh_rotate_state:
  "refresh_rotate env now (d, u) s = (p, s') \<longleftrightarrow>
     p = \<lparr>tp_access_token = en_access_token env (row_id u) (row_id d) (us_email u) now,
          tp_refresh_token = en_fresh_token env (ac_next s), tp_expires_in = en_access_minutes env * 60\<rparr>
     \<and> s' = s\<lparr>ac_next := ac_next s + 1,
             ac_sessions := rotate_session now (row_id d) (en_hash_token env (en_fresh_token env (ac_next s)))
                             (now + en_refresh_days env * day) (ac_sessions s)\<rparr>"
  by (auto simp: refresh_rotate_def draw_def Let_def)

text \<open>C38: a refresh token works once: exchanging it gives a new token for the same session and account, which is
  good until it expires, and the old one is refused from then on.\<close>

theorem refresh_rotates:
  assumes r: "refresh env now token s = Inr (p, s')" and wf: "table_wf (ac_sessions s)" and later: "now \<le> later"
    and new: "hash_new (en_hash_token env (en_fresh_token env (ac_next s))) (ac_sessions s)"
  shows "refresh env later token s' = Inl Invalid_token
     \<and> (later < now + en_refresh_days env * day \<longrightarrow>
         (\<exists>d u d'. refresh_lookup env now token s = Inr (d, u) \<and> refresh_lookup env later (tp_refresh_token p) s' = Inr (d', u)
            \<and> row_id d' = row_id d))"
proof -
  from r obtain d u where l: "refresh_lookup env now token s = Inr (d, u)" and rot: "refresh_rotate env now (d, u) s = (p, s')"
    by (auto simp: refresh_def elim!: and_then_InrE)
  let ?h = "en_hash_token env (en_fresh_token env (ac_next s))"
  note one = refresh_lookup_Inr(1) [OF l] and usr = refresh_lookup_Inr(2,3) [OF l]
  have "d \<in> set (filter (\<lambda>x. row_deleted_at x = None \<and> ss_refresh_token_hash x = en_hash_token env token \<and> session_live now x)
      (ac_sessions s))" unfolding one by simp
  then have d: "d \<in> set (ac_sessions s)" "row_deleted_at d = None" "ss_revoked_at d = None"
    and old: "ss_refresh_token_hash d = en_hash_token env token" by (simp_all add: session_live_def)
  from new d(1) old have ne: "?h \<noteq> en_hash_token env token" by (auto simp: hash_new_def list_all_iff)
  from rot have s': "ac_sessions s' = rotate_session now (row_id d) ?h (now + en_refresh_days env * day) (ac_sessions s)"
    and us: "ac_users s' = ac_users s" and p: "tp_refresh_token p = en_fresh_token env (ac_next s)"
    by (simp_all add: refresh_rotate_state)
  have "refresh_lookup env later token s' = Inl Invalid_token"
    by (rule refresh_lookup_none) (simp add: s' rotate_old_hash [OF one ne later])
  moreover have "refresh_lookup env later (tp_refresh_token p) s' = Inr (rotated now ?h (now + en_refresh_days env * day) d, u)"
    if "later < now + en_refresh_days env * day"
    by (rule refresh_lookup_intro)
      (use usr in \<open>simp_all add: p s' us rotate_new_hash [OF wf d new that]\<close>, simp add: rotated_def)
  ultimately show ?thesis using l by (auto simp: refresh_def rotated_def)
qed

lemma demo_lookup:
  "refresh_lookup demo_env 100 (replicate 21 (CHR ''r'')) demo = Inr (demo_session 21 1, demo_user 1 ''olga'' ''Olga'')"
  by code_simp

lemma demo_sessions_wf: "table_wf (ac_sessions demo)"
  by code_simp

lemma demo_unused: "hash_new (en_hash_token demo_env (replicate 30 (CHR ''t''))) (ac_sessions demo)"
  "hash_new (en_hash_token demo_env (replicate 31 (CHR ''t''))) (ac_sessions demo)"
  by code_simp+

lemma demo_fresh: "en_fresh_token demo_env n = replicate n (CHR ''t'')" "ac_next demo = 30" "en_refresh_days demo_env = 7"
  by (simp_all add: demo_env_def demo_def)

theorem refresh_rotates_witness:
  "\<exists>p s' d'. refresh demo_env 100 (replicate 21 (CHR ''r'')) demo = Inr (p, s')
     \<and> refresh demo_env 200 (replicate 21 (CHR ''r'')) s' = Inl Invalid_token
     \<and> refresh_lookup demo_env 200 (tp_refresh_token p) s' = Inr (d', demo_user 1 ''olga'' ''Olga'')"
proof -
  obtain p s' where r: "refresh demo_env 100 (replicate 21 (CHR ''r'')) demo = Inr (p, s')"
    by (cases "refresh_rotate demo_env 100 (demo_session 21 1, demo_user 1 ''olga'' ''Olga'') demo")
      (simp add: refresh_def demo_lookup)
  have "hash_new (en_hash_token demo_env (en_fresh_token demo_env (ac_next demo))) (ac_sessions demo)"
    using demo_unused(1) by (simp add: demo_fresh)
  from refresh_rotates [OF r demo_sessions_wf _ this, of 200] r show ?thesis by (fastforce simp: demo_lookup demo_fresh day_def)
qed

text \<open>Two requests that present the same refresh token at once are both served. When each looks the session up
  before the other rotates it, both get a valid access token of the same session; the refresh token handed
  to the first is dead, the one of the second lives. Rotation therefore neither prevents nor detects the
  replay of an intercepted token, and it is the rightful client that may be the one logged out.\<close>

theorem refresh_race:
  assumes l: "refresh_lookup env now token s = Inr (d, u)"
    and r1: "refresh_rotate env now (d, u) s = (p1, s1)" and r2: "refresh_rotate env now (d, u) s1 = (p2, s2)"
    and wf: "table_wf (ac_sessions s)" and later: "now \<le> later" "later < now + en_refresh_days env * day"
    and new: "hash_new (en_hash_token env (tp_refresh_token p1)) (ac_sessions s)" "hash_new (en_hash_token env (tp_refresh_token p2)) (ac_sessions s)"
    and ne: "en_hash_token env (tp_refresh_token p1) \<noteq> en_hash_token env (tp_refresh_token p2)"
  shows "tp_access_token p1 = tp_access_token p2 \<and> tp_access_token p1 = en_access_token env (row_id u) (row_id d) (us_email u) now
     \<and> (\<exists>d'. get_active later (row_id d) (ac_sessions s2) = Inr (Some d'))
     \<and> refresh_lookup env later (tp_refresh_token p1) s2 = Inl Invalid_token
     \<and> (\<exists>d'. refresh_lookup env later (tp_refresh_token p2) s2 = Inr (d', u))"
proof -
  let ?x = "now + en_refresh_days env * day"
  let ?h1 = "en_hash_token env (tp_refresh_token p1)" and ?h2 = "en_hash_token env (tp_refresh_token p2)"
  note one = refresh_lookup_Inr(1) [OF l] and usr = refresh_lookup_Inr(2,3) [OF l]
  have "d \<in> set (filter (\<lambda>x. row_deleted_at x = None \<and> ss_refresh_token_hash x = en_hash_token env token \<and> session_live now x)
      (ac_sessions s))" unfolding one by simp
  then have d: "d \<in> set (ac_sessions s)" "row_deleted_at d = None" "ss_revoked_at d = None" by (simp_all add: session_live_def)
  let ?d1 = "rotated now ?h1 ?x d"
  from r1 have s1: "ac_sessions s1 = rotate_session now (row_id d) ?h1 ?x (ac_sessions s)" "ac_users s1 = ac_users s"
    by (simp_all add: refresh_rotate_state)
  from r2 s1 have s2: "ac_sessions s2 = rotate_session now (row_id d) ?h2 ?x (ac_sessions s1)" "ac_users s2 = ac_users s"
    by (simp_all add: refresh_rotate_state)
  have wf1: "table_wf (ac_sessions s1)" unfolding s1 rotate_session_def by (intro table_wf_update_where [OF wf]) simp
  have one1: "filter (\<lambda>x. row_deleted_at x = None \<and> ss_refresh_token_hash x = ?h1 \<and> session_live later x) (ac_sessions s1) = [?d1]"
    unfolding s1 by (rule rotate_new_hash [OF wf d new(1) later(2)])
  then have "?d1 \<in> set (filter (\<lambda>x. row_deleted_at x = None \<and> ss_refresh_token_hash x = ?h1 \<and> session_live later x) (ac_sessions s1))"
    by simp
  then have d1: "?d1 \<in> set (ac_sessions s1)" by simp
  have n2: "hash_new ?h2 (ac_sessions s1)"
  proof -
    have "ss_refresh_token_hash y \<noteq> ?h2" if "y \<in> set (ac_sessions s1)" for y
    proof -
      from that obtain x where "x \<in> set (ac_sessions s)"
        and y: "y = (if row_id x = row_id d \<and> row_deleted_at x = None then rotated now ?h1 ?x x else x)"
        unfolding s1 rotate_session_def set_update_where rotated_def by blast
      with new(2) ne show ?thesis by (auto simp: hash_new_def list_all_iff rotated_def)
    qed
    then show ?thesis by (simp add: hash_new_def list_all_iff)
  qed
  have rid: "row_id ?d1 = row_id d" "row_deleted_at ?d1 = None" "ss_revoked_at ?d1 = None" using d by (simp_all add: rotated_def)
  have two: "filter (\<lambda>x. row_deleted_at x = None \<and> ss_refresh_token_hash x = ?h2 \<and> session_live later x) (ac_sessions s2)
      = [rotated now ?h2 ?x ?d1]"
    using rotate_new_hash [OF wf1 d1 rid(2,3) n2 later(2), of now] by (simp add: s2 rid)
  have live2: "rotated now ?h2 ?x ?d1 \<in> set (ac_sessions s2)" "session_live later (rotated now ?h2 ?x ?d1)"
    using two by (auto simp: filter_eq_Cons_iff dest: arg_cong [where f = set])
  have "refresh_lookup env later (tp_refresh_token p1) s2 = Inl Invalid_token"
    by (rule refresh_lookup_none) (use rotate_old_hash [OF one1 ne [symmetric], of later] in \<open>simp add: s2 rid\<close>)
  moreover have "refresh_lookup env later (tp_refresh_token p2) s2 = Inr (rotated now ?h2 ?x ?d1, u)"
    by (rule refresh_lookup_intro [OF two]) (use usr in \<open>simp_all add: s2 rotated_def\<close>)
  moreover have "\<exists>d'. get_active later (row_id d) (ac_sessions s2) = Inr (Some d')"
  proof -
    have "distinct (map row_id (ac_sessions s2))"
      using wf1 unfolding s2 rotate_session_def by (simp add: table_wf_def map_update_where)
    from scalar_key [OF this live2(1), of "\<lambda>x. row_deleted_at x = None \<and> session_live later x"] live2(2) d(2)
    show ?thesis by (auto simp: get_active_def active_query_def rotated_def conj_ac)
  qed
  ultimately show ?thesis using r1 r2 by (auto simp: refresh_rotate_state)
qed

theorem refresh_race_witness:
  "\<exists>p1 s1 p2 s2. refresh_rotate demo_env 100 (demo_session 21 1, demo_user 1 ''olga'' ''Olga'') demo = (p1, s1)
     \<and> refresh_rotate demo_env 100 (demo_session 21 1, demo_user 1 ''olga'' ''Olga'') s1 = (p2, s2)
     \<and> tp_access_token p1 = tp_access_token p2 \<and> refresh_lookup demo_env 200 (tp_refresh_token p1) s2 = Inl Invalid_token
     \<and> (\<exists>d'. refresh_lookup demo_env 200 (tp_refresh_token p2) s2 = Inr (d', demo_user 1 ''olga'' ''Olga''))"
proof -
  obtain p1 s1 where r1: "refresh_rotate demo_env 100 (demo_session 21 1, demo_user 1 ''olga'' ''Olga'') demo = (p1, s1)"
    by (cases "refresh_rotate demo_env 100 (demo_session 21 1, demo_user 1 ''olga'' ''Olga'') demo")
  obtain p2 s2 where r2: "refresh_rotate demo_env 100 (demo_session 21 1, demo_user 1 ''olga'' ''Olga'') s1 = (p2, s2)"
    by (cases "refresh_rotate demo_env 100 (demo_session 21 1, demo_user 1 ''olga'' ''Olga'') s1")
  have t1: "tp_refresh_token p1 = replicate 30 (CHR ''t'')" "ac_next s1 = 31"
    using r1 by (simp_all add: refresh_rotate_state demo_fresh)
  have t2: "tp_refresh_token p2 = replicate 31 (CHR ''t'')"
    using r2 t1(2) by (simp add: refresh_rotate_state demo_fresh)
  have "en_hash_token demo_env (replicate 30 (CHR ''t'')) \<noteq> en_hash_token demo_env (replicate 31 (CHR ''t''))" by code_simp
  with refresh_race [OF demo_lookup r1 r2 demo_sessions_wf, of 200] demo_unused r1 r2 show ?thesis
    by (auto simp: t1 t2 demo_fresh day_def)
qed

section \<open>Which logins succeed\<close>

lemma map_filter_update_where:
  "(\<And>r. g (f r) = g r) \<Longrightarrow> List.map_filter g (sql_update_where P f rows) = List.map_filter g rows"
  by (induction rows) (auto simp: sql_update_where_def map_filter_simps split: option.split)

lemma uq_users_update:
  assumes "\<And>u. us_email (f u) = us_email u" "\<And>u. us_username (f u) = us_username u" "\<And>u. us_google_sub (f u) = us_google_sub u"
  shows "uq_users (repo_update now i f rows) = uq_users rows"
  using assms by (simp add: uq_users_def repo_update_def map_update_where map_filter_update_where)

definition may_log_in :: "account_env \<Rightarrow> string \<Rightarrow> user \<Rightarrow> bool" where
  "may_log_in env password u \<longleftrightarrow>
     row_deleted_at u = None \<and> password_matches env u password \<and> us_status u \<noteq> US_DISABLED \<and> us_email_verified u"

definition ids_below :: "nat \<Rightarrow> ('a base_row_scheme) list \<Rightarrow> bool" where
  "ids_below n rows \<longleftrightarrow> list_all (\<lambda>r. row_id r < n) rows"

lemma ids_below_fresh: "ids_below n rows \<Longrightarrow> n \<le> i \<Longrightarrow> i \<notin> row_id ` set rows"
  by (auto simp: ids_below_def list_all_iff)

lemma ids_below_mono: "ids_below n rows \<Longrightarrow> n \<le> m \<Longrightarrow> ids_below m rows"
  by (auto simp: ids_below_def list_all_iff)

lemma issue_session_Inr:
  assumes "ids_below (ac_next s) (ac_sessions s)"
  shows "\<exists>pair d s'. issue_session env now u ip ua s = Inr (pair, s') \<and> ac_sessions s' = ac_sessions s @ [d]
     \<and> ss_user_id d = row_id u \<and> ss_refresh_token_hash d = en_hash_token env (tp_refresh_token pair)
     \<and> ac_users s' = ac_users s \<and> ids_below (ac_next s') (ac_sessions s')"
  using ids_below_fresh [OF assms, of "Suc (ac_next s)"] ids_below_mono [OF assms, of "Suc (Suc (ac_next s))"]
  by (simp add: issue_session_def draw_def Let_def repo_create_def map_err_def ids_below_def)

lemma get_by_email_total: "uq_users rows \<Longrightarrow> \<exists>r. us_get_by_email e rows = Inr r"
proof -
  assume uq: "uq_users rows"
  show ?thesis
  proof (cases "\<exists>u \<in> set rows. us_email u = e \<and> row_deleted_at u = None")
    case True
    then show ?thesis using get_by_email_iff [OF uq] by blast
  next
    case False
    then have "filter (\<lambda>u. us_email u = e) (active_query rows) = []" by (auto simp: filter_empty_conv set_active)
    then show ?thesis by (simp add: us_get_by_email_def scalar_one_or_none_def)
  qed
qed

lemma login_ok:
  assumes u: "us_get_by_email e (ac_users s) = Inr (Some u)" and m: "may_log_in env password u"
    and ids: "ids_below (ac_next s) (ac_sessions s)"
  shows "\<exists>pair s'. login env now e password ip ua s = Inr ((pair, u), s')
     \<and> (\<exists>d \<in> set (ac_sessions s'). ss_user_id d = row_id u \<and> ss_refresh_token_hash d = en_hash_token env (tp_refresh_token pair))"
proof -
  let ?s = "s\<lparr>ac_members := link_pending_by_email now (us_email u) (row_id u) (ac_members s)\<rparr>"
  have "ids_below (ac_next ?s) (ac_sessions ?s)" using ids by simp
  then obtain pair d s2 where "issue_session env now u ip ua ?s = Inr (pair, s2)" and "ac_sessions s2 = ac_sessions ?s @ [d]"
    and "ss_user_id d = row_id u" and "ss_refresh_token_hash d = en_hash_token env (tp_refresh_token pair)"
    using issue_session_Inr [of ?s] by blast
  with u m show ?thesis
    by (auto simp: login_def map_err_def may_log_in_def password_matches_def split: option.splits)
qed

text \<open>A password login succeeds exactly for an account that exists, has that password, is not disabled and whose
  address is verified, and then the new session belongs to that account. The other outcomes come in
  this order: an unknown address, a missing or a wrong password are one and the same error; then the disabled
  account, then the unverified address.\<close>

theorem login_outcomes:
  assumes uq: "uq_users (ac_users s)" and ids: "ids_below (ac_next s) (ac_sessions s)"
  shows "login env now e password ip ua s =
      (case List.find (\<lambda>u. row_deleted_at u = None \<and> us_email u = e) (ac_users s) of
         None \<Rightarrow> Inl Invalid_credentials
       | Some u \<Rightarrow>
           if \<not> password_matches env u password then Inl Invalid_credentials
           else if us_status u = US_DISABLED then Inl Account_disabled
           else if \<not> us_email_verified u then Inl Email_not_verified
           else login env now e password ip ua s)
     \<and> ((\<exists>r. login env now e password ip ua s = Inr r)
          \<longleftrightarrow> (\<exists>u \<in> set (ac_users s). us_email u = e \<and> may_log_in env password u))
     \<and> (\<forall>pair u s'. login env now e password ip ua s = Inr ((pair, u), s') \<longrightarrow>
          us_email u = e \<and> (\<exists>d \<in> set (ac_sessions s'). ss_user_id d = row_id u
             \<and> ss_refresh_token_hash d = en_hash_token env (tp_refresh_token pair)))"
proof (cases "List.find (\<lambda>u. row_deleted_at u = None \<and> us_email u = e) (ac_users s)")
  case None
  then have no: "\<not> (\<exists>u \<in> set (ac_users s). row_deleted_at u = None \<and> us_email u = e)"
    by (simp add: find_None_iff_all)
  with get_by_email_total [OF uq, of e] get_by_email_iff [OF uq, of e] have "us_get_by_email e (ac_users s) = Inr None"
    by (metis not_Some_eq)
  then have "login env now e password ip ua s = Inl Invalid_credentials" by (simp add: login_def map_err_def)
  with None no show ?thesis by (auto simp: may_log_in_def)
next
  case (Some u)
  then have "u \<in> set (ac_users s)" "row_deleted_at u = None" "us_email u = e" by (auto dest: find_Some_mem)
  then have g: "us_get_by_email e (ac_users s) = Inr (Some u)" by (simp add: get_by_email_iff [OF uq])
  have only: "w = u" if "w \<in> set (ac_users s)" "us_email w = e" "row_deleted_at w = None" for w
    using get_by_email_iff [OF uq, of e w] g that by simp
  show ?thesis
  proof (cases "may_log_in env password u")
    case True
    with login_ok [OF g True ids, of now ip ua] Some \<open>u \<in> set (ac_users s)\<close> \<open>us_email u = e\<close> show ?thesis
      by (auto simp: may_log_in_def)
  next
    case False
    then have "login env now e password ip ua s =
       (if \<not> password_matches env u password then Inl Invalid_credentials
           else if us_status u = US_DISABLED then Inl Account_disabled else Inl Email_not_verified)"
      using g \<open>row_deleted_at u = None\<close>
      by (auto simp: login_def map_err_def password_matches_def may_log_in_def split: option.splits)
    with False Some only \<open>row_deleted_at u = None\<close> show ?thesis by (auto simp: may_log_in_def)
  qed
qed

theorem login_outcomes_witness:
  "\<exists>r. login demo_env 100 ''olga'' ''pw'' None None demo = Inr r"
proof -
  have "uq_users (ac_users demo)" "ids_below (ac_next demo) (ac_sessions demo)" by code_simp+
  from login_outcomes [OF this, of demo_env 100 "''olga''" "''pw''" None None]
  have "(\<exists>r. login demo_env 100 ''olga'' ''pw'' None None demo = Inr r)
      \<longleftrightarrow> (\<exists>u \<in> set (ac_users demo). us_email u = ''olga'' \<and> may_log_in demo_env ''pw'' u)" by blast
  moreover have "list_ex (\<lambda>u. us_email u = ''olga'' \<and> may_log_in demo_env ''pw'' u) (ac_users demo)" by code_simp
  ultimately show ?thesis by (simp add: list_ex_iff)
qed

section \<open>From registration to login\<close>

lemma insert_membership_frame:
  "insert_membership m s = Inr s' \<Longrightarrow> ac_users s' = ac_users s \<and> ac_verify s' = ac_verify s \<and> ac_sessions s' = ac_sessions s
     \<and> ac_next s' = ac_next s"
  by (auto simp: insert_membership_Inr)

lemma create_workspace_frame:
  assumes "create_workspace env now u name slug_seed p s = Inr (g, s')"
  shows "ac_users s' = ac_users s \<and> ac_verify s' = ac_verify s \<and> ac_sessions s' = ac_sessions s \<and> ac_next s \<le> ac_next s'"
  using assms
  by (auto simp: create_workspace_def draw_def Let_def insert_org_def elim!: and_then_InrE split: option.split_asm
      dest!: insert_membership_frame)

lemma register_Inr:
  assumes "register env now b s = Inr ((u, g), s')"
  shows "\<exists>k raw. ac_users s' = ac_users s @ [u] \<and> uq_users (ac_users s') \<and> ac_sessions s' = ac_sessions s
     \<and> ac_next s \<le> k \<and> raw = en_fresh_token env k \<and> ac_next s \<le> ac_next s'
     \<and> ac_verify s' = invalidate_for_user now (row_id u) (ac_verify s) @ [new_token env now (k + 1) (row_id u) raw (now + day)]
     \<and> k + 1 \<notin> row_id ` set (ac_verify s)
     \<and> last (ac_outbox s') = Verification_email (rb_email b) raw
     \<and> us_email u = rb_email b \<and> us_status u = US_ACTIVE \<and> \<not> us_email_verified u \<and> row_deleted_at u = None
     \<and> row_id u = ac_next s \<and> us_password_hash u = Some (en_hash_password env (ac_next s + 1) (rb_password b))"
proof -
  let ?u = "(new_user now (ac_next s) (rb_email b) (rb_display_name b))
      \<lparr>us_password_hash := Some (en_hash_password env (Suc (ac_next s)) (rb_password b))\<rparr>"
  let ?s0 = "s\<lparr>ac_next := Suc (Suc (ac_next s))\<rparr>"
  from assms obtain s1 g1 s2 g2 s3 where ins: "insert_user ?u ?s0 = Inr s1"
    and w1: "create_personal_workspace env now ?u s1 = Inr (g1, s2)"
    and w2: "landing_workspace env now b ?u (g1, s2) = Inr (g2, s3)"
    and v: "send_verification_email env now ?u s3 = Inr s'" and u: "u = ?u"
    by (auto simp: register_def draw_def Let_def elim!: and_then_InrE split: if_split_asm)
  have s1: "ac_users s1 = ac_users s @ [?u]" "uq_users (ac_users s1)" "ac_verify s1 = ac_verify s" "ac_sessions s1 = ac_sessions s"
    "ac_next s1 = Suc (Suc (ac_next s))"
    using ins by (auto simp: insert_user_def repo_create_Inr elim!: and_then_InrE)
  have s2: "ac_users s2 = ac_users s1 \<and> ac_verify s2 = ac_verify s1 \<and> ac_sessions s2 = ac_sessions s1 \<and> ac_next s1 \<le> ac_next s2"
    using create_workspace_frame [OF w1 [unfolded create_personal_workspace_def]] .
  have s3: "ac_users s3 = ac_users s2 \<and> ac_verify s3 = ac_verify s2 \<and> ac_sessions s3 = ac_sessions s2 \<and> ac_next s2 \<le> ac_next s3"
    using w2 by (cases "rb_account_type b") (auto simp: landing_workspace_def Let_def dest!: create_workspace_frame)
  from v have v': "ac_users s' = ac_users s3 \<and> ac_sessions s' = ac_sessions s3 \<and> ac_next s' = ac_next s3 + 2
     \<and> ac_verify s' = invalidate_for_user now (row_id ?u) (ac_verify s3)
          @ [new_token env now (ac_next s3 + 1) (row_id ?u) (en_fresh_token env (ac_next s3)) (now + day)]
     \<and> ac_next s3 + 1 \<notin> row_id ` set (invalidate_for_user now (row_id ?u) (ac_verify s3))
     \<and> last (ac_outbox s') = Verification_email (us_email ?u) (en_fresh_token env (ac_next s3))"
    by (auto simp: send_verification_email_def create_verification_token_def draw_def Let_def repo_create_Inr new_token_def
        send_email_def elim!: and_then_InrE)
  have ids: "row_id ` set (invalidate_for_user now i rows) = row_id ` set rows" for i rows
  proof -
    have "set (map row_id (invalidate_for_user now i rows)) = set (map row_id rows)"
      unfolding invalidate_for_user_def by (subst map_update_where) simp_all
    then show ?thesis by simp
  qed
  show ?thesis
    by (intro exI [where x = "ac_next s3"] exI [where x = "en_fresh_token env (ac_next s3)"])
      (use s1 s2 s3 v' u in \<open>auto simp: new_user_def ids\<close>)
qed

definition tokens_unused :: "account_env \<Rightarrow> nat \<Rightarrow> token_row list \<Rightarrow> bool" where
  "tokens_unused env n rows \<longleftrightarrow> (\<forall>k \<ge> n. list_all (\<lambda>t. tk_token_hash t \<noteq> en_hash_token env (en_fresh_token env k)) rows)"

text \<open>Registering never logs in: the new account is refused with its own password until the address is
  verified. The token that the verification e-mail carries verifies it for a day, and from then on the same
  password logs in.\<close>

theorem verification_gate:
  assumes r: "register env now b s = Inr ((u, g), s1)"
    and law: "\<And>n p. en_verify_password env (en_hash_password env n p) p"
    and ids: "ids_below (ac_next s) (ac_sessions s)" "ids_below (ac_next s) (ac_users s)" "table_wf (ac_users s)"
    and unused: "tokens_unused env (ac_next s) (ac_verify s)"
  shows "\<exists>raw. last (ac_outbox s1) = Verification_email (rb_email b) raw
     \<and> (\<forall>t. login env t (rb_email b) (rb_password b) ip ua s1 = Inl Email_not_verified)
     \<and> (\<forall>t. now \<le> t \<and> t < now + day \<longrightarrow>
          (\<exists>u2 s2 pair s3. verify_email env t raw s1 = Inr (u2, s2) \<and> row_id u2 = row_id u
             \<and> login env t (rb_email b) (rb_password b) ip ua s2 = Inr ((pair, u2\<lparr>row_updated_at := t\<rparr>), s3)))"
proof -
  from register_Inr [OF r] obtain k raw where us: "ac_users s1 = ac_users s @ [u]" "uq_users (ac_users s1)"
    and ss: "ac_sessions s1 = ac_sessions s" "ac_next s \<le> ac_next s1" and k: "ac_next s \<le> k" "raw = en_fresh_token env k"
    and vt: "ac_verify s1 = invalidate_for_user now (row_id u) (ac_verify s) @ [new_token env now (k + 1) (row_id u) raw (now + day)]"
    and mail: "last (ac_outbox s1) = Verification_email (rb_email b) raw"
    and u: "us_email u = rb_email b" "us_status u = US_ACTIVE" "\<not> us_email_verified u" "row_deleted_at u = None" "row_id u = ac_next s"
      "us_password_hash u = Some (en_hash_password env (ac_next s + 1) (rb_password b))" by blast
  have pw: "password_matches env u (rb_password b)" using u(6) law by (simp add: password_matches_def)
  have gu: "us_get_by_email (rb_email b) (ac_users s1) = Inr (Some u)"
    using us u by (simp add: get_by_email_iff)
  then have "login env t (rb_email b) (rb_password b) ip ua s1 = Inl Email_not_verified" for t
    using pw u by (simp add: login_def map_err_def password_matches_def)
  moreover have "\<exists>u2 s2 pair s3. verify_email env t raw s1 = Inr (u2, s2) \<and> row_id u2 = row_id u
             \<and> login env t (rb_email b) (rb_password b) ip ua s2 = Inr ((pair, u2\<lparr>row_updated_at := t\<rparr>), s3)"
    if t: "now \<le> t \<and> t < now + day" for t
  proof -
    let ?t = "new_token env now (k + 1) (row_id u) raw (now + day)"
    let ?f = "\<lambda>u. u\<lparr>us_status := (if us_status u = US_INVITED then US_ACTIVE else us_status u), us_email_verified := True\<rparr>"
    have "filter (\<lambda>x. token_valid t x \<and> tk_token_hash x = en_hash_token env raw) (invalidate_for_user now (row_id u) (ac_verify s)) = []"
    proof -
      have "list_all (\<lambda>x. tk_token_hash x \<noteq> en_hash_token env raw) (ac_verify s)"
        using unused k by (simp add: tokens_unused_def)
      then show ?thesis
        by (auto simp: filter_empty_conv invalidate_for_user_def set_update_where list_all_iff)
    qed
    then have tok: "get_valid_by_hash t (en_hash_token env raw) (ac_verify s1) = Inr (Some ?t)"
      using t by (simp add: get_valid_by_hash_def vt scalar_one_Some token_valid_def new_token_def)
    have wf1: "table_wf (ac_users s1)"
      using ids(2,3) u(5) us(1) ids_below_fresh [OF ids(2), of "ac_next s"] by (simp add: table_wf_def)
    have gu2: "repo_get (row_id u) (ac_users s1) = Inr (Some u)"
      using repo_get_iff [OF wf1] us(1) u(4) by simp
    let ?s2 = "s1\<lparr>ac_verify := mark_used t (k + 1) (ac_verify s1)\<rparr>"
    let ?rows = "repo_update t (row_id u) ?f (ac_users s1)"
    have uq: "uq_users ?rows"
      using us(2) by (subst uq_users_update) simp_all
    have v: "verify_email env t raw s1 = Inr (?f u, send_email (Welcome_email (us_email u)) (?s2\<lparr>ac_users := ?rows\<rparr>))"
      using tok gu2 u(3) uq by (simp add: verify_email_def map_err_def save_user_def new_token_def checked_def)
    let ?s3 = "send_email (Welcome_email (us_email u)) (?s2\<lparr>ac_users := ?rows\<rparr>)"
    have "(?f u)\<lparr>row_updated_at := t\<rparr> \<in> set ?rows" by (rule repo_update_get) (use wf1 us u in auto)
    then have g3: "us_get_by_email (rb_email b) (ac_users ?s3) = Inr (Some ((?f u)\<lparr>row_updated_at := t\<rparr>))"
      using uq u by (simp add: get_by_email_iff send_email_def)
    have m3: "may_log_in env (rb_password b) ((?f u)\<lparr>row_updated_at := t\<rparr>)"
      using pw u by (simp add: may_log_in_def password_matches_def)
    have i3: "ids_below (ac_next ?s3) (ac_sessions ?s3)"
      using ids_below_mono [OF ids(1) ss(2)] ss(1) by (simp add: send_email_def)
    from login_ok [OF g3 m3 i3, of t ip ua] v show ?thesis by auto
  qed
  ultimately show ?thesis using mail by blast
qed

definition demo_register :: register_body where
  "demo_register = \<lparr>rb_email = ''nina'', rb_password = ''secret'', rb_display_name = ''Nina'', rb_account_type = Business,
     rb_organization_name = None\<rparr>"

theorem verification_gate_witness:
  "\<exists>u g s1 raw u2 s2 r. register demo_env 100 demo_register demo = Inr ((u, g), s1)
     \<and> login demo_env 200 ''nina'' ''secret'' None None s1 = Inl Email_not_verified
     \<and> verify_email demo_env 200 raw s1 = Inr (u2, s2) \<and> login demo_env 200 ''nina'' ''secret'' None None s2 = Inr r"
proof -
  have "succeeds (register demo_env 100 demo_register demo)" by code_simp
  then obtain u g s1 where r: "register demo_env 100 demo_register demo = Inr ((u, g), s1)" by (auto dest: succeedsD)
  have "ids_below (ac_next demo) (ac_sessions demo)" "ids_below (ac_next demo) (ac_users demo)" "table_wf (ac_users demo)"
    by code_simp+
  moreover have "tokens_unused demo_env (ac_next demo) (ac_verify demo)" by (simp add: tokens_unused_def demo_def)
  moreover have "rb_email demo_register = ''nina''" "rb_password demo_register = ''secret''" by (simp_all add: demo_register_def)
  moreover have "(100 :: micros) \<le> 200 \<and> 200 < 100 + day" by (simp add: day_def)
  ultimately show ?thesis using verification_gate [OF r demo_law, of None None] r by metis
qed

section \<open>A Google login and an older password\<close>

lemma save_user_row:
  assumes "save_user now (row_id x) f s = Inr s'" and "x \<in> set (ac_users s)" and "table_wf (ac_users s)"
    and "row_deleted_at x = None" and "row_id (f x) = row_id x" and "row_deleted_at (f x) = None"
  shows "(f x)\<lparr>row_updated_at := now\<rparr> \<in> set (ac_users s')" and "uq_users (ac_users s')"
    and "ac_sessions s' = ac_sessions s" and "ac_next s' = ac_next s"
  using assms(1) repo_update_get [of "ac_users s" x f now, OF assms(3,2,4-6)] by (auto simp: save_user_Inr)

lemma verify_then_login:
  assumes v: "verify_email env now token s = Inr (u, s')" and x: "x \<in> set (ac_users s)" "row_id x = row_id u" "row_deleted_at x = None"
    and wf: "table_wf (ac_users s)" and pw: "password_matches env x password" and st: "us_status x \<noteq> US_DISABLED"
    and ids: "ids_below (ac_next s) (ac_sessions s)"
  shows "\<exists>pair w s2. login env later (us_email x) password ip ua s' = Inr ((pair, w), s2) \<and> row_id w = row_id x"
proof -
  let ?f = "\<lambda>u. u\<lparr>us_status := (if us_status u = US_INVITED then US_ACTIVE else us_status u), us_email_verified := True\<rparr>"
  from v obtain t :: token_row and y s1 where y: "repo_get (tk_user_id t) (ac_users s) = Inr (Some y)"
    and sv: "save_user now (row_id y) ?f (s\<lparr>ac_verify := mark_used now (row_id t) (ac_verify s)\<rparr>) = Inr s1"
    and s': "ac_users s' = ac_users s1" "ac_sessions s' = ac_sessions s1" "ac_next s' = ac_next s1" and "row_id u = row_id y"
    by (auto simp: verify_email_def send_email_def elim!: and_then_InrE split: option.split_asm if_split_asm)
  with x repo_get_mem [OF y] table_unique [OF wf, of x y] have yx: "y = x" by simp
  note row = save_user_row [OF sv [unfolded yx], simplified, OF x(1) wf x(3)]
  let ?w = "(?f x)\<lparr>row_updated_at := now\<rparr>"
  have "us_get_by_email (us_email x) (ac_users s') = Inr (Some ?w)"
    using row(1,2) x(3) by (simp add: s' get_by_email_iff)
  moreover have "may_log_in env password ?w" using pw st x(3) by (simp add: may_log_in_def password_matches_def)
  moreover have "ids_below (ac_next s') (ac_sessions s')" using row(3,4) ids by (simp add: s')
  ultimately show ?thesis using login_ok [of "us_email x" s' ?w env password later ip ua] by auto
qed

text \<open>A Google login that finds an account with the same address links to it without touching its password or its
  verification. If somebody else registered the address before (and so could never log in), the rightful
  owner who comes in by Google and later follows a verification link makes the stranger's password work.\<close>

theorem google_link_keeps_password:
  assumes g: "login_or_register_with_google env now gi ip ua s = Inr ((pair, u, org, is_new), s')"
    and x: "x \<in> set (ac_users s)" "us_email x = gi_email gi" "row_deleted_at x = None" "\<not> us_email_verified x"
    and none: "us_get_by_google_sub (gi_sub gi) (ac_users s) = Inr None"
    and wf: "table_wf (ac_users s)" "uq_users (ac_users s)" "ids_below (ac_next s) (ac_sessions s)"
    and pw: "password_matches env x password"
  shows "\<not> is_new \<and> row_id u = row_id x
     \<and> login env t (us_email x) password ip ua s' = Inl Email_not_verified
     \<and> (\<forall>token u2 s2. verify_email env t token s' = Inr (u2, s2) \<and> row_id u2 = row_id x \<longrightarrow>
          (\<exists>pair w s3. login env t (us_email x) password ip ua s2 = Inr ((pair, w), s3) \<and> row_id w = row_id x))"
proof -
  let ?f = "link_columns now (gi_sub gi) (gi_email gi)"
  have ge: "us_get_by_email (gi_email gi) (ac_users s) = Inr (Some x)" using x by (simp add: get_by_email_iff [OF wf(2)])
  from g none ge obtain s1 where sv: "save_user now (row_id x) ?f s = Inr s1" and st: "us_status x \<noteq> US_DISABLED"
    and iss: "\<exists>s2. issue_session env now (?f x) ip ua
        (s1\<lparr>ac_members := link_pending_by_email now (us_email x) (row_id x) (ac_members s1)\<rparr>) = Inr (pair, s2)
        \<and> s' = s2\<lparr>ac_users := update_last_login now (row_id x) (Some ''google'') (ac_users s2)\<rparr>"
    and u: "u = ?f x" "\<not> is_new"
    by (auto simp: login_or_register_with_google_def google_account_def map_err_def Let_def link_columns_def
        elim!: and_then_InrE split: if_split_asm)
  note row = save_user_row [OF sv x(1) wf(1) x(3)]
  have row1: "(?f x)\<lparr>row_updated_at := now\<rparr> \<in> set (ac_users s1)" "uq_users (ac_users s1)" "ac_sessions s1 = ac_sessions s" "ac_next s1 = ac_next s"
    using row x(3) by (simp_all add: link_columns_def)
  let ?s1 = "s1\<lparr>ac_members := link_pending_by_email now (us_email x) (row_id x) (ac_members s1)\<rparr>"
  have "ids_below (ac_next ?s1) (ac_sessions ?s1)" using row1(3,4) wf(3) by simp
  from issue_session_Inr [OF this, of env now "?f x" ip ua] iss
  have s': "ac_users s' = update_last_login now (row_id x) (Some ''google'') (ac_users s1)"
    and ids: "ids_below (ac_next s') (ac_sessions s')" by auto
  let ?g = "\<lambda>u. u\<lparr>us_last_login_provider := Some ''google'', us_last_login_at := Some now, row_updated_at := now\<rparr>"
  let ?x = "?g ((?f x)\<lparr>row_updated_at := now\<rparr>)"
  have us: "ac_users s' = sql_update_where (\<lambda>u. row_id u = row_id x \<and> row_deleted_at u = None) ?g (ac_users s1)"
    unfolding s' update_last_login_def by simp
  have "?g ((?f x)\<lparr>row_updated_at := now\<rparr>) \<in> set (ac_users s')"
    using imageI [OF row1(1), of "\<lambda>r. if row_id r = row_id x \<and> row_deleted_at r = None then ?g r else r"] x(3)
    unfolding us set_update_where by (simp add: link_columns_def)
  then have mem: "?x \<in> set (ac_users s')" .
  have "table_wf (ac_users s1)" using sv table_wf_update [OF wf(1), of ?f now "row_id x"] by (auto simp: save_user_Inr link_columns_def)
  then have twf: "table_wf (ac_users s')" unfolding us by (intro table_wf_update_where) simp_all
  have uq: "uq_users (ac_users s')"
    using row1(2) unfolding us by (simp add: uq_users_def map_update_where map_filter_update_where)
  have "us_get_by_email (us_email x) (ac_users s') = Inr (Some ?x)"
    using mem x(3) by (simp add: get_by_email_iff [OF uq] link_columns_def)
  then have "login env t (us_email x) password ip ua s' = Inl Email_not_verified"
    using pw st x(4) by (auto simp: login_def map_err_def password_matches_def link_columns_def split: option.splits)
  moreover have "\<exists>pair w s3. login env t (us_email x) password ip ua s2 = Inr ((pair, w), s3) \<and> row_id w = row_id x"
    if "verify_email env t token s' = Inr (u2, s2)" "row_id u2 = row_id x" for token u2 s2
    using verify_then_login [OF that(1) mem _ _ twf _ _ ids, of password t ip ua] that(2) pw st x(3)
    by (simp add: link_columns_def password_matches_def)
  moreover have "\<not> is_new \<and> row_id u = row_id x" using u by (simp add: link_columns_def)
  ultimately show ?thesis by blast
qed

text \<open>The stranger registered as Nina; Nina comes by Google.\<close>

definition demo_squatted :: accounts where
  "demo_squatted = demo\<lparr>ac_users := ac_users demo @ [(demo_user 4 ''nina'' ''Nina'')\<lparr>us_email_verified := False\<rparr>]\<rparr>"

definition demo_identity :: google_identity where
  "demo_identity = \<lparr>gi_sub = ''g-1'', gi_email = ''nina'', gi_display_name = ''Nina'', gi_avatar_url = None\<rparr>"

theorem google_link_keeps_password_witness:
  "\<exists>pair u org s'. login_or_register_with_google demo_env 100 demo_identity None None demo_squatted = Inr ((pair, u, org, False), s')
     \<and> row_id u = 4 \<and> login demo_env 200 ''nina'' ''pw'' None None s' = Inl Email_not_verified"
proof -
  let ?x = "(demo_user 4 ''nina'' ''Nina'')\<lparr>us_email_verified := False\<rparr>"
  have "succeeds (login_or_register_with_google demo_env 100 demo_identity None None demo_squatted)" by code_simp
  then obtain pair u org new s' where
    g: "login_or_register_with_google demo_env 100 demo_identity None None demo_squatted = Inr ((pair, u, org, new), s')"
    by (auto dest: succeedsD)
  have "table_wf (ac_users demo_squatted)" "uq_users (ac_users demo_squatted)"
    "ids_below (ac_next demo_squatted) (ac_sessions demo_squatted)" "password_matches demo_env ?x ''pw''"
    "us_get_by_google_sub (gi_sub demo_identity) (ac_users demo_squatted) = Inr None" by code_simp+
  moreover have "?x \<in> set (ac_users demo_squatted)" by (simp add: demo_squatted_def)
  moreover have "us_email ?x = gi_email demo_identity" "row_deleted_at ?x = None" "\<not> us_email_verified ?x" "row_id ?x = 4"
    "us_email ?x = ''nina''" by (simp_all add: demo_user_def demo_identity_def)
  ultimately show ?thesis using google_link_keeps_password [OF g, of ?x "''pw''" 200] g by auto
qed

section \<open>Deleting an account\<close>

lemma order_desc_empty: "order_desc k rs = [] \<longleftrightarrow> rs = []"
  by (metis length_0_conv length_order_desc)

lemma active_soft_delete: "active_query (repo_soft_delete now by i rows) = filter (\<lambda>r. row_id r \<noteq> i) (active_query rows)"
  by (induction rows) (auto simp: active_query_def repo_soft_delete_def sql_update_where_def row_soft_delete_def)

lemma active_soft_delete_all:
  "active_query (soft_delete_all now by items rows) = filter (\<lambda>r. row_id r \<notin> row_id ` set items) (active_query rows)"
  by (induction items arbitrary: rows) (simp_all add: soft_delete_all_def active_soft_delete conj_commute)

lemma count_soft_delete_all:
  assumes wf: "table_wf rows" and sub: "set items \<subseteq> set (filter P (active_query rows))" and d: "distinct items"
  shows "repo_count P (soft_delete_all now by items rows) = repo_count P rows - length items"
proof -
  let ?A = "filter P (active_query rows)"
  have dA: "distinct (map row_id ?A)" using wf by (simp add: active_query_def table_wf_def distinct_map_filter)
  have "filter (\<lambda>r. P r \<and> row_id r \<notin> row_id ` set items) (active_query rows) = filter (\<lambda>r. r \<notin> set items) ?A"
  proof -
    have "r \<in> set items" if "r \<in> set ?A" "row_id r \<in> row_id ` set items" for r
      using that sub dA by (auto simp: distinct_map dest!: inj_onD)
    then show ?thesis by (auto simp: filter_filter intro!: filter_cong)
  qed
  moreover have "length (filter (\<lambda>r. r \<notin> set items) ?A) = length ?A - length items"
  proof -
    have "distinct ?A" using dA by (simp add: distinct_map)
    then have "length (filter (\<lambda>r. r \<in> set items) ?A) = card ({r. r \<in> set items} \<inter> set ?A)"
      by (rule distinct_length_filter)
    also have "{r. r \<in> set items} \<inter> set ?A = set items" using sub by blast
    also have "card (set items) = length items" using d by (rule distinct_card)
    finally show ?thesis using count_filter_split [of "\<lambda>r. r \<in> set items" ?A] by simp
  qed
  ultimately show ?thesis by (simp add: repo_count_def active_soft_delete_all conj_commute)
qed

lemma first_page:
  assumes "table_wf rows" and "list_page limit None order extra rows = Inr p"
  shows "set (pg_items p) \<subseteq> set (filter extra (active_query rows))" and "distinct (pg_items p)"
    and "length (pg_items p) = min (min limit 100) (repo_count extra rows)"
proof -
  let ?a = "py_lower order \<noteq> ''desc''"
  let ?L = "order_rows ?a (filter extra (active_query rows))"
  have d: "distinct (map row_id (filter extra (active_query rows)))"
    using assms(1) by (simp add: table_wf_def active_query_def distinct_map_filter)
  have "list_page limit None order extra rows = Inr
     (let m = min limit 100
      in \<lparr>pg_items = take m ?L,
          pg_next_cursor =
            (if m < length ?L \<and> 0 < m
             then Some (Cursor (row_created_at (last (take m ?L))) (row_id (last (take m ?L)))) else None),
          pg_has_more = (m < length ?L)\<rparr>)"
    by (rule list_page_from [where seen = "[]" and a = ?a]) (simp_all add: order_rows_strict [OF d])
  with assms(2) have p: "pg_items p = take (min limit 100) ?L" by (auto simp: Let_def)
  then show "set (pg_items p) \<subseteq> set (filter extra (active_query rows))"
    by (metis set_order_rows set_take_subset)
  have "distinct (map row_id ?L)" using d by (simp add: distinct_map order_rows_def order_desc_def)
  then show "distinct (pg_items p)" unfolding p by (simp add: distinct_map)
  show "length (pg_items p) = min (min limit 100) (repo_count extra rows)" by (simp add: p repo_count_def min.commute)
qed

lemma page_soft_delete:
  assumes "table_wf rows" and "list_page 1000 None order P rows = Inr p"
  shows "repo_count P (soft_delete_all now by (pg_items p) rows) = repo_count P rows - 100"
proof -
  have "repo_count P (soft_delete_all now by (pg_items p) rows) = repo_count P rows - length (pg_items p)"
    by (rule count_soft_delete_all [OF assms(1) first_page(1,2) [OF assms]])
  also have "\<dots> = repo_count P rows - 100" unfolding first_page(3) [OF assms] by simp
  finally show ?thesis .
qed

lemma first_page_total: "\<exists>p. list_page limit None order extra rows = Inr p"
  by (simp add: list_page_def Let_def)

lemma cascade_parts:
  assumes "cascade_delete_organization now by org s = Inr s'"
  shows "\<exists>p c. pj_list_by_org org 1000 None ''asc'' (ac_projects s) = Inr p
     \<and> pc_list_by_org org 1000 None ''asc'' (ac_connections s) = Inr c
     \<and> ac_projects s' = soft_delete_all now by (pg_items p) (ac_projects s)
     \<and> ac_connections s' = soft_delete_all now by (pg_items c) (ac_connections s)
     \<and> ac_budgets s' = soft_delete_all now by (budgets_for_org org False (ac_budgets s)) (ac_budgets s)
     \<and> ac_keys s' = soft_delete_all now by (ak_list org (ac_keys s)) (ac_keys s)
     \<and> ac_users s' = ac_users s \<and> ac_next s' = ac_next s
     \<and> (ac_orgs s' = repo_soft_delete now (Some by) org (ac_orgs s) \<or> ac_orgs s' = ac_orgs s \<and> repo_get org (ac_orgs s) = Inr None)"
  using assms by (auto simp: cascade_delete_organization_def Let_def elim!: and_then_InrE split: option.split_asm)

text \<open>Deleting an account clears the organizations it owned, but only the first hundred projects and the first
  hundred provider connections of each: pages hold at most a hundred rows whatever limit is asked for, so
  that the limit of a thousand leaves every row beyond the first page alive under a deleted organization.
  Budgets and keys, which are not paged, go completely.\<close>

theorem cascade_page_limit:
  assumes c: "cascade_delete_organization now by org s = Inr s'"
    and wf: "table_wf (ac_projects s)" "table_wf (ac_connections s)"
  shows "pj_count_by_org org (ac_projects s') = pj_count_by_org org (ac_projects s) - 100
     \<and> repo_count (\<lambda>c. pc_organization_id c = org) (ac_connections s')
         = repo_count (\<lambda>c. pc_organization_id c = org) (ac_connections s) - 100
     \<and> budgets_for_org org False (ac_budgets s') = [] \<and> ak_list org (ac_keys s') = []
     \<and> (\<forall>g \<in> set (ac_orgs s'). row_id g = org \<longrightarrow> row_deleted_at g \<noteq> None)"
proof -
  from cascade_parts [OF c] obtain p q where p: "list_page 1000 None ''asc'' (\<lambda>p. pj_organization_id p = org) (ac_projects s) = Inr p"
    and q: "list_page 1000 None ''asc'' (\<lambda>c. pc_organization_id c = org) (ac_connections s) = Inr q"
    and s': "ac_projects s' = soft_delete_all now by (pg_items p) (ac_projects s)"
      "ac_connections s' = soft_delete_all now by (pg_items q) (ac_connections s)"
      "ac_budgets s' = soft_delete_all now by (budgets_for_org org False (ac_budgets s)) (ac_budgets s)"
      "ac_keys s' = soft_delete_all now by (ak_list org (ac_keys s)) (ac_keys s)"
    and g: "ac_orgs s' = repo_soft_delete now (Some by) org (ac_orgs s) \<or> ac_orgs s' = ac_orgs s \<and> repo_get org (ac_orgs s) = Inr None"
    unfolding pj_list_by_org_def pc_list_by_org_def by blast
  have "pj_count_by_org org (ac_projects s') = pj_count_by_org org (ac_projects s) - 100"
    unfolding s' pj_count_by_org_def by (rule page_soft_delete [OF wf(1) p])
  moreover have "repo_count (\<lambda>c. pc_organization_id c = org) (ac_connections s')
         = repo_count (\<lambda>c. pc_organization_id c = org) (ac_connections s) - 100"
    unfolding s' by (rule page_soft_delete [OF wf(2) q])
  moreover have "budgets_for_org org False (ac_budgets s') = []"
    unfolding s' budgets_for_org_def active_soft_delete_all
    by (auto simp: order_desc_empty filter_empty_conv set_active image_iff)
  moreover have "ak_list org (ac_keys s') = []"
  proof -
    have "filter (\<lambda>k. ak_organization_id k = org) (active_query (ac_keys s')) = []"
      unfolding s' active_soft_delete_all by (auto simp: filter_empty_conv set_active ak_list_def)
    then show ?thesis by (simp add: ak_list_def order_desc_empty active_query_def conj_commute)
  qed
  moreover have "\<forall>g \<in> set (ac_orgs s'). row_id g = org \<longrightarrow> row_deleted_at g \<noteq> None"
    using g
  proof
    assume o: "ac_orgs s' = repo_soft_delete now (Some by) org (ac_orgs s)"
    show ?thesis
    proof
      fix g
      assume "g \<in> set (ac_orgs s')"
      then obtain x where "g = (if row_id x = org then row_soft_delete now (Some by) x else x)"
        unfolding o repo_soft_delete_def set_update_where by blast
      then show "row_id g = org \<longrightarrow> row_deleted_at g \<noteq> None" by (simp add: row_soft_delete_def)
    qed
  next
    assume "ac_orgs s' = ac_orgs s \<and> repo_get org (ac_orgs s) = Inr None"
    then show ?thesis by (auto simp: repo_get_def scalar_one_None filter_empty_conv set_active)
  qed
  ultimately show ?thesis by blast
qed

definition demo_project :: "nat \<Rightarrow> project" where
  "demo_project i =
     \<lparr>row_id = i, row_created_at = 0, row_updated_at = 0, row_deleted_at = None, row_deleted_by = None,
      pj_organization_id = 10, pj_name = ''p'', pj_description = None, pj_environment = PRODUCTION, pj_budget = None\<rparr>"

definition many_ids :: "nat list" where
  "many_ids = [1000..<1101]"

lemma many_ids: "length many_ids = 101" "distinct many_ids"
  unfolding many_ids_def by (simp only: length_upt, rule distinct_upt)

definition demo_many :: accounts where
  "demo_many = demo\<lparr>ac_projects := map demo_project many_ids\<rparr>"

theorem cascade_page_limit_witness:
  "\<exists>s'. cascade_delete_organization 100 1 10 demo_many = Inr s' \<and> pj_count_by_org 10 (ac_projects s') = 1"
proof -
  have orgs: "repo_get 10 (ac_orgs demo) = Inr (Some demo_org)" by code_simp
  obtain p c where "pj_list_by_org 10 1000 None ''asc'' (ac_projects demo_many) = Inr p"
    and "pc_list_by_org 10 1000 None ''asc'' (ac_connections demo_many) = Inr c"
    using first_page_total unfolding pj_list_by_org_def pc_list_by_org_def by meson
  moreover have "ac_orgs demo_many = ac_orgs demo" by (simp add: demo_many_def)
  ultimately obtain s' where s': "cascade_delete_organization 100 1 10 demo_many = Inr s'"
    using orgs by (auto simp: cascade_delete_organization_def map_err_def)
  have f: "filter (\<lambda>p. pj_organization_id p = 10) (active_query (map demo_project xs)) = map demo_project xs" for xs
    by (induction xs) (simp_all add: active_query_def demo_project_def)
  have ps: "ac_projects demo_many = map demo_project many_ids" by (simp add: demo_many_def)
  have n: "pj_count_by_org 10 (ac_projects demo_many) = 101"
    by (simp add: pj_count_by_org_def repo_count_def ps f many_ids)
  have "map row_id (map demo_project xs) = xs" for xs
    by (induction xs) (simp_all add: demo_project_def)
  then have "table_wf (ac_projects demo_many)" by (simp only: table_wf_def ps many_ids)
  moreover have "table_wf (ac_connections demo_many)" by (simp add: table_wf_def demo_many_def demo_def)
  ultimately show ?thesis using cascade_page_limit [OF s'] s' n by simp
qed

lemma cascade_all_frame:
  assumes "cascade_all now by orgs s = Inr s'"
  shows "ac_users s' = ac_users s \<and> map og_slug (ac_orgs s') = map og_slug (ac_orgs s)
     \<and> active_query (ac_orgs s') = filter (\<lambda>g. row_id g \<notin> set orgs) (active_query (ac_orgs s))"
  using assms
proof (induction orgs arbitrary: s)
  case Nil
  then show ?case by simp
next
  case (Cons org orgs)
  then obtain s1 where one: "cascade_delete_organization now by org s = Inr s1" and rest: "cascade_all now by orgs s1 = Inr s'"
    by (auto elim!: and_then_InrE)
  have "ac_users s1 = ac_users s \<and> map og_slug (ac_orgs s1) = map og_slug (ac_orgs s)
     \<and> active_query (ac_orgs s1) = filter (\<lambda>g. row_id g \<noteq> org) (active_query (ac_orgs s))"
  proof -
    from cascade_parts [OF one] have us: "ac_users s1 = ac_users s"
      and "ac_orgs s1 = repo_soft_delete now (Some by) org (ac_orgs s) \<or> ac_orgs s1 = ac_orgs s \<and> repo_get org (ac_orgs s) = Inr None"
      by blast+
    from this(2) show ?thesis
    proof
      assume o: "ac_orgs s1 = repo_soft_delete now (Some by) org (ac_orgs s)"
      have "map og_slug (ac_orgs s1) = map og_slug (ac_orgs s)"
        unfolding o repo_soft_delete_def by (rule map_update_where) (simp add: row_soft_delete_def)
      with us show ?thesis by (simp add: o active_soft_delete)
    next
      assume "ac_orgs s1 = ac_orgs s \<and> repo_get org (ac_orgs s) = Inr None"
      with us show ?thesis by (auto simp: repo_get_def scalar_one_None filter_empty_conv filter_id_conv)
    qed
  qed
  with Cons.IH [OF rest] show ?case by (simp add: conj_commute)
qed

lemma set_map_filter: "y \<in> set (List.map_filter f xs) \<longleftrightarrow> (\<exists>x \<in> set xs. f x = Some y)"
  by (induction xs) (auto simp: map_filter_simps split: option.split)

lemma listed_org:
  "(m, g) \<in> set (list_by_user_email_with_orgs e orgs rows) \<Longrightarrow>
     g \<in> set orgs \<and> row_id g = ms_organization_id m \<and> row_deleted_at g = None \<and> m \<in> set rows"
  by (auto simp: list_by_user_email_with_orgs_def set_map_filter split: option.split_asm if_split_asm dest: find_Some_mem)

lemma register_taken_email:
  assumes "\<not> email_exists e None (ac_users s)" and "e \<in> us_email ` set (ac_users s)" and "rb_email b = e"
  shows "register env now b s = Inl (Auth_db IntegrityError)"
  using assms
  by (auto simp: register_def draw_def Let_def insert_user_def repo_create_def checked_def uq_users_def map_err_def new_user_def)

lemma workspace_taken_slug:
  assumes "\<forall>r. slugify r seed = slug" and "\<not> slug_exists (ac_orgs s) slug" and "slug \<in> og_slug ` set (ac_orgs s)"
  shows "create_workspace env now u name seed p s = Inl (Auth_db IntegrityError)"
  using assms
  by (auto simp: create_workspace_def draw_def Let_def unique_slug_def insert_org_def repo_create_def checked_def
      uq_organizations_def map_err_def)

lemma register_taken_slug:
  assumes no: "\<not> email_exists (rb_email b) None (ac_users s)"
    and slug: "\<forall>r. slugify r (rb_display_name b @ ''-workspace'') = slug" "\<not> slug_exists (ac_orgs s) slug" "slug \<in> og_slug ` set (ac_orgs s)"
  shows "register env now b s = Inl (Auth_db IntegrityError)"
proof -
  let ?u = "(new_user now (ac_next s) (rb_email b) (rb_display_name b))
      \<lparr>us_password_hash := Some (en_hash_password env (Suc (ac_next s)) (rb_password b))\<rparr>"
  let ?s0 = "s\<lparr>ac_next := Suc (Suc (ac_next s))\<rparr>"
  have reg: "register env now b s = and_then (map_err Auth_db (insert_user ?u ?s0)) (\<lambda>s.
      and_then (create_personal_workspace env now ?u s) (\<lambda>gs.
      and_then (landing_workspace env now b ?u gs) (\<lambda>(g, s).
      and_then (send_verification_email env now ?u s) (\<lambda>s. Inr ((?u, g), s)))))"
    using no by (simp add: register_def draw_def Let_def)
  show ?thesis
  proof (cases "insert_user ?u ?s0")
    case (Inl e)
    then have "e = IntegrityError"
      by (auto simp: insert_user_def and_then_Inl_iff repo_create_def checked_def split: if_split_asm)
    with Inl show ?thesis by (simp add: reg map_err_def)
  next
    case (Inr s1)
    then have "ac_orgs s1 = ac_orgs s" by (auto simp: insert_user_def elim!: and_then_InrE)
    with slug have "create_personal_workspace env now ?u s1 = Inl (Auth_db IntegrityError)"
      unfolding create_personal_workspace_def by (intro workspace_taken_slug) (simp_all add: new_user_def)
    with Inr show ?thesis by (simp add: reg map_err_def)
  qed
qed

text \<open>Deleting an account reserves its names for ever. The checks before a registration look at live rows, the
  unique constraints at all rows; so after an account is deleted its address can never register again, and
  nobody whose display name gives the slug of one of its workspaces can register either: both fail with a
  database error (status 500), not with the conflict the handler knows.\<close>

theorem deleted_names_stay_taken:
  assumes d: "delete_account env now u password s = Inr s'" and u: "u \<in> set (ac_users s)"
    and uq: "uq_users (ac_users s)" "uq_organizations (ac_orgs s)"
  shows "(rb_email b = us_email u \<longrightarrow> register env t b s' = Inl (Auth_db IntegrityError))
     \<and> ((\<exists>(m, g) \<in> set (list_by_user_email_with_orgs (us_email u) (ac_orgs s) (ac_members s)).
            ms_role m = OWNER \<and> (\<forall>r. slugify r (rb_display_name b @ ''-workspace'') = og_slug g))
          \<and> \<not> email_exists (rb_email b) None (ac_users s') \<longrightarrow> register env t b s' = Inl (Auth_db IntegrityError))"
proof (intro conjI impI)
  let ?owned = "filter (\<lambda>(m, g). ms_role m = OWNER) (list_by_user_email_with_orgs (us_email u) (ac_orgs s) (ac_members s))"
  from d obtain s1 where c: "cascade_all now (row_id u) (map (\<lambda>(m, g). ms_organization_id m) ?owned) s = Inr s1"
    and us: "ac_users s' = repo_soft_delete now (Some (row_id u)) (row_id u) (ac_users s1)" and orgs: "ac_orgs s' = ac_orgs s1"
    by (auto simp: delete_account_def Let_def elim!: and_then_InrE split: if_split_asm option.split_asm)
  note fr = cascade_all_frame [OF c]
  have mails: "map us_email (ac_users s') = map us_email (ac_users s)"
    unfolding us repo_soft_delete_def using fr by (subst map_update_where) (simp_all add: row_soft_delete_def)
  show "register env t b s' = Inl (Auth_db IntegrityError)" if e: "rb_email b = us_email u"
  proof (rule register_taken_email [OF _ _ e])
    have "us_email u \<in> set (map us_email (ac_users s'))" unfolding mails using u by simp
    then show "us_email u \<in> us_email ` set (ac_users s')" by simp
    have "us_email w \<noteq> us_email u" if "w \<in> set (active_query (ac_users s'))" for w
    proof
      assume eq: "us_email w = us_email u"
      from that have "w \<in> set (ac_users s)" and "row_id w \<noteq> row_id u"
        using fr by (auto simp: us active_soft_delete set_active)
      moreover have "w = u" using calculation(1) u eq uq(1) by (auto simp: uq_users_def distinct_map dest: inj_onD)
      ultimately show False by simp
    qed
    then show "\<not> email_exists (us_email u) None (ac_users s')"
      by (auto simp: email_exists_def list_ex_iff set_active)
  qed
  assume "(\<exists>(m, g) \<in> set (list_by_user_email_with_orgs (us_email u) (ac_orgs s) (ac_members s)).
            ms_role m = OWNER \<and> (\<forall>r. slugify r (rb_display_name b @ ''-workspace'') = og_slug g))
          \<and> \<not> email_exists (rb_email b) None (ac_users s')"
  then obtain m g where mg: "(m, g) \<in> set ?owned" and slug: "\<forall>r. slugify r (rb_display_name b @ ''-workspace'') = og_slug g"
    and no: "\<not> email_exists (rb_email b) None (ac_users s')" by auto
  from mg have g: "g \<in> set (ac_orgs s)" "row_id g = ms_organization_id m"
    by (auto dest!: listed_org)
  from mg have gone: "row_id g \<in> set (map (\<lambda>(m, g). ms_organization_id m) ?owned)" unfolding g(2) by force
  have "og_slug y \<noteq> og_slug g" if "y \<in> set (active_query (ac_orgs s'))" for y
  proof
    assume eq: "og_slug y = og_slug g"
    from that have "y \<in> set (ac_orgs s)" and "row_id y \<notin> set (map (\<lambda>(m, g). ms_organization_id m) ?owned)"
      using fr orgs by (auto simp: set_active)
    moreover have "y = g"
      using calculation(1) g(1) eq uq(2) by (auto simp: uq_organizations_def distinct_map dest: inj_onD)
    ultimately show False using gone by simp
  qed
  then have free: "\<not> slug_exists (ac_orgs s') (og_slug g)" by (auto simp: slug_exists_def list_ex_iff set_active)
  have "og_slug g \<in> set (map og_slug (ac_orgs s'))" using g(1) fr orgs by simp
  then have "og_slug g \<in> og_slug ` set (ac_orgs s')" by simp
  from register_taken_slug [OF no slug free this] show "register env t b s' = Inl (Auth_db IntegrityError)" .
qed

definition demo_solo :: accounts where
  "demo_solo = demo\<lparr>ac_orgs := [demo_org, demo_org\<lparr>row_id := 25, og_slug := ''ivan-workspace'', og_is_personal := True\<rparr>],
     ac_members := ac_members demo @ [new_membership 0 26 25 (Some 3) ''ivan'' OWNER]\<rparr>"

theorem deleted_names_stay_taken_witness:
  "\<exists>s'. delete_account demo_env 100 (demo_user 3 ''ivan'' ''Ivan'') ''pw'' demo_solo = Inr s'
     \<and> register demo_env 200 \<lparr>rb_email = ''ivan'', rb_password = ''x'', rb_display_name = ''Someone'', rb_account_type = Personal,
          rb_organization_name = None\<rparr> s' = Inl (Auth_db IntegrityError)"
proof -
  have "succeeds (delete_account demo_env 100 (demo_user 3 ''ivan'' ''Ivan'') ''pw'' demo_solo)" by code_simp
  then obtain s' where d: "delete_account demo_env 100 (demo_user 3 ''ivan'' ''Ivan'') ''pw'' demo_solo = Inr s'"
    by (auto dest: succeedsD)
  have "uq_users (ac_users demo_solo)" "uq_organizations (ac_orgs demo_solo)" by code_simp+
  moreover have "demo_user 3 ''ivan'' ''Ivan'' \<in> set (ac_users demo_solo)" by (simp add: demo_solo_def demo_def)
  moreover have "us_email (demo_user 3 ''ivan'' ''Ivan'') = ''ivan''" by (simp add: demo_user_def)
  ultimately show ?thesis
    using deleted_names_stay_taken [OF d, of "\<lparr>rb_email = ''ivan'', rb_password = ''x'', rb_display_name = ''Someone'',
        rb_account_type = Personal, rb_organization_name = None\<rparr>" 200] d by simp
qed

section \<open>Slugs\<close>

definition numbered :: "string \<Rightarrow> nat \<Rightarrow> string" where "numbered b k = b @ ''-'' @ show_nat k"

lemma numbered_inj: "numbered b j = numbered b k \<Longrightarrow> j = k"
  by (simp add: numbered_def show_nat_inj)

lemma slug_loop_None:
  assumes "\<And>r. slugify r base = b"
  shows "slug_loop fuel rnd used base n c = None \<Longrightarrow> 0 < fuel \<Longrightarrow> used c \<and> (\<forall>k. n < k \<and> k < n + fuel \<longrightarrow> used (numbered b k))"
proof (induction fuel arbitrary: n c)
  case 0
  then show ?case by simp
next
  case (Suc fuel)
  then have c: "used c" and l: "slug_loop fuel rnd used base (n + 1) (numbered b (n + 1)) = None"
    by (simp_all add: assms numbered_def split: if_split_asm)
  show ?case
  proof (intro conjI allI impI c)
    fix k
    assume k: "n < k \<and> k < n + Suc fuel"
    then have "0 < fuel" by simp
    with Suc.IH [OF l] k show "used (numbered b k)" by (cases "k = n + 1") auto
  qed
qed

lemma slug_loop_free: "slug_loop fuel rnd used base n c = Some slug \<Longrightarrow> \<not> used slug"
  by (induction fuel arbitrary: n c) (auto split: if_split_asm)

text \<open>The search for a free slug ends. For a name with at least one letter or digit, as many tries as there are
  organizations plus one suffice, whatever slugs are taken, and the slug found belongs to no live organization.\<close>

theorem unique_slug_ends:
  assumes "\<And>r. slugify r base = b"
  shows "\<exists>slug. unique_slug (length orgs + 1) rnd (slug_exists orgs) base = Some slug \<and> \<not> slug_exists orgs slug"
proof (cases "unique_slug (length orgs + 1) rnd (slug_exists orgs) base")
  case None
  then have "slug_loop (length orgs + 1) rnd (slug_exists orgs) base 1 b = None" by (simp add: unique_slug_def assms)
  from slug_loop_None [OF assms this]
  have all: "slug_exists orgs b" "\<And>k. 1 < k \<Longrightarrow> k < 1 + (length orgs + 1) \<Longrightarrow> slug_exists orgs (numbered b k)"
    by simp_all
  let ?C = "insert b (numbered b ` {2..length orgs + 1})"
  have "?C \<subseteq> set (map og_slug orgs)"
  proof
    fix x
    assume "x \<in> ?C"
    then have "slug_exists orgs x" using all by auto
    then show "x \<in> set (map og_slug orgs)" by (auto simp: slug_exists_def list_ex_iff)
  qed
  then have "card ?C \<le> length orgs" by (metis card_length card_mono finite_set le_trans length_map)
  moreover have "b \<notin> numbered b ` {2..length orgs + 1}" by (auto simp: numbered_def)
  then have "card ?C = length orgs + 1"
    using card_image [of "numbered b" "{2..length orgs + 1}"] numbered_inj by (simp add: inj_on_def)
  ultimately show ?thesis by simp
next
  case (Some slug)
  then show ?thesis using slug_loop_free unfolding unique_slug_def by blast
qed

theorem unique_slug_ends_witness:
  "\<exists>slug. unique_slug 2 (en_slug_token demo_env 0) (slug_exists [demo_org]) ''Acme'' = Some slug \<and> \<not> slug_exists [demo_org] slug"
proof -
  have "strip_char (CHR ''-'') (hyphenate False (py_lower ''Acme'')) = ''acme''" by code_simp
  then have "slugify r ''Acme'' = ''acme''" for r by (simp add: slugify_def)
  from unique_slug_ends [OF this, of "[demo_org]" "en_slug_token demo_env 0"] show ?thesis by (simp add: numeral_2_eq_2)
qed

end
