(* ===== verification/Auth_Api_Laws.thy ===== *)
theory Auth_Api_Laws
  imports Auth_Api Auth_Laws
begin

text \<open>
  Properties of the authentication routes: what a Google callback needs before it changes an account or opens
  a session, that the state of the start route is the one the callback reads, that password guessing locks the
  login route, and that the forgot-password route answers alike whether the account exists.
\<close>

section \<open>The state and the identity of a callback\<close>

lemma verify_state_match_Inr:
  "verify_state_match ck q = Inr u \<longleftrightarrow> ck = q \<and> (\<exists>t. ck = Some t \<and> t \<noteq> [] \<and> is_ascii t)"
  by (auto simp: verify_state_match_def and_then_Inr_iff compare_digest_Inr split: option.splits)

lemma callback_flow_Inr:
  "callback_flow ge now ck tok = Inr w \<longleftrightarrow>
     ck = Some tok \<and> tok \<noteq> [] \<and> is_ascii tok \<and> decode_oauth_state ge now tok = Inr w"
  by (auto simp: callback_flow_def and_then_Inr_iff verify_state_match_Inr)

lemma decode_state_nonce:
  assumes "decode_oauth_state ge now tok = Inr w"
  shows "\<exists>p. ge_read_state ge now tok = Some p \<and> fw_nonce w = sc_nonce p \<and> fw_code_verifier w = sc_code_verifier p
    \<and> fw_mode w = sc_mode p \<and> fw_user_id w = sc_user_id p"
  using assms by (auto simp: decode_oauth_state_def split: option.splits)

text \<open>What Google must have said for an identity to be accepted.\<close>

definition vouched :: "google_env \<Rightarrow> auth_settings \<Rightarrow> micros \<Rightarrow> json \<Rightarrow> string \<Rightarrow> google_identity \<Rightarrow> bool" where
  "vouched ge st now id_token nonce gi \<longleftrightarrow>
     (\<exists>key ic. ge_signing_key ge id_token = Some key
        \<and> ge_id_claims ge now id_token key (the (se_google_client_id st)) = Some ic
        \<and> (\<exists>i \<in> set GOOGLE_ISSUERS. ic_iss ic = Some i) \<and> ic_nonce ic = Some nonce \<and> ic_email_verified ic
        \<and> ic_sub ic = Some (gi_sub gi) \<and> ic_email ic = Some (gi_email gi))"

lemma verify_id_token_vouched:
  "verify_google_id_token ge st now id_token nonce = Inr gi \<Longrightarrow> vouched ge st now id_token nonce gi"
  by (auto simp: verify_google_id_token_def vouched_def truthy_def compare_digest_Inr bind_eq_Some_conv
      elim!: and_then_InrE split: if_split_asm option.split_asm)

text \<open>The form the code is redeemed with.\<close>

definition token_form :: "auth_settings \<Rightarrow> string \<Rightarrow> string \<Rightarrow> (string \<times> string) list" where
  "token_form st code verifier =
     [(''client_id'', the (se_google_client_id st)), (''client_secret'', the (se_google_client_secret st)),
      (''code'', code), (''code_verifier'', verifier), (''grant_type'', ''authorization_code''),
      (''redirect_uri'', google_redirect_uri st)]"

lemma exchange_Inr:
  "exchange_code_for_tokens ge st code (google_redirect_uri st) verifier = Inr b \<Longrightarrow>
   ge_token_endpoint ge (token_form st code verifier) = Token_answer 200 (Some b)"
  by (auto simp: exchange_code_for_tokens_def token_form_def elim!: and_then_InrE
      split: if_split_asm option.split_asm token_answer.split_asm)

lemma callback_identity_vouched:
  assumes "callback_identity ge st now code w = Inr gi"
  shows "\<exists>b id_token. ge_token_endpoint ge (token_form st code (fw_code_verifier w)) = Token_answer 200 (Some b)
    \<and> body_item ''id_token'' b = Inr id_token \<and> vouched ge st now id_token (fw_nonce w) gi"
  using assms
  by (auto simp: callback_identity_def elim!: and_then_InrE dest!: exchange_Inr verify_id_token_vouched)

lemma google_fail_cookies: "Set_cookie n v m b d \<notin> set (rp_cookies (google_fail st reason))"
  by (simp add: google_fail_def clear_oauth_state_cookie_def)

lemma callback_cases:
  assumes "google_callback_route env ge st now cl ck code state error s = Inr (r, s')"
  obtains (refused) reason where "r = google_fail st reason" and "s' = s"
  | (accepted) tok cd w gi where "state = Some tok" and "code = Some cd" and "callback_flow ge now ck tok = Inr w"
      and "callback_identity ge st now cd w = Inr gi"
      and "(if fw_mode w = ''link'' then callback_link ge st now w gi s else callback_login env st now cl gi s) = Inr (r, s')"
proof -
  consider (early) reason where "google_callback_route env ge st now cl ck code state error s = Inr (google_fail st reason, s)"
    | (late) tok cd where "state = Some tok" "code = Some cd"
      "google_callback_route env ge st now cl ck code state error s =
        (case and_then (callback_flow ge now ck tok) (\<lambda>flow.
                  and_then (callback_identity ge st now cd flow) (\<lambda>gi. Inr (flow, gi))) of
             Inl Uncaught \<Rightarrow> Inl unhandled
           | Inl (Redirected reason) \<Rightarrow> Inr (google_fail st reason, s)
           | Inr (flow, gi) \<Rightarrow>
               if fw_mode flow = ''link'' then callback_link ge st now flow gi s
               else callback_login env st now cl gi s)"
  proof (cases "truthy error \<or> \<not> google_oauth_configured st \<or> \<not> truthy code \<or> \<not> truthy state")
    case True
    then have "\<exists>reason. google_callback_route env ge st now cl ck code state error s = Inr (google_fail st reason, s)"
      by (auto simp: google_callback_route_def)
    with early show ?thesis by blast
  next
    case False
    then obtain tok cd where "state = Some tok" "code = Some cd" by (auto simp: truthy_def)
    with False show ?thesis by (intro late [of tok cd]) (simp_all add: google_callback_route_def)
  qed
  then show thesis
  proof cases
    case early
    with assms show ?thesis by (intro refused [of reason]) simp_all
  next
    case late
    show ?thesis
    proof (cases "and_then (callback_flow ge now ck tok) (\<lambda>flow.
                  and_then (callback_identity ge st now cd flow) (\<lambda>gi. Inr (flow, gi)))")
      case (Inl e)
      with assms late refused show ?thesis by (cases e) auto
    next
      case (Inr x)
      then obtain w gi where w: "callback_flow ge now ck tok = Inr w" "callback_identity ge st now cd w = Inr gi"
        and x: "x = (w, gi)" by (auto elim!: and_then_InrE)
      with assms late Inr have "(if fw_mode w = ''link'' then callback_link ge st now w gi s
          else callback_login env st now cl gi s) = Inr (r, s')" by simp
      with late w show ?thesis by (intro accepted)
    qed
  qed
qed

text \<open>C33: a Google callback changes no table and sets no session cookie unless the state of the query is the
  one of the browser's cookie and was signed here, Google's endpoint redeemed the code under the PKCE verifier of
  that state, and the ID token it gave is from Google, has the nonce of that state and a verified address.\<close>

theorem callback_guarded:
  assumes "google_callback_route env ge st now cl ck code state error s = Inr (r, s')"
    and "s' \<noteq> s \<or> (\<exists>n v m b d. Set_cookie n v m b d \<in> set (rp_cookies r))"
  shows "\<exists>tok cd p b id_token gi. ck = Some tok \<and> state = Some tok \<and> code = Some cd
    \<and> ge_read_state ge now tok = Some p
    \<and> ge_token_endpoint ge (token_form st cd (sc_code_verifier p)) = Token_answer 200 (Some b)
    \<and> body_item ''id_token'' b = Inr id_token \<and> vouched ge st now id_token (sc_nonce p) gi"
  using assms(1)
proof (cases rule: callback_cases)
  case (refused reason)
  with assms(2) google_fail_cookies show ?thesis by blast
next
  case (accepted tok cd w gi)
  from accepted(3) have ck: "ck = Some tok" and "decode_oauth_state ge now tok = Inr w" by (simp_all add: callback_flow_Inr)
  then obtain p where p: "ge_read_state ge now tok = Some p" "fw_nonce w = sc_nonce p"
    "fw_code_verifier w = sc_code_verifier p" using decode_state_nonce by blast
  from callback_identity_vouched [OF accepted(4)] p ck accepted(1,2) show ?thesis by auto
qed

section \<open>From the start route to the callback\<close>

lemma seconds_after: "(t :: micros) div 1000000 * 1000000 \<le> t"
  by (simp add: minus_mod_eq_div_mult [symmetric])

lemma seconds_before: "(t :: micros) < t div 1000000 * 1000000 + 1000000"
  using pos_mod_bound [of 1000000 t] div_mult_mod_eq [of t 1000000] by linarith

text \<open>C35: the state that \<open>google/start\<close> signs and puts in the cookie is accepted by the callback for the ten
  minutes it is valid, and gives back the flow the authorize URL was built from: its nonce, and the verifier of
  its PKCE challenge.\<close>

theorem start_callback_roundtrip:
  assumes start: "google_start_route ge st now s = Inr (r, s')"
    and jwt: "\<And>p t. p = flow_claims now (fst (new_flow ge ''login'' ''/'' None s)) \<Longrightarrow> sc_iat p * 1000000 \<le> t \<Longrightarrow>
        t < sc_exp p * 1000000 \<Longrightarrow>
        ge_read_state ge t (ge_sign_state ge p) = Some p \<and> is_ascii (ge_sign_state ge p) \<and> ge_sign_state ge p \<noteq> []"
    and "now \<le> later" and "later + 1000000 \<le> now + 600000000"
  shows "\<exists>tok w client_id. rp_cookies r = [oauth_state_cookie st tok] \<and> callback_flow ge later (Some tok) tok = Inr w
    \<and> fw_mode w = ''login'' \<and> se_google_client_id st = Some client_id
    \<and> rp_body r = ge_url ge GOOGLE_AUTHORIZE_URL
        [(''client_id'', client_id), (''redirect_uri'', google_redirect_uri st), (''response_type'', ''code''),
         (''scope'', ''openid email profile''), (''state'', tok), (''nonce'', fw_nonce w),
         (''code_challenge'', pkce_challenge ge (fw_code_verifier w)), (''code_challenge_method'', ''S256''),
         (''access_type'', ''online''), (''prompt'', ''select_account'')]"
proof -
  obtain w s1 where w: "new_flow ge ''login'' ''/'' None s = (w, s1)" by fastforce
  let ?p = "flow_claims now w" and ?tok = "ge_sign_state ge (flow_claims now w)"
  have "sc_iat ?p * 1000000 \<le> later" using seconds_after [of now] \<open>now \<le> later\<close> by (simp add: flow_claims_def)
  moreover have "later < sc_exp ?p * 1000000"
    using seconds_before [of "now + 600000000"] assms(4) by (simp add: flow_claims_def STATE_TTL_MINUTES_def)
  ultimately have j: "ge_read_state ge later ?tok = Some ?p" "is_ascii ?tok" "?tok \<noteq> []"
    using jwt [of ?p later] w by simp_all
  have wf: "fw_mode w = ''login''" "\<exists>path. fw_redirect_path w = path"
    using w by (auto simp: new_flow_def draw_def)
  have "decode_oauth_state ge later ?tok = Inr w"
    using j(1) by (simp add: decode_oauth_state_def flow_claims_def)
  then have flow: "callback_flow ge later (Some ?tok) ?tok = Inr w" using j by (simp add: callback_flow_Inr)
  from start w wf(1) flow show ?thesis
    by (auto simp: google_start_route_def begin_google_def encode_oauth_state_def build_authorize_url_def
        elim!: and_then_InrE split: if_split_asm option.split_asm)
qed

section \<open>Login attempts\<close>

lemma memory_login_limiter:
  "ap_redis a = None \<Longrightarrow> login_limiter (a :: unit api) = memory_only (ap_login_memory a)"
  by (simp add: login_limiter_def memory_only_def)

lemma put_login_simps [simp]:
  "ap_accounts (put_login_limiter b a) = ap_accounts a" "ap_redis (put_login_limiter b a) = ap_redis a"
  "ap_login_memory (put_login_limiter b a) = bk_memory b" "ap_server (put_login_limiter b a) = bk_server b"
  by (simp_all add: put_login_limiter_def)

lemma login_check_failures:
  "login_check p now ip e (memory_only m) = (d, b) \<Longrightarrow>
   \<exists>m'. b = memory_only m' \<and> mb_failures m' = mb_failures m"
  by (auto simp: login_check_def memory_calls split_def Let_def mb_get_lockout_def mb_count_in_window_def
      mb_add_to_window_def memory_only_inj split: if_splits option.splits list.splits)

lemma incr_failures_same:
  "mb_failures m' = mb_failures m \<Longrightarrow> fst (mb_incr_failures mc k m') = fst (mb_incr_failures mc k m)"
  by (simp add: mb_incr_failures_def mb_get_failures_def Let_def split_def)

lemma record_failure_memory: "\<exists>m2. record_failure p now mc e (memory_only m) = memory_only m2"
  by (simp add: record_failure_def memory_calls split_def Let_def memory_only_inj split: if_split)

lemma too_many_not_401 [simp]: "too_many t d \<noteq> login_failure Invalid_credentials"
  by (simp add: too_many_def login_failure_def)

lemma login_failure_401: "login_failure e = login_failure Invalid_credentials \<longleftrightarrow> e = Invalid_credentials"
  by (cases e) (simp_all add: login_failure_def fails_def other_fault_def unhandled_def)

text \<open>A refused login leaves the failed guess in the memory of the limiter.\<close>

lemma login_wrong_password:
  assumes l: "login_route env p st c cl email pw (a :: unit api) = (Inl (login_failure Invalid_credentials), a1)"
    and r: "ap_redis a = None"
  shows "\<exists>m. mb_failures m = mb_failures (ap_login_memory a)
    \<and> memory_only (ap_login_memory a1) = record_failure p (wall_seconds c) (tm_mono c) email (memory_only m)"
proof -
  obtain d b where d: "login_check p (wall_seconds c) (cn_ip cl) email (memory_only (ap_login_memory a)) = (d, b)"
    by fastforce
  from login_check_failures [OF d] obtain m where m: "b = memory_only m" "mb_failures m = mb_failures (ap_login_memory a)"
    by blast
  obtain m2 where m2: "record_failure p (wall_seconds c) (tm_mono c) email (memory_only m) = memory_only m2"
    using record_failure_memory by blast
  have "ap_login_memory a1 = m2"
    using l d m r m2
    by (auto simp: login_route_def memory_login_limiter login_failure_401 Let_def
        split: if_split_asm sum.split_asm)
  with m m2 show ?thesis by auto
qed


section \<open>Requests for a reset\<close>

lemma forgot_replies:
  assumes "create_password_reset_token env (tm_now c) email s = Inr x"
  shows "fst (forgot_password_route env c email (a\<lparr>ap_accounts := s\<rparr>)) =
    (let (d, b) = check_and_record EMAIL_RATE_LIMIT_WINDOW_SECONDS EMAIL_RATE_LIMIT_MAX_ATTEMPTS (wall_seconds c)
                     ''reset'' (py_lower email) (email_limiter a)
     in if dc_allowed d then Inr (plain ''If an account with that email exists, a reset link has been sent'')
        else Inl (too_many ''Too many reset emails requested. Please try again later.'' d))"
  using assms
  by (auto simp: forgot_password_route_def rate_limited_email_def email_limiter_def put_email_limiter_def Let_def
      split: prod.splits)

lemma forgot_limiter:
  "email_limiter (snd (forgot_password_route env c email (a\<lparr>ap_accounts := s\<rparr>))) =
   snd (let (d, b) = check_and_record EMAIL_RATE_LIMIT_WINDOW_SECONDS EMAIL_RATE_LIMIT_MAX_ATTEMPTS (wall_seconds c)
                     ''reset'' (py_lower email) (email_limiter a) in (d, b\<lparr>bk_redis := ap_redis a\<rparr>))"
  by (auto simp: forgot_password_route_def rate_limited_email_def email_limiter_def put_email_limiter_def Let_def
      split: prod.splits sum.splits)

text \<open>C36: the forgot-password route does not tell accounts apart: over any two databases, the one with the
  address and the one without, it gives the same answer and leaves the limiter in the same state.\<close>

theorem forgot_password_uniform:
  assumes "create_password_reset_token env (tm_now c) email s1 = Inr x1"
    and "create_password_reset_token env (tm_now c) email s2 = Inr x2"
  shows "fst (forgot_password_route env c email (a\<lparr>ap_accounts := s1\<rparr>)) =
         fst (forgot_password_route env c email (a\<lparr>ap_accounts := s2\<rparr>))
    \<and> email_limiter (snd (forgot_password_route env c email (a\<lparr>ap_accounts := s1\<rparr>))) =
      email_limiter (snd (forgot_password_route env c email (a\<lparr>ap_accounts := s2\<rparr>)))"
  by (simp only: forgot_replies [OF assms(1)] forgot_replies [OF assms(2)] forgot_limiter)

section \<open>Disabled accounts\<close>

lemma callback_accepted:
  assumes "google_oauth_configured st" and "\<not> truthy error" and "tok \<noteq> []" and "cd \<noteq> []"
    and "callback_flow ge now ck tok = Inr w" and "callback_identity ge st now cd w = Inr gi"
  shows "google_callback_route env ge st now cl ck (Some cd) (Some tok) error s =
    (if fw_mode w = ''link'' then callback_link ge st now w gi s else callback_login env st now cl gi s)"
  using assms unfolding google_callback_route_def by (simp add: truthy_def [of "Some _"])

lemma callback_login_state:
  "login_or_register_with_google env now gi (cn_ip cl) (cn_agent cl) s = Inr (x, s') \<Longrightarrow>
   \<exists>r. callback_login env st now cl gi s = Inr (r, s')"
  by (cases x) (simp add: callback_login_def map_err_def)

text \<open>A Google sign-in of a disabled account ends in the catch-all 500 answer, not in a redirect with a
  reason as the route promises for every failure.\<close>

theorem disabled_sign_in_uncaught:
  assumes "google_oauth_configured st" and "\<not> truthy error" and "tok \<noteq> []" and "cd \<noteq> []"
    and "callback_flow ge now ck tok = Inr w" and "fw_mode w \<noteq> ''link''"
    and "callback_identity ge st now cd w = Inr gi"
    and "us_get_by_google_sub (gi_sub gi) (ac_users s) = Inr (Some u)" and "us_status u = US_DISABLED"
  shows "google_callback_route env ge st now cl ck (Some cd) (Some tok) error s = Inl unhandled"
  using assms
  by (simp add: callback_accepted callback_login_def login_or_register_with_google_def
      google_account_def map_err_def other_fault_def)

section \<open>Instances\<close>

definition demo_settings :: auth_settings where
  "demo_settings =
     \<lparr>se_google_client_id = Some ''cid'', se_google_client_secret = Some ''sec'', se_api_base_url = ''https://api/'',
      se_dashboard_url = ''https://app'', se_is_production = True, se_cookie_domain = None\<rparr>"

definition demo_claims :: state_claims where
  "demo_claims =
     \<lparr>sc_csrf_id = ''c'', sc_nonce = ''n'', sc_code_verifier = ''v'', sc_mode = ''login'', sc_redirect_path = Some ''/'',
      sc_user_id = None, sc_iat = 0, sc_exp = 600\<rparr>"

text \<open>Google as it answers for olga, and a signer that knows one state.\<close>

definition demo_google :: "state_claims \<Rightarrow> google_env" where
  "demo_google p =
     \<lparr>ge_random = (\<lambda>n k. [CHR ''g'']), ge_sha256 = (\<lambda>x. x), ge_sign_state = (\<lambda>_. ''st''),
      ge_read_state = (\<lambda>now t. if t = ''st'' then Some p else None), ge_url = (\<lambda>u q. u),
      ge_token_endpoint = (\<lambda>_. Token_answer 200 (Some (Js_dict [(''id_token'', Js_str ''idt'')]))),
      ge_signing_key = (\<lambda>_. Some ''key''),
      ge_id_claims = (\<lambda>now t k a. Some \<lparr>ic_iss = Some ''accounts.google.com'', ic_nonce = Some (sc_nonce p),
        ic_email = Some ''olga'', ic_email_verified = True, ic_sub = Some ''sub'', ic_name = None, ic_picture = None\<rparr>),
      ge_parse_uuid = (\<lambda>t. Some (length t))\<rparr>"

definition demo_client :: client where "demo_client = \<lparr>cn_ip = Some ''10.0.0.1'', cn_agent = None\<rparr>"

definition flow_of :: "state_claims \<Rightarrow> oauth_flow" where
  "flow_of p =
     \<lparr>fw_csrf_id = sc_csrf_id p, fw_nonce = sc_nonce p, fw_code_verifier = sc_code_verifier p, fw_mode = sc_mode p,
      fw_redirect_path = ''/'', fw_user_id = sc_user_id p\<rparr>"

definition demo_identity_olga :: google_identity where
  "demo_identity_olga = \<lparr>gi_sub = ''sub'', gi_email = ''olga'', gi_display_name = ''olga'', gi_avatar_url = None\<rparr>"

lemma demo_configured: "google_oauth_configured demo_settings"
  by (simp add: google_oauth_configured_def demo_settings_def truthy_def)

lemma demo_flow: "callback_flow (demo_google demo_claims) 100 (Some ''st'') ''st'' = Inr (flow_of demo_claims)"
  by (simp add: callback_flow_Inr decode_oauth_state_def demo_google_def flow_of_def demo_claims_def is_ascii_def)

lemma demo_google_identity:
  "callback_identity (demo_google demo_claims) demo_settings 100 ''code'' (flow_of demo_claims) = Inr demo_identity_olga"
  by (simp add: callback_identity_def exchange_code_for_tokens_def map_err_def demo_google_def
      google_oauth_configured_def
      verify_google_id_token_def truthy_def demo_settings_def GOOGLE_ISSUERS_def flow_of_def demo_claims_def
      compare_digest_def is_ascii_def before_at_def demo_identity_olga_def)

abbreviation demo_callback :: "accounts \<Rightarrow> failure + string web_reply \<times> accounts" where
  "demo_callback s \<equiv> google_callback_route demo_env (demo_google demo_claims) demo_settings 100 demo_client
     (Some ''st'') (Some ''code'') (Some ''st'') None s"

theorem callback_guarded_witness:
  "\<exists>tok cd p b id_token gi. Some ''st'' = Some tok \<and> Some ''st'' = Some tok \<and> Some ''code'' = Some cd
    \<and> ge_read_state (demo_google demo_claims) 100 tok = Some p
    \<and> ge_token_endpoint (demo_google demo_claims) (token_form demo_settings cd (sc_code_verifier p)) = Token_answer 200 (Some b)
    \<and> body_item ''id_token'' b = Inr id_token
    \<and> vouched (demo_google demo_claims) demo_settings 100 id_token (sc_nonce p) gi"
proof -
  note run = callback_accepted [OF demo_configured _ _ _ demo_flow demo_google_identity, where error = None]
  let ?l = "login_or_register_with_google demo_env 100 demo_identity_olga (cn_ip demo_client) (cn_agent demo_client) demo"
  have "is_ok ?l" by code_simp
  then obtain x s' where l: "?l = Inr (x, s')" by (cases ?l) auto
  have "length (ac_sessions (snd (projr ?l))) \<noteq> length (ac_sessions demo)" by code_simp
  with l have ne: "s' \<noteq> demo" by auto
  from callback_login_state [OF l] obtain r where "callback_login demo_env demo_settings 100 demo_client demo_identity_olga demo = Inr (r, s')"
    by blast
  then have rt: "demo_callback demo = Inr (r, s')" using run by (simp add: truthy_def demo_claims_def flow_of_def)
  show ?thesis by (rule callback_guarded [OF rt disjI1 [OF ne]])
qed

lemma demo_flow_same:
  "fst (new_flow (demo_google q) m path i s) = fst (new_flow (demo_google demo_claims) m path i s)"
  by (simp add: new_flow_def demo_google_def draw_def)

lemma demo_google_simps:
  "ge_read_state (demo_google q) t (ge_sign_state (demo_google q) p) = Some q"
  "is_ascii (ge_sign_state (demo_google q) p)" "ge_sign_state (demo_google q) p \<noteq> []"
  by (simp_all add: demo_google_def is_ascii_def)

abbreviation (input) demo_start_claims :: state_claims where
  "demo_start_claims \<equiv> flow_claims 100 (fst (new_flow (demo_google demo_claims) ''login'' ''/'' None demo))"

theorem start_callback_roundtrip_witness:
  "\<exists>tok w client_id. rp_cookies (fst (projr (google_start_route (demo_google demo_start_claims) demo_settings 100 demo)))
        = [oauth_state_cookie demo_settings tok]
    \<and> callback_flow (demo_google demo_start_claims) 200 (Some tok) tok = Inr w
    \<and> fw_mode w = ''login'' \<and> se_google_client_id demo_settings = Some client_id
    \<and> rp_body (fst (projr (google_start_route (demo_google demo_start_claims) demo_settings 100 demo)))
        = ge_url (demo_google demo_start_claims) GOOGLE_AUTHORIZE_URL
        [(''client_id'', client_id), (''redirect_uri'', google_redirect_uri demo_settings), (''response_type'', ''code''),
         (''scope'', ''openid email profile''), (''state'', tok), (''nonce'', fw_nonce w),
         (''code_challenge'', pkce_challenge (demo_google demo_start_claims) (fw_code_verifier w)),
         (''code_challenge_method'', ''S256''), (''access_type'', ''online''), (''prompt'', ''select_account'')]"
proof (rule start_callback_roundtrip)
  have "is_ok (google_start_route (demo_google demo_start_claims) demo_settings 100 demo)" by code_simp
  then show "google_start_route (demo_google demo_start_claims) demo_settings 100 demo =
      Inr (fst (projr (google_start_route (demo_google demo_start_claims) demo_settings 100 demo)),
           snd (projr (google_start_route (demo_google demo_start_claims) demo_settings 100 demo)))"
    by (cases "google_start_route (demo_google demo_start_claims) demo_settings 100 demo") simp_all
  show "ge_read_state (demo_google demo_start_claims) t (ge_sign_state (demo_google demo_start_claims) p) = Some p
      \<and> is_ascii (ge_sign_state (demo_google demo_start_claims) p) \<and> ge_sign_state (demo_google demo_start_claims) p \<noteq> []"
    if "p = flow_claims 100 (fst (new_flow (demo_google demo_start_claims) ''login'' ''/'' None demo))" for p t
    using that demo_flow_same [of demo_start_claims] by (simp add: demo_google_simps)
qed simp_all

definition demo_api :: "unit api" where
  "demo_api =
     \<lparr>ap_accounts = demo, ap_redis = None, ap_server = (),
      ap_login_memory = mb_init\<lparr>mb_failures := (\<lambda>_. None)(fail_key ''olga'' \<mapsto> (4, 900))\<rparr>, ap_email_memory = mb_init\<rparr>"

definition demo_clock :: "micros \<Rightarrow> clock" where "demo_clock t = \<lparr>tm_now = t, tm_mono = 7\<rparr>"

abbreviation demo_guess :: "(failure + (token_response \<times> user_public) web_reply) \<times> unit api" where
  "demo_guess \<equiv> login_route demo_env default_policy demo_settings (demo_clock 100) demo_client ''olga'' ''wrong'' demo_api"


theorem forgot_password_uniform_witness:
  "fst (forgot_password_route demo_env (demo_clock 100) ''olga'' (demo_api\<lparr>ap_accounts := demo\<rparr>)) =
         fst (forgot_password_route demo_env (demo_clock 100) ''olga'' (demo_api\<lparr>ap_accounts := demo\<lparr>ac_users := []\<rparr>\<rparr>))
    \<and> email_limiter (snd (forgot_password_route demo_env (demo_clock 100) ''olga'' (demo_api\<lparr>ap_accounts := demo\<rparr>))) =
      email_limiter (snd (forgot_password_route demo_env (demo_clock 100) ''olga'' (demo_api\<lparr>ap_accounts := demo\<lparr>ac_users := []\<rparr>\<rparr>)))"
proof (rule forgot_password_uniform)
  let ?f = "create_password_reset_token demo_env (tm_now (demo_clock 100)) ''olga''"
  have "is_ok (?f demo)" "is_ok (?f (demo\<lparr>ac_users := []\<rparr>))" by code_simp+
  then show "?f demo = Inr (projr (?f demo))" "?f (demo\<lparr>ac_users := []\<rparr>) = Inr (projr (?f (demo\<lparr>ac_users := []\<rparr>)))"
    by (cases "?f demo"; cases "?f (demo\<lparr>ac_users := []\<rparr>)"; simp)+
qed

definition demo_disabled :: accounts where
  "demo_disabled = demo\<lparr>ac_users := [(demo_user 1 ''olga'' ''Olga'')\<lparr>us_status := US_DISABLED, us_google_sub := Some ''sub''\<rparr>]\<rparr>"

theorem disabled_sign_in_uncaught_witness: "demo_callback demo_disabled = Inl unhandled"
proof (rule disabled_sign_in_uncaught)
  show "google_oauth_configured demo_settings" by (rule demo_configured)
  show "callback_flow (demo_google demo_claims) 100 (Some ''st'') ''st'' = Inr (flow_of demo_claims)" by (rule demo_flow)
  show "callback_identity (demo_google demo_claims) demo_settings 100 ''code'' (flow_of demo_claims) = Inr demo_identity_olga"
    by (rule demo_google_identity)
  show "us_get_by_google_sub (gi_sub demo_identity_olga) (ac_users demo_disabled) = Inr (Some (hd (ac_users demo_disabled)))"
    "us_status (hd (ac_users demo_disabled)) = US_DISABLED" by code_simp+
qed (simp_all add: truthy_def flow_of_def demo_claims_def)

end
