(* ===== verification/Ingestion.thy ===== *)
theory Ingestion
  imports Access Alert_Rules
begin

text \<open>
  Reported usage: \<open>services/usage_ingestion_service.py\<close>, the handler \<open>api/v1/ingest.py\<close> with its request
  schema, \<open>repositories/usage_record_repository.py\<close>, and the daily summaries
  (\<open>analytics/aggregation.py\<close>, \<open>repositories/daily_cost_summary_repository.py\<close>). A record is stored, fed into
  the event and cost tables of the collector, and the summaries of its day are rebuilt, in one transaction.
  The width of the columns of a usage record is modelled (\<open>Data_error\<close>), that of the sums is not.
\<close>

section \<open>Rows\<close>

datatype usage_record_status = UR_SUCCESS | UR_ERROR | UR_TIMEOUT | UR_CANCELLED

record usage_record = base_row +
  ur_organization_id :: ident
  ur_project_id :: "ident option"
  ur_api_key_id :: "ident option"
  ur_provider :: string
  ur_model :: string
  ur_request_id :: string
  ur_status :: usage_record_status
  ur_input_tokens :: int
  ur_output_tokens :: int
  ur_cached_tokens :: "int option"
  ur_total_tokens :: int
  ur_cost :: rat
  ur_currency :: string
  ur_latency_ms :: "int option"
  ur_region :: "string option"
  ur_metadata :: metadata
  ur_ingested_at :: micros
  ur_request_timestamp :: micros

record daily_summary = base_row +
  ds_organization_id :: ident
  ds_project_id :: "ident option"
  ds_provider :: string
  ds_model :: string
  ds_currency :: string
  ds_summary_date :: int
  ds_prompt_tokens :: int
  ds_completion_tokens :: int
  ds_cached_tokens :: "int option"
  ds_total_tokens :: int
  ds_total_requests :: nat
  ds_total_cost :: rat
  ds_prompt_cost :: rat
  ds_completion_cost :: rat
  ds_cached_cost :: "rat option"
  ds_event_count :: nat

section \<open>The request\<close>

datatype body_error =
    Too_short | Too_long | Negative_number | Not_finite | Unsupported_provider | Blank_model | Not_alphabetic
  | Future_time | Total_mismatch | Cached_exceeds_input | Metadata_not_json | Metadata_too_large

record ingest_body =
  ib_provider :: string
  ib_model :: string
  ib_project_id :: "ident option"
  ib_request_id :: string
  ib_input_tokens :: int
  ib_output_tokens :: int
  ib_cached_tokens :: "int option"
  ib_total_tokens :: "int option"
  ib_cost :: "rat option"
  ib_currency :: string
  ib_latency_ms :: "int option"
  ib_status :: usage_record_status
  ib_region :: "string option"
  ib_timestamp :: "micros option"
  ib_metadata :: metadata

definition MAX_METADATA_BYTES :: nat where "MAX_METADATA_BYTES = 16 * 1024"

definition SUPPORTED_PROVIDERS :: "string list" where
  "SUPPORTED_PROVIDERS = map provider_type_value all_provider_types"

definition upper_char :: "char \<Rightarrow> char" where
  "upper_char c =
     (if 97 \<le> (of_char c :: nat) \<and> (of_char c :: nat) \<le> 122 then char_of ((of_char c :: nat) - 32) else c)"

definition is_alpha :: "string \<Rightarrow> bool" where
  "is_alpha s \<longleftrightarrow> s \<noteq> [] \<and> list_all (\<lambda>c. 97 \<le> (of_char (lower_char c) :: nat) \<and> (of_char (lower_char c) :: nat) \<le> 122) s"

definition length_in :: "nat \<Rightarrow> nat \<Rightarrow> string \<Rightarrow> body_error + unit" where
  "length_in lo hi s = (if length s < lo then Inl Too_short else if hi < length s then Inl Too_long else Inr ())"

definition not_negative :: "int option \<Rightarrow> body_error + unit" where
  "not_negative n = guard (case n of None \<Rightarrow> True | Some k \<Rightarrow> 0 \<le> k) Negative_number"

definition valid_provider :: "string \<Rightarrow> body_error + string" where
  "valid_provider v =
     and_then (length_in 1 64 v) (\<lambda>_.
       let n = py_lower (py_strip v) in if n \<in> set SUPPORTED_PROVIDERS then Inr n else Inl Unsupported_provider)"

definition valid_model :: "string \<Rightarrow> body_error + string" where
  "valid_model v =
     and_then (length_in 1 255 v) (\<lambda>_. let n = py_strip v in if n = [] then Inl Blank_model else Inr n)"

text \<open>A cost that is not finite is \<open>None\<close>.\<close>

definition valid_cost :: "rat option \<Rightarrow> body_error + rat" where
  "valid_cost c = (case c of None \<Rightarrow> Inl Not_finite | Some x \<Rightarrow> if x < 0 then Inl Negative_number else Inr x)"

definition valid_currency :: "string \<Rightarrow> body_error + string" where
  "valid_currency v =
     and_then (length_in 3 8 v) (\<lambda>_.
       let n = map upper_char (py_strip v) in if is_alpha n then Inr n else Inl Not_alphabetic)"

definition valid_timestamp :: "micros \<Rightarrow> micros option \<Rightarrow> body_error + unit" where
  "valid_timestamp now t = guard (case t of None \<Rightarrow> True | Some x \<Rightarrow> x \<le> now + 300000000) Future_time"

definition valid_tokens :: "ingest_body \<Rightarrow> body_error + unit" where
  "valid_tokens b =
     (if case ib_total_tokens b of None \<Rightarrow> False | Some t \<Rightarrow> t \<noteq> ib_input_tokens b + ib_output_tokens b
      then Inl Total_mismatch
      else if case ib_cached_tokens b of None \<Rightarrow> False | Some c \<Rightarrow> ib_input_tokens b < c
      then Inl Cached_exceeds_input else Inr ())"

text \<open>\<open>json_size\<close> is the length of \<open>json.dumps\<close>, \<open>None\<close> if that raises.\<close>

definition validate_body :: "(metadata \<Rightarrow> nat option) \<Rightarrow> micros \<Rightarrow> ingest_body \<Rightarrow> body_error + ingest_body" where
  "validate_body json_size now b =
     and_then (valid_provider (ib_provider b)) (\<lambda>provider.
     and_then (valid_model (ib_model b)) (\<lambda>model.
     and_then (length_in 1 512 (ib_request_id b)) (\<lambda>_.
     and_then (not_negative (Some (ib_input_tokens b))) (\<lambda>_.
     and_then (not_negative (Some (ib_output_tokens b))) (\<lambda>_.
     and_then (not_negative (ib_cached_tokens b)) (\<lambda>_.
     and_then (not_negative (ib_total_tokens b)) (\<lambda>_.
     and_then (valid_cost (ib_cost b)) (\<lambda>_.
     and_then (valid_currency (ib_currency b)) (\<lambda>currency.
     and_then (not_negative (ib_latency_ms b)) (\<lambda>_.
     and_then (case ib_region b of None \<Rightarrow> Inr () | Some r \<Rightarrow> length_in 0 64 r) (\<lambda>_.
     and_then (valid_timestamp now (ib_timestamp b)) (\<lambda>_.
     and_then (valid_tokens b) (\<lambda>_.
       case json_size (ib_metadata b) of
         None \<Rightarrow> Inl Metadata_not_json
       | Some n \<Rightarrow> if MAX_METADATA_BYTES < n then Inl Metadata_too_large
                   else Inr (b\<lparr>ib_provider := provider, ib_model := model, ib_currency := currency\<rparr>))))))))))))))"

definition resolved_total_tokens :: "ingest_body \<Rightarrow> int" where
  "resolved_total_tokens b =
     (case ib_total_tokens b of Some t \<Rightarrow> t | None \<Rightarrow> ib_input_tokens b + ib_output_tokens b)"

definition resolved_timestamp :: "micros \<Rightarrow> ingest_body \<Rightarrow> micros" where
  "resolved_timestamp now b = (case ib_timestamp b of Some t \<Rightarrow> t | None \<Rightarrow> now)"

section \<open>The usage record repository\<close>

definition get_by_request_id :: "ident \<Rightarrow> string \<Rightarrow> usage_record list \<Rightarrow> repo_error + usage_record option" where
  "get_by_request_id org rid rows =
     scalar_one_or_none (filter (\<lambda>r. ur_organization_id r = org \<and> ur_request_id r = rid) (active_query rows))"

definition ur_list_by_org where
  "ur_list_by_org org limit c order rows =
     list_page limit c order (\<lambda>r. ur_organization_id r = org) (rows :: usage_record list)"

record record_totals =
  rt_total_cost :: rat
  rt_total_tokens :: int
  rt_record_count :: nat

definition record_totals_of :: "usage_record list \<Rightarrow> record_totals" where
  "record_totals_of rs =
     \<lparr>rt_total_cost = sum_list (map ur_cost rs), rt_total_tokens = sum_list (map ur_total_tokens rs),
      rt_record_count = length rs\<rparr>"

definition ur_day :: "usage_record \<Rightarrow> int" where "ur_day r = timestamp_date (ur_request_timestamp r)"

definition ur_period :: "ident \<Rightarrow> int \<Rightarrow> int \<Rightarrow> usage_record list \<Rightarrow> usage_record list" where
  "ur_period org s e rows =
     filter (\<lambda>r. ur_organization_id r = org \<and> s \<le> ur_day r \<and> ur_day r \<le> e \<and> row_deleted_at r = None) rows"

definition record_totals_by :: "(usage_record \<Rightarrow> 'k) \<Rightarrow> usage_record list \<Rightarrow> ('k \<times> record_totals) list" where
  "record_totals_by key rs = map (\<lambda>(k, g). (k, record_totals_of g)) (group_rows key rs)"

definition ur_daily_totals :: "ident \<Rightarrow> int \<Rightarrow> int \<Rightarrow> usage_record list \<Rightarrow> ((int \<times> string) \<times> record_totals) list" where
  "ur_daily_totals org s e rows =
     sort_key (fst \<circ> fst) (record_totals_by (\<lambda>r. (ur_day r, ur_currency r)) (ur_period org s e rows))"

definition ur_totals_by_provider ::
  "ident \<Rightarrow> int \<Rightarrow> int \<Rightarrow> usage_record list \<Rightarrow> ((string \<times> string) \<times> record_totals) list" where
  "ur_totals_by_provider org s e rows =
     order_desc (rt_total_cost \<circ> snd) (record_totals_by (\<lambda>r. (ur_provider r, ur_currency r)) (ur_period org s e rows))"

definition ur_totals_by_model ::
  "ident \<Rightarrow> int \<Rightarrow> int \<Rightarrow> nat option \<Rightarrow> usage_record list \<Rightarrow> ((string \<times> string \<times> string) \<times> record_totals) list" where
  "ur_totals_by_model org s e limit rows =
     top limit (order_desc (rt_total_cost \<circ> snd)
       (record_totals_by (\<lambda>r. (ur_provider r, ur_model r, ur_currency r)) (ur_period org s e rows)))"

definition project_month_to_date :: "ident \<Rightarrow> ident \<Rightarrow> date \<Rightarrow> usage_record list \<Rightarrow> rat" where
  "project_month_to_date org project as_of rows =
     sum_list (map ur_cost (filter (\<lambda>r. ur_organization_id r = org \<and> ur_project_id r = Some project
       \<and> ordinal (as_of\<lparr>dt_day := 1\<rparr>) \<le> ur_day r \<and> ur_day r \<le> ordinal as_of \<and> row_deleted_at r = None) rows))"

text \<open>Inserting a record: the database stores the cost as \<open>NUMERIC(20, 8)\<close> and the counts in 32 bits, the
  object is refreshed from the row, and the pair of organization and request is unique.\<close>

definition numeric_20_8 :: "rat \<Rightarrow> rat option" where
  "numeric_20_8 x = (let c = half_up (x * 10 ^ 8) in if \<bar>c\<bar> < 10 ^ 20 then Some (of_int c / 10 ^ 8) else None)"

definition fits_int4 :: "int \<Rightarrow> bool" where "fits_int4 n \<longleftrightarrow> - (2 ^ 31) \<le> n \<and> n < 2 ^ 31"

definition uq_usage_records :: "usage_record list \<Rightarrow> bool" where
  "uq_usage_records rows \<longleftrightarrow> distinct (map (\<lambda>r. (ur_organization_id r, ur_request_id r)) rows)"

datatype ingest_error = Unknown_project | Data_error | Invalid_operation | Ing_repo repo_error

definition columns_fit :: "usage_record \<Rightarrow> bool" where
  "columns_fit r \<longleftrightarrow> fits_int4 (ur_input_tokens r) \<and> fits_int4 (ur_output_tokens r) \<and> fits_int4 (ur_total_tokens r)
     \<and> (case ur_cached_tokens r of None \<Rightarrow> True | Some n \<Rightarrow> fits_int4 n)
     \<and> (case ur_latency_ms r of None \<Rightarrow> True | Some n \<Rightarrow> fits_int4 n)"

definition create_record :: "usage_record \<Rightarrow> usage_record list \<Rightarrow> ingest_error + usage_record \<times> usage_record list" where
  "create_record r rows =
     (case numeric_20_8 (ur_cost r) of
        None \<Rightarrow> Inl Data_error
      | Some c \<Rightarrow>
          if \<not> columns_fit r then Inl Data_error
          else let r = r\<lparr>ur_cost := c\<rparr>
               in map_err Ing_repo (and_then (repo_create r rows) (\<lambda>rows.
                    and_then (checked uq_usage_records rows) (\<lambda>rows. Inr (r, rows)))))"

section \<open>Daily summaries\<close>

type_synonym summary_key = "ident \<times> ident option \<times> string \<times> string \<times> string \<times> int"

definition ds_key :: "daily_summary \<Rightarrow> summary_key" where
  "ds_key d = (ds_organization_id d, ds_project_id d, ds_provider d, ds_model d, ds_currency d, ds_summary_date d)"

text \<open>The constraint \<open>uq_daily_cost_summaries\<close>: in SQL a null project equals nothing.\<close>

definition ds_conflict :: "daily_summary \<Rightarrow> daily_summary \<Rightarrow> bool" where
  "ds_conflict new old \<longleftrightarrow> ds_project_id new \<noteq> None \<and> ds_key old = ds_key new"

definition ds_overwrite :: "daily_summary \<Rightarrow> daily_summary \<Rightarrow> daily_summary" where
  "ds_overwrite new old =
     old\<lparr>ds_prompt_tokens := ds_prompt_tokens new, ds_completion_tokens := ds_completion_tokens new,
         ds_cached_tokens := ds_cached_tokens new, ds_total_tokens := ds_total_tokens new,
         ds_total_requests := ds_total_requests new, ds_total_cost := ds_total_cost new,
         ds_prompt_cost := ds_prompt_cost new, ds_completion_cost := ds_completion_cost new,
         ds_cached_cost := ds_cached_cost new, ds_event_count := ds_event_count new,
         row_updated_at := row_updated_at new\<rparr>"

definition ds_upsert :: "daily_summary \<Rightarrow> daily_summary list \<Rightarrow> repo_error + daily_summary \<times> daily_summary list" where
  "ds_upsert d rows =
     and_then
       (if list_ex (ds_conflict d) rows then Inr (sql_update_where (ds_conflict d) (ds_overwrite d) rows)
        else repo_create d rows) (\<lambda>rows.
     and_then (scalar_one_or_none (filter (\<lambda>x. ds_key x = ds_key d) (active_query rows))) (\<lambda>found.
       Inr (case found of None \<Rightarrow> d | Some x \<Rightarrow> x, rows)))"

definition ds_for_date_range :: "ident \<Rightarrow> int \<Rightarrow> int \<Rightarrow> daily_summary list \<Rightarrow> daily_summary list" where
  "ds_for_date_range org s e rows =
     sort_key ds_summary_date
       (filter (\<lambda>d. ds_organization_id d = org \<and> s \<le> ds_summary_date d \<and> ds_summary_date d \<le> e) (active_query rows))"

definition ds_by_provider :: "ident \<Rightarrow> int \<Rightarrow> int \<Rightarrow> daily_summary list \<Rightarrow> daily_summary list" where
  "ds_by_provider org s e rows =
     sort_key (\<lambda>d. (ds_summary_date d, ds_provider d))
       (filter (\<lambda>d. ds_organization_id d = org \<and> s \<le> ds_summary_date d \<and> ds_summary_date d \<le> e) (active_query rows))"

definition ds_by_model :: "ident \<Rightarrow> int \<Rightarrow> int \<Rightarrow> daily_summary list \<Rightarrow> daily_summary list" where
  "ds_by_model org s e rows =
     sort_key (\<lambda>d. (ds_summary_date d, ds_model d))
       (filter (\<lambda>d. ds_organization_id d = org \<and> s \<le> ds_summary_date d \<and> ds_summary_date d \<le> e) (active_query rows))"

text \<open>\<open>SUM\<close> skips nulls and is null over nulls only.\<close>

definition sql_sum :: "'a :: monoid_add option list \<Rightarrow> 'a option" where
  "sql_sum xs = (case List.map_filter (\<lambda>x. x) xs of [] \<Rightarrow> None | ys \<Rightarrow> Some (sum_list ys))"

definition cost_day :: "ident \<Rightarrow> int \<Rightarrow> usage_cost_record list \<Rightarrow> usage_cost_record list" where
  "cost_day org d costs =
     filter (\<lambda>r. cr_organization_id r = org \<and> cr_usage_date r = d \<and> row_deleted_at r = None) costs"

definition cost_key :: "usage_cost_record \<Rightarrow> summary_key" where
  "cost_key r = (cr_organization_id r, cr_project_id r, cr_provider r, cr_model r, cr_currency r, cr_usage_date r)"

definition summary_of :: "micros \<Rightarrow> ident \<Rightarrow> summary_key \<Rightarrow> usage_cost_record list \<Rightarrow> daily_summary" where
  "summary_of now i k rs =
     (case k of (org, project, provider, model, currency, d) \<Rightarrow>
       \<lparr>row_id = i, row_created_at = now, row_updated_at = now, row_deleted_at = None, row_deleted_by = None,
        ds_organization_id = org, ds_project_id = project, ds_provider = provider, ds_model = model,
        ds_currency = currency, ds_summary_date = d,
        ds_prompt_tokens = sum_list (map cr_prompt_tokens rs), ds_completion_tokens = sum_list (map cr_completion_tokens rs),
        ds_cached_tokens = sql_sum (map cr_cached_tokens rs), ds_total_tokens = sum_list (map cr_total_tokens rs),
        ds_total_requests = length rs, ds_total_cost = sum_list (map cr_total_cost rs),
        ds_prompt_cost = sum_list (map cr_prompt_cost rs), ds_completion_cost = sum_list (map cr_completion_cost rs),
        ds_cached_cost = sql_sum (map cr_cached_cost rs), ds_event_count = length rs\<rparr>)"

fun upsert_groups ::
  "micros \<Rightarrow> ident \<Rightarrow> (summary_key \<times> usage_cost_record list) list \<Rightarrow> daily_summary list
   \<Rightarrow> repo_error + daily_summary list \<times> daily_summary list" where
  "upsert_groups now i [] rows = Inr ([], rows)"
| "upsert_groups now i ((k, rs) # gs) rows =
     and_then (ds_upsert (summary_of now i k rs) rows) (\<lambda>(d, rows).
     and_then (upsert_groups now (Suc i) gs rows) (\<lambda>(ds, rows). Inr (d # ds, rows)))"

definition build_daily_summaries ::
  "micros \<Rightarrow> ident \<Rightarrow> ident \<Rightarrow> int \<Rightarrow> usage_cost_record list \<Rightarrow> daily_summary list
   \<Rightarrow> repo_error + daily_summary list \<times> daily_summary list" where
  "build_daily_summaries now i org d costs rows = upsert_groups now i (group_rows cost_key (cost_day org d costs)) rows"

text \<open>The days from the first to the last, each with fresh identifiers.\<close>

fun rebuild_days ::
  "micros \<Rightarrow> ident \<Rightarrow> ident \<Rightarrow> int list \<Rightarrow> usage_cost_record list \<Rightarrow> daily_summary list \<Rightarrow> repo_error + nat \<times> daily_summary list" where
  "rebuild_days now i org [] costs rows = Inr (0, rows)"
| "rebuild_days now i org (d # days) costs rows =
     and_then (build_daily_summaries now i org d costs rows) (\<lambda>(ds, rows).
     and_then (rebuild_days now (i + length ds) org days costs rows) (\<lambda>(n, rows). Inr (length ds + n, rows)))"

definition rebuild_range ::
  "micros \<Rightarrow> ident \<Rightarrow> ident \<Rightarrow> int \<Rightarrow> int \<Rightarrow> usage_cost_record list \<Rightarrow> daily_summary list \<Rightarrow> repo_error + nat \<times> daily_summary list" where
  "rebuild_range now i org s e costs rows = rebuild_days now i org [s..e] costs rows"

section \<open>Ingestion\<close>

definition split_cost :: "rat \<Rightarrow> int \<Rightarrow> int \<Rightarrow> ingest_error + rat \<times> rat" where
  "split_cost cost inp out =
     (let total = inp + out
      in if total \<le> 0 then Inr (0, cost)
         else case quantize8 (dec_div (dec_mult cost (of_int inp)) (of_int total)) of
                None \<Rightarrow> Inl Invalid_operation
              | Some p \<Rightarrow> Inr (p, ctx28 (cost - p)))"

record ingest_state =
  ig_accounts :: accounts
  ig_records :: "usage_record list"
  ig_events :: "usage_event list"
  ig_costs :: "usage_cost_record list"
  ig_summaries :: "daily_summary list"
  ig_rules :: "alert_rule list"
  ig_published :: "usage_record list"

definition ig_draw :: "ingest_state \<Rightarrow> ident \<times> ingest_state" where
  "ig_draw s = (let (i, a) = draw (ig_accounts s) in (i, s\<lparr>ig_accounts := a\<rparr>))"

definition build_record :: "micros \<Rightarrow> ident \<Rightarrow> ident \<Rightarrow> ident option \<Rightarrow> ingest_body \<Rightarrow> usage_record" where
  "build_record now i org key b =
     \<lparr>row_id = i, row_created_at = now, row_updated_at = now, row_deleted_at = None, row_deleted_by = None,
      ur_organization_id = org, ur_project_id = ib_project_id b, ur_api_key_id = key, ur_provider = ib_provider b,
      ur_model = ib_model b, ur_request_id = ib_request_id b, ur_status = ib_status b,
      ur_input_tokens = ib_input_tokens b, ur_output_tokens = ib_output_tokens b,
      ur_cached_tokens = ib_cached_tokens b, ur_total_tokens = resolved_total_tokens b,
      ur_cost = (case ib_cost b of None \<Rightarrow> 0 | Some c \<Rightarrow> c), ur_currency = ib_currency b,
      ur_latency_ms = ib_latency_ms b, ur_region = ib_region b, ur_metadata = ib_metadata b, ur_ingested_at = now,
      ur_request_timestamp = resolved_timestamp now b\<rparr>"

definition fed_event :: "micros \<Rightarrow> ident \<Rightarrow> usage_record \<Rightarrow> usage_event" where
  "fed_event now i r =
     \<lparr>row_id = i, row_created_at = now, row_updated_at = now, row_deleted_at = None, row_deleted_by = None,
      ue_organization_id = ur_organization_id r, ue_project_id = ur_project_id r, ue_connection_id = None,
      ue_run_id = None, ue_provider = ur_provider r, ue_request_id = ur_request_id r, ue_model = ur_model r,
      ue_timestamp = ur_request_timestamp r, ue_request_count = 1, ue_prompt_tokens = ur_input_tokens r,
      ue_completion_tokens = ur_output_tokens r, ue_cached_tokens = ur_cached_tokens r,
      ue_total_tokens = ur_total_tokens r\<rparr>"

definition fed_cost :: "micros \<Rightarrow> ident \<Rightarrow> usage_event \<Rightarrow> rat \<times> rat \<Rightarrow> usage_record \<Rightarrow> usage_cost_record" where
  "fed_cost now i e parts r =
     \<lparr>row_id = i, row_created_at = now, row_updated_at = now, row_deleted_at = None, row_deleted_by = None,
      cr_usage_event_id = row_id e, cr_organization_id = ur_organization_id r, cr_project_id = ur_project_id r,
      cr_connection_id = None, cr_pricing_id = None, cr_provider = ur_provider r, cr_model = ur_model r,
      cr_currency = ur_currency r, cr_usage_date = ur_day r, cr_prompt_tokens = ur_input_tokens r,
      cr_completion_tokens = ur_output_tokens r, cr_cached_tokens = ur_cached_tokens r,
      cr_total_tokens = ur_total_tokens r, cr_prompt_cost = fst parts, cr_completion_cost = snd parts,
      cr_cached_cost = None, cr_total_cost = ur_cost r, cr_calculation_version = ''ep16-reported''\<rparr>"

definition feed_dashboard_aggregates :: "micros \<Rightarrow> usage_record \<Rightarrow> ingest_state \<Rightarrow> ingest_error + ingest_state" where
  "feed_dashboard_aggregates now r s =
     (let (i, s) = ig_draw s; (ev, events) = ue_upsert (fed_event now i r) (ig_events s)
      in and_then (split_cost (ur_cost r) (ur_input_tokens r) (ur_output_tokens r)) (\<lambda>parts.
         let (j, s) = ig_draw s
         in and_then (map_err Ing_repo (cr_upsert now (fed_cost now j ev parts r) (ig_costs s))) (\<lambda>(c, costs).
            let k = ac_next (ig_accounts s)
            in and_then (map_err Ing_repo (build_daily_summaries now k (ur_organization_id r) (ur_day r) costs (ig_summaries s)))
                 (\<lambda>(ds, summaries).
                   Inr (s\<lparr>ig_accounts := (ig_accounts s)\<lparr>ac_next := k + length ds\<rparr>, ig_events := events, ig_costs := costs,
                          ig_summaries := summaries\<rparr>)))))"

definition project_known :: "ident \<Rightarrow> ident option \<Rightarrow> ingest_state \<Rightarrow> ingest_error + unit" where
  "project_known org project s =
     (case project of
        None \<Rightarrow> Inr ()
      | Some p \<Rightarrow> and_then (map_err Ing_repo (repo_get p (ac_projects (ig_accounts s)))) (\<lambda>r.
          guard (case r of None \<Rightarrow> False | Some x \<Rightarrow> pj_organization_id x = org) Unknown_project))"

text \<open>The statements after the first lookup. They run against the tables as they are then: a request that
  lost a race meets the unique constraint, is rolled back to \<open>s0\<close> and looks the record up again.\<close>

definition ingest_store ::
  "micros \<Rightarrow> ident \<Rightarrow> ident option \<Rightarrow> ingest_body \<Rightarrow> ingest_state \<Rightarrow> ingest_state
   \<Rightarrow> ingest_error + (usage_record \<times> bool) \<times> ingest_state" where
  "ingest_store now org key b s0 s =
     and_then (project_known org (ib_project_id b) s) (\<lambda>_.
       let (i, s) = ig_draw s
       in case create_record (build_record now i org key b) (ig_records s) of
            Inl e \<Rightarrow>
              if e \<noteq> Ing_repo IntegrityError then Inl e
              else and_then (map_err Ing_repo (get_by_request_id org (ib_request_id b) (ig_records s))) (\<lambda>found.
                     case found of None \<Rightarrow> Inl e | Some x \<Rightarrow> Inr ((x, True), s0))
          | Inr (r, rows) \<Rightarrow>
              and_then (feed_dashboard_aggregates now r (s\<lparr>ig_records := rows\<rparr>)) (\<lambda>s. Inr ((r, False), s)))"

definition ingest ::
  "micros \<Rightarrow> ident \<Rightarrow> ident option \<Rightarrow> ingest_body \<Rightarrow> ingest_state \<Rightarrow> ingest_state
   \<Rightarrow> ingest_error + (usage_record \<times> bool) \<times> ingest_state" where
  "ingest now org key b s0 s =
     and_then (map_err Ing_repo (get_by_request_id org (ib_request_id b) (ig_records s))) (\<lambda>found.
       case found of Some x \<Rightarrow> Inr ((x, True), s) | None \<Rightarrow> ingest_store now org key b s0 s)"

section \<open>The handler\<close>

record ingest_texts = texts +
  tx_percent1 :: "rat \<Rightarrow> string"
  tx_round2 :: "rat \<Rightarrow> string"

definition BUDGET_CHECKS :: "(alert_type \<times> alert_severity) list" where
  "BUDGET_CHECKS = [(BUDGET_EXCEEDED, CRITICAL), (BUDGET_THRESHOLD, HIGH)]"

definition spaced :: "string \<Rightarrow> string" where "spaced s = map (\<lambda>c. if c = CHR ''_'' then CHR '' '' else c) s"

definition budget_firing ::
  "ingest_texts \<Rightarrow> ident \<Rightarrow> project \<Rightarrow> rat \<Rightarrow> rat \<Rightarrow> rat \<Rightarrow> alert_type \<times> alert_severity \<Rightarrow> alert_rule \<Rightarrow> firing" where
  "budget_firing tx org p budget spent_now pct ts rule =
     \<lparr>fi_organization_id = org, fi_type = fst ts, fi_severity = snd ts,
      fi_title = pj_name p @ '': '' @ spaced (alert_type_value (fst ts)),
      fi_message = pj_name p @ '' has used '' @ tx_percent1 tx pct @ ''% of its '' @ tx_decimal tx budget @ '' budget this month.'',
      fi_source = ''ingestion'', fi_scope = budget_scope (tx_uuid tx (row_id p)), fi_provider = None,
      fi_rule_id = Some (row_id rule),
      fi_metadata = [(''project_id'', tx_uuid tx (row_id p)), (''project_name'', pj_name p),
        (''pct_used'', tx_round2 tx pct), (''budget'', tx_decimal tx budget), (''month_to_date'', tx_decimal tx spent_now)]\<rparr>"

text \<open>The firings of all matching rules in order; the first that raises ends the loop, and nothing is raised.\<close>

fun fire_until_error :: "(string \<Rightarrow> string) \<Rightarrow> micros \<Rightarrow> firing list \<Rightarrow> accounts \<Rightarrow> accounts" where
  "fire_until_error sha now [] s = s"
| "fire_until_error sha now (f # fs) s =
     (let (i, s) = draw s
      in case fire sha now i f (ac_alerts s) of
           Inl _ \<Rightarrow> s
         | Inr (_, a) \<Rightarrow> fire_until_error sha now fs (s\<lparr>ac_alerts := a\<rparr>))"

definition percent_used :: "rat \<Rightarrow> rat \<Rightarrow> rat" where
  "percent_used spent_now budget = dec_mult (dec_div spent_now budget) 100"

definition check_budget_alerts ::
  "ingest_texts \<Rightarrow> (string \<Rightarrow> string) \<Rightarrow> micros \<Rightarrow> date \<Rightarrow> ident \<Rightarrow> ident \<Rightarrow> ingest_state \<Rightarrow> ingest_state" where
  "check_budget_alerts tx sha now today org project s =
     (case repo_get project (ac_projects (ig_accounts s)) of
        Inr (Some p) \<Rightarrow>
          (case pj_budget p of
             None \<Rightarrow> s
           | Some budget \<Rightarrow>
               if budget \<le> 0 then s
               else let spent_now = project_month_to_date org project today (ig_records s);
                        pct = percent_used spent_now budget;
                        fs = concat (map (\<lambda>ts. map (budget_firing tx org p budget spent_now pct ts)
                               (evaluate_type org (fst ts) pct (ig_rules s))) BUDGET_CHECKS)
                    in s\<lparr>ig_accounts := fire_until_error sha now fs (ig_accounts s)\<rparr>)
      | _ \<Rightarrow> s)"

record ingest_response =
  ir_usage_id :: ident
  ir_request_id :: string
  ir_processed_at :: micros
  ir_duplicate :: bool

fun ingest_http :: "ingest_error \<Rightarrow> http_error" where
  "ingest_http Unknown_project = Http 404 ''project_id does not exist in this organization''"
| "ingest_http (Ing_repo e) = Http_db e"
| "ingest_http _ = Http 500 ''An unexpected error occurred.''"

definition ingest_usage ::
  "account_env \<Rightarrow> ingest_texts \<Rightarrow> (metadata \<Rightarrow> nat option) \<Rightarrow> micros \<Rightarrow> date \<Rightarrow> string option \<Rightarrow> ingest_body \<Rightarrow> ingest_state
   \<Rightarrow> http_error + ingest_response \<times> ingest_state" where
  "ingest_usage env tx json_size now today h body s =
     and_then (require_api_key_permission USAGE_WRITE env now h (ig_accounts s)) (\<lambda>((k, g), a).
     and_then (map_err (\<lambda>_. Http 422 ''validation error'') (validate_body json_size now body)) (\<lambda>b.
     and_then (map_err ingest_http (ingest now (row_id g) (Some (row_id k)) b s (s\<lparr>ig_accounts := a\<rparr>))) (\<lambda>((r, dup), s).
       let s = (if dup then s
                else let s = s\<lparr>ig_published := ig_published s @ [r]\<rparr>
                     in case ur_project_id r of
                          None \<Rightarrow> s
                        | Some p \<Rightarrow> check_budget_alerts tx (en_sha256 env) now today (row_id g) p s)
       in Inr (\<lparr>ir_usage_id = row_id r, ir_request_id = ur_request_id r, ir_processed_at = ur_ingested_at r,
                ir_duplicate = dup\<rparr>, s))))"

end
