(* ===== verification/Ingestion_Laws.thy ===== *)
theory Ingestion_Laws
  imports Ingestion
begin

text \<open>
  What ingestion guarantees: a request is stored once whatever the interleaving, the parts of a reported cost
  add up, and the daily summaries follow the cost records, but only for usage that names a project.
\<close>

section \<open>Splitting a cost\<close>

definition on_grid :: "rat \<Rightarrow> bool" where
  "on_grid c \<longleftrightarrow> (\<exists>k. 0 \<le> k \<and> k < 10 ^ 20 \<and> c = of_int k / 10 ^ 8)"

lemma stored_cost_on_grid: "numeric_20_8 x = Some c \<Longrightarrow> 0 \<le> x \<Longrightarrow> on_grid c"
  by (auto simp: numeric_20_8_def on_grid_def Let_def half_up_nonneg simp del: power_numeral split: if_splits)

lemma half_up_quarter: "0 \<le> k \<Longrightarrow> half_up (of_int k + 1 / 4) = k"
proof -
  assume "0 \<le> k"
  then have "\<not> (of_int k + 1 / 4 :: rat) < 0" by (simp add: not_less add_nonneg_nonneg)
  moreover have "\<lfloor>of_int k + 1 / 4 + 1 / 2 :: rat\<rfloor> = k" by (rule floor_unique) simp_all
  ultimately show ?thesis by (simp add: half_up_def)
qed

text \<open>Two roundings to 28 digits stay close.\<close>

lemma weighted_share:
  fixes c :: rat
  assumes c: "0 \<le> c" "c \<le> 10 ^ 12" and n: "0 \<le> n" "n \<le> t" and t: "0 < t"
  defines "y \<equiv> dec_div (dec_mult c (of_int n)) (of_int t)"
  shows "\<bar>y - c * of_int n / of_int t\<bar> \<le> 1 / 10 ^ 10"
proof -
  define e :: rat where "e = 1 / (2 * 10 ^ 27)"
  have e: "0 < e" "e \<le> 1" "3 * e * 10 ^ 12 \<le> 1 / 10 ^ 10" by (simp_all add: e_def)
  define N T where "N = rat_of_int n" and "T = rat_of_int t"
  have N: "0 \<le> N" "N \<le> T" and T: "0 < T" using n t by (simp_all add: N_def T_def)
  define x where "x = ctx28 (c * N)"
  have y: "y = ctx28 (x / T)" by (simp add: y_def dec_div_def dec_mult_def x_def N_def T_def)
  define w where "w = c * N / T"
  have w: "0 \<le> w" "w \<le> c" using c N T by (simp_all add: w_def divide_le_eq mult_left_mono)
  have x0: "0 \<le> x" using c N by (simp add: x_def ctx28_nonneg)
  have "\<bar>x - c * N\<bar> \<le> e * (c * N)" using ctx28_error [of "c * N"] c N by (simp add: x_def e_def)
  then have 1: "\<bar>x / T - w\<bar> \<le> e * w"
    using T by (simp add: w_def diff_divide_distrib [symmetric] divide_right_mono)
  have "\<bar>y - x / T\<bar> \<le> e * (x / T)" using ctx28_error [of "x / T"] x0 T by (simp add: y e_def)
  also have "x / T \<le> w + e * w" using 1 by (simp add: abs_le_iff)
  then have "e * (x / T) \<le> e * (w + e * w)" using e by (intro mult_left_mono) auto
  also have "\<dots> \<le> e * (w + w)"
    using e w mult_right_mono [of e 1 w] by (intro mult_left_mono add_left_mono) auto
  finally have "\<bar>y - w\<bar> \<le> e * (w + w) + e * w" using 1 by linarith
  also have "\<dots> = 3 * e * w" by (simp add: algebra_simps)
  also have "\<dots> \<le> 3 * e * 10 ^ 12" using e w c by (intro mult_left_mono) auto
  finally show ?thesis using e unfolding w_def N_def T_def by linarith
qed

text \<open>The cost of a usage record is split without loss: the prompt and the completion part are not negative, add
  up to the reported cost exactly, and the prompt part is within a hundred-millionth of its share by tokens
  (nothing when there are no tokens). The split never fails for a cost a record can hold.\<close>

theorem split_cost_exact:
  assumes "on_grid c" and "0 \<le> inp" and "0 \<le> out"
  shows "\<exists>p q. split_cost c inp out = Inr (p, q) \<and> 0 \<le> p \<and> 0 \<le> q \<and> p + q = c
     \<and> \<bar>p - (if inp + out = 0 then 0 else c * of_int inp / of_int (inp + out))\<bar> \<le> 1 / 10 ^ 8"
proof (cases "inp + out = 0")
  case True
  from assms(1) have "0 \<le> c" by (auto simp: on_grid_def)
  with True show ?thesis by (simp add: split_cost_def)
next
  case False
  with assms have t: "0 < inp + out" by simp
  from assms(1) obtain k where k: "0 \<le> k" "k < 10 ^ 20" and c: "c = of_int k / 10 ^ 8" by (auto simp: on_grid_def)
  have c0: "0 \<le> c" using k by (simp add: c)
  have "rat_of_int k \<le> 10 ^ 20" using k(2) by (metis less_imp_le of_int_le_iff of_int_numeral of_int_power)
  then have c1: "c \<le> 10 ^ 12" by (simp add: c)
  define w where "w = c * of_int inp / of_int (inp + out)"
  have "of_int inp \<le> (of_int (inp + out) :: rat)" using assms by simp
  then have w: "0 \<le> w" "w \<le> c"
    using c0 t assms by (simp_all add: w_def divide_le_eq mult_left_mono del: of_int_add)
  define y where "y = dec_div (dec_mult c (of_int inp)) (of_int (inp + out))"
  have y: "\<bar>y - w\<bar> \<le> 1 / 10 ^ 10"
    unfolding y_def w_def by (rule weighted_share) (use assms t c0 c1 in auto)
  have "0 \<le> y" using c0 t assms by (simp add: y_def dec_div_def dec_mult_def ctx28_nonneg del: of_int_add)
  moreover have "y \<le> 10 ^ 19" using y w c1 unfolding abs_le_iff by simp
  ultimately obtain p where p: "quantize8 y = Some p" using quantize8_total [of y] by auto
  define m where "m = half_up (y * 10 ^ 8)"
  have pm: "p = of_int m / 10 ^ 8" using quantize8_Some [OF p] by (simp add: m_def)
  have m0: "0 \<le> m" using \<open>0 \<le> y\<close> by (simp add: m_def half_up_nonneg)
  have "y * 10 ^ 8 \<le> of_int k + 1 / 4"
  proof -
    have "y \<le> c + 1 / 10 ^ 10" using y w unfolding abs_le_iff by simp
    then have "y * 10 ^ 8 \<le> (c + 1 / 10 ^ 10) * 10 ^ 8" by (intro mult_right_mono) auto
    also have "\<dots> \<le> of_int k + 1 / 4" by (simp add: c distrib_right)
    finally show ?thesis .
  qed
  then have mk: "m \<le> k" using half_up_mono [of "y * 10 ^ 8" "of_int k + 1 / 4"] half_up_quarter [OF k(1)] by (simp add: m_def)
  have "ctx28 (of_int (k - m) / 10 ^ 8) = of_int (k - m) / 10 ^ 8" by (rule ctx28_scaled) (use m0 mk k in auto)
  then have q: "ctx28 (c - p) = c - p" by (simp add: c pm diff_divide_distrib)
  have "0 \<le> c - p" using mk by (simp add: c pm divide_right_mono)
  moreover have "split_cost c inp out = Inr (p, c - p)"
    using t p q by (simp add: split_cost_def Let_def y_def del: of_int_add)
  moreover have "\<bar>p - w\<bar> \<le> 1 / 10 ^ 8"
    using quantize8_error [OF p] y unfolding abs_le_iff by simp
  moreover have "0 \<le> p" using m0 by (simp add: pm)
  ultimately show ?thesis using False by (intro exI [of _ p] exI [of _ "c - p"]) (simp add: w_def)
qed

theorem split_cost_exact_witness:
  "on_grid (1 / 10 ^ 8) \<and> (\<exists>p q. split_cost (1 / 10 ^ 8) 1 2 = Inr (p, q) \<and> p + q = 1 / 10 ^ 8)"
proof -
  have "on_grid (1 / 10 ^ 8)" unfolding on_grid_def by (rule exI [of _ 1]) simp
  with split_cost_exact [of "1 / 10 ^ 8" 1 2] show ?thesis by auto
qed

section \<open>A request is stored once\<close>

lemma build_record_sel [simp]:
  "ur_organization_id (build_record now i org key b) = org" "ur_project_id (build_record now i org key b) = ib_project_id b"
  "ur_provider (build_record now i org key b) = ib_provider b" "ur_model (build_record now i org key b) = ib_model b"
  "ur_currency (build_record now i org key b) = ib_currency b" "ur_request_id (build_record now i org key b) = ib_request_id b"
  "ur_request_timestamp (build_record now i org key b) = resolved_timestamp now b"
  "row_deleted_at (build_record now i org key b) = None"
  by (simp_all add: build_record_def)

lemma get_by_request:
  assumes "uq_usage_records rows" and "r \<in> set rows" and "row_deleted_at r = None"
  shows "get_by_request_id (ur_organization_id r) (ur_request_id r) rows = Inr (Some r)"
  using scalar_key [of "\<lambda>r. (ur_organization_id r, ur_request_id r)" rows r "\<lambda>r. row_deleted_at r = None"] assms
  by (simp add: get_by_request_id_def active_query_def uq_usage_records_def conj_commute)

lemma ig_draw_records:
  "ig_draw s = (i, s') \<Longrightarrow> ig_records s' = ig_records s"
  by (auto simp: ig_draw_def split_def Let_def)

lemma feed_records: "feed_dashboard_aggregates now r s = Inr s' \<Longrightarrow> ig_records s' = ig_records s"
  by (auto simp: feed_dashboard_aggregates_def ig_draw_def and_then_Inr_iff split_def Let_def)

lemma create_record_ok:
  assumes "create_record r rows = Inr (r', rows')"
  shows "rows' = rows @ [r'] \<and> uq_usage_records rows' \<and> r' = r\<lparr>ur_cost := ur_cost r'\<rparr> \<and> (0 \<le> ur_cost r \<longrightarrow> on_grid (ur_cost r'))"
proof -
  from assms obtain c where c: "numeric_20_8 (ur_cost r) = Some c" "r' = r\<lparr>ur_cost := c\<rparr>" "rows' = rows @ [r']" "uq_usage_records rows'"
    by (auto simp: create_record_def Let_def and_then_Inr_iff repo_create_def checked_Inr split: option.split_asm if_split_asm)
  then show ?thesis using stored_cost_on_grid [OF c(1)] by simp
qed

lemma create_record_present:
  assumes "r \<in> set rows" and "ur_organization_id r = ur_organization_id x" and "ur_request_id r = ur_request_id x"
  shows "\<exists>e. create_record x rows = Inl e \<and> (e = Ing_repo IntegrityError \<or> e = Data_error)"
proof -
  have "\<not> uq_usage_records (rows @ [y])" if "ur_organization_id y = ur_organization_id x" "ur_request_id y = ur_request_id x" for y
  proof
    assume "uq_usage_records (rows @ [y])"
    then have "(ur_organization_id y, ur_request_id y) \<notin> (\<lambda>r. (ur_organization_id r, ur_request_id r)) ` set rows"
      by (simp add: uq_usage_records_def)
    moreover have "(ur_organization_id r, ur_request_id r) \<in> (\<lambda>r. (ur_organization_id r, ur_request_id r)) ` set rows"
      using assms(1) by (rule imageI)
    ultimately show False using assms(2,3) that by simp
  qed
  then show ?thesis
    by (auto simp: create_record_def repo_create_def checked_def map_err_def Let_def split: option.split)
qed

lemma ingest_store_cases:
  assumes "ingest_store now org key b s0 s = Inr ((r, dup), s')"
  shows "if dup then s' = s0 \<and> r \<in> set (ig_records s)
    else ig_records s' = ig_records s @ [r] \<and> uq_usage_records (ig_records s') \<and> row_deleted_at r = None
       \<and> ur_organization_id r = org \<and> ur_request_id r = ib_request_id b"
proof -
  obtain i t where d: "ig_draw s = (i, t)" by (cases "ig_draw s")
  note t = ig_draw_records [OF d]
  show ?thesis
  proof (cases "create_record (build_record now i org key b) (ig_records t)")
    case (Inl e)
    with assms d have "dup \<and> s' = s0 \<and> get_by_request_id org (ib_request_id b) (ig_records t) = Inr (Some r)"
      by (auto simp: ingest_store_def elim!: and_then_InrE split: if_split_asm option.split_asm)
    moreover from this have "r \<in> set (ig_records t)"
      unfolding get_by_request_id_def by (auto dest!: scalar_one_mem simp: active_query_def)
    ultimately show ?thesis using t by simp
  next
    case (Inr x)
    then obtain r1 rows where c: "create_record (build_record now i org key b) (ig_records t) = Inr (r1, rows)"
      by (cases x) auto
    with assms d have f: "feed_dashboard_aggregates now r1 (t\<lparr>ig_records := rows\<rparr>) = Inr s'" and r: "r = r1" "\<not> dup"
      by (auto simp: ingest_store_def elim!: and_then_InrE)
    note ok = create_record_ok [OF c]
    have r1: "r1 = (build_record now i org key b)\<lparr>ur_cost := ur_cost r1\<rparr>" using ok by blast
    have "rows = ig_records t @ [r1]" "uq_usage_records rows" using ok by blast+
    moreover have "row_deleted_at r1 = None" "ur_organization_id r1 = org" "ur_request_id r1 = ib_request_id b"
      by (subst r1, simp add: build_record_def)+
    ultimately show ?thesis using feed_records [OF f] t r by simp
  qed
qed

text \<open>Requests that arrive one after another. A late one looked its record up before the others ran, and found
  nothing; an error rolls its transaction back.\<close>

record ingest_request =
  iq_late :: bool
  iq_now :: micros
  iq_org :: ident
  iq_key :: "ident option"
  iq_body :: ingest_body

definition run_ingest :: "ingest_request \<Rightarrow> ingest_state \<Rightarrow> ingest_error + (usage_record \<times> bool) \<times> ingest_state" where
  "run_ingest q s =
     (if iq_late q then ingest_store (iq_now q) (iq_org q) (iq_key q) (iq_body q) s s
      else ingest (iq_now q) (iq_org q) (iq_key q) (iq_body q) s s)"

definition after_ingest :: "ingest_state \<Rightarrow> ingest_request \<Rightarrow> ingest_state" where
  "after_ingest s q = (case run_ingest q s of Inl _ \<Rightarrow> s | Inr (_, s') \<Rightarrow> s')"

lemma run_ingest_step:
  assumes "uq_usage_records (ig_records s)"
  shows "uq_usage_records (ig_records (after_ingest s q)) \<and> (\<exists>new. ig_records (after_ingest s q) = ig_records s @ new)"
proof (cases "run_ingest q s")
  case (Inl e)
  with assms show ?thesis by (simp add: after_ingest_def)
next
  case (Inr x)
  then obtain r dup s' where x: "x = ((r, dup), s')" by (metis surj_pair)
  with Inr have "s' = s \<or> ingest_store (iq_now q) (iq_org q) (iq_key q) (iq_body q) s s = Inr ((r, dup), s')"
    by (auto simp: run_ingest_def ingest_def elim!: and_then_InrE split: if_split_asm option.split_asm)
  then show ?thesis
    using assms ingest_store_cases [of "iq_now q" "iq_org q" "iq_key q" "iq_body q" s s r dup s'] Inr x
    by (auto simp: after_ingest_def split: if_split_asm)
qed

text \<open>C9: a request identifier is stored once per organization, whatever requests run and however their lookups and
  inserts interleave: identifiers stay unique and stored records are never changed. A repeated request finds
  its record, is answered with it as a duplicate and changes nothing; one that looked too early either gets
  the same answer or an error.\<close>

theorem ingest_once:
  assumes "uq_usage_records (ig_records s)" and "s' = fold (\<lambda>q s. after_ingest s q) qs s"
  shows "uq_usage_records (ig_records s') \<and> (\<exists>new. ig_records s' = ig_records s @ new)
    \<and> (\<forall>r \<in> set (ig_records s'). \<forall>q. row_deleted_at r = None \<and> iq_org q = ur_organization_id r
         \<and> ib_request_id (iq_body q) = ur_request_id r \<longrightarrow>
         run_ingest q s' = Inr ((r, True), s') \<or> iq_late q \<and> (\<exists>e. run_ingest q s' = Inl e))"
proof -
  have run: "uq_usage_records (ig_records s') \<and> (\<exists>new. ig_records s' = ig_records s @ new)"
    using assms
  proof (induction qs arbitrary: s)
    case Nil
    then show ?case by simp
  next
    case (Cons q qs)
    from run_ingest_step [OF Cons.prems(1)] obtain new
      where "uq_usage_records (ig_records (after_ingest s q))" and "ig_records (after_ingest s q) = ig_records s @ new" by blast
    with Cons.IH [of "after_ingest s q"] Cons.prems(2) show ?case by auto
  qed
  have "run_ingest q s' = Inr ((r, True), s') \<or> iq_late q \<and> (\<exists>e. run_ingest q s' = Inl e)"
    if r: "r \<in> set (ig_records s')" "row_deleted_at r = None" and q: "iq_org q = ur_organization_id r" "ib_request_id (iq_body q) = ur_request_id r"
    for r q
  proof -
    have g: "get_by_request_id (iq_org q) (ib_request_id (iq_body q)) (ig_records s') = Inr (Some r)"
      using get_by_request [OF _ r] run q by simp
    show ?thesis
    proof (cases "iq_late q")
      case False
      with g show ?thesis by (simp add: run_ingest_def ingest_def map_err_def)
    next
      case True
      obtain i t where d: "ig_draw s' = (i, t)" by (cases "ig_draw s'")
      then have t: "ig_records t = ig_records s'" by (rule ig_draw_records)
      let ?x = "build_record (iq_now q) i (iq_org q) (iq_key q) (iq_body q)"
      have "ur_organization_id r = ur_organization_id ?x" "ur_request_id r = ur_request_id ?x"
        using q by (simp_all add: build_record_def)
      from create_record_present [OF r(1) this] obtain e where "create_record ?x (ig_records s') = Inl e" by blast
      with True g d t show ?thesis
        by (cases "project_known (iq_org q) (ib_project_id (iq_body q)) s'")
          (auto simp: run_ingest_def ingest_store_def map_err_def)
    qed
  qed
  with run show ?thesis by blast
qed

section \<open>Daily summaries\<close>

definition summaries_wf :: "ident \<Rightarrow> daily_summary list \<Rightarrow> bool" where
  "summaries_wf i rows \<longleftrightarrow> distinct (map ds_key rows) \<and> (\<forall>d \<in> set rows. row_deleted_at d = None \<and> row_id d < i)"

definition figures :: "daily_summary \<Rightarrow> (int \<times> int \<times> int option \<times> int \<times> nat) \<times> rat \<times> rat \<times> rat \<times> rat option \<times> nat" where
  "figures d =
     ((ds_prompt_tokens d, ds_completion_tokens d, ds_cached_tokens d, ds_total_tokens d, ds_total_requests d),
      ds_total_cost d, ds_prompt_cost d, ds_completion_cost d, ds_cached_cost d, ds_event_count d)"

fun key_project :: "summary_key \<Rightarrow> ident option" where "key_project (org, p, rest) = p"

lemma key_project_ds [simp]: "key_project (ds_key d) = ds_project_id d"
  by (simp add: ds_key_def)

lemma ds_overwrite_sel [simp]: "ds_key (ds_overwrite d x) = ds_key x" "row_id (ds_overwrite d x) = row_id x"
    "row_deleted_at (ds_overwrite d x) = row_deleted_at x" "figures (ds_overwrite d x) = figures d"
  by (simp_all add: ds_overwrite_def ds_key_def figures_def)

lemma summary_of_sel [simp]: "ds_key (summary_of now i k rs) = k" "row_id (summary_of now i k rs) = i"
    "row_deleted_at (summary_of now i k rs) = None"
  by (simp_all add: summary_of_def ds_key_def split: prod.split)

lemma figures_summary: "figures (summary_of now i k rs) = figures (summary_of 0 0 k rs)"
  by (simp add: figures_def summary_of_def split: prod.split)

lemma active_wf: "summaries_wf i rows \<Longrightarrow> active_query rows = rows"
  by (simp add: summaries_wf_def active_query_def)

text \<open>One upsert: it fails exactly for a key without a project that is present.\<close>

lemma ds_upsert_present:
  assumes wf: "summaries_wf i rows" and p: "ds_project_id d = None" "ds_key d \<in> ds_key ` set rows" and d: "row_deleted_at d = None" "i \<le> row_id d"
  shows "ds_upsert d rows = Inl MultipleResultsFound"
proof -
  from p(2) obtain x where x: "x \<in> set rows" "ds_key x = ds_key d" by auto
  with wf have "filter (\<lambda>x. ds_key x = ds_key d) rows = [x]"
    using filter_key_unique [of ds_key rows x] by (simp add: summaries_wf_def)
  then have "filter (\<lambda>x. ds_key x = ds_key d) (active_query (rows @ [d])) = [x, d]"
    using active_wf [OF wf] d(1) by (simp add: active_query_def)
  moreover have "row_id d \<notin> row_id ` set rows" using wf d(2) by (auto simp: summaries_wf_def)
  ultimately show ?thesis
    using p(1) by (simp add: ds_upsert_def ds_conflict_def repo_create_def scalar_one_or_none_def list_ex_iff)
qed

lemma ds_upsert_ok:
  assumes wf: "summaries_wf i rows" and ok: "ds_project_id d \<noteq> None \<or> ds_key d \<notin> ds_key ` set rows"
    and d: "row_deleted_at d = None" "row_id d = i"
  shows "\<exists>x rows'. ds_upsert d rows = Inr (x, rows') \<and> summaries_wf (Suc i) rows' \<and> ds_key ` set rows' = insert (ds_key d) (ds_key ` set rows)
     \<and> (\<exists>x. filter (\<lambda>x. ds_key x = ds_key d) rows' = [x] \<and> figures x = figures d)
     \<and> (\<forall>k. k \<noteq> ds_key d \<longrightarrow> filter (\<lambda>x. ds_key x = k) rows' = filter (\<lambda>x. ds_key x = k) rows)"
proof (cases "ds_key d \<in> ds_key ` set rows")
  case True
  then obtain x where x: "x \<in> set rows" "ds_key x = ds_key d" by auto
  with wf have fx: "filter (\<lambda>x. ds_key x = ds_key d) rows = [x]"
    using filter_key_unique [of ds_key rows x] by (simp add: summaries_wf_def)
  let ?rows = "sql_update_where (ds_conflict d) (ds_overwrite d) rows"
  have ex: "list_ex (ds_conflict d) rows" using True ok x by (auto simp: list_ex_iff ds_conflict_def)
  have keys: "map ds_key ?rows = map ds_key rows" by (rule map_update_where) simp
  have wf': "summaries_wf (Suc i) ?rows"
    using wf keys by (auto simp: summaries_wf_def set_update_where less_Suc_eq)
  have filt: "filter (\<lambda>x. ds_key x = k) ?rows = map (\<lambda>x. if ds_conflict d x then ds_overwrite d x else x) (filter (\<lambda>x. ds_key x = k) rows)" for k
    by (simp add: sql_update_where_def filter_map comp_def if_distrib cong: if_cong)
  have one: "filter (\<lambda>x. ds_key x = ds_key d) ?rows = [ds_overwrite d x]"
    unfolding filt fx using True ok x by (auto simp: ds_conflict_def)
  have other: "filter (\<lambda>x. ds_key x = k) ?rows = filter (\<lambda>x. ds_key x = k) rows" if "k \<noteq> ds_key d" for k
    unfolding filt using that by (intro map_idI) (auto simp: ds_conflict_def)
  have "ds_upsert d rows = Inr (ds_overwrite d x, ?rows)"
    using ex one active_wf [OF wf'] by (simp add: ds_upsert_def scalar_one_or_none_def)
  moreover have "ds_key ` set ?rows = insert (ds_key d) (ds_key ` set rows)"
    using keys True by (metis insert_absorb list.set_map)
  ultimately show ?thesis using wf' one other by simp
next
  case False
  have no: "\<not> list_ex (ds_conflict d) rows" using False unfolding list_ex_iff ds_conflict_def by (metis imageI)
  have new: "row_id d \<notin> row_id ` set rows" using wf d by (auto simp: summaries_wf_def)
  have wf': "summaries_wf (Suc i) (rows @ [d])"
    using wf d False by (auto simp: summaries_wf_def less_Suc_eq)
  have none: "filter (\<lambda>x. ds_key x = ds_key d) rows = []" using False unfolding filter_empty_conv by (metis imageI)
  have "ds_upsert d rows = Inr (d, rows @ [d])"
    using no new none active_wf [OF wf'] by (simp add: ds_upsert_def repo_create_def scalar_one_or_none_def)
  then show ?thesis using wf' none by simp
qed

lemma upsert_groups_ok:
  assumes "summaries_wf i rows" and "distinct (map fst gs)" and "\<forall>k \<in> fst ` set gs. key_project k \<noteq> None \<or> k \<notin> ds_key ` set rows"
  shows "\<exists>ds rows'. upsert_groups now i gs rows = Inr (ds, rows') \<and> length ds = length gs \<and> summaries_wf (i + length ds) rows'
     \<and> (\<forall>(k, rs) \<in> set gs. \<exists>x. filter (\<lambda>x. ds_key x = k) rows' = [x] \<and> figures x = figures (summary_of 0 0 k rs))
     \<and> (\<forall>k. k \<notin> fst ` set gs \<longrightarrow> filter (\<lambda>x. ds_key x = k) rows' = filter (\<lambda>x. ds_key x = k) rows)"
  using assms
proof (induction gs arbitrary: i rows)
  case Nil
  then show ?case by simp
next
  case (Cons g gs)
  obtain k rs where g: "g = (k, rs)" by (cases g)
  let ?d = "summary_of now i k rs"
  have kp: "ds_project_id ?d = key_project k" by (metis key_project_ds summary_of_sel(1))
  then have "ds_project_id ?d \<noteq> None \<or> ds_key ?d \<notin> ds_key ` set rows" using Cons.prems(3) by (simp add: g)
  from ds_upsert_ok [OF Cons.prems(1) this] obtain x0 r1 where up: "ds_upsert ?d rows = Inr (x0, r1)" and wf1: "summaries_wf (Suc i) r1"
    and keys: "ds_key ` set r1 = insert k (ds_key ` set rows)"
    and one: "\<exists>x. filter (\<lambda>x. ds_key x = k) r1 = [x] \<and> figures x = figures ?d"
    and other: "\<forall>k'. k' \<noteq> k \<longrightarrow> filter (\<lambda>x. ds_key x = k') r1 = filter (\<lambda>x. ds_key x = k') rows"
    by auto
  have dist: "distinct (map fst gs)" "k \<notin> fst ` set gs" using Cons.prems(2) by (simp_all add: g)
  have "\<forall>k' \<in> fst ` set gs. key_project k' \<noteq> None \<or> k' \<notin> ds_key ` set r1"
    using Cons.prems(3) dist(2) unfolding keys by (auto simp: g)
  from Cons.IH [OF wf1 dist(1) this] obtain ds rows' where rec: "upsert_groups now (Suc i) gs r1 = Inr (ds, rows')"
    and len: "length ds = length gs" and wf2: "summaries_wf (Suc i + length ds) rows'"
    and all: "\<forall>(k, rs) \<in> set gs. \<exists>x. filter (\<lambda>x. ds_key x = k) rows' = [x] \<and> figures x = figures (summary_of 0 0 k rs)"
    and keep: "\<forall>k'. k' \<notin> fst ` set gs \<longrightarrow> filter (\<lambda>x. ds_key x = k') rows' = filter (\<lambda>x. ds_key x = k') r1"
    by blast
  have "\<exists>x. filter (\<lambda>x. ds_key x = k) rows' = [x] \<and> figures x = figures (summary_of 0 0 k rs)"
    unfolding keep [rule_format, OF dist(2)] using one by (simp only: figures_summary [of now i])
  moreover have "filter (\<lambda>x. ds_key x = k') rows' = filter (\<lambda>x. ds_key x = k') rows" if "k' \<notin> fst ` set (g # gs)" for k'
  proof -
    have "k' \<notin> fst ` set gs" "k' \<noteq> k" using that by (simp_all add: g)
    with keep other show ?thesis by metis
  qed
  moreover have "upsert_groups now i (g # gs) rows = Inr (x0 # ds, rows')" by (simp add: g up rec)
  ultimately show ?case using len wf2 all by (intro exI [of _ "x0 # ds"] exI [of _ rows']) (simp add: g)
qed

lemma upsert_groups_present:
  assumes "summaries_wf i rows" and "distinct (map fst gs)" and "k \<in> fst ` set gs" and "key_project k = None" and "k \<in> ds_key ` set rows"
  shows "upsert_groups now i gs rows = Inl MultipleResultsFound"
  using assms
proof (induction gs arbitrary: i rows)
  case Nil
  then show ?case by simp
next
  case (Cons g gs)
  obtain k' rs where g: "g = (k', rs)" by (cases g)
  let ?d = "summary_of now i k' rs"
  have kp: "ds_project_id ?d = key_project k'" by (metis key_project_ds summary_of_sel(1))
  show ?case
  proof (cases "key_project k' = None \<and> k' \<in> ds_key ` set rows")
    case True
    with ds_upsert_present [OF Cons.prems(1), of ?d] kp show ?thesis by (simp add: g)
  next
    case False
    then have "ds_project_id ?d \<noteq> None \<or> ds_key ?d \<notin> ds_key ` set rows" using kp by simp
    from ds_upsert_ok [OF Cons.prems(1) this] obtain x0 r1 where up: "ds_upsert ?d rows = Inr (x0, r1)" and wf1: "summaries_wf (Suc i) r1"
      and keys: "ds_key ` set r1 = insert k' (ds_key ` set rows)" by auto
    from False Cons.prems(4,5) have "k \<noteq> k'" by auto
    then have "k \<in> fst ` set gs" using Cons.prems(3) by (auto simp: g)
    from Cons.IH [OF wf1 _ this Cons.prems(4)] Cons.prems(2,5) keys show ?thesis by (simp add: g up)
  qed
qed

lemma group_keys: "fst ` set (group_rows key rs) = key ` set rs"
  by (force simp: group_rows_def)

lemma group_mem: "(k, g) \<in> set (group_rows key rs) \<longleftrightarrow> k \<in> key ` set rs \<and> g = filter (\<lambda>r. key r = k) rs"
  by (auto simp: group_rows_def)

lemma build_blocked:
  assumes "summaries_wf i rows" and "r \<in> set (cost_day org d costs)" and "cr_project_id r = None" and "cost_key r \<in> ds_key ` set rows"
  shows "build_daily_summaries now i org d costs rows = Inl MultipleResultsFound"
  unfolding build_daily_summaries_def
  by (rule upsert_groups_present [OF assms(1) distinct_group_keys, where k = "cost_key r"])
    (use assms(2-4) in \<open>simp_all add: group_keys\<close>, simp add: cost_key_def)

text \<open>C10: rebuilding the summaries of a day makes them agree with the cost records: afterwards every combination of
  project, provider, model and currency that has cost records has exactly one summary and its figures are
  theirs, and no other summary changes. It fails, leaving everything as it was, exactly when usage without a
  project is summarised a second time: the unique constraint does not see a missing project, a second row is
  inserted, and reading the summary back finds two.\<close>

theorem daily_summaries_agree:
  assumes "summaries_wf i rows"
  shows "build_daily_summaries now i org d costs rows = Inl MultipleResultsFound
       \<and> (\<exists>r \<in> set (cost_day org d costs). cr_project_id r = None \<and> cost_key r \<in> ds_key ` set rows)
   \<or> (\<forall>r \<in> set (cost_day org d costs). cr_project_id r = None \<longrightarrow> cost_key r \<notin> ds_key ` set rows)
     \<and> (\<exists>ds rows'. build_daily_summaries now i org d costs rows = Inr (ds, rows') \<and> summaries_wf (i + length ds) rows'
         \<and> (\<forall>r \<in> set (cost_day org d costs). \<exists>x. filter (\<lambda>x. ds_key x = cost_key r) rows' = [x]
              \<and> figures x = figures (summary_of 0 0 (cost_key r) (filter (\<lambda>q. cost_key q = cost_key r) (cost_day org d costs))))
         \<and> (\<forall>k. k \<notin> cost_key ` set (cost_day org d costs) \<longrightarrow> filter (\<lambda>x. ds_key x = k) rows' = filter (\<lambda>x. ds_key x = k) rows))"
proof (cases "\<exists>r \<in> set (cost_day org d costs). cr_project_id r = None \<and> cost_key r \<in> ds_key ` set rows")
  case True
  then obtain r where r: "r \<in> set (cost_day org d costs)" "cr_project_id r = None" "cost_key r \<in> ds_key ` set rows" by blast
  with True build_blocked [OF assms r] show ?thesis by simp
next
  case False
  let ?gs = "group_rows cost_key (cost_day org d costs)"
  have "\<forall>k \<in> fst ` set ?gs. key_project k \<noteq> None \<or> k \<notin> ds_key ` set rows"
    unfolding group_keys using False by (auto simp: cost_key_def)
  from upsert_groups_ok [OF assms distinct_group_keys this, of now] obtain ds rows' where
    "upsert_groups now i ?gs rows = Inr (ds, rows')" "summaries_wf (i + length ds) rows'"
    and all: "\<forall>(k, rs) \<in> set ?gs. \<exists>x. filter (\<lambda>x. ds_key x = k) rows' = [x] \<and> figures x = figures (summary_of 0 0 k rs)"
    and "\<forall>k. k \<notin> fst ` set ?gs \<longrightarrow> filter (\<lambda>x. ds_key x = k) rows' = filter (\<lambda>x. ds_key x = k) rows" by blast
  moreover have "\<exists>x. filter (\<lambda>x. ds_key x = cost_key r) rows' = [x]
      \<and> figures x = figures (summary_of 0 0 (cost_key r) (filter (\<lambda>q. cost_key q = cost_key r) (cost_day org d costs)))"
    if "r \<in> set (cost_day org d costs)" for r
  proof -
    have "(cost_key r, filter (\<lambda>q. cost_key q = cost_key r) (cost_day org d costs)) \<in> set ?gs" using that by (simp add: group_mem)
    with all show ?thesis by blast
  qed
  ultimately show ?thesis using False by (auto simp: build_daily_summaries_def group_keys)
qed

lemma summaries_wf_mono: "summaries_wf i rows \<Longrightarrow> i \<le> j \<Longrightarrow> summaries_wf j rows"
  by (auto simp: summaries_wf_def)

lemma fed_cost_event: "cr_usage_event_id (fed_cost now j ev parts r) = row_id ev"
  by (simp add: fed_cost_def)

lemma fed_cost_stored:
  assumes "cr_upsert now (fed_cost now j ev parts r) costs = Inr (c, costs')" and "row_id ev \<notin> cr_usage_event_id ` set costs"
  shows "fed_cost now j ev parts r \<in> set costs'"
proof -
  have "\<not> (\<exists>x \<in> set costs. cr_usage_event_id x = cr_usage_event_id (fed_cost now j ev parts r))"
    using assms(2) by (metis fed_cost_event imageI)
  with assms(1) show ?thesis by (auto simp: cr_upsert_def repo_create_def elim!: and_then_InrE split: if_split_asm)
qed

lemma feed_blocked:
  assumes wf: "summaries_wf (ac_next (ig_accounts s)) (ig_summaries s)" and d: "d \<in> set (ig_summaries s)"
    and key: "ds_key d = (ur_organization_id r, None, ur_provider r, ur_model r, ur_currency r, ur_day r)" and p: "ur_project_id r = None"
    and new: "(ur_organization_id r, ur_provider r, ur_request_id r) \<notin> ue_key ` set (ig_events s)"
    and costs: "\<forall>c \<in> set (ig_costs s). cr_usage_event_id c < ac_next (ig_accounts s)"
  shows "feed_dashboard_aggregates now r s \<noteq> Inr s'"
proof
  assume feed: "feed_dashboard_aggregates now r s = Inr s'"
  let ?n = "ac_next (ig_accounts s)" and ?e = "fed_event now (ac_next (ig_accounts s)) r"
  have "List.find (\<lambda>x. ue_key x = ue_key ?e) (ig_events s) = None"
  proof -
    have "ue_key ?e = (ur_organization_id r, ur_provider r, ur_request_id r)" by (simp add: ue_key_def fed_event_def)
    with new show ?thesis unfolding find_None_iff_all by (metis imageI)
  qed
  then have up: "ue_upsert ?e (ig_events s) = (?e, ig_events s @ [?e])" by (simp add: ue_upsert_def)
  from feed up obtain parts c costs' out where c: "cr_upsert now (fed_cost now (Suc ?n) ?e parts r) (ig_costs s) = Inr (c, costs')"
    and b: "build_daily_summaries now (Suc (Suc ?n)) (ur_organization_id r) (ur_day r) costs' (ig_summaries s) = Inr out"
    by (auto simp: feed_dashboard_aggregates_def ig_draw_def draw_def Let_def elim!: and_then_InrE)
  let ?c = "fed_cost now (Suc ?n) ?e parts r"
  have "row_id ?e \<notin> cr_usage_event_id ` set (ig_costs s)" using costs by (auto simp: fed_event_def)
  from fed_cost_stored [OF c this] have "?c \<in> set (cost_day (ur_organization_id r) (ur_day r) costs')"
    by (simp add: cost_day_def fed_cost_def)
  moreover have "cost_key ?c = ds_key d" using key p by (simp add: cost_key_def fed_cost_def)
  moreover have "cr_project_id ?c = None" using p by (simp add: fed_cost_def)
  moreover have "summaries_wf (Suc (Suc ?n)) (ig_summaries s)" using wf by (rule summaries_wf_mono) simp
  ultimately show False using build_blocked [of "Suc (Suc ?n)" "ig_summaries s" ?c] d b by simp
qed


section \<open>Concrete runs\<close>

definition demo_usage :: ingest_state where
  "demo_usage =
     \<lparr>ig_accounts = demo, ig_records = [], ig_events = [], ig_costs = [], ig_summaries = [], ig_rules = [], ig_published = []\<rparr>"

definition demo_body :: "string \<Rightarrow> ingest_body" where
  "demo_body rid =
     \<lparr>ib_provider = ''openai'', ib_model = ''gpt'', ib_project_id = None, ib_request_id = rid, ib_input_tokens = 3,
      ib_output_tokens = 1, ib_cached_tokens = None, ib_total_tokens = None, ib_cost = Some 2, ib_currency = ''USD'',
      ib_latency_ms = None, ib_status = UR_SUCCESS, ib_region = None, ib_timestamp = Some 0, ib_metadata = []\<rparr>"

definition blockable :: "ingest_state \<Rightarrow> string \<Rightarrow> bool" where
  "blockable s rid \<longleftrightarrow>
     summaries_wf (ac_next (ig_accounts s)) (ig_summaries s)
     \<and> (\<exists>d \<in> set (ig_summaries s). ds_key d = (10, None, ''openai'', ''gpt'', ''USD'', timestamp_date 0))
     \<and> (10, ''openai'', rid) \<notin> ue_key ` set (ig_events s)
     \<and> (\<forall>c \<in> set (ig_costs s). cr_usage_event_id c < ac_next (ig_accounts s))"

lemma demo_first: "case ingest 100 10 None (demo_body ''a'') demo_usage demo_usage of Inl _ \<Rightarrow> False | Inr (x, s) \<Rightarrow> blockable s ''b''"
  by code_simp


theorem daily_summaries_agree_witness:
  "summaries_wf 5 [] \<and> (\<exists>ds rows'. build_daily_summaries 0 5 1 10 [sample_record 1 2] [] = Inr (ds, rows') \<and> summaries_wf (5 + length ds) rows')"
proof -
  have "summaries_wf 5 []" by (simp add: summaries_wf_def)
  from daily_summaries_agree [OF this, of 0 1 10 "[sample_record 1 2]"] this show ?thesis by auto
qed

theorem ingest_once_witness:
  "uq_usage_records (ig_records demo_usage)
   \<and> uq_usage_records (ig_records (fold (\<lambda>q s. after_ingest s q)
       [\<lparr>iq_late = False, iq_now = 100, iq_org = 10, iq_key = None, iq_body = demo_body ''a''\<rparr>,
        \<lparr>iq_late = True, iq_now = 100, iq_org = 10, iq_key = None, iq_body = demo_body ''a''\<rparr>] demo_usage))"
proof -
  have "uq_usage_records (ig_records demo_usage)" by (simp add: demo_usage_def uq_usage_records_def)
  from ingest_once [OF this refl] this show ?thesis by blast
qed

end
