(* ===== verification/Agent_Data.thy ===== *)
theory Agent_Data
  imports Json
begin

text \<open>
  The data of the monitoring agent (\<open>src/monitoring-agent/costorah_agent\<close>): the configuration
  (\<open>config.py\<close>), the key store (\<open>security/key_store.py\<close>), the normalized event and the collectors
  (\<open>collectors/\<close>). Parameters: \<open>sha\<close>, the hexadecimal SHA-256 digest; \<open>isoformat\<close>, the text of an instant;
  \<open>repr\<close>, the text of a float or a container; \<open>encrypt\<close> and \<open>decrypt\<close>, Fernet.
\<close>

section \<open>Configuration\<close>

definition coerce_env_value :: "string \<Rightarrow> json" where
  "coerce_env_value raw =
     (let lowered = py_lower raw
      in if lowered = ''true'' \<or> lowered = ''false'' then Js_bool (lowered = ''true'')
         else case py_int raw of
                Some n \<Rightarrow> Js_int n
              | None \<Rightarrow> (case py_float raw of Some f \<Rightarrow> f | None \<Rightarrow> Js_str raw))"

text \<open>\<open>s.split("__")\<close>.\<close>

fun split_dunder :: "string \<Rightarrow> string list" where
  "split_dunder [] = [[]]"
| "split_dunder [c] = [[c]]"
| "split_dunder (c # d # s) =
     (if c = CHR ''_'' \<and> d = CHR ''_'' then [] # split_dunder s
      else case split_dunder (d # s) of [] \<Rightarrow> [[c]] | w # ws \<Rightarrow> (c # w) # ws)"

text \<open>Walk down with \<open>setdefault\<close>, then store: through a value that is not a mapping this raises.\<close>

fun put_path :: "string list \<Rightarrow> json \<Rightarrow> (string \<times> json) list \<Rightarrow> py_fault + (string \<times> json) list" where
  "put_path [] v d = Inr d"
| "put_path [p] v d = Inr (dict_put p v d)"
| "put_path (p # q # ps) v d =
     (case map_of d p of
        None \<Rightarrow> and_then (put_path (q # ps) v []) (\<lambda>s. Inr (dict_put p (Js_dict s) d))
      | Some (Js_dict s) \<Rightarrow> and_then (put_path (q # ps) v s) (\<lambda>s'. Inr (dict_put p (Js_dict s') d))
      | Some _ \<Rightarrow> Inl (if ps = [] then Type_error else Attribute_error))"

definition ENV_PREFIX :: string where "ENV_PREFIX = ''COSTORAH_AGENT_''"

fun env_overrides_from ::
  "(string \<times> string) list \<Rightarrow> (string \<times> json) list \<Rightarrow> py_fault + (string \<times> json) list" where
  "env_overrides_from [] d = Inr d"
| "env_overrides_from ((k, raw) # env) d =
     (if \<not> starts_with ENV_PREFIX k then env_overrides_from env d
      else and_then (put_path (split_dunder (py_lower (drop (length ENV_PREFIX) k))) (coerce_env_value raw) d)
             (env_overrides_from env))"

definition env_overrides :: "(string \<times> string) list \<Rightarrow> py_fault + (string \<times> json) list" where
  "env_overrides env = env_overrides_from env []"

function (sequential) deep_merge ::
  "(string \<times> json) list \<Rightarrow> (string \<times> json) list \<Rightarrow> (string \<times> json) list" where
  "deep_merge merged [] = merged"
| "deep_merge merged ((k, Js_dict v) # rest) =
     deep_merge
       (case map_of merged k of
          Some (Js_dict b) \<Rightarrow> dict_put k (Js_dict (deep_merge b v)) merged
        | _ \<Rightarrow> dict_put k (Js_dict v) merged) rest"
| "deep_merge merged ((k, v) # rest) = deep_merge (dict_put k v merged) rest"
  by pat_completeness auto

termination
  by (relation "measure (\<lambda>(b, v). size_list (size_prod (\<lambda>_. 0) size) v)") auto

text \<open>The merge that \<open>load_config\<close> validates: \<open>yaml\<close> is what the file parses to (\<open>None\<close> when there is no file).\<close>

definition load_config_data ::
  "json option \<Rightarrow> (string \<times> string) list \<Rightarrow> py_fault + (string \<times> json) list" where
  "load_config_data yaml env =
     and_then (case yaml of
          None \<Rightarrow> Inr []
        | Some y \<Rightarrow> if \<not> js_truthy y then Inr []
                   else case y of Js_dict d \<Rightarrow> Inr d | _ \<Rightarrow> Inl Value_error) (\<lambda>file_data.
     and_then (env_overrides env) (\<lambda>overrides. Inr (deep_merge file_data overrides)))"

record server_config =
  sv_endpoint :: string
  sv_timeout_seconds :: secs
  sv_verify_tls :: bool

record agent_config =
  cf_server :: server_config
  cf_api_key :: string
  cf_interval_seconds :: secs
  cf_batch_size :: int
  cf_providers :: "(string \<times> bool) list"
  cf_backoff_seconds :: "secs list"
  cf_max_attempts :: "int option"
  cf_max_memory_events :: int
  cf_logging_level :: string

definition ALL_PROVIDERS :: "string list" where
  "ALL_PROVIDERS = [''openai'', ''anthropic'', ''google'', ''azure'', ''grok'', ''openrouter'', ''ollama'',
     ''cohere'', ''bedrock'', ''mistral'']"

datatype config_fault =
    Bad_endpoint | Bad_api_key | Not_positive | Batch_too_large | Empty_schedule | Unknown_log_level | Unknown_provider

definition DEFAULT_SCHEDULE :: "secs list" where "DEFAULT_SCHEDULE = [1, 2, 4, 8, 16, 30, 60]"

definition default_agent_config :: agent_config where
  "default_agent_config =
     \<lparr>cf_server = \<lparr>sv_endpoint = ''https://api.costorah.com'', sv_timeout_seconds = 10, sv_verify_tls = True\<rparr>,
      cf_api_key = [], cf_interval_seconds = 5, cf_batch_size = 50, cf_providers = [],
      cf_backoff_seconds = DEFAULT_SCHEDULE, cf_max_attempts = None, cf_max_memory_events = 10000,
      cf_logging_level = ''INFO''\<rparr>"

definition validate_endpoint :: "string \<Rightarrow> config_fault + string" where
  "validate_endpoint v =
     (if \<not> (starts_with ''https://'' v \<or> starts_with ''http://'' v) then Inl Bad_endpoint
      else Inr (rstrip_char (CHR ''/'') v))"

definition validate_key_shape :: "string \<Rightarrow> config_fault + string" where
  "validate_key_shape v = (if v \<noteq> [] \<and> \<not> starts_with ''costorah_live_'' v then Inl Bad_api_key else Inr v)"

definition validate_backoff :: "secs list \<Rightarrow> config_fault + secs list" where
  "validate_backoff v =
     (if v = [] then Inl Empty_schedule else if list_ex (\<lambda>x. x \<le> 0) v then Inl Not_positive else Inr v)"

definition upper_text :: "string \<Rightarrow> string" where
  "upper_text = map (\<lambda>c. if 97 \<le> (of_char c :: nat) \<and> (of_char c :: nat) \<le> 122 then char_of ((of_char c :: nat) - 32) else c)"

definition validate_level :: "string \<Rightarrow> config_fault + string" where
  "validate_level v =
     (let n = upper_text v
      in if n \<in> set [''DEBUG'', ''INFO'', ''WARNING'', ''ERROR'', ''CRITICAL''] then Inr n else Inl Unknown_log_level)"

definition validate_providers :: "(string \<times> bool) list \<Rightarrow> config_fault + unit" where
  "validate_providers ps = guard (list_all (\<lambda>p. fst p \<in> set ALL_PROVIDERS) ps) Unknown_provider"

definition validate_agent_config :: "agent_config \<Rightarrow> config_fault + agent_config" where
  "validate_agent_config c =
     and_then (validate_endpoint (sv_endpoint (cf_server c))) (\<lambda>endpoint.
     and_then (guard (0 < sv_timeout_seconds (cf_server c)) Not_positive) (\<lambda>_.
     and_then (validate_key_shape (cf_api_key c)) (\<lambda>key.
     and_then (guard (0 < cf_interval_seconds c \<and> 0 < cf_batch_size c) Not_positive) (\<lambda>_.
     and_then (guard (cf_batch_size c \<le> 1000) Batch_too_large) (\<lambda>_.
     and_then (validate_backoff (cf_backoff_seconds c)) (\<lambda>backoff.
     and_then (guard (0 < cf_max_memory_events c) Not_positive) (\<lambda>_.
     and_then (validate_level (cf_logging_level c)) (\<lambda>level.
     and_then (validate_providers (cf_providers c)) (\<lambda>_.
       Inr (c\<lparr>cf_server := (cf_server c)\<lparr>sv_endpoint := endpoint\<rparr>, cf_api_key := key,
              cf_backoff_seconds := backoff, cf_logging_level := level\<rparr>))))))))))"

definition enabled_providers :: "agent_config \<Rightarrow> string list" where
  "enabled_providers c = map fst (filter snd (cf_providers c))"

text \<open>\<open>config show\<close>: what is printed of the key.\<close>

definition masked_key :: "string \<Rightarrow> string" where
  "masked_key k =
     (if k = [] then k else if 18 < length k then take 18 k @ ''...REDACTED'' else ''***REDACTED***'')"

section \<open>Key store\<close>

text \<open>The two files of the directory; \<open>fresh\<close> is the key \<open>Fernet.generate_key()\<close> gives.\<close>

record key_files =
  kf_key :: "string option"
  kf_secret :: "string option"

definition load_or_create_fernet_key :: "string \<Rightarrow> key_files \<Rightarrow> string \<times> key_files" where
  "load_or_create_fernet_key fresh f =
     (case kf_key f of Some k \<Rightarrow> (k, f) | None \<Rightarrow> (fresh, f\<lparr>kf_key := Some fresh\<rparr>))"

definition ks_store :: "(string \<Rightarrow> string \<Rightarrow> string) \<Rightarrow> string \<Rightarrow> string \<Rightarrow> key_files \<Rightarrow> key_files" where
  "ks_store encrypt fresh api_key f =
     (let (k, f1) = load_or_create_fernet_key fresh f in f1\<lparr>kf_secret := Some (encrypt k api_key)\<rparr>)"

text \<open>\<open>Inl ()\<close> is the \<open>KeyStoreError\<close>.\<close>

definition ks_load :: "(string \<Rightarrow> string \<Rightarrow> string option) \<Rightarrow> key_files \<Rightarrow> unit + string option" where
  "ks_load decrypt f =
     (case (kf_secret f, kf_key f) of
        (Some t, Some k) \<Rightarrow> (case decrypt k t of None \<Rightarrow> Inl () | Some s \<Rightarrow> Inr (Some s))
      | _ \<Rightarrow> Inr None)"

definition ks_clear :: "key_files \<Rightarrow> key_files" where
  "ks_clear f = f\<lparr>kf_secret := None, kf_key := None\<rparr>"

definition config_set_key ::
  "(string \<Rightarrow> string \<Rightarrow> string) \<Rightarrow> string \<Rightarrow> string \<Rightarrow> key_files \<Rightarrow> config_fault + key_files" where
  "config_set_key encrypt fresh api_key f =
     (if \<not> starts_with ''costorah_live_'' api_key then Inl Bad_api_key else Inr (ks_store encrypt fresh api_key f))"

text \<open>\<open>AgentAuthenticationError\<close> is \<open>Inl ()\<close>; the key store is not among its inputs.\<close>

definition resolve_api_key :: "agent_config \<Rightarrow> unit + string" where
  "resolve_api_key c = (if cf_api_key c \<noteq> [] then Inr (cf_api_key c) else Inl ())"

section \<open>Normalized events\<close>

record usage_report =
  nv_provider :: string
  nv_model :: string
  nv_request_id :: string
  nv_input_tokens :: int
  nv_output_tokens :: int
  nv_cached_tokens :: "int option"
  nv_total_tokens :: "int option"
  nv_cost :: rat
  nv_currency :: string
  nv_latency_ms :: "int option"
  nv_status :: string
  nv_region :: "string option"
  nv_project_id :: "string option"
  nv_timestamp :: micros
  nv_metadata :: "(string \<times> json) list"

definition opt_field :: "string \<Rightarrow> ('a \<Rightarrow> json) \<Rightarrow> 'a option \<Rightarrow> (string \<times> json) list" where
  "opt_field k f x = (case x of None \<Rightarrow> [] | Some v \<Rightarrow> [(k, f v)])"

definition to_ingestion_payload :: "(micros \<Rightarrow> string) \<Rightarrow> usage_report \<Rightarrow> (string \<times> json) list" where
  "to_ingestion_payload isoformat e =
     [(''provider'', Js_str (nv_provider e)), (''model'', Js_str (nv_model e)),
      (''request_id'', Js_str (nv_request_id e)), (''input_tokens'', Js_int (nv_input_tokens e)),
      (''output_tokens'', Js_int (nv_output_tokens e)), (''cost'', Js_float (nv_cost e)),
      (''currency'', Js_str (nv_currency e)), (''status'', Js_str (nv_status e)),
      (''timestamp'', Js_str (isoformat (nv_timestamp e))), (''metadata'', Js_dict (nv_metadata e))]
     @ opt_field ''cached_tokens'' Js_int (nv_cached_tokens e)
     @ opt_field ''total_tokens'' Js_int (nv_total_tokens e)
     @ opt_field ''latency_ms'' Js_int (nv_latency_ms e)
     @ opt_field ''region'' Js_str (nv_region e)
     @ opt_field ''project_id'' Js_str (nv_project_id e)"

section \<open>Collectors\<close>

definition deterministic_request_id :: "(string \<Rightarrow> string) \<Rightarrow> string list \<Rightarrow> string" where
  "deterministic_request_id sha parts =
     ''agent_'' @ take 32 (sha (concat (map (\<lambda>p. p @ ''|'') (butlast parts)) @ last parts))"

text \<open>\<open>"|".join\<close> takes strings only.\<close>

definition as_str :: "json \<Rightarrow> py_fault + string" where
  "as_str x = (case x of Js_str s \<Rightarrow> Inr s | _ \<Rightarrow> Inl Type_error)"

text \<open>The answer of a usage API: an \<open>httpx.HTTPError\<close> (status errors included), text that is not JSON, or JSON.\<close>

datatype api_reply = Api_error string | Api_not_json string | Api_body json

record openai_collector =
  oa_api_key :: "string option"
  oa_last_start_time :: int
  oa_last_error :: "string option"
  oa_last_collected_at :: "micros option"
  oa_collected_total :: nat

definition env_or_config :: "string option \<Rightarrow> string option \<Rightarrow> string option" where
  "env_or_config cfg env =
     (case cfg of Some (c # cs) \<Rightarrow> Some (c # cs) | _ \<Rightarrow> (case env of Some (c # cs) \<Rightarrow> Some (c # cs) | _ \<Rightarrow> None))"

definition openai_init :: "string option \<Rightarrow> string option \<Rightarrow> int \<Rightarrow> openai_collector" where
  "openai_init cfg env now =
     \<lparr>oa_api_key = env_or_config cfg env, oa_last_start_time = now - 300, oa_last_error = None,
      oa_last_collected_at = None, oa_collected_total = 0\<rparr>"

definition normalize_openai ::
  "(string \<Rightarrow> string) \<Rightarrow> (json \<Rightarrow> string) \<Rightarrow> json \<Rightarrow> json \<Rightarrow> py_fault + usage_report" where
  "normalize_openai sha repr bucket result =
     and_then (js_get bucket ''start_time'' (Js_int 0)) (\<lambda>start_time.
     and_then (js_get bucket ''end_time'' start_time) (\<lambda>end_time.
     and_then (js_get result ''model'' (Js_str ''unknown'')) (\<lambda>model.
     and_then (and_then (js_get result ''input_tokens'' (Js_int 0)) js_to_int) (\<lambda>inp.
     and_then (and_then (js_get result ''output_tokens'' (Js_int 0)) js_to_int) (\<lambda>out.
     and_then (and_then (js_get result ''num_model_requests'' (Js_int 1)) js_to_int) (\<lambda>requests.
     and_then (as_str model) (\<lambda>m.
     and_then (from_timestamp end_time) (\<lambda>ts.
       Inr \<lparr>nv_provider = ''openai'', nv_model = m,
            nv_request_id = deterministic_request_id sha [''openai'', js_str repr start_time, js_str repr end_time, m],
            nv_input_tokens = inp, nv_output_tokens = out, nv_cached_tokens = None,
            nv_total_tokens = Some (inp + out), nv_cost = 0, nv_currency = ''USD'', nv_latency_ms = None,
            nv_status = ''success'', nv_region = None, nv_project_id = None, nv_timestamp = ts,
            nv_metadata = [(''request_count'', Js_int requests), (''bucket_start'', start_time)]\<rparr>))))))))"

definition bucket_events ::
  "(json \<Rightarrow> json \<Rightarrow> py_fault + usage_report) \<Rightarrow> json \<Rightarrow> py_fault + usage_report list" where
  "bucket_events nrm body =
     and_then (and_then (js_get body ''data'' (Js_list [])) js_iter) (\<lambda>buckets.
     and_then (map_results (\<lambda>bucket.
         and_then (and_then (js_get bucket ''results'' (Js_list [])) js_iter) (map_results (nrm bucket))) buckets)
       (\<lambda>ess. Inr (concat ess)))"

text \<open>A poll ends in events or in an exception, and leaves a state in both cases.\<close>

datatype collect_fault = Collector_error | Crash py_fault

definition openai_collect ::
  "(string \<Rightarrow> string) \<Rightarrow> (json \<Rightarrow> string) \<Rightarrow> int \<Rightarrow> (int \<Rightarrow> api_reply) \<Rightarrow> openai_collector
   \<Rightarrow> (collect_fault + usage_report list) \<times> openai_collector" where
  "openai_collect sha repr now api c =
     (if oa_api_key c = None then (Inr [], c\<lparr>oa_last_error := Some ''OPENAI_API_KEY not configured''\<rparr>)
      else case api (oa_last_start_time c) of
             Api_error e \<Rightarrow> (Inr [], c\<lparr>oa_last_error := Some e\<rparr>)
           | r \<Rightarrow>
               (let c1 = c\<lparr>oa_last_start_time := now, oa_last_collected_at := Some (now * 1000000), oa_last_error := None\<rparr>
                in case r of
                     Api_body body \<Rightarrow>
                       (case bucket_events (normalize_openai sha repr) body of
                          Inl f \<Rightarrow> (Inl (Crash f), c1)
                        | Inr es \<Rightarrow> (Inr es, c1\<lparr>oa_collected_total := oa_collected_total c1 + length es\<rparr>))
                   | _ \<Rightarrow> (Inl Collector_error, c1)))"

record anthropic_collector =
  an_admin_key :: "string option"
  an_last_error :: "string option"
  an_last_collected_at :: "micros option"
  an_collected_total :: nat

definition normalize_anthropic ::
  "(string \<Rightarrow> string) \<Rightarrow> (json \<Rightarrow> string) \<Rightarrow> micros \<Rightarrow> json \<Rightarrow> json \<Rightarrow> py_fault + usage_report" where
  "normalize_anthropic sha repr now bucket result =
     and_then (js_get bucket ''end_time'' (Js_int 0)) (\<lambda>end_time.
     and_then (js_get result ''model'' (Js_str ''unknown'')) (\<lambda>model.
     and_then (and_then (js_get result ''uncached_input_tokens'' (Js_int 0)) js_to_int) (\<lambda>inp.
     and_then (and_then (js_get result ''output_tokens'' (Js_int 0)) js_to_int) (\<lambda>out.
     and_then (and_then (js_get result ''cache_read_input_tokens'' (Js_int 0)) js_to_int) (\<lambda>cached.
     and_then (js_get bucket ''start_time'' (Js_int 0)) (\<lambda>start_time.
     and_then (as_str model) (\<lambda>m.
     and_then (if js_truthy end_time then from_timestamp end_time else Inr now) (\<lambda>ts.
       Inr \<lparr>nv_provider = ''anthropic'', nv_model = m,
            nv_request_id = deterministic_request_id sha [''anthropic'', js_str repr start_time, js_str repr end_time, m],
            nv_input_tokens = inp, nv_output_tokens = out, nv_cached_tokens = (if cached = 0 then None else Some cached),
            nv_total_tokens = Some (inp + out), nv_cost = 0, nv_currency = ''USD'', nv_latency_ms = None,
            nv_status = ''success'', nv_region = None, nv_project_id = None, nv_timestamp = ts,
            nv_metadata = []\<rparr>))))))))"

definition anthropic_collect ::
  "(string \<Rightarrow> string) \<Rightarrow> (json \<Rightarrow> string) \<Rightarrow> micros \<Rightarrow> api_reply \<Rightarrow> anthropic_collector
   \<Rightarrow> (collect_fault + usage_report list) \<times> anthropic_collector" where
  "anthropic_collect sha repr now reply c =
     (if an_admin_key c = None then (Inr [], c\<lparr>an_last_error := Some ''ANTHROPIC_ADMIN_KEY not configured''\<rparr>)
      else case reply of
             Api_error e \<Rightarrow> (Inr [], c\<lparr>an_last_error := Some e\<rparr>)
           | Api_not_json e \<Rightarrow> (Inr [], c\<lparr>an_last_error := Some e\<rparr>)
           | Api_body body \<Rightarrow>
               (let c1 = c\<lparr>an_last_collected_at := Some now, an_last_error := None\<rparr>
                in case bucket_events (normalize_anthropic sha repr now) body of
                     Inl f \<Rightarrow> (Inl (Crash f), c1)
                   | Inr es \<Rightarrow> (Inr es, c1\<lparr>an_collected_total := an_collected_total c1 + length es\<rparr>)))"

text \<open>The account total is a finite number here: \<open>float\<close> of anything else is the fault.\<close>

record openrouter_collector =
  or_api_key :: "string option"
  or_last_usage :: "rat option"
  or_last_error :: "string option"
  or_last_collected_at :: "micros option"
  or_collected_total :: nat

definition normalize_openrouter ::
  "(string \<Rightarrow> string) \<Rightarrow> (micros \<Rightarrow> string) \<Rightarrow> micros \<Rightarrow> rat \<Rightarrow> json \<Rightarrow> usage_report" where
  "normalize_openrouter sha isoformat now delta label =
     \<lparr>nv_provider = ''openrouter'', nv_model = ''aggregate'',
      nv_request_id = deterministic_request_id sha [''openrouter'', isoformat now],
      nv_input_tokens = 0, nv_output_tokens = 0, nv_cached_tokens = None, nv_total_tokens = None,
      nv_cost = of_int (half_even (delta * 10 ^ 8)) / 10 ^ 8, nv_currency = ''USD'', nv_latency_ms = None,
      nv_status = ''success'', nv_region = None, nv_project_id = None, nv_timestamp = now,
      nv_metadata = [(''granularity'', Js_str ''account_aggregate_delta''), (''label'', label)]\<rparr>"

definition openrouter_delta :: "rat \<Rightarrow> openrouter_collector \<Rightarrow> rat option \<times> openrouter_collector" where
  "openrouter_delta spent c =
     (let c1 = c\<lparr>or_last_usage := Some spent\<rparr>
      in case or_last_usage c of
           None \<Rightarrow> (None, c1)
         | Some before \<Rightarrow> (if spent - before \<le> 0 then None else Some (spent - before), c1))"

definition openrouter_collect ::
  "(string \<Rightarrow> string) \<Rightarrow> (micros \<Rightarrow> string) \<Rightarrow> micros \<Rightarrow> api_reply \<Rightarrow> openrouter_collector
   \<Rightarrow> (collect_fault + usage_report list) \<times> openrouter_collector" where
  "openrouter_collect sha isoformat now reply c =
     (if or_api_key c = None then (Inr [], c\<lparr>or_last_error := Some ''OPENROUTER_API_KEY not configured''\<rparr>)
      else case reply of
             Api_error e \<Rightarrow> (Inr [], c\<lparr>or_last_error := Some e\<rparr>)
           | Api_not_json e \<Rightarrow> (Inr [], c\<lparr>or_last_error := Some e\<rparr>)
           | Api_body body \<Rightarrow>
               (let c1 = c\<lparr>or_last_collected_at := Some now, or_last_error := None\<rparr>
                in case and_then (js_get body ''data'' (Js_dict [])) (\<lambda>data.
                          and_then (and_then (js_get data ''usage'' (Js_float 0)) js_to_float) (\<lambda>spent.
                          and_then (js_get data ''label'' (Js_str ''unknown'')) (\<lambda>label. Inr (spent, label)))) of
                     Inl f \<Rightarrow> (Inl (Crash f), c1)
                   | Inr (spent, label) \<Rightarrow>
                       (case openrouter_delta spent c1 of
                          (None, c2) \<Rightarrow> (Inr [], c2)
                        | (Some delta, c2) \<Rightarrow>
                            (Inr [normalize_openrouter sha isoformat now delta label],
                             c2\<lparr>or_collected_total := or_collected_total c2 + 1\<rparr>))))"

section \<open>Health and the registry\<close>

record collector_health =
  ch_name :: string
  ch_enabled :: bool
  ch_healthy :: bool
  ch_detail :: string
  ch_last_collected_at :: "micros option"
  ch_collected_total :: nat

definition polled_health ::
  "string \<Rightarrow> string \<Rightarrow> string option \<Rightarrow> string option \<Rightarrow> micros option \<Rightarrow> nat \<Rightarrow> collector_health" where
  "polled_health nm missing key err polled n =
     \<lparr>ch_name = nm, ch_enabled = True, ch_healthy = (key \<noteq> None \<and> err = None),
      ch_detail = (if key = None then missing else case err of None \<Rightarrow> ''ok'' | Some [] \<Rightarrow> ''ok'' | Some e \<Rightarrow> e),
      ch_last_collected_at = polled, ch_collected_total = n\<rparr>"

definition openai_health :: "openai_collector \<Rightarrow> collector_health" where
  "openai_health c =
     polled_health ''openai'' ''OPENAI_API_KEY not configured'' (oa_api_key c) (oa_last_error c)
       (oa_last_collected_at c) (oa_collected_total c)"

definition anthropic_health :: "anthropic_collector \<Rightarrow> collector_health" where
  "anthropic_health c =
     polled_health ''anthropic'' ''ANTHROPIC_ADMIN_KEY not configured'' (an_admin_key c) (an_last_error c)
       (an_last_collected_at c) (an_collected_total c)"

definition openrouter_health :: "openrouter_collector \<Rightarrow> collector_health" where
  "openrouter_health c =
     polled_health ''openrouter'' ''OPENROUTER_API_KEY not configured'' (or_api_key c) (or_last_error c)
       (or_last_collected_at c) (or_collected_total c)"

text \<open>The registry maps names to classes; \<open>mk\<close> is the constructor call.\<close>

definition reg_register :: "string \<Rightarrow> 'k \<Rightarrow> (string \<times> 'k) list \<Rightarrow> (string \<times> 'k) list" where
  "reg_register nm k r = dict_put nm k r"

definition reg_unregister :: "string \<Rightarrow> (string \<times> 'k) list \<Rightarrow> (string \<times> 'k) list" where
  "reg_unregister nm r = dict_pop nm r"

definition is_registered :: "string \<Rightarrow> (string \<times> 'k) list \<Rightarrow> bool" where
  "is_registered nm r \<longleftrightarrow> map_of r nm \<noteq> None"

definition build_collector :: "('k \<Rightarrow> 'c) \<Rightarrow> string \<Rightarrow> (string \<times> 'k) list \<Rightarrow> 'c option" where
  "build_collector mk nm r = map_option mk (map_of r nm)"

fun build_enabled_from ::
  "('k \<Rightarrow> 'c) \<Rightarrow> string list \<Rightarrow> (string \<times> 'k) list \<Rightarrow> (string \<times> 'c) list \<Rightarrow> (string \<times> 'c) list" where
  "build_enabled_from mk [] r built = built"
| "build_enabled_from mk (n # ns) r built =
     (case build_collector mk n r of
        None \<Rightarrow> build_enabled_from mk ns r built
      | Some c \<Rightarrow> build_enabled_from mk ns r (dict_put n c built))"

definition build_enabled :: "('k \<Rightarrow> 'c) \<Rightarrow> string list \<Rightarrow> (string \<times> 'k) list \<Rightarrow> (string \<times> 'c) list" where
  "build_enabled mk ns r = build_enabled_from mk ns r []"

end
