(* ===== verification/Agent.thy ===== *)
theory Agent
  imports Agent_Data Interfaces Sdk_Breaker
begin

text \<open>
  Delivery in the monitoring agent: the bounded memory queue with its overflow (\<open>queue/memory_queue.py\<close>), the
  retry policy (\<open>queue/retry.py\<close>), the SQLite store (\<open>queue/sqlite_store.py\<close>), the HTTP client's reading of a
  response (\<open>transport/http_client.py\<close>), the sender (\<open>transport/sender.py\<close>) and the two loops of \<open>agent.py\<close>.

  The collection loop and the delivery loop share one event loop and switch while an HTTP request or a store
  call is awaited. \<open>agent_step\<close> interleaves them: an event is put, a pass starts and takes a batch out of memory,
  the request of the first event in flight is answered, the due retries are read, the pass ends; \<open>Ev_stop\<close> is
  \<open>shutdown\<close> cancelling the delivery task at its await, \<open>Ev_restart\<close> a new process on the same file. The store
  calls after an answer are one step with it, under one reading of the clock. Instants in SQLite are texts of
  the same form in one zone, which order as the instants do; the store holds \<open>json.loads(json.dumps(p))\<close>, equal
  to the payload.
\<close>

section \<open>Retry policy\<close>

record retry_policy =
  rt_backoff_seconds :: "secs list"
  rt_max_attempts :: "int option"

definition retry_policy_init :: "secs list \<Rightarrow> int option \<Rightarrow> py_fault + retry_policy" where
  "retry_policy_init backoff max_attempts =
     (if backoff = [] then Inl Value_error
      else if list_ex (\<lambda>v. v \<le> 0) backoff then Inl Value_error
      else Inr \<lparr>rt_backoff_seconds = backoff, rt_max_attempts = max_attempts\<rparr>)"

definition delay_for_attempt :: "retry_policy \<Rightarrow> int \<Rightarrow> py_fault + secs" where
  "delay_for_attempt r attempt =
     (if attempt < 1 then Inl Value_error
      else case py_get (rt_backoff_seconds r) (min (attempt - 1) (int (length (rt_backoff_seconds r)) - 1)) of
             None \<Rightarrow> Inl Value_error
           | Some d \<Rightarrow> Inr d)"

definition should_retry :: "retry_policy \<Rightarrow> int \<Rightarrow> bool" where
  "should_retry r attempt = (case rt_max_attempts r of None \<Rightarrow> True | Some m \<Rightarrow> attempt < m)"

lemma delay_next_delay:
  "1 \<le> n \<Longrightarrow> delay_for_attempt r n
     = (case next_delay (rt_backoff_seconds r) n of None \<Rightarrow> Inl Value_error | Some d \<Rightarrow> Inr d)"
  by (simp add: delay_for_attempt_def next_delay_def Let_def max_def)

lemma delay_nth:
  "rt_backoff_seconds r \<noteq> [] \<Longrightarrow> 1 \<le> n \<Longrightarrow>
   delay_for_attempt r (int n) = Inr (rt_backoff_seconds r ! min (n - 1) (length (rt_backoff_seconds r) - 1))"
  by (simp add: delay_next_delay next_delay_nth)

interpretation agent_retry:
  backoff_schedule "\<lambda>n. projr (delay_for_attempt \<lparr>rt_backoff_seconds = DEFAULT_SCHEDULE, rt_max_attempts = m\<rparr> (int n))" 7 60
proof -
  have s: "sorted DEFAULT_SCHEDULE" "\<forall>d \<in> set DEFAULT_SCHEDULE. 0 < d" "DEFAULT_SCHEDULE \<noteq> []"
      "length DEFAULT_SCHEDULE = 7" "last DEFAULT_SCHEDULE = 60"
    by (simp_all add: DEFAULT_SCHEDULE_def)
  then have b: "backoff_schedule (\<lambda>n. the (next_delay DEFAULT_SCHEDULE (int n))) 7 60"
    using schedule_backoff [of DEFAULT_SCHEDULE] by metis
  have e: "1 \<le> n \<Longrightarrow> projr (delay_for_attempt \<lparr>rt_backoff_seconds = DEFAULT_SCHEDULE, rt_max_attempts = m\<rparr> (int n))
      = the (next_delay DEFAULT_SCHEDULE (int n))" for n
    by (simp add: delay_next_delay next_delay_nth s)
  show "backoff_schedule (\<lambda>n. projr (delay_for_attempt \<lparr>rt_backoff_seconds = DEFAULT_SCHEDULE,
      rt_max_attempts = m\<rparr> (int n))) 7 60"
    using b by (auto simp: backoff_schedule_def e)
qed

section \<open>The store\<close>

type_synonym payload = "(string \<times> json) list"

record stored_event =
  se_id :: string
  se_payload :: payload
  se_created_at :: micros
  se_attempts :: nat
  se_next_retry_at :: micros
  se_last_error :: "string option"

definition se_enqueue :: "micros \<Rightarrow> string \<Rightarrow> payload \<Rightarrow> stored_event list \<Rightarrow> stored_event list" where
  "se_enqueue now i p rows =
     (if i \<in> se_id ` set rows then rows
      else rows @ [\<lparr>se_id = i, se_payload = p, se_created_at = now, se_attempts = 0, se_next_retry_at = now,
                    se_last_error = None\<rparr>])"

definition se_dequeue_due :: "micros \<Rightarrow> nat \<Rightarrow> stored_event list \<Rightarrow> stored_event list" where
  "se_dequeue_due now limit rows = take limit (sort_key se_created_at (filter (\<lambda>r. se_next_retry_at r \<le> now) rows))"

definition se_mark_failed :: "string \<Rightarrow> micros \<Rightarrow> string \<Rightarrow> stored_event list \<Rightarrow> stored_event list" where
  "se_mark_failed i at_time err rows =
     map (\<lambda>r. if se_id r = i
              then r\<lparr>se_attempts := se_attempts r + 1, se_next_retry_at := at_time, se_last_error := Some (take 1000 err)\<rparr>
              else r) rows"

definition se_remove :: "string \<Rightarrow> stored_event list \<Rightarrow> stored_event list" where
  "se_remove i rows = filter (\<lambda>r. se_id r \<noteq> i) rows"

definition se_count :: "stored_event list \<Rightarrow> nat" where
  "se_count rows = length rows"

definition se_wf :: "stored_event list \<Rightarrow> bool" where
  "se_wf rows \<longleftrightarrow> distinct (map se_id rows)"

definition se_lookup :: "stored_event list \<Rightarrow> string \<Rightarrow> payload option" where
  "se_lookup rows i = map_of (map (\<lambda>r. (se_id r, se_payload r)) rows) i"

section \<open>The memory queue\<close>

record event_queue =
  eq_max_size :: int
  eq_items :: "(string \<times> payload) list"
  eq_overflowed :: nat

definition eq_init :: "int \<Rightarrow> event_queue" where
  "eq_init n = \<lparr>eq_max_size = n, eq_items = [], eq_overflowed = 0\<rparr>"

definition eq_full :: "event_queue \<Rightarrow> bool" where
  "eq_full q \<longleftrightarrow> 0 < eq_max_size q \<and> eq_max_size q \<le> int (length (eq_items q))"

definition eq_put ::
  "micros \<Rightarrow> string \<Rightarrow> payload \<Rightarrow> event_queue \<times> stored_event list \<Rightarrow> event_queue \<times> stored_event list" where
  "eq_put now i p s =
     (let (q, rows) = s
      in if eq_full q then (q\<lparr>eq_overflowed := eq_overflowed q + 1\<rparr>, se_enqueue now i p rows)
         else (q\<lparr>eq_items := eq_items q @ [(i, p)]\<rparr>, rows))"

definition eq_get_batch :: "nat \<Rightarrow> event_queue \<Rightarrow> (string \<times> payload) list \<times> event_queue" where
  "eq_get_batch n q = (take n (eq_items q), q\<lparr>eq_items := drop n (eq_items q)\<rparr>)"

definition eq_qsize :: "event_queue \<Rightarrow> nat" where
  "eq_qsize q = length (eq_items q)"

interpretation agent_queue: bounded_fifo
  "\<lambda>s :: event_queue \<times> stored_event list. eq_items (fst s)" "\<lambda>s. nat (eq_max_size (fst s))"
  "\<lambda>x. eq_put now (fst x) (snd x)" "\<lambda>n s. (fst (eq_get_batch n (fst s)), (snd (eq_get_batch n (fst s)), snd s))"
  by unfold_locales (auto simp: eq_put_def eq_full_def eq_get_batch_def split_def Let_def)

lemma se_ids_enqueue: "se_id ` set (se_enqueue now i p rows) = insert i (se_id ` set rows)"
  by (auto simp: se_enqueue_def)

lemma se_map_mark: "map se_id (se_mark_failed i t err rows) = map se_id rows"
  by (simp add: se_mark_failed_def)

lemma se_ids_mark: "se_id ` set (se_mark_failed i t err rows) = se_id ` set rows"
  by (metis list.set_map se_map_mark)

lemma se_ids_remove: "se_id ` set (se_remove i rows) = se_id ` set rows - {i}"
  by (auto simp: se_remove_def)

lemma se_ids_due: "se_id ` set (se_dequeue_due now n rows) \<subseteq> se_id ` set rows"
  unfolding se_dequeue_due_def using set_take_subset by fastforce

lemma se_wf_enqueue [inv_rules]: "se_wf rows \<Longrightarrow> se_wf (se_enqueue now i p rows)"
  by (auto simp: se_wf_def se_enqueue_def)

lemma se_wf_mark [inv_rules]: "se_wf rows \<Longrightarrow> se_wf (se_mark_failed i t err rows)"
  by (simp add: se_wf_def se_map_mark)

lemma se_wf_remove [inv_rules]: "se_wf rows \<Longrightarrow> se_wf (se_remove i rows)"
  by (simp add: se_wf_def se_remove_def distinct_map_filter)

lemma se_lookup_None: "se_lookup rows i = None \<longleftrightarrow> i \<notin> se_id ` set rows"
  by (simp add: se_lookup_def map_of_eq_None_iff image_image)

lemma se_lookup_enqueue:
  "se_lookup (se_enqueue now i p rows) j =
     (if j = i then Some (case se_lookup rows i of None \<Rightarrow> p | Some q \<Rightarrow> q) else se_lookup rows j)"
proof (cases "i \<in> se_id ` set rows")
  case True
  then show ?thesis using se_lookup_None [of rows i] by (auto simp: se_enqueue_def)
next
  case False
  then have "map_of (map (\<lambda>r. (se_id r, se_payload r)) rows) i = None"
    using se_lookup_None [of rows i] by (simp add: se_lookup_def)
  with False show ?thesis
    by (auto simp: se_lookup_def se_enqueue_def map_add_def split: option.splits)
qed

lemma se_lookup_mark: "se_lookup (se_mark_failed i t err rows) = se_lookup rows"
  by (rule ext) (induction rows, auto simp: se_lookup_def se_mark_failed_def)

lemma se_lookup_remove: "se_lookup (se_remove i rows) = (se_lookup rows)(i := None)"
  by (induction rows) (auto simp: se_lookup_def se_remove_def fun_eq_iff)

lemma se_lookup_mem: "se_wf rows \<Longrightarrow> r \<in> set rows \<Longrightarrow> se_lookup rows (se_id r) = Some (se_payload r)"
  unfolding se_lookup_def by (rule map_of_is_SomeI) (auto simp: se_wf_def comp_def)

lemma se_due_mem: "r \<in> set (se_dequeue_due now n rows) \<Longrightarrow> r \<in> set rows \<and> se_next_retry_at r \<le> now"
  unfolding se_dequeue_due_def by (auto dest: in_set_takeD)

lemma se_due_distinct: "se_wf rows \<Longrightarrow> distinct (map se_id (se_dequeue_due now n rows))"
proof -
  assume "se_wf rows"
  then have "distinct (map se_id (sort_key se_created_at (filter (\<lambda>r. se_next_retry_at r \<le> now) rows)))"
    by (simp add: se_wf_def distinct_map inj_on_def)
  then show ?thesis unfolding se_dequeue_due_def by (metis distinct_take take_map)
qed

text \<open>A second insert of an identifier is ignored: the stored payload is the first one.\<close>

interpretation agent_store: event_store
  "\<lambda>t i p. se_enqueue t i p" "\<lambda>i n t. se_mark_failed i t []" se_remove
  "\<lambda>t n rows. map (\<lambda>r. (se_id r, se_payload r)) (se_dequeue_due t n rows)" se_lookup se_wf
proof (unfold_locales, goal_cases)
  case (5 s i p t n)
  then show ?case using se_due_mem by (auto intro: se_lookup_mem)
next
  case (6 s t n)
  then show ?case using se_due_distinct [of s t n] by (simp add: comp_def)
next
  case (7 t n s)
  then show ?case by (simp add: se_dequeue_due_def)
qed (auto simp: se_lookup_enqueue se_lookup_mark se_lookup_remove intro: inv_rules)

section \<open>Reading a response\<close>

datatype ingestion_outcome = SUCCESS | DUPLICATE | AUTH_FAILED | VALIDATION_FAILED | RETRYABLE_ERROR

record ingestion_result =
  ir_outcome :: ingestion_outcome
  ir_status_code :: "int option"
  ir_detail :: string
  ir_usage_id :: json

text \<open>What the transport gives back: no response (a timeout or another transport error), or a status with a
  body, \<open>None\<close> where it is not JSON.\<close>

datatype http_answer = Timed_out string | Transport_error string | Response int "json option"

definition safe_detail :: "int \<Rightarrow> json option \<Rightarrow> py_fault + string" where
  "safe_detail status body =
     (case body of
        None \<Rightarrow> Inr (''HTTP '' @ show_int status)
      | Some b \<Rightarrow> and_then (js_get b ''detail'' Js_null) (\<lambda>d.
          Inr (case d of Js_str s \<Rightarrow> take 500 s | _ \<Rightarrow> ''HTTP '' @ show_int status)))"

definition interpret_response :: "int \<Rightarrow> json option \<Rightarrow> py_fault + ingestion_result" where
  "interpret_response status body =
     (if status = 200 then
        (let b = (case body of None \<Rightarrow> Js_dict [] | Some x \<Rightarrow> x)
         in and_then (js_get b ''duplicate'' (Js_bool False)) (\<lambda>d.
            and_then (js_get b ''usage_id'' Js_null) (\<lambda>u.
              Inr \<lparr>ir_outcome = (if js_truthy d then DUPLICATE else SUCCESS), ir_status_code = Some 200,
                   ir_detail = (if js_truthy d then ''duplicate'' else ''ingested''), ir_usage_id = u\<rparr>)))
      else
        and_then (safe_detail status body) (\<lambda>detail.
          Inr \<lparr>ir_outcome = (if status = 401 \<or> status = 403 then AUTH_FAILED
                             else if status = 400 \<or> status = 404 \<or> status = 422 then VALIDATION_FAILED
                             else RETRYABLE_ERROR),
               ir_status_code = Some status, ir_detail = detail, ir_usage_id = Js_null\<rparr>))"

definition send_usage_event :: "http_answer \<Rightarrow> py_fault + ingestion_result" where
  "send_usage_event a =
     (case a of
        Timed_out e \<Rightarrow> Inr \<lparr>ir_outcome = RETRYABLE_ERROR, ir_status_code = None, ir_detail = ''timeout: '' @ e,
                           ir_usage_id = Js_null\<rparr>
      | Transport_error e \<Rightarrow> Inr \<lparr>ir_outcome = RETRYABLE_ERROR, ir_status_code = None,
                                 ir_detail = ''connection error: '' @ e, ir_usage_id = Js_null\<rparr>
      | Response status body \<Rightarrow> interpret_response status body)"

definition is_settled :: "ingestion_result \<Rightarrow> bool" where
  "is_settled r \<longleftrightarrow> ir_outcome r = SUCCESS \<or> ir_outcome r = DUPLICATE \<or> ir_outcome r = VALIDATION_FAILED"

section \<open>The sender\<close>

record sender_metrics =
  sm_events_sent :: nat
  sm_events_duplicate :: nat
  sm_events_failed :: nat
  sm_retries :: nat
  sm_uploads :: nat
  sm_last_upload_at :: "micros option"
  sm_last_latency_ms :: rat
  sm_latency_ms_sum :: rat
  sm_latency_ms_count :: nat
  sm_by_provider :: "(string \<times> nat) list"

definition sm_init :: sender_metrics where
  "sm_init = \<lparr>sm_events_sent = 0, sm_events_duplicate = 0, sm_events_failed = 0, sm_retries = 0, sm_uploads = 0,
     sm_last_upload_at = None, sm_last_latency_ms = 0, sm_latency_ms_sum = 0, sm_latency_ms_count = 0,
     sm_by_provider = []\<rparr>"

definition avg_latency_ms :: "sender_metrics \<Rightarrow> rat" where
  "avg_latency_ms m =
     (if sm_latency_ms_count m = 0 then 0 else sm_latency_ms_sum m / of_nat (sm_latency_ms_count m))"

definition sm_record_upload :: "micros \<Rightarrow> rat \<Rightarrow> string option \<Rightarrow> sender_metrics \<Rightarrow> sender_metrics" where
  "sm_record_upload now latency provider m =
     m\<lparr>sm_uploads := sm_uploads m + 1, sm_last_upload_at := Some now, sm_last_latency_ms := latency,
       sm_latency_ms_sum := sm_latency_ms_sum m + latency, sm_latency_ms_count := sm_latency_ms_count m + 1,
       sm_by_provider :=
         (case provider of
            None \<Rightarrow> sm_by_provider m | Some [] \<Rightarrow> sm_by_provider m
          | Some p \<Rightarrow> dict_put p ((case map_of (sm_by_provider m) p of None \<Rightarrow> 0 | Some n \<Rightarrow> n) + 1) (sm_by_provider m))\<rparr>"

record agent =
  ag_queue :: event_queue
  ag_rows :: "stored_event list"
  ag_metrics :: sender_metrics
  ag_policy :: retry_policy
  ag_batch_size :: nat

record answer =
  aw_reply :: http_answer
  aw_latency_ms :: rat
  aw_now :: micros

definition payload_provider :: "payload \<Rightarrow> string option" where
  "payload_provider p = (case map_of p ''provider'' of Some (Js_str s) \<Rightarrow> Some s | _ \<Rightarrow> None)"

text \<open>\<open>now + timedelta(seconds=delay)\<close>, in whole microseconds.\<close>

definition after_delay :: "micros \<Rightarrow> secs \<Rightarrow> micros" where
  "after_delay now d = now + half_even (d * 1000000)"

definition put_event :: "micros \<Rightarrow> string \<Rightarrow> payload \<Rightarrow> agent \<Rightarrow> agent" where
  "put_event now i p g =
     (let (q, rows) = eq_put now i p (ag_queue g, ag_rows g) in g\<lparr>ag_queue := q, ag_rows := rows\<rparr>)"

text \<open>One delivery. An exception while the response is read leaves before anything is recorded.\<close>

definition attempt_delivery :: "answer \<Rightarrow> string \<Rightarrow> payload \<Rightarrow> nat \<Rightarrow> agent \<Rightarrow> py_fault option \<times> agent" where
  "attempt_delivery a i p n g =
     (case send_usage_event (aw_reply a) of
        Inl f \<Rightarrow> (Some f, g)
      | Inr r \<Rightarrow>
          (let m = sm_record_upload (aw_now a) (aw_latency_ms a) (payload_provider p) (ag_metrics g)
           in if ir_outcome r = SUCCESS then
                (None, g\<lparr>ag_metrics := m\<lparr>sm_events_sent := sm_events_sent m + 1\<rparr>, ag_rows := se_remove i (ag_rows g)\<rparr>)
              else if ir_outcome r = DUPLICATE then
                (None, g\<lparr>ag_metrics := m\<lparr>sm_events_duplicate := sm_events_duplicate m + 1\<rparr>,
                         ag_rows := se_remove i (ag_rows g)\<rparr>)
              else if ir_outcome r = VALIDATION_FAILED then
                (None, g\<lparr>ag_metrics := m\<lparr>sm_events_failed := sm_events_failed m + 1\<rparr>,
                         ag_rows := se_remove i (ag_rows g)\<rparr>)
              else
                (let g1 = g\<lparr>ag_metrics := m\<lparr>sm_retries := sm_retries m + 1\<rparr>\<rparr>
                 in case delay_for_attempt (ag_policy g1) (int n) of
                      Inl f \<Rightarrow> (Some f, g1)
                    | Inr d \<Rightarrow>
                        (let next_retry_at = after_delay (aw_now a) d;
                             rows = (if n = 1 then se_enqueue (aw_now a) i p (ag_rows g1) else ag_rows g1)
                         in (None, g1\<lparr>ag_rows := se_mark_failed i next_retry_at (ir_detail r) rows\<rparr>)))))"

text \<open>The deliveries of a pass one after the other, on the answers that arrive; a pass whose next answer never
  comes is cancelled at that request.\<close>

datatype pass_end = Pass_done "answer list" | Pass_fault py_fault | Pass_cancelled

fun deliver_all :: "answer list \<Rightarrow> (string \<times> payload \<times> nat) list \<Rightarrow> agent \<Rightarrow> pass_end \<times> agent" where
  "deliver_all as [] g = (Pass_done as, g)"
| "deliver_all [] (x # xs) g = (Pass_cancelled, g)"
| "deliver_all (a # as) ((i, p, n) # xs) g =
     (case attempt_delivery a i p n g of
        (Some f, g1) \<Rightarrow> (Pass_fault f, g1)
      | (None, g1) \<Rightarrow> deliver_all as xs g1)"

definition take_fresh :: "agent \<Rightarrow> (string \<times> payload \<times> nat) list \<times> agent" where
  "take_fresh g =
     (let (batch, q) = eq_get_batch (ag_batch_size g) (ag_queue g)
      in (map (\<lambda>(i, p). (i, p, 1)) batch, g\<lparr>ag_queue := q\<rparr>))"

definition due_retries :: "micros \<Rightarrow> agent \<Rightarrow> (string \<times> payload \<times> nat) list" where
  "due_retries now g =
     map (\<lambda>r. (se_id r, se_payload r, se_attempts r + 1)) (se_dequeue_due now (ag_batch_size g) (ag_rows g))"

definition drain_memory_queue :: "answer list \<Rightarrow> agent \<Rightarrow> pass_end \<times> agent" where
  "drain_memory_queue as g = (let (batch, g1) = take_fresh g in deliver_all as batch g1)"

definition run_once :: "(answer list \<Rightarrow> micros) \<Rightarrow> answer list \<Rightarrow> agent \<Rightarrow> pass_end \<times> agent" where
  "run_once clock as g =
     (case drain_memory_queue as g of
        (Pass_done rest, g1) \<Rightarrow> deliver_all rest (due_retries (clock rest) g1) g1
      | r \<Rightarrow> r)"

text \<open>\<open>Agent(config)\<close>: \<open>AgentAuthenticationError\<close>, or the agent with an empty queue on the events of its file.\<close>

datatype agent_error = Authentication_error | Invalid_policy py_fault

definition agent_new :: "agent_config \<Rightarrow> stored_event list \<Rightarrow> agent_error + agent" where
  "agent_new c rows =
     (case resolve_api_key c of
        Inl _ \<Rightarrow> Inl Authentication_error
      | Inr key \<Rightarrow>
          (case retry_policy_init (cf_backoff_seconds c) (cf_max_attempts c) of
             Inl f \<Rightarrow> Inl (Invalid_policy f)
           | Inr policy \<Rightarrow>
               Inr \<lparr>ag_queue = eq_init (cf_max_memory_events c), ag_rows = rows, ag_metrics = sm_init,
                    ag_policy = policy, ag_batch_size = nat (cf_batch_size c)\<rparr>))"

text \<open>One round of the collection loop: each collector's poll gives events or an exception, and an exception
  stops that collector's round only.\<close>

fun collect_once ::
  "(micros \<Rightarrow> string) \<Rightarrow> micros \<Rightarrow> (collect_fault + usage_report list) list \<Rightarrow> agent \<Rightarrow> agent" where
  "collect_once isoformat now [] g = g"
| "collect_once isoformat now (Inl f # polls) g = collect_once isoformat now polls g"
| "collect_once isoformat now (Inr es # polls) g =
     collect_once isoformat now polls
       (fold (\<lambda>e. put_event now (nv_request_id e) (to_ingestion_payload isoformat e)) es g)"

text \<open>The status of \<open>/health\<close> in \<open>server/app.py\<close>.\<close>

definition health_status_of :: "collector_health list \<Rightarrow> agent \<Rightarrow> string" where
  "health_status_of hs g =
     (if (0 < eq_qsize (ag_queue g) \<and> sm_uploads (ag_metrics g) = 0) \<or> \<not> list_all ch_healthy hs
      then ''degraded'' else ''healthy'')"

lemma collect_once_isolated:
  "collect_once isoformat now polls g = collect_once isoformat now (filter is_ok polls) g"
  by (induction isoformat now polls g rule: collect_once.induct) auto

end
