(* ===== verification/Agent_Laws.thy ===== *)
theory Agent_Laws
  imports Agent
begin

text \<open>
  The agent's two loops as a step relation, its contract as an abstract outbox (a set of identifiers that were
  accepted and not settled), the refinement between them, and what follows: nothing accepted is lost while no
  pass is cut short, what is on disk survives everything, and a cut pass loses the rest of its batch. Then the
  laws of the retry schedule, the configuration, the key store and the collectors.
\<close>

section \<open>Interleaved execution\<close>

datatype agent_phase = Idle | Fresh | Due

record agent_sys =
  ay_agent :: agent
  ay_flight :: "(string \<times> payload \<times> nat) list"
  ay_phase :: agent_phase
  ay_accepted :: "string set"
  ay_settled :: "string set"

datatype agent_event =
    Ev_put micros string payload
  | Ev_pass
  | Ev_answer answer
  | Ev_due micros
  | Ev_end
  | Ev_stop
  | Ev_restart

definition settles :: "answer \<Rightarrow> bool" where
  "settles a \<longleftrightarrow> (case send_usage_event (aw_reply a) of Inl _ \<Rightarrow> False | Inr r \<Rightarrow> is_settled r)"

text \<open>\<open>step_put\<close> is the collection loop; \<open>step_pass\<close>, \<open>step_answer\<close>, \<open>step_due\<close> and \<open>step_end\<close> are a pass
  of the delivery loop; \<open>step_fault\<close> is its \<open>except Exception\<close>, which drops the local list of the pass.\<close>

inductive agent_step :: "agent_event \<Rightarrow> agent_sys \<Rightarrow> agent_sys \<Rightarrow> bool" where
  step_put: "agent_step (Ev_put now i p) s
     (s\<lparr>ay_agent := put_event now i p (ay_agent s), ay_accepted := insert i (ay_accepted s)\<rparr>)"
| step_pass: "ay_phase s = Idle \<Longrightarrow> take_fresh (ay_agent s) = (batch, g) \<Longrightarrow>
     agent_step Ev_pass s (s\<lparr>ay_agent := g, ay_flight := batch, ay_phase := Fresh\<rparr>)"
| step_answer: "ay_flight s = (i, p, n) # rest \<Longrightarrow> attempt_delivery a i p n (ay_agent s) = (None, g) \<Longrightarrow>
     agent_step (Ev_answer a) s
       (s\<lparr>ay_agent := g, ay_flight := rest,
          ay_settled := (if settles a then insert i (ay_settled s) else ay_settled s)\<rparr>)"
| step_fault: "ay_flight s = (i, p, n) # rest \<Longrightarrow> attempt_delivery a i p n (ay_agent s) = (Some f, g) \<Longrightarrow>
     agent_step (Ev_answer a) s (s\<lparr>ay_agent := g, ay_flight := [], ay_phase := Idle\<rparr>)"
| step_due: "ay_phase s = Fresh \<Longrightarrow> ay_flight s = [] \<Longrightarrow>
     agent_step (Ev_due now) s (s\<lparr>ay_flight := due_retries now (ay_agent s), ay_phase := Due\<rparr>)"
| step_end: "ay_phase s = Due \<Longrightarrow> ay_flight s = [] \<Longrightarrow> agent_step Ev_end s (s\<lparr>ay_phase := Idle\<rparr>)"
| step_stop: "agent_step Ev_stop s (s\<lparr>ay_flight := [], ay_phase := Idle\<rparr>)"
| step_restart: "agent_step Ev_restart s
     (s\<lparr>ay_agent := (ay_agent s)\<lparr>ag_queue := eq_init (eq_max_size (ag_queue (ay_agent s))), ag_metrics := sm_init\<rparr>,
        ay_flight := [], ay_phase := Idle\<rparr>)"

inductive agent_run :: "agent_event list \<Rightarrow> agent_sys \<Rightarrow> agent_sys \<Rightarrow> bool" where
  run_nil: "agent_run [] s s"
| run_cons: "agent_step e s s' \<Longrightarrow> agent_run es s' s'' \<Longrightarrow> agent_run (e # es) s s''"

inductive_cases stepE: "agent_step e s s'"
inductive_cases run_nilE: "agent_run [] s s'"
inductive_cases run_consE: "agent_run (e # es) s s'"

definition agent_init :: "int \<Rightarrow> nat \<Rightarrow> retry_policy \<Rightarrow> agent_sys" where
  "agent_init max_size batch policy =
     \<lparr>ay_agent = \<lparr>ag_queue = eq_init max_size, ag_rows = [], ag_metrics = sm_init, ag_policy = policy,
                  ag_batch_size = batch\<rparr>,
      ay_flight = [], ay_phase = Idle, ay_accepted = {}, ay_settled = {}\<rparr>"

section \<open>The abstract outbox\<close>

datatype outbox_op = Accept string | Settle string | Skip | Forget "string set"

fun outbox_step :: "outbox_op \<Rightarrow> string set \<Rightarrow> string set \<Rightarrow> bool" where
  "outbox_step (Accept i) u u' = (u' = insert i u)"
| "outbox_step (Settle i) u u' = (u - {i} \<subseteq> u' \<and> u' \<subseteq> u)"
| "outbox_step Skip u u' = (u' = u)"
| "outbox_step (Forget vs) u u' = (u - vs \<subseteq> u' \<and> u' \<subseteq> u)"

definition stored_ids :: "agent_sys \<Rightarrow> string set" where
  "stored_ids s = se_id ` set (ag_rows (ay_agent s))"

definition queued_ids :: "agent_sys \<Rightarrow> string set" where
  "queued_ids s = fst ` set (eq_items (ag_queue (ay_agent s)))"

definition flight_ids :: "agent_sys \<Rightarrow> string set" where
  "flight_ids s = fst ` set (ay_flight s)"

definition undelivered :: "agent_sys \<Rightarrow> string set" where
  "undelivered s = queued_ids s \<union> flight_ids s \<union> stored_ids s"

text \<open>What a step of the agent is, seen from outside: an exception or the stop can only forget what is in
  flight and not on disk, a new process what was in memory and not on disk.\<close>

fun outbox_op_of :: "agent_event \<Rightarrow> agent_sys \<Rightarrow> outbox_op" where
  "outbox_op_of (Ev_put now i p) s = Accept i"
| "outbox_op_of (Ev_answer a) s =
     (case send_usage_event (aw_reply a) of
        Inl _ \<Rightarrow> Forget (flight_ids s - queued_ids s - stored_ids s)
      | Inr r \<Rightarrow> if is_settled r then Settle (fst (hd (ay_flight s))) else Skip)"
| "outbox_op_of Ev_stop s = Forget (flight_ids s - queued_ids s - stored_ids s)"
| "outbox_op_of Ev_restart s = Forget (queued_ids s \<union> flight_ids s - stored_ids s)"
| "outbox_op_of _ s = Skip"

definition agent_inv :: "agent_sys \<Rightarrow> bool" where
  "agent_inv s \<longleftrightarrow> se_wf (ag_rows (ay_agent s)) \<and> rt_backoff_seconds (ag_policy (ay_agent s)) \<noteq> []
     \<and> (\<forall>(i, p, n) \<in> set (ay_flight s). 1 \<le> n)
     \<and> (ay_phase s = Due \<longrightarrow> distinct (map fst (ay_flight s)) \<and> flight_ids s \<subseteq> stored_ids s)
     \<and> (ay_phase s = Fresh \<longrightarrow> (\<forall>(i, p, n) \<in> set (ay_flight s). n = 1))
     \<and> (ay_phase s = Idle \<longrightarrow> ay_flight s = [])"

lemma attempt_settled:
  assumes "send_usage_event (aw_reply a) = Inr r" and "is_settled r"
  shows "\<exists>m. attempt_delivery a i p n g = (None, g\<lparr>ag_metrics := m, ag_rows := se_remove i (ag_rows g)\<rparr>)"
  using assms by (auto simp: attempt_delivery_def is_settled_def Let_def)

lemma attempt_kept:
  assumes "send_usage_event (aw_reply a) = Inr r" and "\<not> is_settled r"
    and "rt_backoff_seconds (ag_policy g) \<noteq> []" and "1 \<le> n"
  shows "\<exists>m d. delay_for_attempt (ag_policy g) (int n) = Inr d
     \<and> attempt_delivery a i p n g = (None, g\<lparr>ag_metrics := m,
         ag_rows := se_mark_failed i (after_delay (aw_now a) d) (ir_detail r)
           (if n = 1 then se_enqueue (aw_now a) i p (ag_rows g) else ag_rows g)\<rparr>)"
  using assms by (auto simp: attempt_delivery_def is_settled_def Let_def delay_nth)

lemma attempt_fault:
  "send_usage_event (aw_reply a) = Inl f \<Longrightarrow> attempt_delivery a i p n g = (Some f, g)"
  by (simp add: attempt_delivery_def)

text \<open>The three ways a delivery ends.\<close>

lemma attempt_cases:
  assumes "attempt_delivery a i p n g = (f, g')" and "rt_backoff_seconds (ag_policy g) \<noteq> []" and "1 \<le> n"
  obtains (fault) e where "send_usage_event (aw_reply a) = Inl e" and "f = Some e" and "g' = g"
  | (settled) r m where "send_usage_event (aw_reply a) = Inr r" and "is_settled r" and "f = None"
      and "g' = g\<lparr>ag_metrics := m, ag_rows := se_remove i (ag_rows g)\<rparr>"
  | (kept) r m d where "send_usage_event (aw_reply a) = Inr r" and "\<not> is_settled r" and "f = None"
      and "g' = g\<lparr>ag_metrics := m, ag_rows := se_mark_failed i (after_delay (aw_now a) d) (ir_detail r)
           (if n = 1 then se_enqueue (aw_now a) i p (ag_rows g) else ag_rows g)\<rparr>"
proof (cases "send_usage_event (aw_reply a)")
  case (Inl e)
  then show thesis using assms(1) attempt_fault [OF Inl] by (intro fault) auto
next
  case (Inr r)
  show thesis
  proof (cases "is_settled r")
    case True
    then show thesis using attempt_settled [OF Inr True, of i p n g] assms(1) by (auto intro: settled [OF Inr])
  next
    case False
    then show thesis using attempt_kept [OF Inr False assms(2,3), of i p] assms(1) by (auto intro: kept [OF Inr])
  qed
qed

lemmas outbox_ids = undelivered_def queued_ids_def flight_ids_def stored_ids_def

lemma put_event_ids:
  "fst ` set (eq_items (ag_queue (put_event now i p g))) \<union> se_id ` set (ag_rows (put_event now i p g))
     = insert i (fst ` set (eq_items (ag_queue g)) \<union> se_id ` set (ag_rows g))"
  by (auto simp: put_event_def eq_put_def Let_def split_def se_ids_enqueue)

lemma put_event_keeps:
  "ag_policy (put_event now i p g) = ag_policy g" "ag_batch_size (put_event now i p g) = ag_batch_size g"
  "se_wf (ag_rows g) \<Longrightarrow> se_wf (ag_rows (put_event now i p g))"
  "se_id ` set (ag_rows g) \<subseteq> se_id ` set (ag_rows (put_event now i p g))"
  by (auto simp: put_event_def eq_put_def Let_def split_def se_wf_enqueue se_ids_enqueue)

lemma take_fresh_ids:
  "take_fresh g = (batch, g') \<Longrightarrow>
   fst ` set batch \<union> fst ` set (eq_items (ag_queue g')) = fst ` set (eq_items (ag_queue g))
   \<and> ag_rows g' = ag_rows g \<and> ag_policy g' = ag_policy g \<and> (\<forall>(i, p, n) \<in> set batch. n = 1)"
proof -
  assume "take_fresh g = (batch, g')"
  then have b: "batch = map (\<lambda>(i, p). (i, p, 1)) (take (ag_batch_size g) (eq_items (ag_queue g)))"
    and g: "g' = g\<lparr>ag_queue := (ag_queue g)\<lparr>eq_items := drop (ag_batch_size g) (eq_items (ag_queue g))\<rparr>\<rparr>"
    by (auto simp: take_fresh_def eq_get_batch_def)
  have "fst ` set batch = fst ` set (take (ag_batch_size g) (eq_items (ag_queue g)))"
    by (simp add: b image_image split_def)
  then have "fst ` set batch \<union> fst ` set (drop (ag_batch_size g) (eq_items (ag_queue g)))
      = fst ` set (eq_items (ag_queue g))"
    by (metis append_take_drop_id image_Un set_append)
  then show ?thesis by (auto simp: g b)
qed

lemma due_retries_ids:
  assumes "se_wf (ag_rows g)"
  shows "distinct (map fst (due_retries now g))" "fst ` set (due_retries now g) \<subseteq> se_id ` set (ag_rows g)"
    "\<forall>(i, p, n) \<in> set (due_retries now g). 1 \<le> n"
proof -
  show "distinct (map fst (due_retries now g))"
    using se_due_distinct [OF assms, of now "ag_batch_size g"] by (simp add: due_retries_def comp_def)
  show "fst ` set (due_retries now g) \<subseteq> se_id ` set (ag_rows g)"
    using se_ids_due [of now "ag_batch_size g" "ag_rows g"] by (auto simp: due_retries_def)
  show "\<forall>(i, p, n) \<in> set (due_retries now g). 1 \<le> n" by (auto simp: due_retries_def)
qed

lemma fst_mem: "(x, y) \<in> A \<Longrightarrow> x \<in> fst ` A"
  by force

text \<open>An answered delivery, whatever the answer.\<close>

lemma answer_refines:
  assumes inv: "agent_inv s" and fl: "ay_flight s = (i, p, n) # rest"
    and at: "attempt_delivery a i p n (ay_agent s) = (None, g)"
  defines "s' \<equiv> s\<lparr>ay_agent := g, ay_flight := rest,
    ay_settled := (if settles a then insert i (ay_settled s) else ay_settled s)\<rparr>"
  shows "agent_inv s' \<and> outbox_step (outbox_op_of (Ev_answer a) s) (undelivered s) (undelivered s')
    \<and> (if settles a then stored_ids s' = stored_ids s - {i} else stored_ids s \<subseteq> stored_ids s')"
proof -
  have ne: "rt_backoff_seconds (ag_policy (ay_agent s)) \<noteq> []" and n: "1 \<le> n"
    using inv fl by (auto simp: agent_inv_def)
  show ?thesis
  proof (cases rule: attempt_cases [OF at ne n])
    case (1 e)
    then show ?thesis by simp
  next
    case (2 r m)
    then show ?thesis using inv fl
      by (auto simp: s'_def agent_inv_def settles_def se_ids_remove se_wf_remove outbox_ids dest: fst_mem)
  next
    case (3 r m d)
    have st: "n \<noteq> 1 \<Longrightarrow> i \<in> se_id ` set (ag_rows (ay_agent s))"
      using inv fl by (cases "ay_phase s") (auto simp: agent_inv_def stored_ids_def flight_ids_def)
    with 3 show ?thesis using inv fl
      by (auto simp: s'_def agent_inv_def settles_def se_ids_mark se_ids_enqueue se_wf_mark se_wf_enqueue outbox_ids)
  qed
qed

lemma agent_step_refines:
  assumes "agent_inv s" and "agent_step e s s'"
  shows "agent_inv s' \<and> outbox_step (outbox_op_of e s) (undelivered s) (undelivered s')"
  using assms(2)
proof (cases rule: agent_step.cases)
  case (step_put now i p)
  let ?g = "put_event now i p (ay_agent s)"
  have u: "undelivered s' = insert i (undelivered s)"
    using put_event_ids [of now i p "ay_agent s"] unfolding step_put(2) outbox_ids by simp blast
  have "ay_phase s = Due \<longrightarrow> flight_ids s \<subseteq> se_id ` set (ag_rows ?g)"
    using assms(1) put_event_keeps(4) [of "ay_agent s" now i p] by (simp add: agent_inv_def stored_ids_def) blast
  then have "agent_inv s'"
    using assms(1) put_event_keeps(1-3) [where g = "ay_agent s" and now = now and i = i and p = p]
    unfolding step_put(2) agent_inv_def by (simp add: stored_ids_def flight_ids_def)
  with u show ?thesis by (simp add: step_put(1))
next
  case (step_pass batch g)
  show ?thesis using assms(1) step_pass(3) take_fresh_ids [OF step_pass(4)]
    unfolding step_pass(1,2) by (auto simp: agent_inv_def outbox_ids)
next
  case (step_answer i p n rest a g)
  show ?thesis using answer_refines [OF assms(1) step_answer(3,4)] unfolding step_answer(1,2) by blast
next
  case (step_fault i p n rest a f g)
  have ne: "rt_backoff_seconds (ag_policy (ay_agent s)) \<noteq> []" and n: "1 \<le> n"
    using assms(1) step_fault(3) by (auto simp: agent_inv_def)
  show ?thesis
    by (cases rule: attempt_cases [OF step_fault(4) ne n])
      (use assms(1) step_fault in \<open>auto simp: agent_inv_def outbox_ids\<close>)
next
  case (step_due now)
  show ?thesis using assms(1) step_due due_retries_ids [of "ay_agent s" now]
    unfolding step_due(1,2) by (auto simp: agent_inv_def outbox_ids)
next
  case step_end
  then show ?thesis using assms(1) by (auto simp: agent_inv_def outbox_ids)
next
  case step_stop
  then show ?thesis using assms(1) by (auto simp: agent_inv_def outbox_ids)
next
  case step_restart
  then show ?thesis using assms(1) by (auto simp: agent_inv_def outbox_ids eq_init_def)
qed

lemma agent_run_inv: "agent_run es s s' \<Longrightarrow> agent_inv s \<Longrightarrow> agent_inv s'"
  by (induction rule: agent_run.induct) (auto dest: agent_step_refines)

lemma agent_init_inv [simp]: "rt_backoff_seconds policy \<noteq> [] \<Longrightarrow> agent_inv (agent_init m b policy)"
  by (simp add: agent_init_def agent_inv_def se_wf_def)

section \<open>What reaches the server and what is lost\<close>

definition cuts_a_pass :: "agent_event \<Rightarrow> bool" where
  "cuts_a_pass e \<longleftrightarrow> (case e of
       Ev_stop \<Rightarrow> True | Ev_restart \<Rightarrow> True
     | Ev_answer a \<Rightarrow> (case send_usage_event (aw_reply a) of Inl _ \<Rightarrow> True | Inr _ \<Rightarrow> False)
     | _ \<Rightarrow> False)"

lemma attempt_no_fault:
  "send_usage_event (aw_reply a) = Inr r \<Longrightarrow> is_settled r \<Longrightarrow> attempt_delivery a i p n g \<noteq> (Some f, g')"
  using attempt_settled [of a r i p n g] by auto

lemma step_accepted_settled:
  "agent_step e s s' \<Longrightarrow> ay_settled s \<subseteq> ay_settled s'
     \<and> (\<forall>i. outbox_op_of e s = Settle i \<longrightarrow> i \<in> ay_settled s')
     \<and> ay_accepted s' = (case e of Ev_put _ i _ \<Rightarrow> insert i (ay_accepted s) | _ \<Rightarrow> ay_accepted s)"
  by (cases rule: agent_step.cases, assumption)
    (auto simp: settles_def attempt_no_fault split: sum.splits if_splits)

lemma step_keeps_accepted:
  assumes "agent_inv s" and st: "agent_step e s s'" and "\<not> cuts_a_pass e"
    and "ay_accepted s \<subseteq> undelivered s \<union> ay_settled s"
  shows "ay_accepted s' \<subseteq> undelivered s' \<union> ay_settled s'"
proof -
  have o: "outbox_step (outbox_op_of e s) (undelivered s) (undelivered s')"
    using agent_step_refines [OF assms(1) st] by blast
  note a = step_accepted_settled [OF st]
  show ?thesis
  proof (cases "outbox_op_of e s")
    case (Accept i)
    then have "e = Ev_put (case e of Ev_put t _ _ \<Rightarrow> t) i (case e of Ev_put _ _ p \<Rightarrow> p)"
      by (cases e) (auto split: sum.splits if_splits)
    then have "ay_accepted s' = insert i (ay_accepted s)" using a by (cases e) auto
    with Accept o a assms(4) show ?thesis by auto
  next
    case (Settle i)
    then have "ay_accepted s' = ay_accepted s" using a by (cases e) auto
    moreover have "undelivered s - {i} \<subseteq> undelivered s'" using o Settle by simp
    ultimately show ?thesis using a Settle assms(4) by blast
  next
    case Skip
    then have "ay_accepted s' = ay_accepted s" using a by (cases e) auto
    with Skip o a assms(4) show ?thesis by auto
  next
    case (Forget vs)
    then show ?thesis using assms(3) by (cases e) (auto simp: cuts_a_pass_def split: sum.splits if_splits)
  qed
qed

lemma step_keeps_stored:
  assumes "agent_inv s" and st: "agent_step e s s'"
  shows "stored_ids s \<subseteq> stored_ids s' \<union> ay_settled s'"
  using st
proof (cases rule: agent_step.cases)
  case (step_put now i p)
  then show ?thesis using put_event_keeps(4) [of "ay_agent s" now i p] by (auto simp: stored_ids_def)
next
  case (step_pass batch g)
  then show ?thesis using take_fresh_ids [OF step_pass(4)] by (simp add: stored_ids_def)
next
  case (step_answer i p n rest a g)
  then show ?thesis using answer_refines [OF assms(1) step_answer(3,4)] by (auto split: if_splits)
next
  case (step_fault i p n rest a f g)
  have "g = ay_agent s"
    using step_fault(3,4) assms(1)
    by (cases rule: attempt_cases [OF step_fault(4)]) (auto simp: agent_inv_def)
  with step_fault show ?thesis by (simp add: stored_ids_def)
qed (auto simp: stored_ids_def)

text \<open>C1: the agent refines the outbox. Whatever the interleaving of collection, passes, answers, stops and
  restarts, a put accepts its identifier, an answered delivery removes at most the identifier it settled,
  reading the queue or the file and a failed delivery change nothing, and only a stop, a restart or a response
  that cannot be read may forget, and then only what is in memory and not on disk.\<close>

theorem agent_refines_outbox:
  assumes "rt_backoff_seconds policy \<noteq> []" and "agent_run es (agent_init m b policy) s" and "agent_step e s s'"
  shows "outbox_step (outbox_op_of e s) (undelivered s) (undelivered s')"
  using agent_step_refines [OF agent_run_inv [OF assms(2)] assms(3)] assms(1) by simp

definition demo_policy :: retry_policy where
  "demo_policy = \<lparr>rt_backoff_seconds = DEFAULT_SCHEDULE, rt_max_attempts = None\<rparr>"

lemma demo_policy_schedule [simp]: "rt_backoff_seconds demo_policy \<noteq> []"
  by (simp add: demo_policy_def DEFAULT_SCHEDULE_def)

theorem agent_refines_outbox_witness:
  "\<exists>s'. agent_step (Ev_put 7 ''a'' []) (agent_init 10 5 demo_policy) s'
     \<and> outbox_step (Accept ''a'') (undelivered (agent_init 10 5 demo_policy)) (undelivered s')"
  using agent_refines_outbox [OF demo_policy_schedule run_nil step_put] step_put by fastforce

text \<open>C2: nothing accepted is lost. In every run in which no pass is cut short (no stop, no restart, no
  response the client cannot read), each event ever put is settled by the server (ingested, known already, or
  refused as invalid) or still in the memory queue, in flight or on disk. What has reached the disk stays there
  until it is settled, in every run whatever.\<close>

theorem agent_keeps_events:
  assumes "rt_backoff_seconds policy \<noteq> []" and "agent_run es (agent_init m b policy) s" and "agent_run fs s s'"
  shows "(list_all (\<lambda>e. \<not> cuts_a_pass e) es \<longrightarrow> ay_accepted s \<subseteq> undelivered s \<union> ay_settled s)
    \<and> stored_ids s \<subseteq> stored_ids s' \<union> ay_settled s'"
proof -
  have acc: "ay_accepted t' \<subseteq> undelivered t' \<union> ay_settled t'"
    if "agent_run gs t t'" and "agent_inv t" and "ay_accepted t \<subseteq> undelivered t \<union> ay_settled t"
      and "list_all (\<lambda>e. \<not> cuts_a_pass e) gs" for gs t t'
    using that by (induction rule: agent_run.induct) (auto dest: agent_step_refines step_keeps_accepted)
  have sto: "stored_ids t \<subseteq> stored_ids t' \<union> ay_settled t' \<and> ay_settled t \<subseteq> ay_settled t'"
    if "agent_run gs t t'" and "agent_inv t" for gs t t'
    using that
  proof (induction rule: agent_run.induct)
    case (run_nil t)
    then show ?case by simp
  next
    case (run_cons e t t1 gs t2)
    then show ?case
      using agent_step_refines [OF run_cons.prems run_cons.hyps(1)] step_keeps_stored [OF run_cons.prems run_cons.hyps(1)]
        step_accepted_settled [OF run_cons.hyps(1)] by blast
  qed
  from acc [OF assms(2)] sto [OF assms(3) agent_run_inv [OF assms(2)]] assms(1)
  show ?thesis by (simp add: agent_init_def agent_inv_def se_wf_def)
qed

lemma two_in_flight:
  assumes "2 \<le> b" and "m \<le> 0 \<or> 2 \<le> m"
  shows "agent_run [Ev_put t i p, Ev_put t' j q, Ev_pass] (agent_init m b policy)
    ((agent_init m b policy)\<lparr>ay_flight := [(i, p, 1), (j, q, 1)], ay_phase := Fresh, ay_accepted := {i, j}\<rparr>)"
proof -
  have b: "take b [x, y] = [x, y]" "drop b [x, y] = []" for x y :: "string \<times> payload" using assms(1) by auto
  show ?thesis
    by (rule run_cons [OF step_put], rule run_cons [OF step_put], rule run_cons [OF _ run_nil])
      (use assms(2) in \<open>auto simp: agent_init_def put_event_def eq_put_def eq_full_def eq_init_def take_fresh_def
         eq_get_batch_def b intro!: step_pass [THEN subst [where P = "agent_step _ _", rotated]]\<close>)
qed

lemma run_append: "agent_run es s s1 \<Longrightarrow> agent_run fs s1 s2 \<Longrightarrow> agent_run (es @ fs) s s2"
  by (induction rule: agent_run.induct) (auto intro: run_cons)

theorem agent_keeps_events_witness:
  "\<exists>s. agent_run [Ev_put 7 ''a'' [], Ev_put 8 ''b'' [], Ev_pass] (agent_init 10 5 demo_policy) s
     \<and> ay_accepted s = {''a'', ''b''} \<and> ay_accepted s \<subseteq> undelivered s \<union> ay_settled s"
proof -
  have r: "agent_run [Ev_put 7 ''a'' [], Ev_put 8 ''b'' [], Ev_pass] (agent_init 10 5 demo_policy)
    ((agent_init 10 5 demo_policy)\<lparr>ay_flight := [(''a'', [], 1), (''b'', [], 1)], ay_phase := Fresh,
       ay_accepted := {''a'', ''b''}\<rparr>)"
    by (rule two_in_flight) auto
  let ?s = "(agent_init 10 5 demo_policy)\<lparr>ay_flight := [(''a'', [], 1), (''b'', [], 1)], ay_phase := Fresh,
       ay_accepted := {''a'', ''b''}\<rparr>"
  have "list_all (\<lambda>e. \<not> cuts_a_pass e) [Ev_put 7 ''a'' [], Ev_put 8 ''b'' [], Ev_pass]"
    by (simp add: cuts_a_pass_def)
  then have "ay_accepted ?s \<subseteq> undelivered ?s \<union> ay_settled ?s"
    using agent_keeps_events [OF demo_policy_schedule r run_nil] by blast
  with r show ?thesis by (intro exI [of _ ?s]) simp
qed

lemma cut_step:
  assumes "ay_flight s = (i, p, n) # rest"
    and "e = Ev_stop \<or> (\<exists>a f. e = Ev_answer a \<and> send_usage_event (aw_reply a) = Inl f)"
  shows "agent_step e s (s\<lparr>ay_flight := [], ay_phase := Idle\<rparr>)"
proof (cases "e = Ev_stop")
  case True
  then show ?thesis by (simp add: step_stop)
next
  case False
  then obtain a f where e: "e = Ev_answer a" and f: "send_usage_event (aw_reply a) = Inl f" using assms(2) by auto
  show ?thesis using step_fault [OF assms(1) attempt_fault [OF f]] by (simp add: e)
qed

lemma empty_pass:
  assumes "eq_items (ag_queue (ay_agent s)) = []" and "ag_rows (ay_agent s) = []" and "ay_phase s = Idle"
    and "ay_flight s = []"
  shows "agent_run [Ev_pass, Ev_due now, Ev_end] s s"
proof -
  have t: "take_fresh (ay_agent s) = ([], ay_agent s)"
    using assms(1) by (simp add: take_fresh_def eq_get_batch_def)
  have e: "s\<lparr>ay_agent := ay_agent s, ay_flight := [], ay_phase := Fresh\<rparr> = s\<lparr>ay_phase := Fresh\<rparr>"
      "(s\<lparr>ay_phase := Fresh\<rparr>)\<lparr>ay_flight := [], ay_phase := Due\<rparr> = s\<lparr>ay_phase := Due\<rparr>"
      "(s\<lparr>ay_phase := Due\<rparr>)\<lparr>ay_phase := Idle\<rparr> = s"
    using assms(3,4) by (cases s; simp)+
  have d: "due_retries now (ay_agent (s\<lparr>ay_phase := Fresh\<rparr>)) = []"
    using assms(2) by (simp add: due_retries_def se_dequeue_due_def)
  have "agent_step Ev_pass s (s\<lparr>ay_phase := Fresh\<rparr>)"
    using step_pass [OF assms(3) t] by (simp only: e)
  moreover have "agent_step (Ev_due now) (s\<lparr>ay_phase := Fresh\<rparr>) (s\<lparr>ay_phase := Due\<rparr>)"
    using step_due [of "s\<lparr>ay_phase := Fresh\<rparr>" now] assms(4) unfolding d e by simp
  moreover have "agent_step Ev_end (s\<lparr>ay_phase := Due\<rparr>) s"
    using step_end [of "s\<lparr>ay_phase := Due\<rparr>"] assms(4) unfolding e by simp
  ultimately show ?thesis by (blast intro: run_cons run_nil)
qed

text \<open>C3: what a cut pass costs. Two events are accepted and a pass has taken them out of memory; the agent is
  then told to stop gracefully while the first request is out, or the first answer is JSON that is not an
  object. The final flush finds nothing: neither event was settled and neither is in memory or on disk.\<close>

theorem cut_pass_loses_batch:
  assumes "2 \<le> b" and "m \<le> 0 \<or> 2 \<le> m"
    and "e = Ev_stop \<or> (\<exists>a f. e = Ev_answer a \<and> send_usage_event (aw_reply a) = Inl f)"
  shows "\<exists>s. agent_run [Ev_put t i p, Ev_put t' j q, Ev_pass, e, Ev_pass, Ev_due u, Ev_end] (agent_init m b policy) s
    \<and> ay_accepted s = {i, j} \<and> ay_settled s = {} \<and> undelivered s = {}"
proof -
  let ?s = "(agent_init m b policy)\<lparr>ay_flight := [(i, p, 1), (j, q, 1)], ay_phase := Fresh, ay_accepted := {i, j}\<rparr>"
  let ?u = "?s\<lparr>ay_flight := [], ay_phase := Idle\<rparr>"
  have "agent_step e ?s ?u" using assms(3) by (intro cut_step) auto
  moreover have "agent_run [Ev_pass, Ev_due u, Ev_end] ?u ?u"
    by (rule empty_pass) (auto simp: agent_init_def eq_init_def)
  ultimately have "agent_run ([Ev_put t i p, Ev_put t' j q, Ev_pass] @ [e, Ev_pass, Ev_due u, Ev_end])
      (agent_init m b policy) ?u"
    using two_in_flight [OF assms(1,2)] by (blast intro: run_append run_cons)
  then show ?thesis
    by (intro exI [of _ ?u] conjI) (simp_all add: agent_init_def outbox_ids eq_init_def)
qed

theorem cut_pass_loses_batch_witness:
  "\<exists>s. agent_run [Ev_put 1 ''a'' [], Ev_put 2 ''b'' [], Ev_pass,
        Ev_answer \<lparr>aw_reply = Response 502 (Some (Js_list [])), aw_latency_ms = 3, aw_now = 9\<rparr>,
        Ev_pass, Ev_due 20, Ev_end] (agent_init 10000 50 demo_policy) s
     \<and> ay_accepted s = {''a'', ''b''} \<and> ay_settled s = {} \<and> undelivered s = {}"
  by (rule cut_pass_loses_batch)
    (auto simp: send_usage_event_def interpret_response_def safe_detail_def)

section \<open>Retry times\<close>

text \<open>C4: a delivery that fails for the \<open>n\<close>-th time is scheduled after the \<open>n\<close>-th delay of the schedule (its
  last one from then on), is on disk with one more attempt counted, and is not handed out again before that
  instant. The bound on attempts that the configuration accepts plays no part: no number of failures gives an
  event up.\<close>

theorem failed_delivery_reschedules:
  assumes "se_wf (ag_rows g)" and "rt_backoff_seconds (ag_policy g) \<noteq> []" and "1 \<le> n"
    and "n \<noteq> 1 \<longrightarrow> i \<in> se_id ` set (ag_rows g)"
    and "send_usage_event (aw_reply a) = Inr r" and "\<not> is_settled r"
  defines "due \<equiv> after_delay (aw_now a)
    (rt_backoff_seconds (ag_policy g) ! min (n - 1) (length (rt_backoff_seconds (ag_policy g)) - 1))"
  shows "\<exists>g' row. attempt_delivery a i p n g = (None, g') \<and> row \<in> set (ag_rows g') \<and> se_id row = i
    \<and> se_next_retry_at row = due
    \<and> se_attempts row = (case List.find (\<lambda>x. se_id x = i) (ag_rows g) of None \<Rightarrow> 0 | Some x \<Rightarrow> se_attempts x) + 1
    \<and> (\<forall>t < due. i \<notin> fst ` set (due_retries t g'))"
proof -
  obtain m d where d: "delay_for_attempt (ag_policy g) (int n) = Inr d"
    and g': "attempt_delivery a i p n g = (None, g\<lparr>ag_metrics := m,
         ag_rows := se_mark_failed i (after_delay (aw_now a) d) (ir_detail r)
           (if n = 1 then se_enqueue (aw_now a) i p (ag_rows g) else ag_rows g)\<rparr>)"
    using attempt_kept [OF assms(5,6,2,3)] by blast
  define old where "old = (case List.find (\<lambda>x. se_id x = i) (ag_rows g) of None \<Rightarrow> 0 | Some x \<Rightarrow> se_attempts x)"
  let ?R = "if n = 1 then se_enqueue (aw_now a) i p (ag_rows g) else ag_rows g"
  let ?g = "g\<lparr>ag_metrics := m, ag_rows := se_mark_failed i (after_delay (aw_now a) d) (ir_detail r) ?R\<rparr>"
  have "d = rt_backoff_seconds (ag_policy g) ! min (n - 1) (length (rt_backoff_seconds (ag_policy g)) - 1)"
    using d assms(2,3) by (simp add: delay_nth)
  then have due: "after_delay (aw_now a) d = due" by (simp add: due_def)
  have "\<exists>x \<in> set ?R. se_id x = i \<and> se_attempts x = old"
  proof (cases "List.find (\<lambda>x. se_id x = i) (ag_rows g)")
    case None
    then have "i \<notin> se_id ` set (ag_rows g)" by (auto simp: find_None_iff)
    with None assms(4) show ?thesis by (auto simp: old_def se_enqueue_def)
  next
    case (Some x)
    then have x: "x \<in> set (ag_rows g)" "se_id x = i" by (auto simp: find_Some_iff)
    then have "?R = ag_rows g" by (auto simp: se_enqueue_def)
    with x Some show ?thesis by (auto simp: old_def)
  qed
  then obtain x where x: "x \<in> set ?R" "se_id x = i" "se_attempts x = old" by blast
  let ?x = "x\<lparr>se_attempts := se_attempts x + 1, se_next_retry_at := due, se_last_error := Some (take 1000 (ir_detail r))\<rparr>"
  have mem: "?x \<in> set (ag_rows ?g)"
    using x(1,2) image_eqI [of ?x _ x "set ?R"] by (simp add: se_mark_failed_def due del: if_splits)
  have wf: "se_wf (ag_rows ?g)" using assms(1) by (auto intro: inv_rules)
  have "i \<notin> fst ` set (due_retries t ?g)" if "t < due" for t
  proof
    assume "i \<in> fst ` set (due_retries t ?g)"
    then obtain y where y: "y \<in> set (se_dequeue_due t (ag_batch_size ?g) (ag_rows ?g))" "se_id y = i"
      by (auto simp: due_retries_def)
    then have "y \<in> set (ag_rows ?g)" and late: "se_next_retry_at y \<le> t" using se_due_mem by blast+
    with wf mem y(2) x(2) have "y = ?x" by (auto simp: se_wf_def distinct_map inj_on_def)
    with late that show False by simp
  qed
  with g' mem x show ?thesis
    by (intro exI [of _ ?g] exI [of _ ?x]) (simp add: old_def)
qed

theorem failed_delivery_reschedules_witness:
  "\<exists>g' row. attempt_delivery \<lparr>aw_reply = Timed_out ''slow'', aw_latency_ms = 10000, aw_now = 5\<rparr> ''a'' [] 1
        (ay_agent (agent_init 10 5 demo_policy)) = (None, g')
     \<and> row \<in> set (ag_rows g') \<and> se_id row = ''a'' \<and> se_next_retry_at row = 1000005 \<and> se_attempts row = 1"
proof -
  let ?a = "\<lparr>aw_reply = Timed_out ''slow'', aw_latency_ms = 10000, aw_now = 5\<rparr>"
  let ?g = "ay_agent (agent_init 10 5 demo_policy)"
  let ?r = "\<lparr>ir_outcome = RETRYABLE_ERROR, ir_status_code = None, ir_detail = ''timeout: slow'', ir_usage_id = Js_null\<rparr>"
  have r: "send_usage_event (aw_reply ?a) = Inr ?r" by (simp add: send_usage_event_def)
  have g: "se_wf (ag_rows ?g)" "rt_backoff_seconds (ag_policy ?g) \<noteq> []" "ag_rows ?g = []"
      "rt_backoff_seconds (ag_policy ?g) = DEFAULT_SCHEDULE"
    by (simp_all add: agent_init_def se_wf_def demo_policy_def DEFAULT_SCHEDULE_def)
  have t: "after_delay (aw_now ?a) (DEFAULT_SCHEDULE ! min (1 - 1) (length DEFAULT_SCHEDULE - 1)) = 1000005"
    by (simp add: DEFAULT_SCHEDULE_def after_delay_def half_even_def)
  have "\<not> is_settled ?r" by (simp add: is_settled_def)
  from failed_delivery_reschedules [of ?g 1 "''a''" ?a ?r "[]", OF g(1,2) _ _ r this] show ?thesis
    unfolding g(3,4) t by fastforce
qed

section \<open>Configuration\<close>

fun js_path :: "string list \<Rightarrow> (string \<times> json) list \<Rightarrow> json option" where
  "js_path [] d = None"
| "js_path [k] d = map_of d k"
| "js_path (k # q # ps) d = (case map_of d k of Some (Js_dict s) \<Rightarrow> js_path (q # ps) s | _ \<Rightarrow> None)"

fun untouched :: "string list \<Rightarrow> (string \<times> json) list \<Rightarrow> bool" where
  "untouched [] d = False"
| "untouched (k # ps) d = (case map_of d k of None \<Rightarrow> True | Some (Js_dict s) \<Rightarrow> untouched ps s | Some _ \<Rightarrow> False)"

fun json_ok :: "json \<Rightarrow> bool" where
  "json_ok (Js_dict d) = (distinct (map fst d) \<and> list_all (\<lambda>e. json_ok (snd e)) d)"
| "json_ok (Js_list xs) = list_all json_ok xs"
| "json_ok _ = True"

lemma map_of_deep_merge:
  "distinct (map fst v) \<Longrightarrow> map_of (deep_merge b v) k =
     (case map_of v k of
        None \<Rightarrow> map_of b k
      | Some (Js_dict s) \<Rightarrow> (case map_of b k of Some (Js_dict u) \<Rightarrow> Some (Js_dict (deep_merge u s)) | _ \<Rightarrow> Some (Js_dict s))
      | Some x \<Rightarrow> Some x)"
proof (induction v arbitrary: b)
  case Nil
  then show ?case by simp
next
  case (Cons e v)
  obtain j x where e: "e = (j, x)" by (cases e)
  have j: "map_of v j = None" using Cons.prems by (simp add: e map_of_eq_None_iff)
  show ?case
    using Cons j by (cases x) (auto simp: e split: option.splits json.splits)
qed

lemma deep_merge_leaf:
  "json_ok (Js_dict v) \<Longrightarrow> js_path p v = Some x \<Longrightarrow> \<forall>d. x \<noteq> Js_dict d \<Longrightarrow> js_path p (deep_merge b v) = Some x"
proof (induction p v arbitrary: b rule: js_path.induct)
  case (1 d)
  then show ?case by simp
next
  case (2 k d)
  then show ?case by (auto simp: map_of_deep_merge split: json.splits)
next
  case (3 k q ps d)
  then obtain s where s: "map_of d k = Some (Js_dict s)" and x: "js_path (q # ps) s = Some x"
    by (auto split: option.split_asm json.split_asm)
  from s 3(2) have "json_ok (Js_dict s)" by (force simp: list_all_iff dest: map_of_SomeD)
  with 3 s x show ?case by (auto simp: map_of_deep_merge split: option.splits json.splits)
qed

lemma untouched_None: "untouched p d \<Longrightarrow> js_path p d = None"
  by (induction p d rule: js_path.induct) (auto split: option.splits json.splits)

lemma deep_merge_untouched:
  "json_ok (Js_dict v) \<Longrightarrow> untouched p v \<Longrightarrow> js_path p (deep_merge b v) = js_path p b"
proof (induction p v arbitrary: b rule: js_path.induct)
  case (1 d)
  then show ?case by simp
next
  case (2 k d)
  then show ?case by (auto simp: map_of_deep_merge split: option.splits json.splits)
next
  case (3 k q ps d)
  show ?case
  proof (cases "map_of d k")
    case None
    with 3(2) show ?thesis by (simp add: map_of_deep_merge)
  next
    case (Some x)
    with 3(3) obtain s where s: "map_of d k = Some (Js_dict s)" and u: "untouched (q # ps) s"
      by (cases x) auto
    from s 3(2) have ok: "json_ok (Js_dict s)" by (force simp: list_all_iff dest: map_of_SomeD)
    from 3(2) s 3(1) [OF s refl ok u] untouched_None [OF u] show ?thesis
      by (auto simp: map_of_deep_merge split: option.splits json.splits)
  qed
qed

lemma json_ok_put:
  "json_ok (Js_dict d) \<Longrightarrow> json_ok v \<Longrightarrow> json_ok (Js_dict (dict_put k v d))"
proof -
  have "list_all (\<lambda>e. json_ok (snd e)) d \<Longrightarrow> json_ok v \<Longrightarrow> list_all (\<lambda>e. json_ok (snd e)) (dict_put k v d)"
    by (induction d) auto
  moreover assume "json_ok (Js_dict d)" "json_ok v"
  ultimately show ?thesis by (simp add: distinct_dict_put)
qed

lemma json_ok_sub: "json_ok (Js_dict d) \<Longrightarrow> map_of d k = Some x \<Longrightarrow> json_ok x"
  by (force simp: list_all_iff dest: map_of_SomeD)

lemma put_path_ok:
  "put_path ps v d = Inr d' \<Longrightarrow> json_ok (Js_dict d) \<Longrightarrow> json_ok v \<Longrightarrow>
   json_ok (Js_dict d') \<and> (ps \<noteq> [] \<longrightarrow> js_path ps d' = Some v)"
proof (induction ps v d arbitrary: d' rule: put_path.induct)
  case (1 v d)
  then show ?case by simp
next
  case (2 p v d)
  then show ?case using json_ok_put by auto
next
  case (3 p q ps v d)
  have *: "json_ok (Js_dict d') \<and> js_path (p # q # ps) d' = Some v"
    if s: "json_ok (Js_dict s')" "js_path (q # ps) s' = Some v" and d': "d' = dict_put p (Js_dict s') d" for s'
    using json_ok_put [OF 3(4) s(1)] s(2) by (simp add: d')
  show ?case
  proof (cases "map_of d p")
    case None
    then obtain s' where "put_path (q # ps) v [] = Inr s'" and "d' = dict_put p (Js_dict s') d"
      using 3(3) by (auto elim: and_then_InrE)
    with 3(1) [OF None] 3(5) * show ?thesis by simp
  next
    case (Some x)
    then obtain s s' where "x = Js_dict s" and "put_path (q # ps) v s = Inr s'" and "d' = dict_put p (Js_dict s') d"
      using 3(3) by (cases x) (auto elim: and_then_InrE)
    with 3(2) [OF Some] 3(5) json_ok_sub [OF 3(4) Some] * show ?thesis by simp
  qed
qed

lemma split_dunder_not_Nil [simp]: "split_dunder s \<noteq> []"
  by (induction s rule: split_dunder.induct) (auto split: list.splits)

lemma coerce_leaf: "json_ok (coerce_env_value raw)" "coerce_env_value raw \<noteq> Js_dict d"
  by (auto simp: coerce_env_value_def py_float_def Let_def split_def split: option.splits if_splits)

lemma env_overrides_ok:
  "env_overrides_from env d = Inr d' \<Longrightarrow> json_ok (Js_dict d) \<Longrightarrow> json_ok (Js_dict d')"
proof (induction env d rule: env_overrides_from.induct)
  case (1 d)
  then show ?case by simp
next
  case (2 k raw env d)
  show ?case
  proof (cases "starts_with ENV_PREFIX k")
    case True
    then obtain d1 where "put_path (split_dunder (py_lower (drop (length ENV_PREFIX) k))) (coerce_env_value raw) d = Inr d1"
      and "env_overrides_from env d1 = Inr d'"
      using 2(3) by (auto elim: and_then_InrE)
    with 2(2) [OF _ ] True put_path_ok 2(4) coerce_leaf(1) show ?thesis by blast
  next
    case False
    with 2 show ?thesis by simp
  qed
qed

lemma env_overrides_snoc:
  "env_overrides_from (env @ [x]) d = and_then (env_overrides_from env d) (env_overrides_from [x])"
proof (induction env d rule: env_overrides_from.induct)
  case (1 d)
  then show ?case by simp
next
  case (2 k raw env d)
  then show ?case
    by (cases "put_path (split_dunder (py_lower (drop (length ENV_PREFIX) k))) (coerce_env_value raw) d") auto
qed

text \<open>The environment wins over the file. A variable \<open>COSTORAH_AGENT_A__B\<close> decides the setting \<open>a.b\<close> of
  the merged configuration, with its text read as a boolean, a number or a string, whatever the file and the
  earlier variables say; a setting that no variable touches keeps the value of the file.\<close>

theorem environment_overrides_file:
  assumes "load_config_data (Some (Js_dict file)) (env @ [(ENV_PREFIX @ name, raw)]) = Inr merged"
  shows "js_path (split_dunder (py_lower name)) merged = Some (coerce_env_value raw)
    \<and> (\<exists>overrides. env_overrides (env @ [(ENV_PREFIX @ name, raw)]) = Inr overrides
         \<and> (\<forall>q. untouched q overrides \<longrightarrow> js_path q merged = js_path q file))"
proof -
  from assms obtain o1 where o1: "env_overrides (env @ [(ENV_PREFIX @ name, raw)]) = Inr o1"
    and m: "merged = deep_merge file o1"
    by (auto simp: load_config_data_def elim!: and_then_InrE split: if_split_asm)
  then obtain o0 where "env_overrides_from env [] = Inr o0"
    and p: "put_path (split_dunder (py_lower name)) (coerce_env_value raw) o0 = Inr o1"
    by (auto simp: env_overrides_def env_overrides_snoc elim!: and_then_InrE)
  then have "json_ok (Js_dict o0)" by (auto dest: env_overrides_ok)
  with put_path_ok [OF p] have ok: "json_ok (Js_dict o1)"
    and v: "js_path (split_dunder (py_lower name)) o1 = Some (coerce_env_value raw)"
    by (auto simp: coerce_leaf)
  show ?thesis
    using o1 deep_merge_leaf [OF ok v] deep_merge_untouched [OF ok] coerce_leaf(2) by (auto simp: m)
qed

theorem environment_overrides_file_witness:
  "\<exists>merged. load_config_data (Some (Js_dict [(''server'', Js_dict [(''endpoint'', Js_str ''http://old''),
        (''verify_tls'', Js_bool True)])])) ([] @ [(ENV_PREFIX @ ''SERVER__ENDPOINT'', ''http://new'')]) = Inr merged
     \<and> js_path (split_dunder (py_lower ''SERVER__ENDPOINT'')) merged = Some (Js_str ''http://new'')"
proof -
  let ?f = "[(''server'', Js_dict [(''endpoint'', Js_str ''http://old''), (''verify_tls'', Js_bool True)])]"
  have c: "coerce_env_value ''http://new'' = Js_str ''http://new''" by code_simp
  have "is_ok (load_config_data (Some (Js_dict ?f)) ([] @ [(ENV_PREFIX @ ''SERVER__ENDPOINT'', ''http://new'')]))"
    by code_simp
  then obtain merged where
    m: "load_config_data (Some (Js_dict ?f)) ([] @ [(ENV_PREFIX @ ''SERVER__ENDPOINT'', ''http://new'')]) = Inr merged"
    by (auto simp: is_ok_iff)
  from environment_overrides_file [OF m] m c show ?thesis by (intro exI [of _ merged]) simp
qed

lemma validated_parts:
  assumes "validate_agent_config c = Inr c'"
  shows "cf_backoff_seconds c' = cf_backoff_seconds c \<and> cf_max_attempts c' = cf_max_attempts c
    \<and> cf_batch_size c' = cf_batch_size c \<and> cf_max_memory_events c' = cf_max_memory_events c
    \<and> cf_interval_seconds c' = cf_interval_seconds c \<and> cf_api_key c' = cf_api_key c \<and> cf_providers c' = cf_providers c
    \<and> cf_backoff_seconds c \<noteq> [] \<and> (\<forall>d \<in> set (cf_backoff_seconds c). 0 < d)
    \<and> 0 < cf_batch_size c \<and> cf_batch_size c \<le> 1000 \<and> 0 < cf_max_memory_events c \<and> 0 < cf_interval_seconds c
    \<and> (cf_api_key c = [] \<or> starts_with ''costorah_live_'' (cf_api_key c))
    \<and> list_all (\<lambda>p. fst p \<in> set ALL_PROVIDERS) (cf_providers c)"
  using assms unfolding validate_agent_config_def
  by (auto elim!: and_then_InrE simp: validate_backoff_def validate_key_shape_def validate_providers_def
      list_ex_iff not_le split: if_split_asm)

text \<open>C16: a configuration that validates runs. With a key in it the agent is built, the retry policy never
  raises and every delay is positive, a pass takes between one and a thousand events, the memory queue is
  bounded, and every collector asked for is a known provider. Without a key the agent is refused.\<close>

theorem valid_config_runs:
  assumes "validate_agent_config c = Inr c'"
  shows "(if cf_api_key c = [] then agent_new c' rows = Inl Authentication_error
     else \<exists>g. agent_new c' rows = Inr g \<and> ag_rows g = rows \<and> eq_items (ag_queue g) = []
       \<and> 1 \<le> ag_batch_size g \<and> ag_batch_size g \<le> 1000 \<and> 0 < eq_max_size (ag_queue g)
       \<and> (\<forall>n \<ge> 1. \<exists>d. delay_for_attempt (ag_policy g) (int n) = Inr d \<and> 0 < d))
    \<and> set (enabled_providers c') \<subseteq> set ALL_PROVIDERS"
proof -
  note v = validated_parts [OF assms]
  have "set (enabled_providers c') \<subseteq> set ALL_PROVIDERS" using v by (auto simp: enabled_providers_def list_all_iff)
  moreover have "\<exists>g. agent_new c' rows = Inr g \<and> ag_rows g = rows \<and> eq_items (ag_queue g) = []
       \<and> 1 \<le> ag_batch_size g \<and> ag_batch_size g \<le> 1000 \<and> 0 < eq_max_size (ag_queue g)
       \<and> (\<forall>n \<ge> 1. \<exists>d. delay_for_attempt (ag_policy g) (int n) = Inr d \<and> 0 < d)" if k: "cf_api_key c \<noteq> []"
  proof -
    let ?p = "\<lparr>rt_backoff_seconds = cf_backoff_seconds c, rt_max_attempts = cf_max_attempts c\<rparr>"
    have "retry_policy_init (cf_backoff_seconds c') (cf_max_attempts c') = Inr ?p"
      using v by (force simp: retry_policy_init_def list_ex_iff)
    moreover have "\<exists>d. delay_for_attempt ?p (int n) = Inr d \<and> 0 < d" if "1 \<le> n" for n
    proof -
      have "min (n - 1) (length (cf_backoff_seconds c) - 1) < length (cf_backoff_seconds c)"
        using v by (cases "cf_backoff_seconds c") auto
      with v that show ?thesis by (simp add: delay_nth)
    qed
    moreover have "1 \<le> nat (cf_batch_size c) \<and> nat (cf_batch_size c) \<le> 1000" using v by linarith
    ultimately show ?thesis using v k by (simp add: agent_new_def resolve_api_key_def eq_init_def)
  qed
  ultimately show ?thesis using v by (simp add: agent_new_def resolve_api_key_def)
qed

theorem valid_config_runs_witness:
  "validate_agent_config (default_agent_config\<lparr>cf_api_key := ''costorah_live_x''\<rparr>)
     = Inr (default_agent_config\<lparr>cf_api_key := ''costorah_live_x''\<rparr>)
   \<and> (\<exists>g. agent_new (default_agent_config\<lparr>cf_api_key := ''costorah_live_x''\<rparr>) [] = Inr g \<and> ag_batch_size g \<le> 1000)"
proof -
  have v: "validate_agent_config (default_agent_config\<lparr>cf_api_key := ''costorah_live_x''\<rparr>)
     = Inr (default_agent_config\<lparr>cf_api_key := ''costorah_live_x''\<rparr>)"
    by code_simp
  from valid_config_runs [OF v, of "[]"] v show ?thesis by auto
qed

section \<open>Key store\<close>

text \<open>\<open>config set-key\<close> does what it says on disk and nothing for the agent. Whatever the two files held,
  the key it stores is the one that \<open>load\<close> gives back, and the agent of a configuration without a key is
  still refused: nothing reads the key store, although the error message names the command as a remedy.\<close>

theorem set_key_unused:
  assumes "\<And>k t. decrypt k (encrypt k t) = Some t"
    and "config_set_key encrypt fresh key f = Inr f'" and "cf_api_key c = []"
  shows "ks_load decrypt f' = Inr (Some key) \<and> agent_new c rows = Inl Authentication_error"
  using assms
  by (auto simp: config_set_key_def ks_store_def ks_load_def load_or_create_fernet_key_def agent_new_def
      resolve_api_key_def split: if_split_asm option.splits)

theorem set_key_unused_witness:
  "\<exists>f'. config_set_key (\<lambda>k t. k @ t) ''K'' ''costorah_live_x'' \<lparr>kf_key = None, kf_secret = None\<rparr> = Inr f'
     \<and> ks_load (\<lambda>k t. Some (drop (length k) t)) f' = Inr (Some ''costorah_live_x'')
     \<and> agent_new default_agent_config [] = Inl Authentication_error"
proof -
  let ?f = "\<lparr>kf_key = Some ''K'', kf_secret = Some ''Kcostorah_live_x''\<rparr>"
  have s: "config_set_key (\<lambda>k t. k @ t) ''K'' ''costorah_live_x'' \<lparr>kf_key = None, kf_secret = None\<rparr> = Inr ?f"
    by code_simp
  have e: "cf_api_key default_agent_config = []" by (simp add: default_agent_config_def)
  from set_key_unused [OF _ s e, of "\<lambda>k t. Some (drop (length k) t)" "[]"] s show ?thesis by simp
qed

section \<open>Collectors\<close>

lemma normalize_openai_null:
  "map_of rd ''model'' = Some Js_null \<Longrightarrow> \<exists>f. normalize_openai sha repr bucket (Js_dict rd) = Inl f"
proof (cases "normalize_openai sha repr bucket (Js_dict rd)")
  case (Inr e)
  assume "map_of rd ''model'' = Some Js_null"
  with Inr show ?thesis by (auto simp: normalize_openai_def as_str_def elim!: and_then_InrE)
qed simp

text \<open>One result without a model loses the poll. The usage API leaves the model of a result null unless
  the request groups by model, and the request does not. A poll whose answer contains such a result anywhere
  raises after the start of the next window has been moved to now: none of its events is returned or counted,
  and no later poll asks for them.\<close>

theorem openai_null_model_loses_poll:
  assumes "oa_api_key c \<noteq> None" and "api (oa_last_start_time c) = Api_body (Js_dict d)"
    and "map_of d ''data'' = Some (Js_list buckets)" and "Js_dict bd \<in> set buckets"
    and "map_of bd ''results'' = Some (Js_list results)" and "Js_dict rd \<in> set results"
    and "map_of rd ''model'' = Some Js_null"
  shows "\<exists>f c'. openai_collect sha repr now api c = (Inl (Crash f), c')
    \<and> oa_last_start_time c' = now \<and> oa_collected_total c' = oa_collected_total c \<and> oa_last_error c' = None"
proof -
  obtain f where n: "normalize_openai sha repr (Js_dict bd) (Js_dict rd) = Inl f"
    using normalize_openai_null [OF assms(7)] by blast
  from map_results_Inl [where f = "normalize_openai sha repr (Js_dict bd)", OF assms(6) n]
  obtain f' where "map_results (normalize_openai sha repr (Js_dict bd)) results = Inl f'" by blast
  then have "and_then (and_then (js_get (Js_dict bd) ''results'' (Js_list [])) js_iter)
      (map_results (normalize_openai sha repr (Js_dict bd))) = Inl f'"
    by (simp add: assms(5))
  from map_results_Inl [where f = "\<lambda>bucket. and_then (and_then (js_get bucket ''results'' (Js_list [])) js_iter)
      (map_results (normalize_openai sha repr bucket))", OF assms(4) this] obtain f''
    where "bucket_events (normalize_openai sha repr) (Js_dict d) = Inl f''"
    by (auto simp: bucket_events_def assms(3))
  then show ?thesis using assms(1,2) by (simp add: openai_collect_def Let_def)
qed

theorem openai_null_model_loses_poll_witness:
  "\<exists>f c'. openai_collect (\<lambda>s. s) (\<lambda>x. []) 1000
       (\<lambda>t. Api_body (Js_dict [(''data'', Js_list [Js_dict [(''results'', Js_list [Js_dict [(''model'', Js_null)]])]])]))
       (openai_init (Some ''k'') None 900) = (Inl (Crash f), c')
     \<and> oa_last_start_time c' = 1000 \<and> oa_collected_total c' = oa_collected_total (openai_init (Some ''k'') None 900)
     \<and> oa_last_error c' = None"
proof -
  let ?bd = "[(''results'', Js_list [Js_dict [(''model'', Js_null)]])]"
  let ?d = "[(''data'', Js_list [Js_dict ?bd])]"
  show ?thesis
  proof (rule openai_null_model_loses_poll [where d = ?d and bd = ?bd and rd = "[(''model'', Js_null)]"
        and buckets = "[Js_dict ?bd]" and results = "[Js_dict [(''model'', Js_null)]]"])
    show "oa_api_key (openai_init (Some ''k'') None 900) \<noteq> None"
      by (simp add: openai_init_def env_or_config_def)
  qed simp_all
qed

text \<open>A bucket that is still filling: whatever the counts, its event has the same identifier on every poll.\<close>

lemma growing_bucket_same_id:
  assumes "normalize_openai sha repr bucket (Js_dict r) = Inr e" and "normalize_openai sha repr bucket (Js_dict r') = Inr e'"
    and "map_of r ''model'' = map_of r' ''model''"
  shows "nv_request_id e = nv_request_id e'"
  using assms by (auto simp: normalize_openai_def as_str_def elim!: and_then_InrE split: json.split_asm)

text \<open>The spend reported between two polls of a growing account total adds up to the growth.\<close>

fun openrouter_polls :: "rat list \<Rightarrow> openrouter_collector \<Rightarrow> rat list" where
  "openrouter_polls [] c = []"
| "openrouter_polls (t # ts) c =
     (case openrouter_delta t c of (None, c1) \<Rightarrow> openrouter_polls ts c1 | (Some d, c1) \<Rightarrow> d # openrouter_polls ts c1)"

lemma openrouter_telescopes:
  "sorted (t # ts) \<Longrightarrow> or_last_usage c = Some t \<Longrightarrow> sum_list (openrouter_polls ts c) = last (t # ts) - t"
proof (induction ts arbitrary: t c)
  case Nil
  then show ?case by simp
next
  case (Cons u ts)
  have "sum_list (openrouter_polls ts (c\<lparr>or_last_usage := Some u\<rparr>)) = last (u # ts) - u"
    using Cons.prems by (intro Cons.IH) auto
  with Cons.prems show ?case by (auto simp: openrouter_delta_def Let_def)
qed

end
