(* ===== verification/Provider_Http.thy ===== *)
theory Provider_Http
  imports Json Interfaces
begin

text \<open>
  The HTTP layer of the provider adapters: \<open>backend/app/providers/errors.py\<close> and \<open>retry.py\<close>, \<open>http/retry.py\<close>,
  \<open>http/auth.py\<close> and \<open>http/client.py\<close>. A request is repeated while the policy allows; the network is a function from
  the number of the attempt to what came back, and the delays slept are collected in order. \<open>rnd\<close> is
  \<open>random.random()\<close> at an attempt, \<open>repr\<close> the text of a float or a container. Telemetry and logs are left out; the
  redaction of logged headers is modelled.
\<close>

section \<open>Errors\<close>

datatype provider_error_kind =
    PE_provider | PE_rate_limit "json option" | PE_authentication | PE_network | PE_quota | PE_invalid_request
  | PE_internal | PE_configuration

record provider_error =
  pe_kind :: provider_error_kind
  pe_message :: string

definition pe_retryable :: "provider_error \<Rightarrow> bool" where
  "pe_retryable e =
     (case pe_kind e of PE_rate_limit _ \<Rightarrow> True | PE_network \<Rightarrow> True | PE_internal \<Rightarrow> True | _ \<Rightarrow> False)"

section \<open>Retry policy\<close>

datatype backoff_strategy = FIXED | LINEAR | EXPONENTIAL | JITTER

record retry_config =
  rc_max_attempts :: int
  rc_initial_delay :: secs
  rc_max_delay :: secs
  rc_strategy :: backoff_strategy
  rc_multiplier :: rat

definition default_retry_config :: retry_config where
  "default_retry_config =
     \<lparr>rc_max_attempts = 3, rc_initial_delay = 1, rc_max_delay = 60, rc_strategy = EXPONENTIAL, rc_multiplier = 2\<rparr>"

definition http_should_retry :: "retry_config \<Rightarrow> nat \<Rightarrow> provider_error \<Rightarrow> bool" where
  "http_should_retry cfg attempt e = (if rc_max_attempts cfg \<le> int attempt then False else pe_retryable e)"

definition get_delay :: "retry_config \<Rightarrow> (nat \<Rightarrow> rat) \<Rightarrow> nat \<Rightarrow> secs" where
  "get_delay cfg rnd attempt =
     (let delay = (case rc_strategy cfg of
          FIXED \<Rightarrow> rc_initial_delay cfg
        | LINEAR \<Rightarrow> rc_initial_delay cfg * of_nat attempt
        | JITTER \<Rightarrow> (rc_initial_delay cfg * rc_multiplier cfg ^ (attempt - 1)) * (1/2 + rnd attempt * (1/2))
        | EXPONENTIAL \<Rightarrow> rc_initial_delay cfg * rc_multiplier cfg ^ (attempt - 1))
      in min delay (rc_max_delay cfg))"

section \<open>Headers\<close>

type_synonym headers = "(string \<times> string) list"

datatype http_auth = NullAuth | BearerTokenAuth string | ApiKeyHeaderAuth string string | CompositeAuth "http_auth list"

definition dict_update :: "headers \<Rightarrow> headers \<Rightarrow> headers" where
  "dict_update d new = fold (\<lambda>(k, v). dict_put k v) new d"

fun auth_headers :: "http_auth \<Rightarrow> headers" where
  "auth_headers NullAuth = []"
| "auth_headers (BearerTokenAuth t) = [(''Authorization'', ''Bearer '' @ t)]"
| "auth_headers (ApiKeyHeaderAuth n k) = [(n, k)]"
| "auth_headers (CompositeAuth as) = fold (\<lambda>h d. dict_update d h) (map auth_headers as) []"

definition request_headers :: "http_auth \<Rightarrow> string \<Rightarrow> headers \<Rightarrow> headers" where
  "request_headers auth request_id extra =
     dict_update (dict_put ''User-Agent'' ''aifinops/0.1.0 (provider-integration)''
       (dict_put ''X-Request-ID'' request_id (auth_headers auth))) extra"

definition SENSITIVE_HEADERS :: "string list" where
  "SENSITIVE_HEADERS = [''authorization'', ''api-key'', ''x-api-key'', ''x-goog-api-key'', ''set-cookie'', ''cookie'']"

definition redacted_headers :: "headers \<Rightarrow> headers" where
  "redacted_headers hs = map (\<lambda>(k, v). (k, if py_lower k \<in> set SENSITIVE_HEADERS then ''<redacted>'' else v)) hs"

section \<open>Responses\<close>

record http_response =
  hr_status :: int
  hr_text :: string
  hr_json :: "json option"
  hr_retry_after :: "string option"
  hr_url :: string

definition parse_retry_after :: "http_response \<Rightarrow> json option" where
  "parse_retry_after r = (case hr_retry_after r of None \<Rightarrow> None | Some s \<Rightarrow> py_float s)"

definition parse_error_body :: "http_response \<Rightarrow> (string \<times> json) list option \<times> string" where
  "parse_error_body r =
     (case hr_json r of Some (Js_dict d) \<Rightarrow> Some d | _ \<Rightarrow> None, take 4000 (hr_text r))"

definition js_or :: "json option \<Rightarrow> json option \<Rightarrow> json option" where
  "js_or a b = (case a of Some x \<Rightarrow> if js_truthy x then Some x else b | None \<Rightarrow> b)"

definition not_none :: "(json \<Rightarrow> string) \<Rightarrow> json option \<Rightarrow> string option" where
  "not_none repr x = (case x of None \<Rightarrow> None | Some Js_null \<Rightarrow> None | Some v \<Rightarrow> Some (js_str repr v))"

definition extract_error_detail ::
  "(json \<Rightarrow> string) \<Rightarrow> (string \<times> json) list option \<Rightarrow> string option \<times> string option \<times> string option" where
  "extract_error_detail repr body =
     (case body of
        None \<Rightarrow> (None, None, None)
      | Some d \<Rightarrow>
          (case map_of d ''error'' of
             Some (Js_dict err) \<Rightarrow>
               (not_none repr (map_of err ''message''), not_none repr (map_of err ''code''),
                not_none repr (js_or (map_of err ''status'') (map_of err ''type'')))
           | _ \<Rightarrow> (None, None, None)))"

definition or_text :: "string option \<Rightarrow> string option \<Rightarrow> string option" where
  "or_text a b = (case a of Some (c # cs) \<Rightarrow> Some (c # cs) | _ \<Rightarrow> b)"

definition with_detail :: "string \<Rightarrow> string option \<Rightarrow> string" where
  "with_detail text detail = (case detail of Some (c # cs) \<Rightarrow> text @ '': '' @ (c # cs) | _ \<Rightarrow> text)"

definition text_or :: "string option \<Rightarrow> string \<Rightarrow> string" where
  "text_or a b = (case a of Some (c # cs) \<Rightarrow> c # cs | _ \<Rightarrow> b)"

definition with_status :: "string \<Rightarrow> int \<Rightarrow> string option \<Rightarrow> string option \<Rightarrow> string" where
  "with_status text http code status =
     (if or_text status (or_text code None) = None then text
      else text @ '' (status='' @ text_or status ''unknown'' @ '', code='' @ text_or code (show_int http) @ '')'')"

definition map_http_error :: "(json \<Rightarrow> string) \<Rightarrow> http_response \<Rightarrow> provider_error" where
  "map_http_error repr r =
     (let (body, raw) = parse_error_body r;
          (message, code, status) = extract_error_detail repr body;
          detail = or_text message (if blank_str raw then None else Some raw);
          s = hr_status r
      in if s = 400 \<or> s = 409 \<or> s = 422 then
           \<lparr>pe_kind = PE_invalid_request, pe_message = with_status (text_or detail ''Invalid request'') s code status\<rparr>
         else if s = 401 then
           \<lparr>pe_kind = PE_authentication, pe_message = with_detail ''Invalid API key or unauthorized'' detail\<rparr>
         else if s = 403 then
           \<lparr>pe_kind = PE_authentication,
            pe_message = with_detail ''Access forbidden - check API key permissions or org settings'' detail\<rparr>
         else if s = 404 then
           \<lparr>pe_kind = PE_invalid_request, pe_message = text_or detail (''Endpoint not found: '' @ hr_url r)\<rparr>
         else if s = 408 \<or> s = 504 then \<lparr>pe_kind = PE_network, pe_message = ''Request timed out''\<rparr>
         else if s = 429 then
           \<lparr>pe_kind = PE_rate_limit (parse_retry_after r), pe_message = with_detail ''Rate limit exceeded'' detail\<rparr>
         else if s = 500 \<or> s = 502 \<or> s = 503 then
           \<lparr>pe_kind = PE_internal,
            pe_message = with_detail (''Provider server error ('' @ show_int s @ '')'') detail\<rparr>
         else \<lparr>pe_kind = PE_provider, pe_message = with_detail (''Unexpected HTTP '' @ show_int s) detail\<rparr>)"

section \<open>The request loop\<close>

datatype transport_result =
    Tr_timeout | Tr_connect | Tr_protocol string | Tr_other string | Tr_response http_response

definition transport_error :: "transport_result \<Rightarrow> provider_error option" where
  "transport_error t =
     (case t of
        Tr_timeout \<Rightarrow> Some \<lparr>pe_kind = PE_network, pe_message = ''Request timed out''\<rparr>
      | Tr_connect \<Rightarrow> Some \<lparr>pe_kind = PE_network, pe_message = ''Connection failed - DNS or connection refused''\<rparr>
      | Tr_protocol e \<Rightarrow> Some \<lparr>pe_kind = PE_network, pe_message = ''Protocol error from provider: '' @ e\<rparr>
      | Tr_other e \<Rightarrow> Some \<lparr>pe_kind = PE_network, pe_message = ''HTTP transport error: '' @ e\<rparr>
      | Tr_response r \<Rightarrow> None)"

definition is_success :: "http_response \<Rightarrow> bool" where
  "is_success r \<longleftrightarrow> 200 \<le> hr_status r \<and> hr_status r \<le> 299"

text \<open>\<open>min(retry_after, max_delay)\<close>: NaN compares false and is kept.\<close>

definition min_delay :: "json \<Rightarrow> secs \<Rightarrow> json" where
  "min_delay x m =
     (case x of
        Js_float r \<Rightarrow> Js_float (min r m)
      | Js_nonfinite s \<Rightarrow> (if s = ''inf'' then Js_float m else Js_nonfinite s)
      | y \<Rightarrow> y)"

definition retry_delay :: "retry_config \<Rightarrow> (nat \<Rightarrow> rat) \<Rightarrow> nat \<Rightarrow> provider_error \<Rightarrow> json" where
  "retry_delay cfg rnd attempt e =
     (case pe_kind e of
        PE_rate_limit (Some x) \<Rightarrow> min_delay x (rc_max_delay cfg)
      | _ \<Rightarrow> Js_float (get_delay cfg rnd attempt))"

text \<open>What one attempt comes to: a value, an error that is raised without asking the policy, or an error the
  policy decides.\<close>

datatype attempt_end = Att_ok json | Att_raise provider_error | Att_error provider_error

definition attempt_result :: "(json \<Rightarrow> string) \<Rightarrow> transport_result \<Rightarrow> attempt_end" where
  "attempt_result repr t =
     (case transport_error t of
        Some e \<Rightarrow> Att_error e
      | None \<Rightarrow>
          (case t of
             Tr_response r \<Rightarrow>
               if \<not> is_success r then Att_error (map_http_error repr r)
               else (case hr_json r of
                       Some j \<Rightarrow> Att_ok j
                     | None \<Rightarrow> Att_raise \<lparr>pe_kind = PE_internal, pe_message = ''Provider response is not valid JSON''\<rparr>)
           | _ \<Rightarrow> Att_raise \<lparr>pe_kind = PE_internal, pe_message = []\<rparr>))"

function request_from ::
  "(json \<Rightarrow> string) \<Rightarrow> retry_config \<Rightarrow> (nat \<Rightarrow> rat) \<Rightarrow> (nat \<Rightarrow> transport_result) \<Rightarrow> nat \<Rightarrow> json list
   \<Rightarrow> (provider_error + json) \<times> json list" where
  "request_from repr cfg rnd net attempt slept =
     (case attempt_result repr (net attempt) of
        Att_ok j \<Rightarrow> (Inr j, slept)
      | Att_raise e \<Rightarrow> (Inl e, slept)
      | Att_error e \<Rightarrow>
          if http_should_retry cfg attempt e
          then request_from repr cfg rnd net (attempt + 1) (slept @ [retry_delay cfg rnd attempt e])
          else (Inl e, slept))"
  by pat_completeness auto

termination
  by (relation "measure (\<lambda>(repr, cfg, rnd, net, attempt, slept). nat (rc_max_attempts cfg - int attempt))")
    (auto simp: http_should_retry_def split: if_splits)

declare request_from.simps [simp del]

definition client_request ::
  "(json \<Rightarrow> string) \<Rightarrow> retry_config \<Rightarrow> (nat \<Rightarrow> rat) \<Rightarrow> (nat \<Rightarrow> transport_result)
   \<Rightarrow> (provider_error + json) \<times> json list" where
  "client_request repr cfg rnd net = request_from repr cfg rnd net 1 []"

section \<open>Delays\<close>

lemma exponential_delay_mono:
  assumes "rc_strategy cfg = EXPONENTIAL" and "0 \<le> rc_initial_delay cfg" and "1 \<le> rc_multiplier cfg"
    and "1 \<le> m" and "m \<le> n"
  shows "get_delay cfg rnd m \<le> get_delay cfg rnd n"
proof -
  have "rc_multiplier cfg ^ (m - 1) \<le> rc_multiplier cfg ^ (n - 1)"
    using assms(3,4,5) by (intro power_increasing) auto
  then have "rc_initial_delay cfg * rc_multiplier cfg ^ (m - 1) \<le> rc_initial_delay cfg * rc_multiplier cfg ^ (n - 1)"
    using assms(2) by (intro mult_left_mono) auto
  then show ?thesis using assms(1) by (simp add: get_delay_def min.coboundedI1)
qed

interpretation http_retry: backoff_schedule "get_delay default_retry_config rnd" 7 60
proof
  fix n :: nat
  assume "1 \<le> n"
  show "0 < get_delay default_retry_config rnd n" by (simp add: get_delay_def default_retry_config_def)
next
  fix m n :: nat
  assume "1 \<le> m" and "m \<le> n"
  then show "get_delay default_retry_config rnd m \<le> get_delay default_retry_config rnd n"
    by (intro exponential_delay_mono) (auto simp: default_retry_config_def)
next
  fix n :: nat
  assume n: "7 \<le> n"
  then have "(2 :: rat) ^ 6 \<le> 2 ^ (n - 1)" by (intro power_increasing) auto
  then show "get_delay default_retry_config rnd n = 60"
    by (simp add: get_delay_def default_retry_config_def)
qed

text \<open>A delay is a number of seconds that is at most the configured one, or what a non-finite header left.\<close>

definition delay_bounded :: "secs \<Rightarrow> json \<Rightarrow> bool" where
  "delay_bounded m d = (case d of Js_float r \<Rightarrow> r \<le> m | Js_nonfinite s \<Rightarrow> s \<noteq> ''inf'' | _ \<Rightarrow> False)"

definition kind_ok :: "provider_error \<Rightarrow> bool" where
  "kind_ok e = (case pe_kind e of PE_rate_limit (Some x) \<Rightarrow> (case x of Js_float _ \<Rightarrow> True | Js_nonfinite _ \<Rightarrow> True | _ \<Rightarrow> False) | _ \<Rightarrow> True)"

lemma py_float_number: "py_float s = Some x \<Longrightarrow> (\<exists>r. x = Js_float r) \<or> (\<exists>t. x = Js_nonfinite t)"
  by (auto simp: py_float_def Let_def split_def split: if_split_asm option.split_asm)

lemma map_http_error_kind: "kind_ok (map_http_error repr r)"
  by (auto simp: map_http_error_def kind_ok_def Let_def split_def parse_retry_after_def
      split: option.splits json.splits dest: py_float_number)

lemma attempt_error_kind: "attempt_result repr t = Att_error e \<Longrightarrow> kind_ok e"
  using map_http_error_kind [of repr]
  by (auto simp: attempt_result_def transport_error_def kind_ok_def split: transport_result.split_asm if_split_asm option.split_asm)

lemma retry_delay_bounded: "kind_ok e \<Longrightarrow> delay_bounded (rc_max_delay cfg) (retry_delay cfg rnd n e)"
  by (auto simp: retry_delay_def min_delay_def delay_bounded_def get_delay_def kind_ok_def Let_def
      split: provider_error_kind.splits option.splits json.splits)

section \<open>Requests\<close>

lemma request_from_run:
  "request_from repr cfg rnd net a slept = (res, slept') \<Longrightarrow>
   \<exists>n. a \<le> n \<and> (a = n \<or> int n \<le> rc_max_attempts cfg)
     \<and> length slept' = length slept + (n - a) \<and> take (length slept) slept' = slept
     \<and> (\<forall>k. a \<le> k \<and> k < n \<longrightarrow> (\<exists>e. attempt_result repr (net k) = Att_error e \<and> pe_retryable e
           \<and> slept' ! (length slept + (k - a)) = retry_delay cfg rnd k e))
     \<and> (case attempt_result repr (net n) of
          Att_ok j \<Rightarrow> res = Inr j
        | Att_raise e \<Rightarrow> res = Inl e
        | Att_error e \<Rightarrow> res = Inl e \<and> (rc_max_attempts cfg \<le> int n \<or> \<not> pe_retryable e))"
proof (induction repr cfg rnd net a slept rule: request_from.induct)
  case (1 repr cfg rnd net a slept)
  show ?case
  proof (cases "\<exists>e. attempt_result repr (net a) = Att_error e \<and> http_should_retry cfg a e")
    case False
    then show ?thesis using 1(2)
      by (intro exI [of _ a])
        (auto simp: request_from.simps [of repr cfg rnd net a] http_should_retry_def split: attempt_end.split_asm if_split_asm)
  next
    case True
    then obtain e where e: "attempt_result repr (net a) = Att_error e" and r: "http_should_retry cfg a e" by blast
    let ?s = "slept @ [retry_delay cfg rnd a e]"
    have "request_from repr cfg rnd net (a + 1) ?s = (res, slept')"
      using 1(2) e r by (simp add: request_from.simps [of repr cfg rnd net a])
    from 1(1) [OF e r this] obtain n where n: "a + 1 \<le> n" "a + 1 = n \<or> int n \<le> rc_max_attempts cfg"
        "length slept' = length ?s + (n - (a + 1))" "take (length ?s) slept' = ?s"
        "\<forall>k. a + 1 \<le> k \<and> k < n \<longrightarrow> (\<exists>e. attempt_result repr (net k) = Att_error e \<and> pe_retryable e
           \<and> slept' ! (length ?s + (k - (a + 1))) = retry_delay cfg rnd k e)"
        "case attempt_result repr (net n) of Att_ok j \<Rightarrow> res = Inr j | Att_raise e \<Rightarrow> res = Inl e
         | Att_error e \<Rightarrow> res = Inl e \<and> (rc_max_attempts cfg \<le> int n \<or> \<not> pe_retryable e)"
      by blast
    have lim: "int a < rc_max_attempts cfg" "pe_retryable e" using r by (auto simp: http_should_retry_def split: if_splits)
    have tk: "take (length slept) slept' = slept"
      using arg_cong [OF n(4), of "take (length slept)"] by simp
    have at: "slept' ! length slept = retry_delay cfg rnd a e"
      using arg_cong [OF n(4), of "\<lambda>xs. xs ! length slept"] n(3) by (simp add: nth_append)
    have "\<exists>e. attempt_result repr (net k) = Att_error e \<and> pe_retryable e
        \<and> slept' ! (length slept + (k - a)) = retry_delay cfg rnd k e" if "a \<le> k" "k < n" for k
    proof (cases "k = a")
      case True
      then show ?thesis using e lim at by simp
    next
      case False
      with that have "a + 1 \<le> k" and "length ?s + (k - (a + 1)) = length slept + (k - a)" by auto
      with n(5) that show ?thesis by metis
    qed
    with n lim tk show ?thesis by (intro exI [of _ n]) auto
  qed
qed

text \<open>C15: a request to a provider ends after at most the configured number of attempts. Every attempt but the
  last failed with an error that may be retried and was followed by the delay of the policy, or by the one the
  server asked for, never longer than the maximum; the answer is that of the last attempt, and an error is
  reported at once when it may not be retried.\<close>

theorem request_attempts:
  assumes "client_request repr cfg rnd net = (res, slept)"
  shows "\<exists>n \<ge> 1. int n \<le> max 1 (rc_max_attempts cfg) \<and> length slept = n - 1
     \<and> (\<forall>k. 1 \<le> k \<and> k < n \<longrightarrow> (\<exists>e. attempt_result repr (net k) = Att_error e \<and> pe_retryable e
           \<and> slept ! (k - 1) = retry_delay cfg rnd k e \<and> delay_bounded (rc_max_delay cfg) (slept ! (k - 1))))
     \<and> (case attempt_result repr (net n) of
          Att_ok j \<Rightarrow> res = Inr j
        | Att_raise e \<Rightarrow> res = Inl e
        | Att_error e \<Rightarrow> res = Inl e \<and> (rc_max_attempts cfg \<le> int n \<or> \<not> pe_retryable e))"
proof -
  from request_from_run [OF assms [unfolded client_request_def]] obtain n where n: "1 \<le> n"
      "1 = n \<or> int n \<le> rc_max_attempts cfg" "length slept = n - 1"
      "\<forall>k. 1 \<le> k \<and> k < n \<longrightarrow> (\<exists>e. attempt_result repr (net k) = Att_error e \<and> pe_retryable e
           \<and> slept ! (k - 1) = retry_delay cfg rnd k e)"
      "case attempt_result repr (net n) of Att_ok j \<Rightarrow> res = Inr j | Att_raise e \<Rightarrow> res = Inl e
         | Att_error e \<Rightarrow> res = Inl e \<and> (rc_max_attempts cfg \<le> int n \<or> \<not> pe_retryable e)"
    by auto
  have "\<exists>e. attempt_result repr (net k) = Att_error e \<and> pe_retryable e
      \<and> slept ! (k - 1) = retry_delay cfg rnd k e \<and> delay_bounded (rc_max_delay cfg) (slept ! (k - 1))"
    if k: "1 \<le> k" "k < n" for k
  proof -
    obtain e where e: "attempt_result repr (net k) = Att_error e" "pe_retryable e" "slept ! (k - 1) = retry_delay cfg rnd k e"
      using n(4) k by blast
    with retry_delay_bounded [OF attempt_error_kind [OF e(1)], of cfg rnd k] show ?thesis by auto
  qed
  with n show ?thesis by (intro exI [of _ n]) auto
qed

theorem request_attempts_witness:
  "\<exists>n \<ge> 1. int n \<le> 3 \<and> fst (client_request (\<lambda>x. []) default_retry_config (\<lambda>n. 0)
       (\<lambda>n. if n < 3 then Tr_timeout else Tr_response \<lparr>hr_status = 200, hr_text = [], hr_json = Some (Js_int 7),
          hr_retry_after = None, hr_url = []\<rparr>)) = Inr (Js_int 7) \<and> n = 3"
proof -
  let ?net = "\<lambda>n. if n < (3 :: nat) then Tr_timeout else Tr_response \<lparr>hr_status = 200, hr_text = [], hr_json = Some (Js_int 7),
          hr_retry_after = None, hr_url = []\<rparr>"
  let ?c = "client_request (\<lambda>x. []) default_retry_config (\<lambda>n. 0) ?net"
  have r: "?c = (Inr (Js_int 7), [Js_float 1, Js_float 2])"
    by (simp add: client_request_def request_from.simps attempt_result_def transport_error_def is_success_def
        http_should_retry_def pe_retryable_def retry_delay_def get_delay_def default_retry_config_def)
  from request_attempts [OF r] obtain n where "1 \<le> n" "int n \<le> max 1 (rc_max_attempts default_retry_config)"
      "length [Js_float 1, Js_float 2] = n - 1"
    by blast
  with r show ?thesis by (intro exI [of _ n]) (auto simp: default_retry_config_def)
qed

lemma redacted_values:
  "(k, v) \<in> set (redacted_headers hs) \<Longrightarrow> py_lower k \<in> set SENSITIVE_HEADERS \<Longrightarrow> v = ''<redacted>''"
  by (auto simp: redacted_headers_def split: if_split_asm)

end
