(* ===== verification/Provider_Usage.thy ===== *)
theory Provider_Usage
  imports Provider_Http Connections
begin

text \<open>
  From a provider's answer to usage events: the normalizers (\<open>backend/app/usage/normalizer.py\<close>), the credential
  checks (\<open>providers/credential.py\<close>) and \<open>get_usage\<close> of the OpenAI, Anthropic and OpenRouter adapters
  (\<open>providers/adapters/\<close>), which are the adapters the collection runs on. \<open>client\<close> is the request through
  \<open>ProviderHttpClient\<close> as a function of its query parameters. Parameters: \<open>sha\<close> the SHA-1 digest, \<open>parse_iso\<close>
  and \<open>isoformat\<close> the text of instants, \<open>repr\<close> the text of a float or a container. The metadata and the raw
  payload of an event are left out.
\<close>

section \<open>Normalizers\<close>

definition dedup_hash :: "(string \<Rightarrow> string) \<Rightarrow> string list \<Rightarrow> string" where
  "dedup_hash sha parts = sha (concat (map (\<lambda>p. p @ '':'') (butlast parts)) @ last parts)"

text \<open>\<open>raw.get(a) or raw.get(b) or default\<close>.\<close>

fun first_truthy :: "json \<Rightarrow> string list \<Rightarrow> json \<Rightarrow> py_fault + json" where
  "first_truthy raw [] dflt = Inr dflt"
| "first_truthy raw (k # ks) dflt =
     and_then (js_get raw k Js_null) (\<lambda>v. if js_truthy v then Inr v else first_truthy raw ks dflt)"

definition js_get_int :: "json \<Rightarrow> string \<Rightarrow> json \<Rightarrow> py_fault + int" where
  "js_get_int raw k dflt = and_then (js_get raw k dflt) js_to_int"

definition optional_int :: "json \<Rightarrow> string \<Rightarrow> py_fault + int option" where
  "optional_int raw k =
     and_then (js_get raw k Js_null) (\<lambda>v. if v = Js_null then Inr None else map_sum id Some (js_to_int v))"

text \<open>The identifier of an event must be a string; \<open>Value_error\<close> is the validation error of the model.\<close>

definition string_field :: "json \<Rightarrow> py_fault + string" where
  "string_field x = (case x of Js_str s \<Rightarrow> Inr s | _ \<Rightarrow> Inl Value_error)"

definition openai_normalize ::
  "(string \<Rightarrow> string) \<Rightarrow> (json \<Rightarrow> string) \<Rightarrow> micros \<Rightarrow> json \<Rightarrow> py_fault + norm_event" where
  "openai_normalize sha repr now raw =
     and_then (js_get_int raw ''start_time'' (Js_int 0)) (\<lambda>start_time.
     and_then (first_truthy raw [''model''] (Js_str ''unknown'')) (\<lambda>model.
     and_then (js_get_int raw ''input_tokens'' (Js_int 0)) (\<lambda>inp.
     and_then (js_get_int raw ''output_tokens'' (Js_int 0)) (\<lambda>out.
     and_then (optional_int raw ''cached_input_tokens'') (\<lambda>cached.
     and_then (js_get_int raw ''num_model_requests'' (Js_int 1)) (\<lambda>requests.
     and_then (first_truthy raw [''id''] (Js_str (dedup_hash sha [''openai'', js_str repr model, show_int start_time]))) (\<lambda>i.
     and_then (if start_time \<noteq> 0 then from_timestamp (Js_int start_time) else Inr now) (\<lambda>ts.
     and_then (string_field i) (\<lambda>request_id.
       Inr \<lparr>ne_request_id = request_id, ne_provider = ''openai'', ne_model = js_str repr model, ne_timestamp = ts,
            ne_prompt_tokens = inp, ne_completion_tokens = out, ne_total_tokens = inp + out,
            ne_cached_tokens = cached, ne_request_count = requests\<rparr>)))))))))"

text \<open>\<open>created_at.replace("Z", "+00:00")\<close> needs a string; a text that is no instant falls back to the clock.\<close>

definition anthropic_normalize ::
  "(string \<Rightarrow> string) \<Rightarrow> (json \<Rightarrow> string) \<Rightarrow> (string \<Rightarrow> micros option) \<Rightarrow> (micros \<Rightarrow> string) \<Rightarrow> micros \<Rightarrow> json
   \<Rightarrow> py_fault + norm_event" where
  "anthropic_normalize sha repr parse_iso isoformat now raw =
     and_then (first_truthy raw [''model''] (Js_str ''unknown'')) (\<lambda>model.
     and_then (first_truthy raw [''created_at''] (Js_str [])) (\<lambda>created.
     and_then (js_get_int raw ''input_tokens'' (Js_int 0)) (\<lambda>inp.
     and_then (js_get_int raw ''output_tokens'' (Js_int 0)) (\<lambda>out.
     and_then (optional_int raw ''cache_read_input_tokens'') (\<lambda>cached.
     and_then (js_get_int raw ''num_requests'' (Js_int 1)) (\<lambda>requests.
     and_then (js_get_int raw ''total_tokens'' (Js_int (inp + out))) (\<lambda>tokens.
     and_then (case created of Js_str s \<Rightarrow> Inr s | _ \<Rightarrow> Inl Attribute_error) (\<lambda>text.
       let ts = (if text = [] then now else case parse_iso text of None \<Rightarrow> now | Some t \<Rightarrow> t)
       in and_then (first_truthy raw [''id'']
            (Js_str (dedup_hash sha [''anthropic'', js_str repr model, if text = [] then isoformat ts else text]))) (\<lambda>i.
          Inr \<lparr>ne_request_id = js_str repr i, ne_provider = ''anthropic'', ne_model = js_str repr model,
               ne_timestamp = ts, ne_prompt_tokens = inp, ne_completion_tokens = out, ne_total_tokens = tokens,
               ne_cached_tokens = cached, ne_request_count = requests\<rparr>)))))))))"

definition openrouter_normalize ::
  "(string \<Rightarrow> string) \<Rightarrow> (json \<Rightarrow> string) \<Rightarrow> (string \<Rightarrow> micros option) \<Rightarrow> (micros \<Rightarrow> string) \<Rightarrow> micros \<Rightarrow> json
   \<Rightarrow> py_fault + norm_event" where
  "openrouter_normalize sha repr parse_iso isoformat now raw =
     and_then (first_truthy raw [''model'', ''model_permaslug'', ''slug''] (Js_str ''unknown'')) (\<lambda>model.
     and_then (first_truthy raw [''date'', ''day''] (Js_str [])) (\<lambda>date.
     let date_str = js_str repr date;
         ts = (if date_str = [] then now else case parse_iso date_str of None \<Rightarrow> now | Some t \<Rightarrow> t)
     in
     and_then (and_then (first_truthy raw [''prompt_tokens'', ''tokens_prompt'', ''input_tokens''] (Js_int 0)) js_to_int) (\<lambda>inp.
     and_then (and_then (first_truthy raw [''completion_tokens'', ''tokens_completion'', ''output_tokens''] (Js_int 0)) js_to_int) (\<lambda>out.
     and_then (and_then (first_truthy raw [''total_tokens''] (Js_int (inp + out))) js_to_int) (\<lambda>tokens.
     and_then (and_then (first_truthy raw [''requests'', ''num_requests'', ''count''] (Js_int 1)) js_to_int) (\<lambda>requests.
     and_then (first_truthy raw [''id'']
          (Js_str (dedup_hash sha [''openrouter'', js_str repr model, if date_str = [] then isoformat ts else date_str]))) (\<lambda>i.
       Inr \<lparr>ne_request_id = js_str repr i, ne_provider = ''openrouter'', ne_model = js_str repr model, ne_timestamp = ts,
            ne_prompt_tokens = inp, ne_completion_tokens = out, ne_total_tokens = tokens, ne_cached_tokens = None,
            ne_request_count = requests\<rparr>)))))))"

section \<open>Credentials\<close>

datatype secret_store = Store_inline | Store_env | Store_other

record secret_reference =
  sr_store :: secret_store
  sr_lookup_key :: string

definition authentication_error :: "string \<Rightarrow> provider_error" where
  "authentication_error m = \<lparr>pe_kind = PE_authentication, pe_message = m\<rparr>"

definition resolve_secret :: "(string \<Rightarrow> string option) \<Rightarrow> string \<Rightarrow> secret_reference \<Rightarrow> provider_error + string" where
  "resolve_secret environ provider ref =
     (case sr_store ref of
        Store_inline \<Rightarrow>
          if sr_lookup_key ref = [] then Inl (authentication_error ''No credential provided for validation.'')
          else Inr (sr_lookup_key ref)
      | Store_env \<Rightarrow>
          (case environ (sr_lookup_key ref) of
             Some (c # cs) \<Rightarrow> Inr (c # cs)
           | _ \<Rightarrow> Inl (authentication_error (''Environment variable is not set or empty: '' @ sr_lookup_key ref)))
      | Store_other \<Rightarrow> Inl (authentication_error (''Secret store is not supported: '' @ provider)))"

definition resolve_key :: "(string \<Rightarrow> string option) \<Rightarrow> string \<Rightarrow> secret_reference option \<Rightarrow> provider_error + string" where
  "resolve_key environ provider ref =
     (case ref of
        None \<Rightarrow> Inl (authentication_error (provider @ '' provider has no api_key_ref configured''))
      | Some r \<Rightarrow> resolve_secret environ provider r)"

definition key_format :: "string list \<Rightarrow> nat \<Rightarrow> string \<Rightarrow> provider_error + unit" where
  "key_format ps min_len key =
     (if ps \<noteq> [] \<and> \<not> list_ex (\<lambda>p. starts_with p key) ps
      then Inl \<lparr>pe_kind = PE_invalid_request, pe_message = ''Invalid API key format''\<rparr>
      else if length key < min_len
      then Inl \<lparr>pe_kind = PE_invalid_request, pe_message = ''Invalid API key: too short''\<rparr>
      else Inr ())"

definition validate_openai_key :: "string \<Rightarrow> provider_error + unit" where
  "validate_openai_key = key_format [''sk-proj-'', ''sk-''] 20"

definition validate_anthropic_key :: "string \<Rightarrow> provider_error + unit" where
  "validate_anthropic_key = key_format [''sk-ant-''] 20"

definition validate_grok_key :: "string \<Rightarrow> provider_error + unit" where
  "validate_grok_key = key_format [''xai-''] 16"

definition validate_openrouter_key :: "string \<Rightarrow> provider_error + unit" where
  "validate_openrouter_key = key_format [''sk-or-''] 16"

definition validate_google_key :: "string \<Rightarrow> provider_error + unit" where
  "validate_google_key = key_format [] 20"

definition validate_azure_key :: "string \<Rightarrow> provider_error + unit" where
  "validate_azure_key = key_format [] 20"

section \<open>Adapters\<close>

type_synonym http_client = "(string \<times> json) list \<Rightarrow> provider_error + json"

text \<open>What an adapter raises: the error of the client, or a fault of its own while it reads the body.\<close>

datatype adapter_error = Ae_provider provider_error | Ae_fault py_fault

definition items_of :: "(json \<Rightarrow> py_fault + norm_event) \<Rightarrow> json \<Rightarrow> py_fault + norm_event list" where
  "items_of nrm raw = and_then (and_then (js_get raw ''data'' (Js_list [])) js_iter) (map_results nrm)"

definition cursor_field :: "json \<Rightarrow> string \<Rightarrow> py_fault + string option" where
  "cursor_field raw k =
     and_then (js_get raw k Js_null) (\<lambda>v. if js_truthy v then map_sum id Some (string_field v) else Inr None)"

definition page_of :: "(json \<Rightarrow> py_fault + norm_event) \<Rightarrow> string \<Rightarrow> json \<Rightarrow> py_fault + usage_page" where
  "page_of nrm cursor_key raw =
     and_then (items_of nrm raw) (\<lambda>events.
     and_then (cursor_field raw cursor_key) (\<lambda>next_cursor.
     and_then (js_get raw ''has_more'' (Js_bool False)) (\<lambda>more.
       Inr \<lparr>up_events = events, up_next_cursor = next_cursor, up_has_more = js_truthy more\<rparr>)))"

definition cursor_param :: "string \<Rightarrow> string option \<Rightarrow> (string \<times> json) list" where
  "cursor_param k cursor = (case cursor of Some (c # cs) \<Rightarrow> [(k, Js_str (c # cs))] | _ \<Rightarrow> [])"

definition int_seconds :: "micros \<Rightarrow> int" where
  "int_seconds t = (if 0 \<le> t then t div 1000000 else - ((- t) div 1000000))"

definition openai_get_usage ::
  "(json \<Rightarrow> py_fault + norm_event) \<Rightarrow> http_client \<Rightarrow> provider_error + string \<Rightarrow> micros \<Rightarrow> micros \<Rightarrow> string option
   \<Rightarrow> nat \<Rightarrow> adapter_error + usage_page" where
  "openai_get_usage nrm client key start_date end_date cursor limit =
     and_then (map_err Ae_provider key) (\<lambda>_.
     and_then (map_err Ae_provider (client
         ([(''start_time'', Js_int (int_seconds start_date)), (''end_time'', Js_int (int_seconds end_date)),
           (''limit'', Js_int (int (min limit 1000)))] @ cursor_param ''page'' cursor))) (\<lambda>raw.
       map_err Ae_fault (page_of nrm ''next_page'' raw)))"

text \<open>The Anthropic adapter answers any error of the request with an empty page.\<close>

definition empty_page :: usage_page where
  "empty_page = \<lparr>up_events = [], up_next_cursor = None, up_has_more = False\<rparr>"

definition anthropic_get_usage ::
  "(micros \<Rightarrow> string) \<Rightarrow> (json \<Rightarrow> py_fault + norm_event) \<Rightarrow> http_client \<Rightarrow> provider_error + string \<Rightarrow> micros \<Rightarrow> micros
   \<Rightarrow> string option \<Rightarrow> nat \<Rightarrow> adapter_error + usage_page" where
  "anthropic_get_usage date_text nrm client key start_date end_date cursor limit =
     and_then (map_err Ae_provider key) (\<lambda>_.
       case client ([(''start_date'', Js_str (date_text start_date)), (''end_date'', Js_str (date_text end_date)),
              (''limit'', Js_int (int (min limit 1000)))] @ cursor_param ''cursor'' cursor) of
         Inl _ \<Rightarrow> Inr empty_page
       | Inr raw \<Rightarrow> map_err Ae_fault (page_of nrm ''next_cursor'' raw))"

definition ACTIVITY_RETENTION_DAYS :: int where "ACTIVITY_RETENTION_DAYS = 30"

definition utc_day :: "micros \<Rightarrow> int" where "utc_day t = t div 86400000000"

text \<open>One request per day; a day whose request fails is skipped.\<close>

function activity_days ::
  "(json \<Rightarrow> py_fault + norm_event) \<Rightarrow> (int \<Rightarrow> provider_error + json) \<Rightarrow> int \<Rightarrow> int \<Rightarrow> norm_event list
   \<Rightarrow> py_fault + norm_event list" where
  "activity_days nrm client day last_day events =
     (if last_day < day then Inr events
      else case client day of
             Inl _ \<Rightarrow> activity_days nrm client (day + 1) last_day events
           | Inr raw \<Rightarrow>
               (case items_of nrm raw of
                  Inl f \<Rightarrow> Inl f
                | Inr es \<Rightarrow> activity_days nrm client (day + 1) last_day (events @ es)))"
  by pat_completeness auto

termination
  by (relation "measure (\<lambda>(nrm, client, day, last_day, events). nat (last_day + 1 - day))") auto

declare activity_days.simps [simp del]

definition openrouter_get_usage ::
  "(json \<Rightarrow> py_fault + norm_event) \<Rightarrow> (int \<Rightarrow> provider_error + json) \<Rightarrow> provider_error + string \<Rightarrow> micros \<Rightarrow> micros
   \<Rightarrow> string option \<Rightarrow> nat \<Rightarrow> adapter_error + usage_page" where
  "openrouter_get_usage nrm client key start_date end_date cursor limit =
     (case key of
        Inl _ \<Rightarrow> Inr empty_page
      | Inr _ \<Rightarrow>
          (let earliest = utc_day (end_date - ACTIVITY_RETENTION_DAYS * 86400000000)
           in and_then (map_err Ae_fault (activity_days nrm client (max (utc_day start_date) earliest) (utc_day end_date) []))
                (\<lambda>es. Inr (empty_page\<lparr>up_events := es\<rparr>))))"

text \<open>\<open>verify_auth\<close> and the health an adapter caches in \<open>check_connection\<close>.\<close>

definition verify_auth ::
  "provider_error + string \<Rightarrow> (string \<Rightarrow> provider_error + unit) \<Rightarrow> (provider_error + json) \<Rightarrow> provider_error + bool" where
  "verify_auth key validate models =
     and_then key (\<lambda>k. and_then (validate k) (\<lambda>_. and_then models (\<lambda>_. Inr True)))"

record adapter_health =
  ah_healthy :: bool
  ah_last_checked :: "micros option"

record connection_status =
  cx_connected :: bool
  cx_error :: "string option"
  cx_checked_at :: micros

definition check_connection ::
  "micros \<Rightarrow> provider_error + bool \<Rightarrow> adapter_health \<Rightarrow> connection_status \<times> adapter_health" where
  "check_connection now verified h =
     (case verified of
        Inr _ \<Rightarrow> (\<lparr>cx_connected = True, cx_error = None, cx_checked_at = now\<rparr>,
                  h\<lparr>ah_healthy := True, ah_last_checked := Some now\<rparr>)
      | Inl e \<Rightarrow> (\<lparr>cx_connected = False, cx_error = Some (pe_message e), cx_checked_at = now\<rparr>,
                  h\<lparr>ah_healthy := False, ah_last_checked := Some now\<rparr>))"

text \<open>An adapter as the collection sees it: its error as text.\<close>

definition as_adapter ::
  "(adapter_error \<Rightarrow> string) \<Rightarrow> (micros \<Rightarrow> micros \<Rightarrow> string option \<Rightarrow> nat \<Rightarrow> adapter_error + usage_page) \<Rightarrow> adapter" where
  "as_adapter show_error get_usage start_date end_date cursor limit = map_err show_error (get_usage start_date end_date cursor limit)"

section \<open>Pages\<close>

lemma process_empty [simp]: "process_page pricing now a run [] s = (0, 0, s)"
  by simp

text \<open>Collecting one page that is empty and the last.\<close>

lemma collect_empty_page:
  assumes "\<And>start cursor. get_usage start (ca_end a) cursor limit = Inr empty_page"
    and "ck_get_by_org_provider (ca_organization_id a) (ca_provider a) (ca_connection_id a) (cs_checkpoints s) = Inr ck"
    and "ca_has_config a"
  shows "collect (Suc fuel) get_usage limit pricing now a s =
     Some (Inr \<lparr>tt_events = 0, tt_failed = 0, tt_pages = 1\<rparr>,
       finish_run now (cs_next_id s) (Inr \<lparr>tt_events = 0, tt_failed = 0, tt_pages = 1\<rparr>)
         (s\<lparr>cs_runs := cs_runs s @ [create_run now (cs_next_id s) a], cs_next_id := cs_next_id s + 2,
            cs_checkpoints := ck_upsert now (cs_next_id s + 1) (ca_organization_id a) (ca_provider a) (ca_connection_id a)
              (ca_end a) None (Some (cs_next_id s)) (cs_checkpoints s)\<rparr>))"
  using assms by (simp add: collect_def draw_id_def Let_def empty_page_def)

lemma ck_upsert_present:
  "\<exists>c \<in> set (ck_upsert now i org provider (Some conn) seen_to cursor run rows). ck_conflict org provider (Some conn) c"
proof (cases "\<exists>c \<in> set rows. ck_conflict org provider (Some conn) c")
  case True
  then obtain c where c: "c \<in> set rows" "ck_conflict org provider (Some conn) c" by blast
  let ?f = "\<lambda>c. c\<lparr>ck_last_collected_at := seen_to, ck_cursor := cursor, ck_last_run_id := run\<rparr>"
  have "ck_upsert now i org provider (Some conn) seen_to cursor run rows
      = sql_update_where (ck_conflict org provider (Some conn)) ?f rows"
    using True by (simp add: ck_upsert_def)
  moreover have "?f c \<in> set (sql_update_where (ck_conflict org provider (Some conn)) ?f rows)"
    unfolding sql_update_where_def set_map using c by (intro image_eqI [where x = c]) simp_all
  moreover have "ck_conflict org provider (Some conn) (?f c)" using c(2) by (simp add: ck_conflict_def)
  ultimately show ?thesis by metis
next
  case False
  then show ?thesis by (simp add: ck_upsert_def) (simp add: ck_conflict_def)
qed



section \<open>Reading items\<close>

text \<open>An item of the flat shape: what the OpenAI normalizer makes of it is a valid event with its figures.\<close>

definition flat_item :: "string \<Rightarrow> int \<Rightarrow> int \<Rightarrow> int \<Rightarrow> int option \<Rightarrow> int \<Rightarrow> json" where
  "flat_item model start inp out cached requests =
     Js_dict ([(''start_time'', Js_int start), (''model'', Js_str model), (''input_tokens'', Js_int inp),
               (''output_tokens'', Js_int out), (''num_model_requests'', Js_int requests)]
       @ (case cached of None \<Rightarrow> [] | Some c \<Rightarrow> [(''cached_input_tokens'', Js_int c)]))"

lemma from_timestamp_int:
  "- 62135596800 \<le> n \<Longrightarrow> n < 253402300800 \<Longrightarrow> from_timestamp (Js_int n) = Inr (n * 1000000)"
proof -
  assume n: "- 62135596800 \<le> n" "n < 253402300800"
  have "(of_int n :: rat) * 1000000 = of_int (n * 1000000)" by simp
  then have f: "\<lfloor>(of_int n :: rat) * 1000000\<rfloor> = n * 1000000" by (simp only: floor_of_int)
  show ?thesis using n by (simp add: from_timestamp_def Let_def f)
qed

lemma flat_item_normalized:
  assumes "model \<noteq> []" and "0 < start" and "start < 253402300800"
  shows "openai_normalize sha repr now (flat_item model start inp out cached requests) =
    Inr \<lparr>ne_request_id = dedup_hash sha [''openai'', model, show_int start], ne_provider = ''openai'', ne_model = model,
         ne_timestamp = start * 1000000, ne_prompt_tokens = inp, ne_completion_tokens = out,
         ne_total_tokens = inp + out, ne_cached_tokens = cached, ne_request_count = requests\<rparr>"
  using assms by (cases cached)
    (simp_all add: openai_normalize_def flat_item_def js_get_int_def optional_int_def string_field_def from_timestamp_int)

lemma flat_item_valid:
  assumes "\<not> blank_str model" and "0 < start" and "start < 253402300800" and "start * 1000000 \<le> now + FUTURE_TOLERANCE"
    and "0 \<le> inp" and "0 \<le> out" and "1 \<le> requests" and "\<forall>c. cached = Some c \<longrightarrow> 0 \<le> c \<and> c \<le> inp"
    and "\<not> blank_str (dedup_hash sha [''openai'', model, show_int start])"
  shows "\<exists>e. openai_normalize sha repr now (flat_item model start inp out cached requests) = Inr e
    \<and> validate_event now e = Inr () \<and> ne_prompt_tokens e = inp \<and> ne_completion_tokens e = out"
proof -
  have m: "model \<noteq> []" using assms(1) by (auto simp: blank_str_iff)
  have p: "\<not> blank_str ''openai''" by code_simp
  show ?thesis using assms p
    by (auto simp: flat_item_normalized [OF m assms(2,3)] validate_event_def check_required_strings_def
        check_timestamp_def check_token_counts_def guard_def split: option.split)
qed

text \<open>An object without the keys of an item (a time bucket, say) counts as one request without tokens.\<close>

lemma keyless_item_normalized:
  assumes "map_of d ''start_time'' = Some (Js_int start)" and "0 < start" and "start < 253402300800"
    and "map_of d ''model'' = None" and "map_of d ''input_tokens'' = None" and "map_of d ''output_tokens'' = None"
    and "map_of d ''cached_input_tokens'' = None" and "map_of d ''num_model_requests'' = None" and "map_of d ''id'' = None"
  shows "openai_normalize sha repr now (Js_dict d) =
    Inr \<lparr>ne_request_id = dedup_hash sha [''openai'', ''unknown'', show_int start], ne_provider = ''openai'',
         ne_model = ''unknown'', ne_timestamp = start * 1000000, ne_prompt_tokens = 0, ne_completion_tokens = 0,
         ne_total_tokens = 0, ne_cached_tokens = None, ne_request_count = 1\<rparr>"
  using assms by (simp add: openai_normalize_def js_get_int_def optional_int_def string_field_def from_timestamp_int)

section \<open>The OpenRouter window\<close>

text \<open>The days are asked one by one; the events of those that answered are returned in order.\<close>

lemma activity_days_events:
  "(\<And>d. case client d of Inl _ \<Rightarrow> es d = [] | Inr raw \<Rightarrow> items_of nrm raw = Inr (es d)) \<Longrightarrow>
   activity_days nrm client day last_day events = Inr (events @ concat (map es [day..last_day]))"
proof (induction nrm client day last_day events rule: activity_days.induct)
  case (1 nrm client day last_day events)
  show ?case
  proof (cases "last_day < day")
    case True
    then show ?thesis by (simp add: activity_days.simps)
  next
    case False
    have u: "[day..last_day] = day # [day + 1..last_day]" using False by (simp add: upto_rec1)
    show ?thesis
    proof (cases "client day")
      case (Inl e)
      with 1(3) [of day] have "es day = []" by simp
      with 1(1) [OF False Inl 1(3)] show ?thesis using False Inl
        by (simp add: activity_days.simps [of nrm client day] u)
    next
      case (Inr raw)
      with 1(3) [of day] have i: "items_of nrm raw = Inr (es day)" by simp
      from 1(2) [OF False Inr i 1(3)] show ?thesis using False Inr i
        by (simp add: activity_days.simps [of nrm client day] u)
    qed
  qed
qed

lemma window_days:
  "length [max (utc_day start) (utc_day (fin - ACTIVITY_RETENTION_DAYS * 86400000000))..utc_day fin] \<le> 31"
proof -
  have "fin - ACTIVITY_RETENTION_DAYS * 86400000000 = fin + (- 30) * 86400000000"
    by (simp add: ACTIVITY_RETENTION_DAYS_def)
  then have "utc_day (fin - ACTIVITY_RETENTION_DAYS * 86400000000) = utc_day fin - 30"
    unfolding utc_day_def by (simp only: div_mult_self1)
  then show ?thesis by simp
qed

end
