(* ===== verification/Dashboard.thy ===== *)
theory Dashboard
  imports Access
begin

text \<open>
  The read side of the back end: \<open>analytics/service.py\<close>, \<open>dashboard/service.py\<close> and the routes of
  \<open>api/v1/analytics.py\<close> and \<open>api/v1/dashboard.py\<close>. Amounts stay numbers where a response holds their text,
  identifiers stay identifiers; the text of a day is the parameter \<open>tx_date\<close>. A parameter that Pydantic
  rejects is \<open>Http 422\<close> with the name of the parameter. Routes check the caller first, as FastAPI resolves
  dependencies before it runs the handler.
\<close>

section \<open>Days\<close>

text \<open>\<open>date.fromordinal\<close>: the year from the mean length of a Gregorian year, off by one at most.\<close>

definition year_of_day :: "int \<Rightarrow> int" where
  "year_of_day n =
     (let y = 400 * (n - 1) div 146097 + 1
      in if n \<le> days_before_year y then y - 1 else if days_before_year (y + 1) < n then y + 1 else y)"

definition fromordinal :: "int \<Rightarrow> date" where
  "fromordinal n =
     (let y = year_of_day n; r = n - days_before_year y;
          m = int (length (filter (\<lambda>m. days_before_month y m < r) [1, 2, 3, 4, 5, 6, 7, 8, 9, 10, 11, 12]))
      in \<lparr>dt_year = y, dt_month = m, dt_day = r - days_before_month y m\<rparr>)"

text \<open>\<open>isocalendar\<close>: the ISO year and week of a day are those of its week's Thursday.\<close>

definition monday_of :: "int \<Rightarrow> int" where "monday_of n = n - (n + 6) mod 7"

definition isocalendar :: "int \<Rightarrow> int \<times> int" where
  "isocalendar n = (let t = monday_of n + 3; y = year_of_day t in (y, (t - days_before_year y - 1) div 7 + 1))"

definition today_of :: "micros \<Rightarrow> int" where "today_of now = 719163 + now div 86400000000"

definition first_of_month :: "int \<Rightarrow> int" where "first_of_month n = ordinal ((fromordinal n)\<lparr>dt_day := 1\<rparr>)"

section \<open>Decimal sums\<close>

text \<open>Python's \<open>sum\<close> over decimals, each addition in the default context.\<close>

definition dec_sum :: "rat list \<Rightarrow> rat" where "dec_sum xs = foldl dec_add 0 xs"

section \<open>State\<close>

record dashboard_db =
  db_accounts :: accounts
  db_costs :: "usage_cost_record list"
  db_events :: "usage_event list"
  db_runs :: "collection_run list"

definition event_time :: "dashboard_db \<Rightarrow> ident \<Rightarrow> micros option" where
  "event_time db i = map_option ue_timestamp (List.find (\<lambda>e. row_id e = i) (db_events db))"

definition no_filter :: dimensions where
  "no_filter = \<lparr>dm_project_id = None, dm_provider = None, dm_model = None\<rparr>"

section \<open>Analytics\<close>

record usage_summary =
  um_start :: int
  um_end :: int
  um_total_tokens :: int
  um_prompt_tokens :: int
  um_completion_tokens :: int
  um_total_requests :: nat
  um_event_count :: nat

definition analytics_get_usage_summary :: "ident \<Rightarrow> int \<Rightarrow> int \<Rightarrow> dashboard_db \<Rightarrow> usage_summary" where
  "analytics_get_usage_summary org s e db =
     (let rows = map snd (get_totals_by_org org s e no_filter (db_costs db)); n = sum_list (map ct_count rows)
      in \<lparr>um_start = s, um_end = e, um_total_tokens = sum_list (map ct_total_tokens rows),
          um_prompt_tokens = sum_list (map ct_prompt_tokens rows),
          um_completion_tokens = sum_list (map ct_completion_tokens rows), um_total_requests = n, um_event_count = n\<rparr>)"

record currency_item =
  ci_currency :: string
  ci_total_cost :: rat
  ci_total_tokens :: int
  ci_record_count :: nat

record cost_summary =
  cm_start :: int
  cm_end :: int
  cm_by_currency :: "currency_item list"
  cm_total_cost :: rat
  cm_total_tokens :: int
  cm_record_count :: nat

definition analytics_get_cost_summary :: "ident \<Rightarrow> int \<Rightarrow> int \<Rightarrow> dashboard_db \<Rightarrow> cost_summary" where
  "analytics_get_cost_summary org s e db =
     (let rows = get_totals_by_org org s e no_filter (db_costs db)
      in \<lparr>cm_start = s, cm_end = e,
          cm_by_currency = map (\<lambda>(c, t). \<lparr>ci_currency = c, ci_total_cost = ct_total_cost t,
            ci_total_tokens = ct_total_tokens t, ci_record_count = ct_count t\<rparr>) rows,
          cm_total_cost = (case rows of [] \<Rightarrow> 0 | (_, t) # _ \<Rightarrow> ct_total_cost t),
          cm_total_tokens = sum_list (map (ct_total_tokens \<circ> snd) rows),
          cm_record_count = sum_list (map (ct_count \<circ> snd) rows)\<rparr>)"

definition analytics_get_provider_breakdown ::
  "ident \<Rightarrow> int \<Rightarrow> int \<Rightarrow> dimensions \<Rightarrow> dashboard_db \<Rightarrow> (((string \<times> string) \<times> cost_totals) \<times> nat) list" where
  "analytics_get_provider_breakdown org s e d db = get_totals_by_provider org s e d (db_costs db)"

definition analytics_get_model_breakdown ::
  "ident \<Rightarrow> int \<Rightarrow> int \<Rightarrow> dimensions \<Rightarrow> dashboard_db \<Rightarrow> ((string \<times> string \<times> string) \<times> cost_totals) list" where
  "analytics_get_model_breakdown org s e d db = get_totals_by_model org s e None d (db_costs db)"

definition analytics_get_project_breakdown ::
  "ident \<Rightarrow> int \<Rightarrow> int \<Rightarrow> dimensions \<Rightarrow> dashboard_db \<Rightarrow> ((ident option \<times> string) \<times> cost_totals) list" where
  "analytics_get_project_breakdown org s e d db = get_totals_by_project org s e None d (db_costs db)"

definition analytics_get_daily_trend ::
  "ident \<Rightarrow> int \<Rightarrow> int \<Rightarrow> dimensions \<Rightarrow> dashboard_db \<Rightarrow> ((int \<times> string) \<times> cost_totals) list" where
  "analytics_get_daily_trend org s e d db = get_daily_trend org s e d (db_costs db)"

definition analytics_get_top_models ::
  "ident \<Rightarrow> int \<Rightarrow> int \<Rightarrow> nat \<Rightarrow> dimensions \<Rightarrow> dashboard_db \<Rightarrow> ((string \<times> string \<times> string) \<times> cost_totals) list" where
  "analytics_get_top_models org s e limit d db = get_totals_by_model org s e (Some limit) d (db_costs db)"

definition analytics_get_top_projects ::
  "ident \<Rightarrow> int \<Rightarrow> int \<Rightarrow> nat \<Rightarrow> dimensions \<Rightarrow> dashboard_db \<Rightarrow> ((ident option \<times> string) \<times> cost_totals) list" where
  "analytics_get_top_projects org s e limit d db = get_totals_by_project org s e (Some limit) d (db_costs db)"

definition analytics_get_heatmap ::
  "ident \<Rightarrow> int \<Rightarrow> int \<Rightarrow> dimensions \<Rightarrow> dashboard_db \<Rightarrow> ((int \<times> int \<times> string) \<times> cost_totals) list" where
  "analytics_get_heatmap org s e d db = get_heatmap (event_time db) org s e d (db_costs db)"

section \<open>The dashboard service\<close>

definition period_over_period_pct :: "rat \<Rightarrow> rat \<Rightarrow> rat option" where
  "period_over_period_pct cur prior =
     (if prior = 0 then None else Some (dec_mult (dec_div (dec_add cur (- prior)) prior) 100))"

fun run_status_value :: "run_status \<Rightarrow> string" where
  "run_status_value R_PENDING = ''pending''"
| "run_status_value R_RUNNING = ''running''"
| "run_status_value R_COMPLETED = ''completed''"
| "run_status_value R_FAILED = ''failed''"
| "run_status_value R_CANCELLED = ''cancelled''"

record overview_block =
  ov_total_spend :: rat
  ov_today_spend :: rat
  ov_month_spend :: rat
  ov_total_tokens :: int
  ov_total_requests :: nat
  ov_active_providers :: nat
  ov_active_models :: nat
  ov_collection_status :: "string option"
  ov_last_collection_at :: "micros option"

record overview = overview_block +
  ov_active_projects :: nat
  ov_avg_cost_per_request :: "rat option"
  ov_cost_trend_pct :: "rat option"
  ov_request_trend_pct :: "rat option"
  ov_token_trend_pct :: "rat option"
  ov_currency :: string

text \<open>The sums over the rows of a period: cost, tokens, requests.\<close>

definition org_sums :: "ident \<Rightarrow> int \<Rightarrow> int \<Rightarrow> dimensions \<Rightarrow> dashboard_db \<Rightarrow> rat \<times> int \<times> nat" where
  "org_sums org s e d db =
     (let rows = map snd (get_totals_by_org org s e d (db_costs db))
      in (dec_sum (map ct_total_cost rows), sum_list (map ct_total_tokens rows), sum_list (map ct_count rows)))"

definition per_unit :: "rat \<Rightarrow> rat \<Rightarrow> rat option" where
  "per_unit cost n = (if 0 < n then Some (dec_div cost n) else None)"

definition latest_run :: "ident \<Rightarrow> dashboard_db \<Rightarrow> collection_run option" where
  "latest_run org db =
     scalar_first (order_desc cn_started_at
       (filter (\<lambda>r. cn_organization_id r = org \<and> row_deleted_at r = None) (db_runs db)))"

definition EPOCH_2000 :: int where "EPOCH_2000 = ordinal \<lparr>dt_year = 2000, dt_month = 1, dt_day = 1\<rparr>"

definition dashboard_get_overview :: "ident \<Rightarrow> int \<Rightarrow> dashboard_db \<Rightarrow> overview" where
  "dashboard_get_overview org today db =
     (let (total_cost, total_tokens, total_requests) = org_sums org EPOCH_2000 today no_filter db;
          (month_spend, _) = org_sums org (first_of_month today) today no_filter db;
          (today_spend, _) = org_sums org today today no_filter db;
          provider_rows = get_totals_by_provider org EPOCH_2000 today no_filter (db_costs db);
          model_rows = get_totals_by_model org EPOCH_2000 today None no_filter (db_costs db);
          project_rows = get_totals_by_project org EPOCH_2000 today None no_filter (db_costs db);
          period_start = today - 29; prior_end = period_start - 1; prior_start = prior_end - 29;
          (current_cost, current_tokens, current_requests) = org_sums org period_start today no_filter db;
          (prior_cost, prior_tokens, prior_requests) = org_sums org prior_start prior_end no_filter db;
          run = latest_run org db
      in \<lparr>ov_total_spend = total_cost, ov_today_spend = today_spend, ov_month_spend = month_spend,
          ov_total_tokens = total_tokens, ov_total_requests = total_requests,
          ov_active_providers = length (remdups (map (\<lambda>((k, _), _). fst k) provider_rows)),
          ov_active_models = length (remdups (map (\<lambda>((p, m, _), _). (p, m)) model_rows)),
          ov_collection_status = map_option (run_status_value \<circ> cn_status) run,
          ov_last_collection_at = map_option cn_started_at run,
          ov_active_projects = length (remdups (List.map_filter (\<lambda>((p, _), _). p) project_rows)),
          ov_avg_cost_per_request = per_unit total_cost (of_nat total_requests),
          ov_cost_trend_pct = period_over_period_pct current_cost prior_cost,
          ov_request_trend_pct = period_over_period_pct (of_nat current_requests) (of_nat prior_requests),
          ov_token_trend_pct = period_over_period_pct (of_int current_tokens) (of_int prior_tokens),
          ov_currency = ''USD''\<rparr>)"

subsection \<open>Time series\<close>

record trend_point =
  tp_date :: string
  tp_cost :: rat
  tp_tokens :: int
  tp_requests :: nat
  tp_currency :: string

record series_point = trend_point +
  tp_prompt_tokens :: int
  tp_completion_tokens :: int

definition daily_point :: "(int \<Rightarrow> string) \<Rightarrow> (int \<times> string) \<times> cost_totals \<Rightarrow> series_point" where
  "daily_point isodate r =
     (case r of ((dy, cur), t) \<Rightarrow>
        \<lparr>tp_date = isodate dy, tp_cost = ct_total_cost t, tp_tokens = ct_total_tokens t, tp_requests = ct_count t,
         tp_currency = cur, tp_prompt_tokens = ct_prompt_tokens t, tp_completion_tokens = ct_completion_tokens t\<rparr>)"

definition week_key :: "int \<Rightarrow> string" where
  "week_key dy = (let (y, w) = isocalendar dy in show_nat (nat y) @ ''-W'' @ two_digits (nat w))"

definition month_key :: "int \<Rightarrow> string" where
  "month_key dy = (let d = fromordinal dy in show_nat (nat (dt_year d)) @ ''-'' @ two_digits (nat (dt_month d)))"

definition empty_bucket :: "string \<Rightarrow> string \<Rightarrow> series_point" where
  "empty_bucket k cur =
     \<lparr>tp_date = k, tp_cost = 0, tp_tokens = 0, tp_requests = 0, tp_currency = cur, tp_prompt_tokens = 0,
      tp_completion_tokens = 0\<rparr>"

definition add_to_bucket :: "cost_totals \<Rightarrow> series_point \<Rightarrow> series_point" where
  "add_to_bucket t p =
     p\<lparr>tp_cost := dec_add (tp_cost p) (ct_total_cost t), tp_tokens := tp_tokens p + ct_total_tokens t,
       tp_prompt_tokens := tp_prompt_tokens p + ct_prompt_tokens t,
       tp_completion_tokens := tp_completion_tokens p + ct_completion_tokens t,
       tp_requests := tp_requests p + ct_count t\<rparr>"

text \<open>The dictionary of buckets, in the order of its insertions.\<close>

fun bucket_add :: "string \<Rightarrow> string \<Rightarrow> cost_totals \<Rightarrow> series_point list \<Rightarrow> series_point list" where
  "bucket_add k cur t [] = [add_to_bucket t (empty_bucket k cur)]"
| "bucket_add k cur t (p # ps) = (if tp_date p = k then add_to_bucket t p # ps else p # bucket_add k cur t ps)"

definition buckets :: "(int \<Rightarrow> string) \<Rightarrow> ((int \<times> string) \<times> cost_totals) list \<Rightarrow> series_point list" where
  "buckets key rows = fold (\<lambda>((dy, cur), t). bucket_add (key dy) cur t) rows []"

definition dashboard_get_time_series ::
  "(int \<Rightarrow> string) \<Rightarrow> ident \<Rightarrow> int \<Rightarrow> int \<Rightarrow> string \<Rightarrow> dimensions \<Rightarrow> dashboard_db \<Rightarrow> series_point list" where
  "dashboard_get_time_series isodate org s e granularity d db =
     (let daily_rows = analytics_get_daily_trend org s e d db
      in if granularity = ''daily'' then map (daily_point isodate) daily_rows
         else if granularity = ''weekly'' then buckets week_key daily_rows
         else if granularity = ''monthly'' then buckets month_key daily_rows
         else map (daily_point isodate) daily_rows)"

subsection \<open>Breakdowns\<close>

record provider_item =
  pv_provider :: string
  pv_total_cost :: rat
  pv_total_tokens :: int
  pv_total_requests :: nat
  pv_avg_cost_per_request :: rat
  pv_currency :: string

record provider_metrics = provider_item +
  pv_input_tokens :: int
  pv_output_tokens :: int
  pv_model_count :: nat

record model_item =
  mi_provider :: string
  mi_model :: string
  mi_total_cost :: rat
  mi_total_tokens :: int
  mi_total_requests :: nat
  mi_avg_cost_per_request :: rat
  mi_currency :: string

record model_metrics = model_item +
  mi_input_tokens :: int
  mi_output_tokens :: int

record project_item =
  ji_project_id :: "ident option"
  ji_total_cost :: rat
  ji_total_tokens :: int
  ji_total_requests :: nat
  ji_currency :: string

record project_metrics = project_item +
  ji_project_name :: string
  ji_budget :: "rat option"
  ji_budget_utilization_pct :: "rat option"

definition average_cost :: "cost_totals \<Rightarrow> rat" where
  "average_cost t = (if 0 < ct_count t then dec_div (ct_total_cost t) (of_nat (ct_count t)) else 0)"

definition dashboard_get_provider_breakdown ::
  "ident \<Rightarrow> int \<Rightarrow> int \<Rightarrow> dimensions \<Rightarrow> dashboard_db \<Rightarrow> provider_metrics list" where
  "dashboard_get_provider_breakdown org s e d db =
     map (\<lambda>(((provider, cur), t), models).
       \<lparr>pv_provider = provider, pv_total_cost = ct_total_cost t, pv_total_tokens = ct_total_tokens t,
        pv_total_requests = ct_count t, pv_avg_cost_per_request = average_cost t, pv_currency = cur,
        pv_input_tokens = ct_prompt_tokens t, pv_output_tokens = ct_completion_tokens t, pv_model_count = models\<rparr>)
       (analytics_get_provider_breakdown org s e d db)"

definition dashboard_get_model_breakdown ::
  "ident \<Rightarrow> int \<Rightarrow> int \<Rightarrow> nat \<Rightarrow> dimensions \<Rightarrow> dashboard_db \<Rightarrow> model_metrics list" where
  "dashboard_get_model_breakdown org s e limit d db =
     map (\<lambda>((provider, model, cur), t).
       \<lparr>mi_provider = provider, mi_model = model, mi_total_cost = ct_total_cost t, mi_total_tokens = ct_total_tokens t,
        mi_total_requests = ct_count t, mi_avg_cost_per_request = average_cost t, mi_currency = cur,
        mi_input_tokens = ct_prompt_tokens t, mi_output_tokens = ct_completion_tokens t\<rparr>)
       (analytics_get_top_models org s e limit d db)"

definition budget_utilization :: "rat \<Rightarrow> rat option \<Rightarrow> rat option" where
  "budget_utilization cost bound =
     (case bound of None \<Rightarrow> None | Some b \<Rightarrow> if 0 < b then Some (dec_mult (dec_div cost b) 100) else None)"

definition project_row :: "(ident \<rightharpoonup> project) \<Rightarrow> (ident option \<times> string) \<times> cost_totals \<Rightarrow> project_metrics" where
  "project_row by_id r =
     (case r of ((pid, cur), t) \<Rightarrow>
        (let p = Option.bind pid by_id; bound = Option.bind p pj_budget
         in \<lparr>ji_project_id = pid, ji_total_cost = ct_total_cost t, ji_total_tokens = ct_total_tokens t,
             ji_total_requests = ct_count t, ji_currency = cur,
             ji_project_name = (case p of None \<Rightarrow> ''Unassigned'' | Some x \<Rightarrow> pj_name x),
             ji_budget = bound, ji_budget_utilization_pct = budget_utilization (ct_total_cost t) bound\<rparr>))"

definition dashboard_get_project_breakdown ::
  "ident \<Rightarrow> int \<Rightarrow> int \<Rightarrow> dimensions \<Rightarrow> dashboard_db \<Rightarrow> http_error + project_metrics list" where
  "dashboard_get_project_breakdown org s e d db =
     and_then (map_err Http_db (pj_list_by_org org 500 None ''asc'' (ac_projects (db_accounts db)))) (\<lambda>page.
       let by_id = map_of (rev (map (\<lambda>p. (row_id p, p)) (pg_items page)))
       in Inr (map (project_row by_id) (analytics_get_project_breakdown org s e d db)))"

subsection \<open>Key figures, heat map, activity\<close>

text \<open>\<open>max(xs, key)\<close>: the first of the greatest.\<close>

definition py_max :: "('a \<Rightarrow> 'k :: linorder) \<Rightarrow> 'a list \<Rightarrow> 'a option" where
  "py_max key xs =
     (case xs of [] \<Rightarrow> None | x # ys \<Rightarrow> Some (foldl (\<lambda>m y. if key m < key y then y else m) x ys))"

record kpis =
  kp_highest_cost_provider :: "string option"
  kp_highest_cost_model :: "string option"
  kp_avg_cost_per_request :: "rat option"
  kp_avg_cost_per_token :: "rat option"
  kp_currency :: string

definition dashboard_get_kpis :: "ident \<Rightarrow> int \<Rightarrow> int \<Rightarrow> dimensions \<Rightarrow> dashboard_db \<Rightarrow> kpis" where
  "dashboard_get_kpis org s e d db =
     (let top_provider = py_max (\<lambda>((_, t), _). ct_total_cost t) (analytics_get_provider_breakdown org s e d db);
          top_model = py_max (\<lambda>(_, t). ct_total_cost t) (analytics_get_model_breakdown org s e d db);
          (cost, tokens, requests) = org_sums org s e d db
      in \<lparr>kp_highest_cost_provider = map_option (\<lambda>(((p, _), _), _). p) top_provider,
          kp_highest_cost_model = map_option (\<lambda>((_, m, _), _). m) top_model,
          kp_avg_cost_per_request = per_unit cost (of_nat requests),
          kp_avg_cost_per_token = per_unit cost (of_int tokens), kp_currency = ''USD''\<rparr>)"

record heat_cell =
  ht_hour_of_day :: int
  ht_day_of_week :: int
  ht_total_cost :: rat
  ht_total_tokens :: int
  ht_total_requests :: nat
  ht_currency :: string

definition dashboard_get_heatmap :: "ident \<Rightarrow> int \<Rightarrow> int \<Rightarrow> dimensions \<Rightarrow> dashboard_db \<Rightarrow> heat_cell list" where
  "dashboard_get_heatmap org s e d db =
     map (\<lambda>((dow, hour, cur), t).
       \<lparr>ht_hour_of_day = hour, ht_day_of_week = dow, ht_total_cost = ct_total_cost t,
        ht_total_tokens = ct_total_tokens t, ht_total_requests = ct_count t, ht_currency = cur\<rparr>)
       (analytics_get_heatmap org s e d db)"

fun run_trigger_value :: "run_trigger \<Rightarrow> string" where
  "run_trigger_value T_MANUAL = ''manual''"
| "run_trigger_value T_SCHEDULED = ''scheduled''"

record run_item =
  ri_id :: ident
  ri_provider :: string
  ri_status :: string
  ri_triggered_by :: string
  ri_started_at :: micros
  ri_completed_at :: "micros option"
  ri_events_collected :: nat
  ri_error_message :: "collect_error option"

definition to_run_item :: "collection_run \<Rightarrow> run_item" where
  "to_run_item r =
     \<lparr>ri_id = row_id r, ri_provider = cn_provider r, ri_status = run_status_value (cn_status r),
      ri_triggered_by = run_trigger_value (cn_trigger r), ri_started_at = cn_started_at r,
      ri_completed_at = cn_completed_at r, ri_events_collected = cn_events_collected r, ri_error_message = cn_error r\<rparr>"

record failure_item =
  fl_connection_id :: ident
  fl_provider_type :: string
  fl_display_name :: string
  fl_last_error :: "string option"
  fl_last_failure_at :: "micros option"
  fl_consecutive_failures :: nat

definition to_failure_item :: "provider_connection \<Rightarrow> failure_item" where
  "to_failure_item c =
     \<lparr>fl_connection_id = row_id c, fl_provider_type = provider_type_value (pc_provider_type c),
      fl_display_name = pc_display_name c, fl_last_error = pc_last_error c, fl_last_failure_at = pc_last_failure_at c,
      fl_consecutive_failures = pc_consecutive_failure_count c\<rparr>"

record activity =
  ay_imports :: "run_item list"
  ay_syncs :: "run_item list"
  ay_failures :: "failure_item list"

definition dashboard_get_recent_activity :: "ident \<Rightarrow> nat \<Rightarrow> dashboard_db \<Rightarrow> http_error + activity" where
  "dashboard_get_recent_activity org limit db =
     and_then (map_err Http_db (cn_list_by_org org limit None ''desc'' (db_runs db))) (\<lambda>page.
       let items = map to_run_item (pg_items page);
           scheduled = (\<lambda>i. ri_triggered_by i = ''scheduled'')
       in Inr \<lparr>ay_imports = take limit (filter (\<lambda>i. \<not> scheduled i) items),
               ay_syncs = take limit (filter scheduled items),
               ay_failures = map to_failure_item
                 (pc_list_recent_failures org limit (ac_connections (db_accounts db)))\<rparr>)"

section \<open>Routes\<close>

definition check_range :: "int \<Rightarrow> int \<Rightarrow> http_error + unit" where
  "check_range s e = guard (s \<le> e) (Http 422 ''start_date must be before or equal to end_date'')"

definition check_limit :: "int \<Rightarrow> http_error + nat" where
  "check_limit n = (if 1 \<le> n \<and> n \<le> 100 then Inr (nat n) else Inl (Http 422 ''limit''))"

definition GRANULARITIES :: "string list" where "GRANULARITIES = [''daily'', ''weekly'', ''monthly'']"

definition check_granularity :: "string \<Rightarrow> http_error + string" where
  "check_granularity g = (if g \<in> set GRANULARITIES then Inr g else Inl (Http 422 ''granularity''))"

text \<open>The caller of a read route and the range of days it asks for.\<close>

definition with_member ::
  "account_env \<Rightarrow> request \<Rightarrow> ident \<Rightarrow> dashboard_db \<Rightarrow> http_error + 'a \<Rightarrow> http_error + 'a" where
  "with_member env rq org db body = and_then (get_query_org_membership env rq org (db_accounts db)) (\<lambda>_. body)"

definition route_overview ::
  "account_env \<Rightarrow> request \<Rightarrow> ident \<Rightarrow> string \<Rightarrow> dashboard_db \<Rightarrow> http_error + overview" where
  "route_overview env rq org cur db =
     with_member env rq org db
       (let data = dashboard_get_overview org (today_of (rq_now rq)) db
        in Inr (data\<lparr>ov_avg_cost_per_request := Some (case ov_avg_cost_per_request data of None \<Rightarrow> 0 | Some x \<Rightarrow> x),
                    ov_currency := cur\<rparr>))"

record time_series_response =
  ts_granularity :: string
  ts_start :: int
  ts_end :: int
  ts_points :: "series_point list"
  ts_total_cost :: rat
  ts_total_tokens :: int
  ts_total_requests :: nat

definition time_series_of ::
  "(int \<Rightarrow> string) \<Rightarrow> ident \<Rightarrow> int \<Rightarrow> int \<Rightarrow> string \<Rightarrow> string \<Rightarrow> dimensions \<Rightarrow> dashboard_db
   \<Rightarrow> http_error + time_series_response" where
  "time_series_of isodate org s e g cur d db =
     and_then (check_range s e) (\<lambda>_.
       let points = filter (\<lambda>p. tp_currency p = cur) (dashboard_get_time_series isodate org s e g d db)
       in Inr \<lparr>ts_granularity = g, ts_start = s, ts_end = e, ts_points = points,
               ts_total_cost = dec_sum (map tp_cost points), ts_total_tokens = sum_list (map tp_tokens points),
               ts_total_requests = sum_list (map tp_requests points)\<rparr>)"

definition route_time_series ::
  "(int \<Rightarrow> string) \<Rightarrow> account_env \<Rightarrow> request \<Rightarrow> ident \<Rightarrow> int \<Rightarrow> int \<Rightarrow> string \<Rightarrow> string \<Rightarrow> dimensions \<Rightarrow> dashboard_db
   \<Rightarrow> http_error + time_series_response" where
  "route_time_series isodate env rq org s e granularity cur d db =
     with_member env rq org db
       (and_then (check_granularity granularity) (\<lambda>g. time_series_of isodate org s e g cur d db))"

text \<open>The rows of a breakdown in the requested currency, with their total.\<close>

record 'r breakdown =
  bd_rows :: "'r list"
  bd_total_cost :: rat
  bd_start :: int
  bd_end :: int

definition in_currency :: "('r \<Rightarrow> string) \<Rightarrow> ('r \<Rightarrow> rat) \<Rightarrow> string \<Rightarrow> int \<Rightarrow> int \<Rightarrow> 'r list \<Rightarrow> 'r breakdown" where
  "in_currency cur_of cost_of cur s e rows =
     (let sel = filter (\<lambda>r. cur_of r = cur) rows
      in \<lparr>bd_rows = sel, bd_total_cost = dec_sum (map cost_of sel), bd_start = s, bd_end = e\<rparr>)"

definition route_providers ::
  "account_env \<Rightarrow> request \<Rightarrow> ident \<Rightarrow> int \<Rightarrow> int \<Rightarrow> string \<Rightarrow> dimensions \<Rightarrow> dashboard_db
   \<Rightarrow> http_error + provider_metrics breakdown" where
  "route_providers env rq org s e cur d db =
     with_member env rq org db (and_then (check_range s e) (\<lambda>_.
       Inr (in_currency pv_currency pv_total_cost cur s e (dashboard_get_provider_breakdown org s e d db))))"

definition route_models ::
  "account_env \<Rightarrow> request \<Rightarrow> ident \<Rightarrow> int \<Rightarrow> int \<Rightarrow> int \<Rightarrow> string \<Rightarrow> dimensions \<Rightarrow> dashboard_db
   \<Rightarrow> http_error + model_metrics breakdown" where
  "route_models env rq org s e limit cur d db =
     with_member env rq org db (and_then (check_limit limit) (\<lambda>n. and_then (check_range s e) (\<lambda>_.
       Inr (in_currency mi_currency mi_total_cost cur s e (dashboard_get_model_breakdown org s e n d db)))))"

definition route_projects ::
  "account_env \<Rightarrow> request \<Rightarrow> ident \<Rightarrow> int \<Rightarrow> int \<Rightarrow> string \<Rightarrow> dimensions \<Rightarrow> dashboard_db
   \<Rightarrow> http_error + project_metrics breakdown" where
  "route_projects env rq org s e cur d db =
     with_member env rq org db (and_then (check_range s e) (\<lambda>_.
       and_then (dashboard_get_project_breakdown org s e d db) (\<lambda>rows.
         Inr (in_currency ji_currency ji_total_cost cur s e rows))))"

record organization_dashboard =
  od_start :: int
  od_end :: int
  od_currency :: string
  od_overview :: overview_block
  od_providers :: "provider_item list"
  od_top_models :: "model_item list"
  od_projects :: "project_item list"
  od_daily_trend :: "trend_point list"

definition route_organization ::
  "(int \<Rightarrow> string) \<Rightarrow> account_env \<Rightarrow> request \<Rightarrow> ident \<Rightarrow> int option \<Rightarrow> int option \<Rightarrow> string \<Rightarrow> dashboard_db
   \<Rightarrow> http_error + organization_dashboard" where
  "route_organization isodate env rq org start_date end_date cur db =
     with_member env rq org db
       (let today = today_of (rq_now rq);
            e = (case end_date of None \<Rightarrow> today | Some x \<Rightarrow> x);
            s = (case start_date of None \<Rightarrow> first_of_month e | Some x \<Rightarrow> x)
        in and_then (case (start_date, end_date) of (Some a, Some b) \<Rightarrow> check_range a b | _ \<Rightarrow> Inr ()) (\<lambda>_.
           let data = dashboard_get_overview org today db;
               providers = dashboard_get_provider_breakdown org s e no_filter db;
               models = dashboard_get_model_breakdown org s e 5 no_filter db
           in and_then (dashboard_get_project_breakdown org s e no_filter db) (\<lambda>projects.
              let trend = dashboard_get_time_series isodate org (today - 29) today ''daily'' no_filter db
              in Inr \<lparr>od_start = s, od_end = e, od_currency = cur, od_overview = overview_block.truncate data,
                      od_providers = map provider_item.truncate (filter (\<lambda>r. pv_currency r = cur) providers),
                      od_top_models = map model_item.truncate (filter (\<lambda>r. mi_currency r = cur) models),
                      od_projects = map project_item.truncate (filter (\<lambda>r. ji_currency r = cur) projects),
                      od_daily_trend = map trend_point.truncate (filter (\<lambda>p. tp_currency p = cur) trend)\<rparr>)))"

definition route_kpis ::
  "account_env \<Rightarrow> request \<Rightarrow> ident \<Rightarrow> int \<Rightarrow> int \<Rightarrow> string \<Rightarrow> dimensions \<Rightarrow> dashboard_db \<Rightarrow> http_error + kpis" where
  "route_kpis env rq org s e cur d db =
     with_member env rq org db (and_then (check_range s e) (\<lambda>_.
       Inr ((dashboard_get_kpis org s e d db)\<lparr>kp_currency := cur\<rparr>)))"

definition route_heatmap ::
  "account_env \<Rightarrow> request \<Rightarrow> ident \<Rightarrow> int \<Rightarrow> int \<Rightarrow> string \<Rightarrow> dimensions \<Rightarrow> dashboard_db \<Rightarrow> http_error + heat_cell list" where
  "route_heatmap env rq org s e cur d db =
     with_member env rq org db (and_then (check_range s e) (\<lambda>_.
       Inr (filter (\<lambda>c. ht_currency c = cur) (dashboard_get_heatmap org s e d db))))"

definition route_activity ::
  "account_env \<Rightarrow> request \<Rightarrow> ident \<Rightarrow> int \<Rightarrow> dashboard_db \<Rightarrow> http_error + activity" where
  "route_activity env rq org limit db =
     with_member env rq org db (and_then (check_limit limit) (\<lambda>n. dashboard_get_recent_activity org n db))"

record budget_summary =
  bu_budgets :: "budget_evaluation list"
  bu_currency :: string
  bu_total_budgeted :: rat
  bu_total_spent :: rat
  bu_total_remaining :: rat
  bu_active_alerts :: nat
  bu_critical_alerts :: nat
  bu_projected_eom_spend :: rat

definition open_budget_alerts :: "ident \<Rightarrow> dashboard_db \<Rightarrow> alert list" where
  "open_budget_alerts org db =
     concat (map (\<lambda>ty. alerts_for_org org (Some OPEN) None (Some ty) None None None 200
       (as_alerts (ac_alerts (db_accounts db)))) [BUDGET_THRESHOLD, BUDGET_EXCEEDED])"

text \<open>The budget of the projection; it is never stored, so the columns of a row are arbitrary.\<close>

definition virtual_budget :: "ident \<Rightarrow> string \<Rightarrow> budget" where
  "virtual_budget org cur =
     \<lparr>row_id = 0, row_created_at = 0, row_updated_at = 0, row_deleted_at = None, row_deleted_by = None,
      bg_organization_id = org, bg_name = ''__organization_projection__'', bg_scope_type = BS_ORGANIZATION,
      bg_scope_project_id = None, bg_scope_provider = None, bg_scope_model = None, bg_amount = 1, bg_currency = cur,
      bg_period = MONTHLY, bg_custom_start = None, bg_custom_end = None, bg_thresholds = [100], bg_enabled = True,
      bg_created_by = None\<rparr>"

definition route_budget_summary ::
  "account_env \<Rightarrow> request \<Rightarrow> ident \<Rightarrow> string \<Rightarrow> dashboard_db \<Rightarrow> http_error + budget_summary" where
  "route_budget_summary env rq org cur db =
     with_member env rq org db
       (let today = fromordinal (today_of (rq_now rq));
            es = filter (\<lambda>e. bg_currency (be_budget e) = cur)
              (evaluate_organization (db_costs db) (ac_budgets (db_accounts db)) org today);
            budgeted = dec_sum (map (bg_amount \<circ> be_budget) es);
            spent = dec_sum (map be_spend es);
            alerts = open_budget_alerts org db
        in Inr \<lparr>bu_budgets = es, bu_currency = cur, bu_total_budgeted = budgeted, bu_total_spent = spent,
                bu_total_remaining = dec_add budgeted (- spent), bu_active_alerts = length alerts,
                bu_critical_alerts = length (filter (\<lambda>a. al_severity a = HIGH \<or> al_severity a = CRITICAL) alerts),
                bu_projected_eom_spend = be_projected (evaluate_budget (db_costs db) (virtual_budget org cur) today)\<rparr>)"

subsection \<open>Analytics\<close>

definition route_usage_summary ::
  "account_env \<Rightarrow> request \<Rightarrow> ident \<Rightarrow> int \<Rightarrow> int \<Rightarrow> dashboard_db \<Rightarrow> http_error + usage_summary" where
  "route_usage_summary env rq org s e db = with_member env rq org db (Inr (analytics_get_usage_summary org s e db))"

definition route_cost_summary ::
  "account_env \<Rightarrow> request \<Rightarrow> ident \<Rightarrow> int \<Rightarrow> int \<Rightarrow> dashboard_db \<Rightarrow> http_error + cost_summary" where
  "route_cost_summary env rq org s e db = with_member env rq org db (Inr (analytics_get_cost_summary org s e db))"

definition route_analytics_providers ::
  "account_env \<Rightarrow> request \<Rightarrow> ident \<Rightarrow> int \<Rightarrow> int \<Rightarrow> dashboard_db
   \<Rightarrow> http_error + ((string \<times> string) \<times> cost_totals) list" where
  "route_analytics_providers env rq org s e db =
     with_member env rq org db (Inr (map fst (analytics_get_provider_breakdown org s e no_filter db)))"

definition route_analytics_models ::
  "account_env \<Rightarrow> request \<Rightarrow> ident \<Rightarrow> int \<Rightarrow> int \<Rightarrow> string option \<Rightarrow> dashboard_db
   \<Rightarrow> http_error + ((string \<times> string \<times> string) \<times> cost_totals) list" where
  "route_analytics_models env rq org s e provider db =
     with_member env rq org db
       (let rows = analytics_get_model_breakdown org s e no_filter db
        in Inr (case provider of None \<Rightarrow> rows | Some [] \<Rightarrow> rows | Some p \<Rightarrow> filter (\<lambda>((q, _), _). q = p) rows))"

definition route_analytics_projects ::
  "account_env \<Rightarrow> request \<Rightarrow> ident \<Rightarrow> int \<Rightarrow> int \<Rightarrow> dashboard_db
   \<Rightarrow> http_error + ((ident option \<times> string) \<times> cost_totals) list" where
  "route_analytics_projects env rq org s e db =
     with_member env rq org db (Inr (analytics_get_project_breakdown org s e no_filter db))"

text \<open>The combined summary names the organization in the path, whose dependency does not ask for an active
  organization.\<close>

definition route_org_summary ::
  "account_env \<Rightarrow> request \<Rightarrow> ident \<Rightarrow> int \<Rightarrow> int \<Rightarrow> dashboard_db \<Rightarrow> http_error + usage_summary \<times> currency_item list \<times> rat" where
  "route_org_summary env rq org s e db =
     and_then (get_current_membership env rq org (db_accounts db)) (\<lambda>_.
       let cost = analytics_get_cost_summary org s e db
       in Inr (analytics_get_usage_summary org s e db, cm_by_currency cost, cm_total_cost cost))"

end
