(* ===== verification/Dashboard_Laws.thy ===== *)
theory Dashboard_Laws
  imports Dashboard Access_Control
begin

text \<open>
  What the dashboard shows: the calendar behind its buckets, the amounts of a time series, and the isolation of
  organizations on the read routes.
\<close>

section \<open>Calendar\<close>

lemma days_before_year_1: "days_before_year 1 = 0"
  by (simp add: days_before_year_def)

lemma year_positive:
  assumes "1 \<le> n" and "n \<le> days_before_year (y + 1)"
  shows "1 \<le> y"
proof (rule ccontr)
  assume "\<not> 1 \<le> y"
  then have "days_before_year (y + 1) \<le> days_before_year 1" by (intro days_before_year_mono) simp
  with assms show False by (simp add: days_before_year_1)
qed

lemma days_before_year_bounds:
  "146097 * (y - 1) - 699 \<le> 400 * days_before_year y \<and> 400 * days_before_year y \<le> 146097 * (y - 1) + 396"
proof -
  define k where "k = y - 1"
  have "k = 4 * (k div 4) + k mod 4" "k = 100 * (k div 100) + k mod 100" "k = 400 * (k div 400) + k mod 400" by simp_all
  moreover have "0 \<le> k mod 4" "k mod 4 < 4" "0 \<le> k mod 100" "k mod 100 < 100" "0 \<le> k mod 400" "k mod 400 < 400" by simp_all
  moreover have "400 * days_before_year y = 146000 * k + 400 * (k div 4) - 400 * (k div 100) + 400 * (k div 400)"
    by (simp add: days_before_year_def k_def)
  ultimately show ?thesis unfolding k_def [symmetric] by linarith
qed

lemma year_of_day:
  "days_before_year (year_of_day n) < n \<and> n \<le> days_before_year (year_of_day n + 1)"
proof -
  define y where "y = 400 * (n - 1) div 146097 + 1"
  define r where "r = 400 * (n - 1) mod 146097"
  have "400 * (n - 1) = 146097 * (y - 1) + r" by (simp add: y_def r_def)
  moreover have "0 \<le> r" "r < 146097" by (simp_all add: r_def)
  moreover have "146097 * y = 146097 * (y - 1) + 146097" by simp
  ultimately have q: "146097 * (y - 1) \<le> 400 * (n - 1)" "400 * (n - 1) < 146097 * y" by linarith+
  have "400 * days_before_year (y - 1) < 400 * n" using days_before_year_bounds [of "y - 1"] q by (simp add: algebra_simps)
  then have lo: "days_before_year (y - 1) < n" by simp
  have "400 * n \<le> 400 * days_before_year (y + 2)" using days_before_year_bounds [of "y + 2"] q by (simp add: algebra_simps)
  then have hi: "n \<le> days_before_year (y + 2)" by simp
  have "year_of_day n = (if n \<le> days_before_year y then y - 1 else if days_before_year (y + 1) < n then y + 1 else y)"
    by (simp add: year_of_day_def y_def Let_def)
  with lo hi show ?thesis by (auto simp: add.assoc)
qed

lemma month_count:
  assumes "0 < r" and "r \<le> days_before_month y 13"
  defines "m \<equiv> int (length (filter (\<lambda>m. days_before_month y m < r) [1, 2, 3, 4, 5, 6, 7, 8, 9, 10, 11, 12]))"
  shows "1 \<le> m \<and> m \<le> 12 \<and> days_before_month y m < r \<and> r \<le> days_before_month y (m + 1)"
proof -
  let ?P = "\<lambda>m. days_before_month y m < r"
  have one: "?P 1" using assms(1) by (simp add: days_before_month_def)
  have step: "?P b \<Longrightarrow> ?P a" if "1 \<le> a" "a \<le> b" for a b
    using days_before_month_mono [OF that, of y] by simp
  have m13: "\<not> ?P 13" using assms(2) by simp
  have len: "filter ?P [1, 2, 3, 4, 5, 6, 7, 8, 9, 10, 11, 12 :: int] = filter ?P [1..12]"
    by (simp add: upto_rec1)
  define k where "k = Max {j. 1 \<le> j \<and> j \<le> 12 \<and> ?P j}"
  have fin: "finite {j. 1 \<le> j \<and> j \<le> 12 \<and> ?P j}" by (rule finite_subset [of _ "{1..12}"]) auto
  have "1 \<in> {j. 1 \<le> j \<and> j \<le> 12 \<and> ?P j}" using one by simp
  then have "k \<in> {j. 1 \<le> j \<and> j \<le> 12 \<and> ?P j}" unfolding k_def by (intro Max_in [OF fin]) blast
  then have k: "1 \<le> k" "k \<le> 12" "?P k" by simp_all
  have above: "\<not> ?P j" if "k < j" "j \<le> 13" for j
  proof (cases "j \<le> 12")
    case True
    show ?thesis
    proof
      assume "?P j"
      with True k that have "j \<in> {j. 1 \<le> j \<and> j \<le> 12 \<and> ?P j}" by simp
      then have "j \<le> k" unfolding k_def by (rule Max_ge [OF fin])
      with that show False by simp
    qed
  next
    case False
    with that have "j = 13" by simp
    with m13 show ?thesis by blast
  qed
  have "filter ?P [1..12] = filter ?P ([1..k] @ [k + 1..12])"
    using k by (simp add: upto_split2 [of 1 k 12])
  also have "\<dots> = [1..k]"
  proof -
    have "filter ?P [1..k] = [1..k]" using k step by (auto simp: filter_id_conv)
    moreover have "filter ?P [k + 1..12] = []" using above by (auto simp: filter_empty_conv)
    ultimately show ?thesis by simp
  qed
  finally have "m = k" using k unfolding m_def len by simp
  with k above [of "k + 1"] show ?thesis by simp
qed

lemma fromordinal_valid:
  assumes "1 \<le> n"
  shows "valid_date (fromordinal n) \<and> ordinal (fromordinal n) = n"
proof -
  define y where "y = year_of_day n"
  define r where "r = n - days_before_year y"
  define m where "m = int (length (filter (\<lambda>m. days_before_month y m < r) [1, 2, 3, 4, 5, 6, 7, 8, 9, 10, 11, 12]))"
  have "0 < r" "r \<le> days_before_month y 13"
    using year_of_day [of n] days_before_year_next [of y] by (simp_all add: r_def y_def)
  then have m: "1 \<le> m" "m \<le> 12" "days_before_month y m < r" "r \<le> days_before_month y (m + 1)"
    using month_count [of r y] unfolding m_def by blast+
  have "1 \<le> y" using year_positive [OF assms] year_of_day [of n] by (simp add: y_def)
  moreover have f: "fromordinal n = \<lparr>dt_year = y, dt_month = m, dt_day = r - days_before_month y m\<rparr>"
    by (simp add: fromordinal_def Let_def y_def r_def m_def)
  ultimately show ?thesis
    using m days_before_month_next [OF m(1), of y] by (simp add: valid_date_def ordinal_def r_def)
qed

text \<open>Two days have the same ISO year and week when they have the same Monday.\<close>

lemma isocalendar_week: "isocalendar a = isocalendar b \<longleftrightarrow> monday_of a = monday_of b"
proof
  assume eq: "isocalendar a = isocalendar b"
  define t u where "t = monday_of a + 3" and "u = monday_of b + 3"
  have y: "year_of_day t = year_of_day u" using eq by (simp add: isocalendar_def Let_def t_def u_def)
  define d where "d = days_before_year (year_of_day t) + 1"
  have w: "(t - d) div 7 = (u - d) div 7"
    using eq y by (simp add: isocalendar_def Let_def t_def [symmetric] u_def [symmetric] d_def algebra_simps)
  have tu: "t mod 7 = 4 \<and> u mod 7 = 4" unfolding t_def u_def monday_of_def by presburger
  have "t - u = (t - d) mod 7 - (u - d) mod 7"
    using w mult_div_mod_eq [of 7 "t - d"] mult_div_mod_eq [of 7 "u - d"] by linarith
  moreover have "(t - d) mod 7 = (u - d) mod 7" using tu by (intro mod_diff_cong) simp_all
  ultimately show "monday_of a = monday_of b" by (simp add: t_def u_def)
qed (simp add: isocalendar_def)

lemma isocalendar_bounds:
  assumes "1 \<le> a"
  shows "1 \<le> fst (isocalendar a) \<and> 1 \<le> snd (isocalendar a) \<and> snd (isocalendar a) \<le> 53"
proof -
  define t where "t = monday_of a + 3"
  have "monday_of a = 7 * ((a + 6) div 7) - 6" unfolding monday_of_def using mult_div_mod_eq [of 7 "a + 6"] by linarith
  moreover have "1 \<le> (a + 6) div 7" using assms by simp
  ultimately have t: "1 \<le> t" by (simp add: t_def)
  define y where "y = year_of_day t"
  have y: "days_before_year y < t" "t \<le> days_before_year (y + 1)" using year_of_day [of t] by (simp_all add: y_def)
  have "1 \<le> y" by (rule year_positive [OF t y(2)])
  moreover have "days_before_year (y + 1) \<le> days_before_year y + 366"
    using days_before_year_next [of y] by (simp add: year_length)
  then have "0 \<le> (t - days_before_year y - 1) div 7" "(t - days_before_year y - 1) div 7 \<le> 52" using y by simp_all
  ultimately show ?thesis by (simp add: isocalendar_def Let_def t_def [symmetric] y_def)
qed

section \<open>Keys of buckets\<close>

lemma show_nat_digits: "list_all is_digit (show_nat n)"
proof (induction n rule: less_induct)
  case (less n)
  then show ?case by (subst show_nat_eq) simp
qed

lemma digits_split:
  assumes "list_all is_digit a" "list_all is_digit b" "a @ CHR ''-'' # x = b @ CHR ''-'' # y"
  shows "a = b \<and> x = y"
proof -
  have "takeWhile is_digit (a @ CHR ''-'' # x) = a" "takeWhile is_digit (b @ CHR ''-'' # y) = b"
    using assms(1,2) by (simp_all add: list_all_iff is_digit_def)
  with assms(3) show ?thesis by auto
qed

lemma two_digits_inj: "m < 100 \<Longrightarrow> n < 100 \<Longrightarrow> two_digits m = two_digits n \<Longrightarrow> m = n"
  by (metis of_nat_eq_iff option.inject py_int_two_digits)

lemma week_key_eq:
  assumes "1 \<le> a" and "1 \<le> b"
  shows "week_key a = week_key b \<longleftrightarrow> monday_of a = monday_of b"
proof
  assume eq: "week_key a = week_key b"
  obtain y w where a: "isocalendar a = (y, w)" by (cases "isocalendar a")
  obtain y' w' where b: "isocalendar b = (y', w')" by (cases "isocalendar b")
  have bounds: "1 \<le> y" "1 \<le> w" "w \<le> 53" "1 \<le> y'" "1 \<le> w'" "w' \<le> 53"
    using isocalendar_bounds [OF assms(1)] isocalendar_bounds [OF assms(2)] a b by auto
  have "show_nat (nat y) @ CHR ''-'' # ''W'' @ two_digits (nat w) = show_nat (nat y') @ CHR ''-'' # ''W'' @ two_digits (nat w')"
    using eq by (simp add: week_key_def a b)
  from digits_split [OF show_nat_digits show_nat_digits this]
  have "nat y = nat y'" and "two_digits (nat w) = two_digits (nat w')" by (auto dest: show_nat_inj)
  moreover from this(2) have "nat w = nat w'" by (rule two_digits_inj [rotated 2]) (use bounds in auto)
  ultimately have "isocalendar a = isocalendar b" using a b bounds by (simp add: eq_nat_nat_iff)
  then show "monday_of a = monday_of b" by (simp only: isocalendar_week)
next
  assume "monday_of a = monday_of b"
  then show "week_key a = week_key b" by (simp add: week_key_def isocalendar_def)
qed

lemma month_key_eq:
  assumes "1 \<le> a" and "1 \<le> b"
  shows "month_key a = month_key b \<longleftrightarrow>
    dt_year (fromordinal a) = dt_year (fromordinal b) \<and> dt_month (fromordinal a) = dt_month (fromordinal b)"
proof
  let ?a = "fromordinal a" and ?b = "fromordinal b"
  assume eq: "month_key a = month_key b"
  have bounds: "1 \<le> dt_year ?a" "1 \<le> dt_month ?a" "dt_month ?a \<le> 12" "1 \<le> dt_year ?b" "1 \<le> dt_month ?b" "dt_month ?b \<le> 12"
    using fromordinal_valid [OF assms(1)] fromordinal_valid [OF assms(2)] by (simp_all add: valid_date_def)
  have "show_nat (nat (dt_year ?a)) @ CHR ''-'' # two_digits (nat (dt_month ?a))
      = show_nat (nat (dt_year ?b)) @ CHR ''-'' # two_digits (nat (dt_month ?b))"
    using eq by (simp add: month_key_def Let_def)
  from digits_split [OF show_nat_digits show_nat_digits this]
  have "nat (dt_year ?a) = nat (dt_year ?b)" and "two_digits (nat (dt_month ?a)) = two_digits (nat (dt_month ?b))"
    by (auto dest: show_nat_inj)
  moreover from this(2) have "nat (dt_month ?a) = nat (dt_month ?b)" by (rule two_digits_inj [rotated 2]) (use bounds in auto)
  ultimately show "dt_year ?a = dt_year ?b \<and> dt_month ?a = dt_month ?b" using bounds by (simp add: eq_nat_nat_iff)
qed (simp add: month_key_def Let_def)

section \<open>Amounts\<close>

text \<open>Amounts as the cost columns hold them: whole hundred-millionths, not negative. Their decimal sum is exact
  as long as the true sum has at most twenty digits before the point.\<close>

definition money :: "rat \<Rightarrow> bool" where
  "money x \<longleftrightarrow> 0 \<le> x \<and> of_int \<lfloor>x * 10 ^ 8\<rfloor> = x * 10 ^ 8"

lemma money_grid: "money x \<longleftrightarrow> (\<exists>k\<ge>0. x = of_int k / 10 ^ 8)"
proof
  assume "money x"
  define k where "k = \<lfloor>x * 10 ^ 8\<rfloor>"
  have x: "0 \<le> x" and k: "of_int k = x * 10 ^ 8" using \<open>money x\<close> unfolding money_def k_def by blast+
  from x have "0 \<le> k" unfolding k_def by simp
  moreover have "x = of_int k / 10 ^ 8" by (simp add: k)
  ultimately show "\<exists>k\<ge>0. x = of_int k / 10 ^ 8" by blast
next
  assume "\<exists>k\<ge>0. x = of_int k / 10 ^ 8"
  then obtain k where "0 \<le> k" and x: "x = of_int k / 10 ^ 8" by blast
  moreover have "x * 10 ^ 8 = of_int k" by (simp add: x)
  ultimately show "money x" unfolding money_def by (simp only: floor_of_int) simp
qed

lemma money_0 [simp]: "money 0"
  by (simp add: money_def)

lemma money_numeral [simp]: "money (numeral n)"
  unfolding money_grid by (rule exI [of _ "numeral n * 10 ^ 8"]) simp

lemma money_add: "money x \<Longrightarrow> money y \<Longrightarrow> money (x + y)"
  unfolding money_grid by (metis add_divide_distrib add_nonneg_nonneg of_int_add)

lemma money_nonneg: "money x \<Longrightarrow> 0 \<le> x"
  by (simp add: money_def)

lemma money_sum: "\<forall>x\<in>set xs. money x \<Longrightarrow> money (sum_list xs)"
  by (induction xs) (auto intro: money_add)

lemma money_ctx28:
  assumes "money x" and "x < 10 ^ 20"
  shows "ctx28 x = x"
proof -
  from assms(1) obtain k where k: "0 \<le> k" "x = of_int k / 10 ^ 8" unfolding money_grid by blast
  with assms(2) have "rat_of_int k < of_int (10 ^ 28)" by (simp add: divide_less_eq)
  then have "\<bar>k\<bar> < 10 ^ 28" using k(1) by (simp only: of_int_less_iff abs_of_nonneg)
  then show ?thesis unfolding k(2) by (rule ctx28_scaled)
qed

lemma dec_sum_exact:
  "\<forall>x\<in>set xs. money x \<Longrightarrow> sum_list xs < 10 ^ 20 \<Longrightarrow> dec_sum xs = sum_list xs"
proof (induction xs rule: rev_induct)
  case Nil
  then show ?case by (simp add: dec_sum_def)
next
  case (snoc x xs)
  have "0 \<le> x" "money (sum_list xs + x)" using snoc.prems(1) by (auto intro: money_nonneg money_add money_sum)
  with snoc have "dec_sum xs = sum_list xs" "ctx28 (sum_list xs + x) = sum_list xs + x"
    by (auto intro: money_ctx28)
  then show ?case by (simp add: dec_sum_def dec_add_def)
qed

lemma sum_filter_le:
  "\<forall>x\<in>set xs. 0 \<le> (f x :: rat) \<Longrightarrow> sum_list (map f (filter P xs)) \<le> sum_list (map f xs)"
  by (induction xs) auto

lemma two_parts_le:
  "\<forall>x\<in>set xs. 0 \<le> (f x :: rat) \<Longrightarrow> c \<noteq> c' \<Longrightarrow>
   sum_list (map f (filter (\<lambda>x. g x = c) xs)) + sum_list (map f (filter (\<lambda>x. g x = c') xs)) \<le> sum_list (map f xs)"
  by (induction xs) (auto simp: algebra_simps add_increasing)

section \<open>Buckets\<close>

lemma add_to_bucket_sel [simp]:
  "tp_date (add_to_bucket t p) = tp_date p" "tp_currency (add_to_bucket t p) = tp_currency p"
  "tp_cost (add_to_bucket t p) = dec_add (tp_cost p) (ct_total_cost t)"
  by (simp_all add: add_to_bucket_def)

lemma empty_bucket_sel [simp]:
  "tp_date (empty_bucket k c) = k" "tp_currency (empty_bucket k c) = c" "tp_cost (empty_bucket k c) = 0"
  by (simp_all add: empty_bucket_def)

lemma bucket_add_dates [simp]: "tp_date ` set (bucket_add k c t ps) = insert k (tp_date ` set ps)"
  by (induction ps) auto

lemma bucket_add_distinct: "distinct (map tp_date ps) \<Longrightarrow> distinct (map tp_date (bucket_add k c t ps))"
proof (induction ps)
  case (Cons p ps)
  have "tp_date p \<notin> tp_date ` set (bucket_add k c t ps)" if "tp_date p \<noteq> k" using that Cons.prems by simp
  with Cons show ?case by auto
qed simp

lemma bucket_add_cases:
  assumes "distinct (map tp_date ps)" and "p \<in> set (bucket_add k c t ps)"
  shows "(tp_date p \<noteq> k \<and> p \<in> set ps) \<or> (\<exists>q\<in>set ps. tp_date q = k \<and> p = add_to_bucket t q)
    \<or> (k \<notin> tp_date ` set ps \<and> p = add_to_bucket t (empty_bucket k c))"
  using assms by (induction ps) (auto simp: image_iff split: if_splits)

lemma buckets_snoc: "buckets key (rows @ [((a, c), t)]) = bucket_add (key a) c t (buckets key rows)"
  by (simp add: buckets_def)

definition rows_in :: "(int \<Rightarrow> string) \<Rightarrow> string \<Rightarrow> ((int \<times> string) \<times> cost_totals) list \<Rightarrow> ((int \<times> string) \<times> cost_totals) list" where
  "rows_in key k rows = filter (\<lambda>r. key (fst (fst r)) = k) rows"

lemma buckets_spec:
  "distinct (map tp_date (buckets key rows))
   \<and> tp_date ` set (buckets key rows) = (\<lambda>r. key (fst (fst r))) ` set rows
   \<and> (\<forall>p\<in>set (buckets key rows). tp_cost p = dec_sum (map (ct_total_cost \<circ> snd) (rows_in key (tp_date p) rows))
        \<and> (\<exists>r\<in>set rows. tp_currency p = snd (fst r)))"
proof (induction rows rule: rev_induct)
  case Nil
  then show ?case by (simp add: buckets_def)
next
  case (snoc r rows)
  obtain a c t where r: "r = ((a, c), t)" by (cases r) auto
  let ?ps = "buckets key rows"
  have d: "distinct (map tp_date ?ps)" and dates: "tp_date ` set ?ps = (\<lambda>r. key (fst (fst r))) ` set rows"
    and ih: "\<And>p. p \<in> set ?ps \<Longrightarrow> tp_cost p = dec_sum (map (ct_total_cost \<circ> snd) (rows_in key (tp_date p) rows))
        \<and> (\<exists>r\<in>set rows. tp_currency p = snd (fst r))"
    using snoc.IH by blast+
  have add: "dec_sum (xs @ [x]) = dec_add (dec_sum xs) x" for xs x by (simp add: dec_sum_def)
  have new: "tp_cost p = dec_sum (map (ct_total_cost \<circ> snd) (rows_in key (tp_date p) (rows @ [r])))
        \<and> (\<exists>r\<in>set (rows @ [r]). tp_currency p = snd (fst r))"
    if p: "p \<in> set (bucket_add (key a) c t ?ps)" for p
    using bucket_add_cases [OF d p]
  proof (elim disjE conjE bexE)
    assume "tp_date p \<noteq> key a" "p \<in> set ?ps"
    with ih [of p] show ?thesis by (auto simp: rows_in_def r)
  next
    fix q assume "q \<in> set ?ps" "tp_date q = key a" "p = add_to_bucket t q"
    with ih [of q] show ?thesis by (auto simp: rows_in_def r add)
  next
    assume k: "key a \<notin> tp_date ` set ?ps" and pe: "p = add_to_bucket t (empty_bucket (key a) c)"
    then have "rows_in key (key a) rows = []" unfolding dates by (auto simp: rows_in_def filter_empty_conv image_iff)
    with pe show ?thesis by (auto simp: rows_in_def r add dec_sum_def)
  qed
  have "distinct (map tp_date (bucket_add (key a) c t ?ps))" by (rule bucket_add_distinct [OF d])
  moreover have "tp_date ` set (bucket_add (key a) c t ?ps) = (\<lambda>r. key (fst (fst r))) ` set (rows @ [r])"
    by (simp add: dates r)
  ultimately show ?case unfolding r buckets_snoc using new r by blast
qed

section \<open>Time series\<close>

definition bucket_key :: "string \<Rightarrow> int \<Rightarrow> string" where
  "bucket_key g = (if g = ''weekly'' then week_key else month_key)"

definition same_bucket :: "string \<Rightarrow> int \<Rightarrow> int \<Rightarrow> bool" where
  "same_bucket g a b \<longleftrightarrow>
     (if g = ''weekly'' then monday_of a = monday_of b
      else dt_year (fromordinal a) = dt_year (fromordinal b) \<and> dt_month (fromordinal a) = dt_month (fromordinal b))"

lemma bucket_key_eq: "1 \<le> a \<Longrightarrow> 1 \<le> b \<Longrightarrow> bucket_key g a = bucket_key g b \<longleftrightarrow> same_bucket g a b"
  by (simp add: bucket_key_def same_bucket_def week_key_eq month_key_eq)

lemma bucketed_series:
  "g \<in> {''weekly'', ''monthly''} \<Longrightarrow>
   dashboard_get_time_series isodate org s e g d db = buckets (bucket_key g) (get_daily_trend org s e d (db_costs db))"
  by (auto simp: dashboard_get_time_series_def analytics_get_daily_trend_def bucket_key_def Let_def)

text \<open>The daily rows carry the records of their day and currency.\<close>

lemma daily_rows:
  "((a, c), t) \<in> set (get_daily_trend org s e d rows) \<longleftrightarrow>
     (\<exists>r\<in>set (period_rows org s e d rows). cr_usage_date r = a \<and> cr_currency r = c)
     \<and> t = totals_of (filter (\<lambda>r. cr_usage_date r = a \<and> cr_currency r = c) (period_rows org s e d rows))"
  by (auto simp: get_daily_trend_def totals_by_def group_rows_def)

lemma daily_row_money:
  assumes "\<forall>r\<in>set (period_rows org s e d rows). money (cr_total_cost r)"
    and "x \<in> set (get_daily_trend org s e d rows)"
  shows "money (ct_total_cost (snd x))"
proof -
  obtain a c t where x: "x = ((a, c), t)" by (cases x) auto
  show ?thesis using assms unfolding x daily_rows by (auto simp: totals_of_def intro!: money_sum)
qed

lemma daily_rows_sum:
  "sum_list (map (ct_total_cost \<circ> snd) (filter (\<lambda>x. P (fst x)) (get_daily_trend org s e d rows)))
   = sum_list (map cr_total_cost (filter (\<lambda>r. P (cr_usage_date r, cr_currency r)) (period_rows org s e d rows)))"
proof -
  have "sum_list (map (ct_total_cost \<circ> snd) (filter (\<lambda>x. P (fst x)) (get_daily_trend org s e d rows)))
      = sum_list (map (\<lambda>(k, t). if P k then ct_total_cost t else 0) (get_daily_trend org s e d rows))"
    by (simp add: sum_list_map_filter' split_def cong: map_cong)
  then show ?thesis unfolding get_daily_trend_def sum_list_sort_key sum_totals_by .
qed

text \<open>The records of a period hold money, and not too much of it.\<close>

definition sane_period :: "usage_cost_record list \<Rightarrow> bool" where
  "sane_period rs \<longleftrightarrow> (\<forall>r\<in>set rs. money (cr_total_cost r)) \<and> sum_list (map cr_total_cost rs) < 10 ^ 20"

lemma sane_part:
  assumes "sane_period rs"
  shows "sum_list (map cr_total_cost (filter P rs)) < 10 ^ 20"
proof -
  have "sum_list (map cr_total_cost (filter P rs)) \<le> sum_list (map cr_total_cost rs)"
    using assms by (intro sum_filter_le) (auto simp: sane_period_def money_nonneg)
  with assms show ?thesis by (simp add: sane_period_def)
qed

lemma daily_rows_dec_sum:
  assumes "sane_period (period_rows org s e d rows)"
  shows "dec_sum (map (ct_total_cost \<circ> snd) (filter (\<lambda>x. P (fst x)) (get_daily_trend org s e d rows)))
   = sum_list (map cr_total_cost (filter (\<lambda>r. P (cr_usage_date r, cr_currency r)) (period_rows org s e d rows)))"
  (is "dec_sum ?xs = ?r")
proof -
  have "\<forall>x\<in>set ?xs. money x" using assms daily_row_money by (force simp: sane_period_def)
  moreover have sum: "sum_list ?xs = ?r" by (rule daily_rows_sum)
  moreover have "?r < 10 ^ 20" by (rule sane_part [OF assms])
  ultimately show ?thesis by (simp only: dec_sum_exact)
qed

lemma bucket_cost:
  assumes "sane_period (period_rows org s e d rows)" and "p \<in> set (buckets key (get_daily_trend org s e d rows))"
  shows "tp_cost p = sum_list (map cr_total_cost (filter (\<lambda>r. key (cr_usage_date r) = tp_date p) (period_rows org s e d rows)))"
proof -
  have "tp_cost p = dec_sum (map (ct_total_cost \<circ> snd) (rows_in key (tp_date p) (get_daily_trend org s e d rows)))"
    using buckets_spec assms(2) by blast
  then show ?thesis
    unfolding rows_in_def daily_rows_dec_sum [OF assms(1), of "\<lambda>k. key (fst k) = tp_date p"] by simp
qed

lemma bucket_dates:
  "tp_date ` set (buckets key (get_daily_trend org s e d rows)) = (key \<circ> cr_usage_date) ` set (period_rows org s e d rows)"
proof -
  have "fst ` fst ` set (get_daily_trend org s e d rows) = cr_usage_date ` set (period_rows org s e d rows)"
  proof (intro equalityI subsetI)
    fix a assume "a \<in> fst ` fst ` set (get_daily_trend org s e d rows)"
    then obtain c t where "((a, c), t) \<in> set (get_daily_trend org s e d rows)" by force
    then show "a \<in> cr_usage_date ` set (period_rows org s e d rows)" unfolding daily_rows by blast
  next
    fix a assume "a \<in> cr_usage_date ` set (period_rows org s e d rows)"
    then obtain c t where "((a, c), t) \<in> set (get_daily_trend org s e d rows)" unfolding daily_rows by blast
    then show "a \<in> fst ` fst ` set (get_daily_trend org s e d rows)" by force
  qed
  moreover have "tp_date ` set (buckets key (get_daily_trend org s e d rows))
      = key ` fst ` fst ` set (get_daily_trend org s e d rows)"
    using buckets_spec [of key "get_daily_trend org s e d rows"] by (simp add: image_image)
  ultimately show ?thesis by (simp add: image_comp)
qed

text \<open>All buckets together hold all the money of the period.\<close>

lemma buckets_total:
  assumes sane: "sane_period (period_rows org s e d rows)"
  shows "dec_sum (map tp_cost (buckets key (get_daily_trend org s e d rows)))
    = sum_list (map cr_total_cost (period_rows org s e d rows))"
proof -
  let ?ps = "buckets key (get_daily_trend org s e d rows)" and ?rs = "period_rows org s e d rows"
  have cost: "map tp_cost ?ps = map (\<lambda>k. sum_list (map cr_total_cost (filter (\<lambda>r. (key \<circ> cr_usage_date) r = k) ?rs))) (map tp_date ?ps)"
    using bucket_cost [OF sane] by simp
  have d: "distinct (map tp_date ?ps)" using buckets_spec by blast
  have "set (map (key \<circ> cr_usage_date) ?rs) \<subseteq> set (map tp_date ?ps)" by (simp add: bucket_dates)
  then have sum: "sum_list (map tp_cost ?ps) = sum_list (map cr_total_cost ?rs)"
    unfolding cost by (rule sum_groups [OF _ d])
  moreover have "\<forall>x\<in>set (map tp_cost ?ps). money x"
  proof
    fix x assume "x \<in> set (map tp_cost ?ps)"
    then obtain p where p: "p \<in> set ?ps" and x: "x = tp_cost p" by auto
    show "money x" unfolding x bucket_cost [OF sane p] using sane by (intro money_sum) (auto simp: sane_period_def)
  qed
  ultimately show ?thesis using sane by (simp only: dec_sum_exact sane_period_def)
qed

lemma bucket_currency:
  assumes "p \<in> set (buckets key (get_daily_trend org s e d rows))"
  shows "\<exists>r\<in>set (period_rows org s e d rows). tp_currency p = cr_currency r"
proof -
  obtain x where "x \<in> set (get_daily_trend org s e d rows)" and c: "tp_currency p = snd (fst x)"
    using buckets_spec assms by blast
  then have "((fst (fst x), snd (fst x)), snd x) \<in> set (get_daily_trend org s e d rows)" by simp
  then show ?thesis unfolding daily_rows c by metis
qed

lemma daily_series_total:
  assumes "sane_period (period_rows org s e d (db_costs db))" and "s \<le> e"
  shows "\<exists>resp. time_series_of isodate org s e ''daily'' cur d db = Inr resp
    \<and> ts_total_cost resp = period_spend org s e d cur (db_costs db)"
proof -
  have "map tp_cost (filter (\<lambda>p. tp_currency p = cur) (map (daily_point isodate) xs))
      = map (ct_total_cost \<circ> snd) (filter (\<lambda>x. snd (fst x) = cur) xs)" for xs
    by (induction xs) (auto simp: daily_point_def split_def)
  then have "dec_sum (map tp_cost (filter (\<lambda>p. tp_currency p = cur) (dashboard_get_time_series isodate org s e ''daily'' d db)))
      = period_spend org s e d cur (db_costs db)"
    using daily_rows_dec_sum [OF assms(1), of "\<lambda>k. snd k = cur"]
    by (simp add: dashboard_get_time_series_def analytics_get_daily_trend_def period_spend_def)
  with assms(2) show ?thesis by (simp add: time_series_of_def check_range_def guard_def Let_def)
qed

section \<open>Properties of a series\<close>

text \<open>C27: a weekly or monthly series of an organization has one point for each calendar week (Monday to Sunday) or
  month with usage, and the point's cost is exactly the cost of all its records of that week or month; when all
  records of the period are in the requested currency, the total of the response is exactly what the organization
  spent in the period, whatever the rounding of the intermediate sums.\<close>

theorem calendar_series:
  assumes "g \<in> {''weekly'', ''monthly''}" and "1 \<le> s" and "s \<le> e"
    and "sane_period (period_rows org s e d (db_costs db))"
  shows "distinct (map tp_date (dashboard_get_time_series isodate org s e g d db))
    \<and> tp_date ` set (dashboard_get_time_series isodate org s e g d db)
      = (bucket_key g \<circ> cr_usage_date) ` set (period_rows org s e d (db_costs db))
    \<and> (\<forall>a\<ge>1. \<forall>b\<ge>1. bucket_key g a = bucket_key g b \<longleftrightarrow> same_bucket g a b)
    \<and> (\<forall>p\<in>set (dashboard_get_time_series isodate org s e g d db). tp_cost p = sum_list (map cr_total_cost
        (filter (\<lambda>r. bucket_key g (cr_usage_date r) = tp_date p) (period_rows org s e d (db_costs db)))))
    \<and> ((\<forall>r\<in>set (period_rows org s e d (db_costs db)). cr_currency r = cur) \<longrightarrow>
        (\<exists>resp. time_series_of isodate org s e g cur d db = Inr resp
           \<and> ts_total_cost resp = period_spend org s e d cur (db_costs db)))"
proof (intro conjI impI ballI)
  note series = bucketed_series [OF assms(1), of isodate org s e d db]
  show "distinct (map tp_date (dashboard_get_time_series isodate org s e g d db))"
    unfolding series using buckets_spec by blast
  show "tp_date ` set (dashboard_get_time_series isodate org s e g d db)
      = (bucket_key g \<circ> cr_usage_date) ` set (period_rows org s e d (db_costs db))"
    unfolding series by (rule bucket_dates)
  show "\<forall>a\<ge>1. \<forall>b\<ge>1. bucket_key g a = bucket_key g b \<longleftrightarrow> same_bucket g a b" by (simp add: bucket_key_eq)
  show "tp_cost p = sum_list (map cr_total_cost
      (filter (\<lambda>r. bucket_key g (cr_usage_date r) = tp_date p) (period_rows org s e d (db_costs db))))"
    if "p \<in> set (dashboard_get_time_series isodate org s e g d db)" for p
    using that unfolding series by (rule bucket_cost [OF assms(4)])
  assume one: "\<forall>r\<in>set (period_rows org s e d (db_costs db)). cr_currency r = cur"
  then have "filter (\<lambda>p. tp_currency p = cur) (dashboard_get_time_series isodate org s e g d db)
      = buckets (bucket_key g) (get_daily_trend org s e d (db_costs db))"
    unfolding series by (auto simp: filter_id_conv dest!: bucket_currency)
  moreover have "period_spend org s e d cur (db_costs db) = sum_list (map cr_total_cost (period_rows org s e d (db_costs db)))"
    using one by (simp add: period_spend_def filter_True)
  ultimately show "\<exists>resp. time_series_of isodate org s e g cur d db = Inr resp
      \<and> ts_total_cost resp = period_spend org s e d cur (db_costs db)"
    using assms(3) buckets_total [OF assms(4)] by (simp add: time_series_of_def check_range_def guard_def Let_def)
qed

definition spent_on :: "ident \<Rightarrow> int \<Rightarrow> string \<Rightarrow> rat \<Rightarrow> usage_cost_record" where
  "spent_on ev dy cur cost = (sample_record ev cost)\<lparr>cr_organization_id := 10, cr_usage_date := dy, cr_currency := cur\<rparr>"

definition sample_db :: "usage_cost_record list \<Rightarrow> dashboard_db" where
  "sample_db costs = \<lparr>db_accounts = demo, db_costs = costs, db_events = [], db_runs = []\<rparr>"

lemma sample_period [simp]:
  "period_rows 10 s e no_filter [] = []"
  "period_rows 10 s e no_filter (spent_on ev dy cur cost # rs) =
     (if s \<le> dy \<and> dy \<le> e then [spent_on ev dy cur cost] else []) @ period_rows 10 s e no_filter rs"
  by (simp_all add: period_rows_def spent_on_def sample_record_def no_filter_def dimension_filters_def)

lemma spent_on_sel [simp]:
  "cr_total_cost (spent_on ev dy cur cost) = cost" "cr_currency (spent_on ev dy cur cost) = cur"
  "cr_usage_date (spent_on ev dy cur cost) = dy"
  by (simp_all add: spent_on_def sample_record_def)

lemma sample_db_costs [simp]: "db_costs (sample_db costs) = costs"
  by (simp add: sample_db_def)

theorem calendar_series_witness:
  "\<exists>resp. time_series_of (\<lambda>_. []) 10 1 30 ''weekly'' ''USD'' no_filter
       (sample_db [spent_on 41 10 ''USD'' 5, spent_on 42 11 ''USD'' 3, spent_on 43 20 ''USD'' 7]) = Inr resp
     \<and> ts_total_cost resp = 15"
proof -
  let ?db = "sample_db [spent_on 41 10 ''USD'' 5, spent_on 42 11 ''USD'' 3, spent_on 43 20 ''USD'' 7]"
  have "sane_period (period_rows 10 1 30 no_filter (db_costs ?db))"
    by (simp add: sane_period_def)
  moreover have "period_spend 10 1 30 no_filter ''USD'' (db_costs ?db) = 15" by (simp add: period_spend_def)
  ultimately show ?thesis
    using calendar_series [of "''weekly''" 1 30 10 no_filter ?db "\<lambda>_. []" "''USD''"] by simp
qed

text \<open>C28: in a weekly or monthly series currencies are added together under one of them. When a period lies within
  one week or month and has spending in two currencies, the total a caller sees for a currency is never what was
  spent in it: it is either nothing or the sum of all currencies, while the daily series of the same request is
  right.\<close>

theorem mixed_currencies_merge:
  assumes "g \<in> {''weekly'', ''monthly''}" and "1 \<le> s" and "s \<le> e"
    and "sane_period (period_rows org s e d (db_costs db))"
    and "\<forall>a\<in>{s..e}. same_bucket g s a"
    and "c \<noteq> c'" and "0 < period_spend org s e d c (db_costs db)" and "0 < period_spend org s e d c' (db_costs db)"
  shows "\<exists>week day. time_series_of isodate org s e g c d db = Inr week
    \<and> time_series_of isodate org s e ''daily'' c d db = Inr day
    \<and> ts_total_cost day = period_spend org s e d c (db_costs db)
    \<and> ts_total_cost week \<noteq> period_spend org s e d c (db_costs db)
    \<and> ts_total_cost week \<in> {0, sum_list (map cr_total_cost (period_rows org s e d (db_costs db)))}"
proof -
  let ?rs = "period_rows org s e d (db_costs db)"
  let ?ps = "buckets (bucket_key g) (get_daily_trend org s e d (db_costs db))"
  have dates: "tp_date ` set ?ps \<subseteq> {bucket_key g s}"
  proof -
    have "bucket_key g (cr_usage_date r) = bucket_key g s" if "r \<in> set ?rs" for r
      using that assms(2,5) bucket_key_eq [of "cr_usage_date r" s g] by (auto simp: period_rows_def same_bucket_def)
    then show ?thesis unfolding bucket_dates by auto
  qed
  have "length ?ps \<le> 1"
  proof -
    have "length ?ps = card (tp_date ` set ?ps)"
      using buckets_spec by (metis distinct_card length_map list.set_map)
    also have "\<dots> \<le> card {bucket_key g s}" by (rule card_mono) (use dates in auto)
    finally show ?thesis by simp
  qed
  then consider "?ps = []" | p where "?ps = [p]" by (cases ?ps) auto
  then have sel: "filter (\<lambda>p. tp_currency p = c) ?ps \<in> {[], ?ps}" by cases auto
  define w where "w = dec_sum (map tp_cost (filter (\<lambda>p. tp_currency p = c) ?ps))"
  have w: "w \<in> {0, sum_list (map cr_total_cost ?rs)}"
    using sel buckets_total [OF assms(4)] unfolding w_def by (auto simp: dec_sum_def)
  have "period_spend org s e d c (db_costs db) + period_spend org s e d c' (db_costs db) \<le> sum_list (map cr_total_cost ?rs)"
    unfolding period_spend_def
    using assms(4,6) by (intro two_parts_le) (auto simp: sane_period_def money_nonneg)
  with w assms(7,8) have "w \<noteq> period_spend org s e d c (db_costs db)" by auto
  moreover obtain week where "time_series_of isodate org s e g c d db = Inr week" "ts_total_cost week = w"
    using assms(3) unfolding time_series_of_def bucketed_series [OF assms(1)] w_def
    by (simp add: check_range_def guard_def Let_def)
  moreover obtain dy where "time_series_of isodate org s e ''daily'' c d db = Inr dy"
    "ts_total_cost dy = period_spend org s e d c (db_costs db)"
    using daily_series_total [OF assms(4,3)] by blast
  ultimately show ?thesis using w by auto
qed

theorem mixed_currencies_merge_witness:
  "\<exists>week. time_series_of (\<lambda>_. []) 10 8 14 ''weekly'' ''USD'' no_filter
       (sample_db [spent_on 41 10 ''USD'' 5, spent_on 42 11 ''EUR'' 7]) = Inr week
     \<and> ts_total_cost week \<in> {0, 12}"
proof -
  let ?db = "sample_db [spent_on 41 10 ''USD'' 5, spent_on 42 11 ''EUR'' 7]"
  have "\<forall>a\<in>{8..14}. same_bucket ''weekly'' 8 a" unfolding same_bucket_def monday_of_def by auto presburger
  moreover have "sane_period (period_rows 10 8 14 no_filter (db_costs ?db))" by (simp add: sane_period_def)
  ultimately show ?thesis
    using mixed_currencies_merge [of "''weekly''" 8 14 10 no_filter ?db "''USD''" "''EUR''" "\<lambda>_. []"]
    by (auto simp: period_spend_def)
qed

section \<open>Projects beyond the first page\<close>

text \<open>The page of 500 projects is cut to 100, so the spending of a project that is not among the first hundred of
  its organization is shown as \<open>Unassigned\<close>, without its budget.\<close>

theorem later_projects_unassigned:
  assumes "table_wf (ac_projects (db_accounts db))" and "p \<in> set (ac_projects (db_accounts db))"
    and "p \<notin> set (take 100 (order_rows True (filter (\<lambda>q. pj_organization_id q = org) (active_query (ac_projects (db_accounts db))))))"
    and "dashboard_get_project_breakdown org s e d db = Inr rows" and "r \<in> set rows" and "ji_project_id r = Some (row_id p)"
  shows "ji_project_name r = ''Unassigned'' \<and> ji_budget r = None \<and> ji_budget_utilization_pct r = None"
proof -
  let ?sel = "filter (\<lambda>q. pj_organization_id q = org) (active_query (ac_projects (db_accounts db)))"
  obtain page where page: "pj_list_by_org org 500 None ''asc'' (ac_projects (db_accounts db)) = Inr page"
    and rows: "rows = map (project_row (map_of (rev (map (\<lambda>p. (row_id p, p)) (pg_items page)))))
      (analytics_get_project_breakdown org s e d db)"
    using assms(4) by (auto simp: dashboard_get_project_breakdown_def and_then_Inr_iff map_err_def Let_def split: sum.splits)
  have "py_lower ''asc'' \<noteq> ''desc''" by code_simp
  then have "set (pg_items page) \<subseteq> set (take 100 (order_rows True ?sel))"
    using page by (auto simp: pj_list_by_org_def list_page_def and_then_Inr_iff Let_def split: if_splits)
  moreover have "set (take 100 (order_rows True ?sel)) \<subseteq> set (ac_projects (db_accounts db))"
    using set_take_subset by (fastforce simp: order_rows_def active_query_def)
  ultimately have "row_id p \<notin> row_id ` set (pg_items page)"
    using assms(1-3) unfolding table_wf_def by (auto simp: distinct_map dest: inj_onD)
  then have "map_of (rev (map (\<lambda>p. (row_id p, p)) (pg_items page))) (row_id p) = None"
    by (auto simp: map_of_eq_None_iff)
  moreover obtain k where "r = project_row (map_of (rev (map (\<lambda>p. (row_id p, p)) (pg_items page)))) k"
    using assms(5) rows by auto
  ultimately show ?thesis
    using assms(6) by (cases k) (auto simp: project_row_def Let_def budget_utilization_def split: prod.splits)
qed

section \<open>Isolation of organizations\<close>

text \<open>The arguments of a read route, and the answers of all of them.\<close>

record read_args =
  ra_start :: int
  ra_end :: int
  ra_from :: "int option"
  ra_until :: "int option"
  ra_granularity :: string
  ra_currency :: string
  ra_filters :: dimensions
  ra_limit :: int
  ra_provider :: "string option"

datatype read_response =
    Rs_overview overview | Rs_series time_series_response | Rs_providers "provider_metrics breakdown"
  | Rs_models "model_metrics breakdown" | Rs_projects "project_metrics breakdown"
  | Rs_organization organization_dashboard | Rs_kpis kpis | Rs_heatmap "heat_cell list" | Rs_activity activity
  | Rs_budgets budget_summary | Rs_usage usage_summary | Rs_cost cost_summary
  | Rs_by_provider "((string \<times> string) \<times> cost_totals) list"
  | Rs_by_model "((string \<times> string \<times> string) \<times> cost_totals) list"
  | Rs_by_project "((ident option \<times> string) \<times> cost_totals) list"
  | Rs_summary "usage_summary \<times> currency_item list \<times> rat"

definition read_routes ::
  "(int \<Rightarrow> string) \<Rightarrow> account_env \<Rightarrow> request \<Rightarrow> ident \<Rightarrow> read_args \<Rightarrow> dashboard_db \<Rightarrow> (http_error + read_response) list" where
  "read_routes isodate env rq org a db =
     (let s = ra_start a; e = ra_end a; cur = ra_currency a; d = ra_filters a
      in [map_sum id Rs_overview (route_overview env rq org cur db),
          map_sum id Rs_series (route_time_series isodate env rq org s e (ra_granularity a) cur d db),
          map_sum id Rs_providers (route_providers env rq org s e cur d db),
          map_sum id Rs_models (route_models env rq org s e (ra_limit a) cur d db),
          map_sum id Rs_projects (route_projects env rq org s e cur d db),
          map_sum id Rs_organization (route_organization isodate env rq org (ra_from a) (ra_until a) cur db),
          map_sum id Rs_kpis (route_kpis env rq org s e cur d db),
          map_sum id Rs_heatmap (route_heatmap env rq org s e cur d db),
          map_sum id Rs_activity (route_activity env rq org (ra_limit a) db),
          map_sum id Rs_budgets (route_budget_summary env rq org cur db),
          map_sum id Rs_usage (route_usage_summary env rq org s e db),
          map_sum id Rs_cost (route_cost_summary env rq org s e db),
          map_sum id Rs_by_provider (route_analytics_providers env rq org s e db),
          map_sum id Rs_by_model (route_analytics_models env rq org s e (ra_provider a) db),
          map_sum id Rs_by_project (route_analytics_projects env rq org s e db),
          map_sum id Rs_summary (route_org_summary env rq org s e db)])"

text \<open>Two databases that hold the same data of one organization.\<close>

definition same_tenant :: "ident \<Rightarrow> dashboard_db \<Rightarrow> dashboard_db \<Rightarrow> bool" where
  "same_tenant org db db' \<longleftrightarrow>
     filter (\<lambda>r. cr_organization_id r = org) (db_costs db) = filter (\<lambda>r. cr_organization_id r = org) (db_costs db')
     \<and> (\<forall>r\<in>set (db_costs db). cr_organization_id r = org \<longrightarrow>
          event_time db (cr_usage_event_id r) = event_time db' (cr_usage_event_id r))
     \<and> filter (\<lambda>r. cn_organization_id r = org) (db_runs db) = filter (\<lambda>r. cn_organization_id r = org) (db_runs db')
     \<and> (let a = db_accounts db; a' = db_accounts db'
        in filter (\<lambda>p. pj_organization_id p = org) (ac_projects a) = filter (\<lambda>p. pj_organization_id p = org) (ac_projects a')
         \<and> filter (\<lambda>c. pc_organization_id c = org) (ac_connections a) = filter (\<lambda>c. pc_organization_id c = org) (ac_connections a')
         \<and> filter (\<lambda>b. bg_organization_id b = org) (ac_budgets a) = filter (\<lambda>b. bg_organization_id b = org) (ac_budgets a')
         \<and> filter (\<lambda>x. al_organization_id x = org) (as_alerts (ac_alerts a)) = filter (\<lambda>x. al_organization_id x = org) (as_alerts (ac_alerts a')))"

lemma filter_more:
  assumes "filter P xs = filter P ys"
  shows "filter (\<lambda>x. P x \<and> Q x) xs = filter (\<lambda>x. P x \<and> Q x) ys"
proof -
  have "filter Q (filter P xs) = filter Q (filter P ys)" by (simp only: assms)
  then show ?thesis unfolding filter_filter .
qed

lemma filter_active:
  assumes "filter P xs = filter P ys"
  shows "filter (\<lambda>x. P x \<and> Q x) (active_query xs) = filter (\<lambda>x. P x \<and> Q x) (active_query ys)"
  using filter_more [OF assms, of "\<lambda>x. Q x \<and> row_deleted_at x = None"]
  by (simp add: active_query_def conj_ac)

lemma filter_active1:
  assumes "filter P xs = filter P ys"
  shows "filter P (active_query xs) = filter P (active_query ys)"
  using filter_active [OF assms, of "\<lambda>_. True"] by simp

lemma tenant_rows:
  assumes "same_tenant org db db'"
  shows "period_rows org s e d (db_costs db) = period_rows org s e d (db_costs db')"
proof -
  have "filter (\<lambda>r. cr_organization_id r = org) (db_costs db) = filter (\<lambda>r. cr_organization_id r = org) (db_costs db')"
    using assms unfolding same_tenant_def by blast
  then show ?thesis unfolding period_rows_def by (rule filter_more)
qed

lemma tenant_totals:
  assumes "same_tenant org db db'"
  shows "get_totals_by_org org s e d (db_costs db) = get_totals_by_org org s e d (db_costs db')"
    and "get_totals_by_provider org s e d (db_costs db) = get_totals_by_provider org s e d (db_costs db')"
    and "get_totals_by_model org s e n d (db_costs db) = get_totals_by_model org s e n d (db_costs db')"
    and "get_totals_by_project org s e n d (db_costs db) = get_totals_by_project org s e n d (db_costs db')"
    and "get_daily_trend org s e d (db_costs db) = get_daily_trend org s e d (db_costs db')"
  by (simp_all only: get_totals_by_org_def get_totals_by_provider_def get_totals_by_model_def
      get_totals_by_project_def get_daily_trend_def tenant_rows [OF assms])

lemma tenant_heatmap:
  assumes "same_tenant org db db'"
  shows "analytics_get_heatmap org s e d db = analytics_get_heatmap org s e d db'"
proof -
  have time: "event_time db (cr_usage_event_id r) = event_time db' (cr_usage_event_id r)"
    if "r \<in> set (period_rows org s e d (db_costs db'))" for r
  proof -
    have "r \<in> set (period_rows org s e d (db_costs db))" using that by (simp only: tenant_rows [OF assms])
    then have "r \<in> set (db_costs db)" "cr_organization_id r = org" by (simp_all add: period_rows_def)
    then show ?thesis using assms unfolding same_tenant_def by blast
  qed
  have cong: "List.map_filter f xs = List.map_filter g xs" if "\<forall>x\<in>set xs. f x = g x" for f g :: "usage_cost_record \<Rightarrow> (int \<times> usage_cost_record) option" and xs
    using that by (induction xs) (auto simp: map_filter_simps split: option.splits)
  have "List.map_filter (\<lambda>r. map_option (\<lambda>t. (t, r)) (event_time db (cr_usage_event_id r))) (period_rows org s e d (db_costs db'))
      = List.map_filter (\<lambda>r. map_option (\<lambda>t. (t, r)) (event_time db' (cr_usage_event_id r))) (period_rows org s e d (db_costs db'))"
    by (rule cong) (simp add: time)
  then show ?thesis by (simp only: analytics_get_heatmap_def get_heatmap_def tenant_rows [OF assms])
qed

lemma tenant_analytics:
  assumes "same_tenant org db db'"
  shows "analytics_get_usage_summary org s e db = analytics_get_usage_summary org s e db'"
    and "analytics_get_cost_summary org s e db = analytics_get_cost_summary org s e db'"
    and "analytics_get_provider_breakdown org s e d db = analytics_get_provider_breakdown org s e d db'"
    and "analytics_get_model_breakdown org s e d db = analytics_get_model_breakdown org s e d db'"
    and "analytics_get_project_breakdown org s e d db = analytics_get_project_breakdown org s e d db'"
    and "analytics_get_daily_trend org s e d db = analytics_get_daily_trend org s e d db'"
    and "analytics_get_top_models org s e n d db = analytics_get_top_models org s e n d db'"
    and "org_sums org s e d db = org_sums org s e d db'"
  by (simp_all only: analytics_get_usage_summary_def analytics_get_cost_summary_def analytics_get_provider_breakdown_def
      analytics_get_model_breakdown_def analytics_get_project_breakdown_def analytics_get_daily_trend_def
      analytics_get_top_models_def org_sums_def tenant_totals [OF assms])

lemma tenant_tables:
  assumes "same_tenant org db db'"
  shows "latest_run org db = latest_run org db'"
    and "pj_list_by_org org n c ord (ac_projects (db_accounts db)) = pj_list_by_org org n c ord (ac_projects (db_accounts db'))"
    and "cn_list_by_org org n c ord (db_runs db) = cn_list_by_org org n c ord (db_runs db')"
    and "pc_list_recent_failures org n (ac_connections (db_accounts db)) = pc_list_recent_failures org n (ac_connections (db_accounts db'))"
    and "list_enabled_for_org org (ac_budgets (db_accounts db)) = list_enabled_for_org org (ac_budgets (db_accounts db'))"
    and "open_budget_alerts org db = open_budget_alerts org db'"
proof -
  note parts = assms [unfolded same_tenant_def Let_def]
  have runs: "filter (\<lambda>r. cn_organization_id r = org) (db_runs db) = filter (\<lambda>r. cn_organization_id r = org) (db_runs db')"
    using parts by blast
  have projects: "filter (\<lambda>p. pj_organization_id p = org) (ac_projects (db_accounts db)) = filter (\<lambda>p. pj_organization_id p = org) (ac_projects (db_accounts db'))"
    using parts by blast
  have conns: "filter (\<lambda>c. pc_organization_id c = org) (ac_connections (db_accounts db)) = filter (\<lambda>c. pc_organization_id c = org) (ac_connections (db_accounts db'))"
    using parts by blast
  have budgets: "filter (\<lambda>b. bg_organization_id b = org) (ac_budgets (db_accounts db)) = filter (\<lambda>b. bg_organization_id b = org) (ac_budgets (db_accounts db'))"
    using parts by blast
  have alerts: "filter (\<lambda>x. al_organization_id x = org) (as_alerts (ac_alerts (db_accounts db))) = filter (\<lambda>x. al_organization_id x = org) (as_alerts (ac_alerts (db_accounts db')))"
    using parts by blast
  show "latest_run org db = latest_run org db'"
    by (simp only: latest_run_def filter_more [OF runs])
  show "pj_list_by_org org n c ord (ac_projects (db_accounts db)) = pj_list_by_org org n c ord (ac_projects (db_accounts db'))"
    by (simp only: pj_list_by_org_def list_page_def filter_active1 [OF projects])
  show "cn_list_by_org org n c ord (db_runs db) = cn_list_by_org org n c ord (db_runs db')"
    by (simp only: cn_list_by_org_def list_page_def filter_active1 [OF runs])
  show "pc_list_recent_failures org n (ac_connections (db_accounts db)) = pc_list_recent_failures org n (ac_connections (db_accounts db'))"
    by (simp only: pc_list_recent_failures_def filter_more [OF conns])
  show "list_enabled_for_org org (ac_budgets (db_accounts db)) = list_enabled_for_org org (ac_budgets (db_accounts db'))"
    by (simp only: list_enabled_for_org_def budgets_for_org_def filter_active [OF budgets])
  show "open_budget_alerts org db = open_budget_alerts org db'"
    by (simp only: open_budget_alerts_def alerts_for_org_def filter_active [OF alerts])
qed

lemma tenant_budgets:
  assumes "same_tenant org db db'"
  shows "evaluate_organization (db_costs db) (ac_budgets (db_accounts db)) org today
      = evaluate_organization (db_costs db') (ac_budgets (db_accounts db')) org today"
    and "bg_organization_id b = org \<Longrightarrow> evaluate_budget (db_costs db) b today = evaluate_budget (db_costs db') b today"
proof -
  show one: "evaluate_budget (db_costs db) b today = evaluate_budget (db_costs db') b today"
    if "bg_organization_id b = org" for b
    by (simp only: evaluate_budget_def that tenant_totals [OF assms])
  have "bg_organization_id b = org" if "b \<in> set (list_enabled_for_org org (ac_budgets (db_accounts db')))" for b
    using that by (simp add: list_enabled_for_org_def budgets_for_org_def)
  then show "evaluate_organization (db_costs db) (ac_budgets (db_accounts db)) org today
      = evaluate_organization (db_costs db') (ac_budgets (db_accounts db')) org today"
    unfolding evaluate_organization_def tenant_tables(5) [OF assms] by (intro map_cong refl one)
qed

lemma tenant_dashboard:
  assumes "same_tenant org db db'"
  shows "dashboard_get_overview org today db = dashboard_get_overview org today db'"
    and "dashboard_get_time_series isodate org s e g d db = dashboard_get_time_series isodate org s e g d db'"
    and "dashboard_get_provider_breakdown org s e d db = dashboard_get_provider_breakdown org s e d db'"
    and "dashboard_get_model_breakdown org s e n d db = dashboard_get_model_breakdown org s e n d db'"
    and "dashboard_get_project_breakdown org s e d db = dashboard_get_project_breakdown org s e d db'"
    and "dashboard_get_kpis org s e d db = dashboard_get_kpis org s e d db'"
    and "dashboard_get_heatmap org s e d db = dashboard_get_heatmap org s e d db'"
    and "dashboard_get_recent_activity org n db = dashboard_get_recent_activity org n db'"
  by (simp_all only: dashboard_get_overview_def dashboard_get_time_series_def dashboard_get_provider_breakdown_def
      dashboard_get_model_breakdown_def dashboard_get_project_breakdown_def dashboard_get_kpis_def
      dashboard_get_heatmap_def dashboard_get_recent_activity_def tenant_analytics [OF assms] tenant_totals [OF assms]
      tenant_tables [OF assms] tenant_heatmap [OF assms])

lemma is_ok_map_sum [simp]: "is_ok (map_sum id f r) = is_ok r"
  by (cases r) simp_all

lemmas read_route_defs = route_overview_def route_time_series_def route_providers_def route_models_def
  route_projects_def route_organization_def route_kpis_def route_heatmap_def route_activity_def
  route_budget_summary_def route_usage_summary_def route_cost_summary_def route_analytics_providers_def
  route_analytics_models_def route_analytics_projects_def

text \<open>Whoever gets an answer belongs to the organization.\<close>

definition is_member :: "account_env \<Rightarrow> request \<Rightarrow> ident \<Rightarrow> accounts \<Rightarrow> bool" where
  "is_member env rq org s \<longleftrightarrow>
     (case get_current_user env rq s of
        Inl _ \<Rightarrow> False
      | Inr u \<Rightarrow> (case get_by_org_and_email org (us_email u) (ac_members s) of Inr (Some _) \<Rightarrow> True | _ \<Rightarrow> False))"

lemma query_member: "get_query_org_membership env rq org s = Inr m \<Longrightarrow> is_member env rq org s"
  by (auto simp: get_query_org_membership_def ensure_org_membership_def and_then_Inr_iff or_else_def is_member_def
      split: if_splits sum.splits option.splits)

lemma current_member: "get_current_membership env rq org s = Inr m \<Longrightarrow> is_member env rq org s"
proof -
  assume "get_current_membership env rq org s = Inr m"
  then obtain u g where u: "get_current_user env rq s = Inr u" and g: "repo_get org (ac_orgs s) = Inr (Some g)"
    and m: "get_by_org_and_email (row_id g) (us_email u) (ac_members s) = Inr (Some m)"
    by (auto simp: get_current_membership_def get_current_org_def and_then_Inr_iff)
  from g have "g \<in> set (filter (\<lambda>r. row_id r = org) (active_query (ac_orgs s)))" unfolding repo_get_def by (rule scalar_one_mem)
  then have "row_id g = org" by simp
  with u m show ?thesis by (simp add: is_member_def)
qed

lemma with_member_member: "is_ok (with_member env rq org db body) \<Longrightarrow> is_member env rq org (db_accounts db)"
  by (cases "get_query_org_membership env rq org (db_accounts db)") (simp_all add: with_member_def query_member)

lemma read_member:
  shows "is_ok (route_overview env rq org cur db) \<Longrightarrow> is_member env rq org (db_accounts db)"
    and "is_ok (route_time_series isodate env rq org s e g cur d db) \<Longrightarrow> is_member env rq org (db_accounts db)"
    and "is_ok (route_providers env rq org s e cur d db) \<Longrightarrow> is_member env rq org (db_accounts db)"
    and "is_ok (route_models env rq org s e limit cur d db) \<Longrightarrow> is_member env rq org (db_accounts db)"
    and "is_ok (route_projects env rq org s e cur d db) \<Longrightarrow> is_member env rq org (db_accounts db)"
    and "is_ok (route_organization isodate env rq org s' e' cur db) \<Longrightarrow> is_member env rq org (db_accounts db)"
    and "is_ok (route_kpis env rq org s e cur d db) \<Longrightarrow> is_member env rq org (db_accounts db)"
    and "is_ok (route_heatmap env rq org s e cur d db) \<Longrightarrow> is_member env rq org (db_accounts db)"
    and "is_ok (route_activity env rq org limit db) \<Longrightarrow> is_member env rq org (db_accounts db)"
    and "is_ok (route_budget_summary env rq org cur db) \<Longrightarrow> is_member env rq org (db_accounts db)"
    and "is_ok (route_usage_summary env rq org s e db) \<Longrightarrow> is_member env rq org (db_accounts db)"
    and "is_ok (route_cost_summary env rq org s e db) \<Longrightarrow> is_member env rq org (db_accounts db)"
    and "is_ok (route_analytics_providers env rq org s e db) \<Longrightarrow> is_member env rq org (db_accounts db)"
    and "is_ok (route_analytics_models env rq org s e p db) \<Longrightarrow> is_member env rq org (db_accounts db)"
    and "is_ok (route_analytics_projects env rq org s e db) \<Longrightarrow> is_member env rq org (db_accounts db)"
  unfolding read_route_defs by (erule with_member_member)+

lemma summary_member: "is_ok (route_org_summary env rq org s e db) \<Longrightarrow> is_member env rq org (db_accounts db)"
  by (cases "get_current_membership env rq org (db_accounts db)") (simp_all add: route_org_summary_def current_member)

lemma read_routes_member:
  assumes "x \<in> set (read_routes isodate env rq org a db)" and "is_ok x"
  shows "is_member env rq org (db_accounts db)"
  using assms by (auto simp: read_routes_def Let_def dest: read_member summary_member)

text \<open>C26: the read routes of the dashboard and of analytics keep organizations apart. Whoever gets an answer from
  one of the sixteen routes is a member of the organization, and all answers about an organization (errors
  included) depend on its own cost records, runs, projects, connections, budgets and alerts only: they are the
  same in any two databases that agree on these and on the accounts of the caller, whatever else the databases hold.\<close>

theorem reads_isolated:
  assumes "same_tenant org db db'"
    and "get_query_org_membership env rq org (db_accounts db) = get_query_org_membership env rq org (db_accounts db')"
    and "get_current_membership env rq org (db_accounts db) = get_current_membership env rq org (db_accounts db')"
  shows "read_routes isodate env rq org a db = read_routes isodate env rq org a db'
    \<and> (\<forall>x\<in>set (read_routes isodate env rq org a db). is_ok x \<longrightarrow> is_member env rq org (db_accounts db))"
proof
  have vb: "bg_organization_id (virtual_budget org cur) = org" for cur by (simp add: virtual_budget_def)
  show "read_routes isodate env rq org a db = read_routes isodate env rq org a db'"
    by (simp only: read_routes_def read_route_defs route_org_summary_def time_series_of_def with_member_def assms(2,3)
        tenant_dashboard [OF assms(1)] tenant_analytics [OF assms(1)] tenant_budgets(1) [OF assms(1)]
        tenant_budgets(2) [OF assms(1) vb] tenant_tables(6) [OF assms(1)])
  show "\<forall>x\<in>set (read_routes isodate env rq org a db). is_ok x \<longrightarrow> is_member env rq org (db_accounts db)"
    using read_routes_member by blast
qed

definition sample_args :: read_args where
  "sample_args = \<lparr>ra_start = 1, ra_end = 30, ra_from = None, ra_until = None, ra_granularity = ''weekly'',
     ra_currency = ''USD'', ra_filters = no_filter, ra_limit = 20, ra_provider = None\<rparr>"

theorem reads_isolated_witness:
  "read_routes (\<lambda>_. []) demo_env (demo_request 2) 10 sample_args (sample_db [spent_on 41 10 ''USD'' 5])
     = read_routes (\<lambda>_. []) demo_env (demo_request 2) 10 sample_args
         (sample_db [spent_on 41 10 ''USD'' 5, (spent_on 42 10 ''USD'' 9)\<lparr>cr_organization_id := 2\<rparr>])
   \<and> is_ok (get_query_org_membership demo_env (demo_request 2) 10 demo)"
proof
  show "read_routes (\<lambda>_. []) demo_env (demo_request 2) 10 sample_args (sample_db [spent_on 41 10 ''USD'' 5])
     = read_routes (\<lambda>_. []) demo_env (demo_request 2) 10 sample_args
         (sample_db [spent_on 41 10 ''USD'' 5, (spent_on 42 10 ''USD'' 9)\<lparr>cr_organization_id := 2\<rparr>])"
    by (rule reads_isolated [THEN conjunct1])
      (simp_all add: same_tenant_def sample_db_def spent_on_def sample_record_def event_time_def)
  show "is_ok (get_query_org_membership demo_env (demo_request 2) 10 demo)" by code_simp
qed

end
