(* ===== verification/Playground.thy ===== *)
theory Playground
  imports Dashboard
begin

text \<open>
  The playground: \<open>models/playground_execution.py\<close>, \<open>repositories/playground_execution_repository.py\<close>,
  \<open>services/playground_service.py\<close> and the routes of \<open>api/v1/playground.py\<close>. A prompt is answered by the adapter
  of a connection and its usage goes into the same tables that the synchronisation fills and the dashboard reads.
  Parameters: the cipher, the adapter with its HTTP call (a text is its exception), the clock of the latency, and
  whether the database takes a usage event, whose failure the service swallows. The result of a route comes with
  the calls it made to providers: these happen whether or not its transaction is committed. The rounding of the
  columns for temperature and top-p is not modelled.
\<close>

section \<open>Model\<close>

datatype execution_status = X_SUCCEEDED | X_FAILED

record execution = base_row +
  ex_organization_id :: ident
  ex_user_id :: ident
  ex_project_id :: "ident option"
  ex_connection_id :: ident
  ex_usage_event_id :: "ident option"
  ex_provider :: string
  ex_model :: string
  ex_system_prompt :: "string option"
  ex_user_prompt :: string
  ex_response_text :: "string option"
  ex_temperature :: "rat option"
  ex_top_p :: "rat option"
  ex_max_tokens :: "int option"
  ex_prompt_tokens :: int
  ex_completion_tokens :: int
  ex_total_tokens :: int
  ex_estimated_cost :: "rat option"
  ex_currency :: string
  ex_latency_ms :: "rat option"
  ex_status :: execution_status
  ex_error_message :: "string option"
  ex_comparison_group_id :: "ident option"

record playground_db = dashboard_db +
  gx_executions :: "execution list"
  gx_next_id :: ident

definition draw_execution_id :: "playground_db \<Rightarrow> ident \<times> playground_db" where
  "draw_execution_id db = (gx_next_id db, db\<lparr>gx_next_id := gx_next_id db + 1\<rparr>)"

section \<open>Repository\<close>

record history_filter =
  hf_user_id :: "ident option"
  hf_provider :: "string option"
  hf_model :: "string option"
  hf_search :: "string option"

definition history_match :: "ident \<Rightarrow> history_filter \<Rightarrow> execution \<Rightarrow> bool" where
  "history_match org f x \<longleftrightarrow> ex_organization_id x = org
     \<and> (case hf_user_id f of None \<Rightarrow> True | Some u \<Rightarrow> ex_user_id x = u)
     \<and> (case hf_provider f of None \<Rightarrow> True | Some p \<Rightarrow> ex_provider x = p)
     \<and> (case hf_model f of None \<Rightarrow> True | Some m \<Rightarrow> ex_model x = m)
     \<and> (case hf_search f of None \<Rightarrow> True | Some [] \<Rightarrow> True
        | Some q \<Rightarrow> (let like = CHR ''%'' # q @ [CHR ''%'']
                    in sql_ilike like (ex_user_prompt x)
                       \<or> (case ex_response_text x of None \<Rightarrow> False | Some t \<Rightarrow> sql_ilike like t)))"

definition executions_for_org ::
  "ident \<Rightarrow> history_filter \<Rightarrow> nat \<Rightarrow> nat \<Rightarrow> execution list \<Rightarrow> execution list \<times> nat" where
  "executions_for_org org f limit offset rows =
     (let sel = filter (history_match org f) (active_query rows)
      in (take limit (drop offset (order_desc row_created_at sel)), length sel))"

definition execution_for_org :: "ident \<Rightarrow> ident \<Rightarrow> execution list \<Rightarrow> repo_error + execution option" where
  "execution_for_org org i rows =
     scalar_one_or_none (filter (\<lambda>x. ex_organization_id x = org \<and> row_id x = i) (active_query rows))"

definition executions_by_group :: "ident \<Rightarrow> ident \<Rightarrow> execution list \<Rightarrow> execution list" where
  "executions_by_group org g rows =
     sort_key row_created_at
       (filter (\<lambda>x. ex_organization_id x = org \<and> ex_comparison_group_id x = Some g) (active_query rows))"

section \<open>Calling a provider\<close>

datatype message_role = M_SYSTEM | M_USER

record provider_request =
  rp_model_id :: string
  rp_messages :: "(message_role \<times> string) list"
  rp_max_tokens :: "int option"
  rp_temperature :: "rat option"
  rp_top_p :: "rat option"

record usage_data =
  ud_prompt_tokens :: int
  ud_completion_tokens :: int
  ud_total_tokens :: int
  ud_cached_tokens :: "int option"

record provider_response =
  rs_model_id :: string
  rs_content :: string
  rs_usage :: "usage_data option"

record play_prompt =
  pt_model_id :: string
  pt_project_id :: "ident option"
  pt_system_prompt :: "string option"
  pt_user_prompt :: string
  pt_temperature :: "rat option"
  pt_top_p :: "rat option"
  pt_max_tokens :: "int option"

datatype play_failure = Pf_encryption encryption_error | Pf_config config_error | Pf_provider string

record 'k play_env =
  gv_accounts :: account_env
  gv_cipher :: "'k cipher"
  gv_encryption :: "'k encryption_service"
  gv_urlparse :: "string \<Rightarrow> parsed_url option"
  gv_complete :: "provider_config \<Rightarrow> provider_request \<Rightarrow> string + provider_response"
  gv_error_text :: "play_failure \<Rightarrow> string"
  gv_latency :: "ident \<Rightarrow> rat"
  gv_accepts :: "usage_event \<Rightarrow> bool"
  gv_pricing :: "model_pricing list"
  gv_texts :: texts
  gv_alert_ids :: "ident list"

definition request_of :: "play_prompt \<Rightarrow> provider_request" where
  "request_of p =
     \<lparr>rp_model_id = pt_model_id p,
      rp_messages = (case pt_system_prompt p of None \<Rightarrow> [] | Some [] \<Rightarrow> [] | Some t \<Rightarrow> [(M_SYSTEM, t)]) @ [(M_USER, pt_user_prompt p)],
      rp_max_tokens = pt_max_tokens p, rp_temperature = pt_temperature p, rp_top_p = pt_top_p p\<rparr>"

text \<open>A call: the configuration of the adapter and the request.\<close>

type_synonym provider_call = "provider_config \<times> provider_request"

definition run_prompt ::
  "'k play_env \<Rightarrow> provider_connection \<Rightarrow> play_prompt \<Rightarrow> (play_failure + provider_response) \<times> provider_call list" where
  "run_prompt env c p =
     (case credential_of (gv_cipher env) (gv_encryption env) c of
        Inl e \<Rightarrow> (Inl (Pf_encryption e), [])
      | Inr key \<Rightarrow>
          (case build_provider_config (gv_urlparse env) (pc_provider_type c) key (pc_base_url c) of
             Inl e \<Rightarrow> (Inl (Pf_config e), [])
           | Inr cf \<Rightarrow> (map_sum Pf_provider id (gv_complete env cf (request_of p)), [(cf, request_of p)])))"

section \<open>Recording its usage\<close>

definition PLAYGROUND_KEY :: string where "PLAYGROUND_KEY = ''playground:''"

definition playground_event ::
  "account_env \<Rightarrow> micros \<Rightarrow> ident \<Rightarrow> ident \<Rightarrow> provider_connection \<Rightarrow> ident option \<Rightarrow> string \<Rightarrow> usage_data \<Rightarrow> ident \<Rightarrow> usage_event" where
  "playground_event env now i org c project model u x =
     \<lparr>row_id = i, row_created_at = now, row_updated_at = now, row_deleted_at = None, row_deleted_by = None,
      ue_organization_id = org, ue_project_id = project, ue_connection_id = Some (row_id c), ue_run_id = None,
      ue_provider = provider_type_value (pc_provider_type c), ue_request_id = PLAYGROUND_KEY @ en_uuid env x,
      ue_model = model, ue_timestamp = now, ue_request_count = 1, ue_prompt_tokens = ud_prompt_tokens u,
      ue_completion_tokens = ud_completion_tokens u, ue_cached_tokens = ud_cached_tokens u,
      ue_total_tokens = ud_total_tokens u\<rparr>"

definition record_usage ::
  "'k play_env \<Rightarrow> micros \<Rightarrow> ident \<Rightarrow> provider_connection \<Rightarrow> ident option \<Rightarrow> string \<Rightarrow> usage_data \<Rightarrow> ident \<Rightarrow> playground_db
   \<Rightarrow> usage_event option \<times> playground_db" where
  "record_usage env now org c project model u x db =
     (let (i, db1) = draw_execution_id db; e = playground_event (gv_accounts env) now i org c project model u x
      in if gv_accepts env e
         then (let (e', rows) = ue_upsert e (db_events db1) in (Some e', db1\<lparr>db_events := rows\<rparr>))
         else (None, db1))"

definition playground_cost_record :: "micros \<Rightarrow> ident \<Rightarrow> usage_event \<Rightarrow> int \<Rightarrow> cost_result \<Rightarrow> usage_cost_record" where
  "playground_cost_record now i e d r =
     \<lparr>row_id = i, row_created_at = now, row_updated_at = now, row_deleted_at = None, row_deleted_by = None,
      cr_usage_event_id = row_id e, cr_organization_id = ue_organization_id e, cr_project_id = ue_project_id e,
      cr_connection_id = ue_connection_id e, cr_pricing_id = Some (cost_pricing_id r), cr_provider = ue_provider e,
      cr_model = ue_model e, cr_currency = cost_currency r, cr_usage_date = d, cr_prompt_tokens = ue_prompt_tokens e,
      cr_completion_tokens = ue_completion_tokens e, cr_cached_tokens = ue_cached_tokens e,
      cr_total_tokens = ue_total_tokens e, cr_prompt_cost = prompt_cost r, cr_completion_cost = completion_cost r,
      cr_cached_cost = cached_cost r, cr_total_cost = total_cost r, cr_calculation_version = cost_version r\<rparr>"

datatype play_error = Pg_http http_error | Pg_pricing pricing_error | Pg_db repo_error

text \<open>Only a missing price is no error.\<close>

definition cost_for_event ::
  "'k play_env \<Rightarrow> micros \<Rightarrow> usage_event \<Rightarrow> playground_db \<Rightarrow> play_error + (rat \<times> string) option \<times> playground_db" where
  "cost_for_event env now e db =
     (let d = timestamp_date (ue_timestamp e);
          counts = \<lparr>uc_provider = ue_provider e, uc_model = ue_model e, uc_prompt_tokens = ue_prompt_tokens e,
                    uc_completion_tokens = ue_completion_tokens e, uc_cached_tokens = ue_cached_tokens e\<rparr>
      in case calculate_event_cost (gv_pricing env) counts d of
           Inl PricingNotFound \<Rightarrow> Inr (None, db)
         | Inl err \<Rightarrow> Inl (Pg_pricing err)
         | Inr r \<Rightarrow>
             (let (i, db1) = draw_execution_id db
              in and_then (map_err Pg_db (cr_upsert now (playground_cost_record now i e d r) (db_costs db1))) (\<lambda>(_, costs).
                 Inr (Some (total_cost r, cost_currency r), db1\<lparr>db_costs := costs\<rparr>))))"

section \<open>Execution\<close>

definition blank_execution ::
  "micros \<Rightarrow> ident \<Rightarrow> ident \<Rightarrow> ident \<Rightarrow> provider_connection \<Rightarrow> play_prompt \<Rightarrow> ident option \<Rightarrow> execution" where
  "blank_execution now i org u c p grp =
     \<lparr>row_id = i, row_created_at = now, row_updated_at = now, row_deleted_at = None, row_deleted_by = None,
      ex_organization_id = org, ex_user_id = u, ex_project_id = pt_project_id p, ex_connection_id = row_id c,
      ex_usage_event_id = None, ex_provider = provider_type_value (pc_provider_type c), ex_model = pt_model_id p,
      ex_system_prompt = pt_system_prompt p, ex_user_prompt = pt_user_prompt p, ex_response_text = None,
      ex_temperature = pt_temperature p, ex_top_p = pt_top_p p, ex_max_tokens = pt_max_tokens p,
      ex_prompt_tokens = 0, ex_completion_tokens = 0, ex_total_tokens = 0, ex_estimated_cost = None,
      ex_currency = ''USD'', ex_latency_ms = None, ex_status = X_FAILED, ex_error_message = None,
      ex_comparison_group_id = grp\<rparr>"

definition store_execution :: "execution \<Rightarrow> playground_db \<Rightarrow> play_error + execution \<times> playground_db" where
  "store_execution x db =
     and_then (map_err Pg_db (repo_create x (gx_executions db))) (\<lambda>rows. Inr (x, db\<lparr>gx_executions := rows\<rparr>))"

definition no_usage :: usage_data where
  "no_usage = \<lparr>ud_prompt_tokens = 0, ud_completion_tokens = 0, ud_total_tokens = 0, ud_cached_tokens = None\<rparr>"

text \<open>After an answer: the execution with its response, its usage event and its cost.\<close>

definition answered :: "provider_response \<Rightarrow> usage_data \<Rightarrow> execution \<Rightarrow> execution" where
  "answered resp usage x =
     x\<lparr>ex_status := X_SUCCEEDED, ex_response_text := Some (rs_content resp), ex_prompt_tokens := ud_prompt_tokens usage,
       ex_completion_tokens := ud_completion_tokens usage, ex_total_tokens := ud_total_tokens usage\<rparr>"

definition with_cost :: "usage_event \<Rightarrow> (rat \<times> string) option \<Rightarrow> execution \<Rightarrow> execution" where
  "with_cost e cost x =
     (let x = x\<lparr>ex_usage_event_id := Some (row_id e)\<rparr>
      in case cost of None \<Rightarrow> x | Some (amount, cur) \<Rightarrow> x\<lparr>ex_estimated_cost := Some amount, ex_currency := cur\<rparr>)"

definition finish_execution ::
  "'k play_env \<Rightarrow> micros \<Rightarrow> ident \<Rightarrow> provider_connection \<Rightarrow> play_prompt \<Rightarrow> provider_response \<Rightarrow> execution \<Rightarrow> playground_db
   \<Rightarrow> play_error + execution \<times> playground_db" where
  "finish_execution env now org c p resp x db =
     (let usage = (case rs_usage resp of None \<Rightarrow> no_usage | Some d \<Rightarrow> d);
          model = (if rs_model_id resp = [] then pt_model_id p else rs_model_id resp);
          x = answered resp usage x;
          (event, db) = record_usage env now org c (pt_project_id p) model usage (row_id x) db
      in case event of
           None \<Rightarrow> store_execution x db
         | Some e \<Rightarrow> and_then (cost_for_event env now e db) (\<lambda>(cost, db). store_execution (with_cost e cost x) db))"

definition execute ::
  "'k play_env \<Rightarrow> micros \<Rightarrow> ident \<Rightarrow> ident \<Rightarrow> provider_connection \<Rightarrow> play_prompt \<Rightarrow> ident option \<Rightarrow> playground_db
   \<Rightarrow> (play_error + execution \<times> playground_db) \<times> provider_call list" where
  "execute env now org u c p grp db0 =
     (let (i, db) = draw_execution_id db0; x = (blank_execution now i org u c p grp)\<lparr>ex_latency_ms := Some (gv_latency env i)\<rparr>;
          (outcome, calls) = run_prompt env c p
      in (case outcome of
            Inl f \<Rightarrow>
              store_execution (x\<lparr>ex_error_message := Some (take 500 (case f of Pf_provider m \<Rightarrow> m | _ \<Rightarrow> gv_error_text env f))\<rparr>) db
          | Inr resp \<Rightarrow> finish_execution env now org c p resp x db,
          calls))"

section \<open>Routes\<close>

definition play_http :: "http_error + 'a \<Rightarrow> play_error + 'a" where
  "play_http r = map_err Pg_http r"

definition playground_connection :: "ident \<Rightarrow> ident \<Rightarrow> playground_db \<Rightarrow> http_error + provider_connection" where
  "playground_connection org i db =
     and_then (or_else (Http 404 ''Connection not found'') (repo_get i (ac_connections (db_accounts db)))) (\<lambda>c.
       if pc_organization_id c = org then Inr c else Inl (Http 404 ''Connection not found''))"

text \<open>The budgets after a committed request; a failure is only logged.\<close>

definition evaluate_budgets_after :: "'k play_env \<Rightarrow> micros \<Rightarrow> ident \<Rightarrow> playground_db \<Rightarrow> playground_db" where
  "evaluate_budgets_after env now org db =
     (let a = db_accounts db;
          (_, alerts) = evaluate_and_alert (gv_texts env) (en_sha256 (gv_accounts env)) now (gv_alert_ids env)
            (db_costs db) (ac_budgets a) org (fromordinal (today_of now)) (ac_alerts a)
      in db\<lparr>db_accounts := a\<lparr>ac_alerts := alerts\<rparr>\<rparr>)"

definition playground_caller ::
  "'k play_env \<Rightarrow> request \<Rightarrow> ident \<Rightarrow> playground_db \<Rightarrow> play_error + user" where
  "playground_caller env rq org db =
     play_http (and_then (get_current_user (gv_accounts env) rq (db_accounts db)) (\<lambda>u.
       and_then (require_permission PROVIDER_READ (gv_accounts env) rq org (db_accounts db)) (\<lambda>_. Inr u)))"

record connection_option =
  go_id :: ident
  go_provider_type :: string
  go_display_name :: string
  go_is_active :: bool
  go_has_credential :: bool
  go_last_validation_status :: "validation_status option"

definition list_playground_connections ::
  "'k play_env \<Rightarrow> request \<Rightarrow> ident \<Rightarrow> playground_db \<Rightarrow> play_error + connection_option list" where
  "list_playground_connections env rq org db =
     and_then (playground_caller env rq org db) (\<lambda>_.
     and_then (map_err Pg_db (pc_list_by_org org 100 None ''asc'' (ac_connections (db_accounts db)))) (\<lambda>page.
       Inr (map (\<lambda>c. \<lparr>go_id = row_id c, go_provider_type = provider_type_value (pc_provider_type c),
         go_display_name = pc_display_name c, go_is_active = pc_is_active c,
         go_has_credential = (pc_encrypted_api_key c \<noteq> None),
         go_last_validation_status = pc_last_validation_status c\<rparr>) (pg_items page))))"

definition execute_playground ::
  "'k play_env \<Rightarrow> request \<Rightarrow> ident \<Rightarrow> ident \<Rightarrow> play_prompt \<Rightarrow> playground_db
   \<Rightarrow> (play_error + execution \<times> playground_db) \<times> provider_call list" where
  "execute_playground env rq org conn p db =
     (case and_then (playground_caller env rq org db) (\<lambda>u.
             and_then (play_http (playground_connection org conn db)) (\<lambda>c. Inr (u, c))) of
        Inl e \<Rightarrow> (Inl e, [])
      | Inr (u, c) \<Rightarrow>
          (let (r, calls) = execute env (rq_now rq) org (row_id u) c p None db
           in (and_then r (\<lambda>(x, db1). Inr (x, evaluate_budgets_after env (rq_now rq) org db1)), calls)))"

record comparison =
  cp_targets :: "ident list"
  cp_model_ids :: "(string \<times> string) list"
  cp_prompt :: play_prompt

definition no_model :: "account_env \<Rightarrow> ident \<Rightarrow> http_error" where
  "no_model env t = Http 422 (''No model_id supplied for connection '' @ en_uuid env t)"

fun compare_targets ::
  "'k play_env \<Rightarrow> micros \<Rightarrow> ident \<Rightarrow> ident \<Rightarrow> comparison \<Rightarrow> ident \<Rightarrow> ident list \<Rightarrow> playground_db
   \<Rightarrow> (play_error + execution list \<times> playground_db) \<times> provider_call list" where
  "compare_targets env now org u body g [] db = (Inr ([], db), [])"
| "compare_targets env now org u body g (t # ts) db =
     (let model = (case map_of (cp_model_ids body) (en_uuid (gv_accounts env) t) of None \<Rightarrow> [] | Some m \<Rightarrow> m)
      in if model = [] then (Inl (Pg_http (no_model (gv_accounts env) t)), [])
         else case play_http (playground_connection org t db) of
                Inl e \<Rightarrow> (Inl e, [])
              | Inr c \<Rightarrow>
                  (let (r, calls) = execute env now org u c ((cp_prompt body)\<lparr>pt_model_id := model\<rparr>) (Some g) db
                   in case r of
                        Inl e \<Rightarrow> (Inl e, calls)
                      | Inr (x, db1) \<Rightarrow>
                          (let (r', calls') = compare_targets env now org u body g ts db1
                           in (and_then r' (\<lambda>(xs, db2). Inr (x # xs, db2)), calls @ calls'))))"

definition compare_playground ::
  "'k play_env \<Rightarrow> request \<Rightarrow> ident \<Rightarrow> comparison \<Rightarrow> playground_db
   \<Rightarrow> (play_error + (ident \<times> execution list) \<times> playground_db) \<times> provider_call list" where
  "compare_playground env rq org body db0 =
     (case playground_caller env rq org db0 of
        Inl e \<Rightarrow> (Inl e, [])
      | Inr u \<Rightarrow>
          (let (g, db) = draw_execution_id db0;
               (r, calls) = compare_targets env (rq_now rq) org (row_id u) body g (cp_targets body) db
           in (and_then r (\<lambda>(xs, db1). Inr ((g, xs), evaluate_budgets_after env (rq_now rq) org db1)), calls)))"

definition list_playground_history ::
  "'k play_env \<Rightarrow> request \<Rightarrow> ident \<Rightarrow> bool \<Rightarrow> history_filter \<Rightarrow> int \<Rightarrow> int \<Rightarrow> playground_db
   \<Rightarrow> play_error + execution list \<times> nat" where
  "list_playground_history env rq org mine_only f limit offset db =
     and_then (playground_caller env rq org db) (\<lambda>u.
     and_then (guard (1 \<le> limit \<and> limit \<le> 200 \<and> 0 \<le> offset) (Pg_http (Http 422 ''limit''))) (\<lambda>_.
       Inr (executions_for_org org (f\<lparr>hf_user_id := (if mine_only then Some (row_id u) else None)\<rparr>)
         (nat limit) (nat offset) (gx_executions db))))"

definition owned_execution :: "ident \<Rightarrow> ident \<Rightarrow> playground_db \<Rightarrow> play_error + execution" where
  "owned_execution org i db =
     play_http (or_else (Http 404 ''Execution not found'') (execution_for_org org i (gx_executions db)))"

definition get_playground_execution ::
  "'k play_env \<Rightarrow> request \<Rightarrow> ident \<Rightarrow> ident \<Rightarrow> playground_db \<Rightarrow> play_error + execution" where
  "get_playground_execution env rq org i db =
     and_then (playground_caller env rq org db) (\<lambda>_. owned_execution org i db)"

definition delete_playground_execution ::
  "'k play_env \<Rightarrow> request \<Rightarrow> ident \<Rightarrow> ident \<Rightarrow> playground_db \<Rightarrow> play_error + playground_db" where
  "delete_playground_execution env rq org i db =
     and_then (playground_caller env rq org db) (\<lambda>_. and_then (owned_execution org i db) (\<lambda>x.
       Inr (db\<lparr>gx_executions := repo_soft_delete (rq_now rq) None (row_id x) (gx_executions db)\<rparr>)))"

definition rerun_playground_execution ::
  "'k play_env \<Rightarrow> request \<Rightarrow> ident \<Rightarrow> ident \<Rightarrow> playground_db
   \<Rightarrow> (play_error + execution \<times> playground_db) \<times> provider_call list" where
  "rerun_playground_execution env rq org i db =
     (case and_then (playground_caller env rq org db) (\<lambda>u.
             and_then (owned_execution org i db) (\<lambda>x.
             and_then (play_http (playground_connection org (ex_connection_id x) db)) (\<lambda>c. Inr (u, x, c)))) of
        Inl e \<Rightarrow> (Inl e, [])
      | Inr (u, x, c) \<Rightarrow>
          (let (r, calls) = execute env (rq_now rq) org (row_id u) c
                 \<lparr>pt_model_id = ex_model x, pt_project_id = ex_project_id x, pt_system_prompt = ex_system_prompt x,
                  pt_user_prompt = ex_user_prompt x, pt_temperature = ex_temperature x, pt_top_p = ex_top_p x,
                  pt_max_tokens = ex_max_tokens x\<rparr> None db
           in (and_then r (\<lambda>(x', db1). Inr (x', evaluate_budgets_after env (rq_now rq) org db1)), calls)))"

end
