(* ===== verification/Playground_Laws.thy ===== *)
theory Playground_Laws
  imports Playground Access_Control
begin

text \<open>
  What the playground guarantees of its usage: what an execution shows is what the organization's tables record, and
  what a comparison that is cut short leaves behind.
\<close>

section \<open>Fresh rows\<close>

text \<open>Identifiers are drawn from a counter above all identifiers of the tables, and no event has the key of an
  execution to come.\<close>

definition play_inv :: "(ident \<Rightarrow> string) \<Rightarrow> playground_db \<Rightarrow> bool" where
  "play_inv uuid db \<longleftrightarrow>
     (\<forall>e\<in>set (db_events db). row_id e < gx_next_id db \<and> (\<forall>i\<ge>gx_next_id db. ue_request_id e \<noteq> PLAYGROUND_KEY @ uuid i))
     \<and> (\<forall>r\<in>set (db_costs db). row_id r < gx_next_id db \<and> cr_usage_event_id r < gx_next_id db)
     \<and> (\<forall>x\<in>set (gx_executions db). row_id x < gx_next_id db)"

lemma ue_upsert_fresh: "\<forall>x\<in>set rows. ue_key x \<noteq> ue_key e \<Longrightarrow> ue_upsert e rows = (e, rows @ [e])"
proof -
  assume "\<forall>x\<in>set rows. ue_key x \<noteq> ue_key e"
  then have "List.find (\<lambda>x. ue_key x = ue_key e) rows = None" by (auto simp: find_None_iff)
  then show ?thesis by (simp add: ue_upsert_def)
qed

lemma cr_upsert_fresh:
  assumes "\<forall>x\<in>set rows. cr_usage_event_id x \<noteq> cr_usage_event_id r \<and> row_id x \<noteq> row_id r" and "row_deleted_at r = None"
  shows "cr_upsert now r rows = Inr (r, rows @ [r])"
proof -
  have "filter (\<lambda>x. cr_usage_event_id x = cr_usage_event_id r) (active_query (rows @ [r])) = [r]"
    using assms by (auto simp: active_query_def filter_empty_conv)
  then show ?thesis
    using assms by (auto simp: cr_upsert_def repo_create_def cr_get_by_event_def scalar_one_or_none_def)
qed

text \<open>Recording usage and cost on fresh identifiers appends a row.\<close>

lemma record_usage_fresh:
  assumes "play_inv (en_uuid (gv_accounts env)) db" and "i < gx_next_id db"
    and "\<forall>e\<in>set (db_events db). ue_request_id e \<noteq> PLAYGROUND_KEY @ en_uuid (gv_accounts env) i"
  shows "record_usage env now org c project model u i db =
    (let e = playground_event (gv_accounts env) now (gx_next_id db) org c project model u i;
         db1 = db\<lparr>gx_next_id := gx_next_id db + 1\<rparr>
     in if gv_accepts env e then (Some e, db1\<lparr>db_events := db_events db @ [e]\<rparr>) else (None, db1))"
proof -
  let ?e = "playground_event (gv_accounts env) now (gx_next_id db) org c project model u i"
  have "\<forall>x\<in>set (db_events db). ue_key x \<noteq> ue_key ?e"
    using assms(3) by (auto simp: ue_key_def playground_event_def)
  then show ?thesis by (simp add: record_usage_def draw_execution_id_def Let_def ue_upsert_fresh)
qed

definition event_cost :: "'k play_env \<Rightarrow> usage_event \<Rightarrow> pricing_error + cost_result" where
  "event_cost env e = calculate_event_cost (gv_pricing env)
     \<lparr>uc_provider = ue_provider e, uc_model = ue_model e, uc_prompt_tokens = ue_prompt_tokens e,
      uc_completion_tokens = ue_completion_tokens e, uc_cached_tokens = ue_cached_tokens e\<rparr> (timestamp_date (ue_timestamp e))"

lemma cost_for_event_fresh:
  assumes "\<forall>r\<in>set (db_costs db). row_id r < gx_next_id db \<and> cr_usage_event_id r \<noteq> row_id e"
  shows "cost_for_event env now e db =
    (case event_cost env e of
       Inl PricingNotFound \<Rightarrow> Inr (None, db)
     | Inl err \<Rightarrow> Inl (Pg_pricing err)
     | Inr r \<Rightarrow> Inr (Some (total_cost r, cost_currency r),
         db\<lparr>gx_next_id := gx_next_id db + 1,
            db_costs := db_costs db @ [playground_cost_record now (gx_next_id db) e (timestamp_date (ue_timestamp e)) r]\<rparr>))"
proof -
  have "cr_upsert now (playground_cost_record now (gx_next_id db) e d r) (db_costs db)
      = Inr (playground_cost_record now (gx_next_id db) e d r, db_costs db @ [playground_cost_record now (gx_next_id db) e d r])" for d r
    using assms by (intro cr_upsert_fresh) (auto simp: playground_cost_record_def)
  then show ?thesis
    by (simp add: cost_for_event_def event_cost_def Let_def draw_execution_id_def map_err_def split: sum.split pricing_error.split)
qed

section \<open>One execution\<close>

text \<open>What a successful execution adds: nothing when the event was not taken, else its event, and the cost record of
  the event when the model has a price.\<close>

definition adds_usage ::
  "ident \<Rightarrow> micros \<Rightarrow> play_prompt \<Rightarrow> execution \<Rightarrow> playground_db \<Rightarrow> playground_db \<Rightarrow> usage_event \<Rightarrow> bool" where
  "adds_usage org now p x db db' e \<longleftrightarrow>
     db_events db' = db_events db @ [e] \<and> ex_usage_event_id x = Some (row_id e)
     \<and> ue_organization_id e = org \<and> ue_connection_id e = Some (ex_connection_id x) \<and> ue_project_id e = pt_project_id p
     \<and> ue_timestamp e = now \<and> ue_prompt_tokens e = ex_prompt_tokens x \<and> ue_completion_tokens e = ex_completion_tokens x
     \<and> ue_total_tokens e = ex_total_tokens x \<and> ue_request_count e = 1
     \<and> (case ex_estimated_cost x of
          None \<Rightarrow> db_costs db' = db_costs db
        | Some amount \<Rightarrow> \<exists>r. db_costs db' = db_costs db @ [r] \<and> cr_total_cost r = amount \<and> cr_currency r = ex_currency x
            \<and> cr_usage_event_id r = row_id e \<and> cr_organization_id r = org \<and> cr_usage_date r = timestamp_date now
            \<and> row_deleted_at r = None)"

lemma adds_usage_drawn: "adds_usage org now p x (db\<lparr>gx_next_id := k\<rparr>) db' e = adds_usage org now p x db db' e"
  by (cases "ex_estimated_cost x") (simp_all add: adds_usage_def)

definition same_usage :: "playground_db \<Rightarrow> playground_db \<Rightarrow> bool" where
  "same_usage db db' \<longleftrightarrow> db_events db' = db_events db \<and> db_costs db' = db_costs db"

definition execution_adds ::
  "ident \<Rightarrow> micros \<Rightarrow> play_prompt \<Rightarrow> execution \<Rightarrow> playground_db \<Rightarrow> playground_db \<Rightarrow> bool" where
  "execution_adds org now p x db db' \<longleftrightarrow>
     gx_executions db' = gx_executions db @ [x] \<and> ex_organization_id x = org
     \<and> (if ex_status x = X_SUCCEEDED \<and> ex_usage_event_id x \<noteq> None then \<exists>e. adds_usage org now p x db db' e
        else same_usage db db' \<and> ex_estimated_cost x = None)"

lemma store_execution_ok:
  "store_execution y db = Inr (x, db') \<Longrightarrow> x = y \<and> db' = db\<lparr>gx_executions := gx_executions db @ [y]\<rparr>"
  by (auto simp: store_execution_def repo_create_def map_err_def split: if_splits)

lemma store_execution_fresh:
  "\<forall>y\<in>set (gx_executions db). row_id y \<noteq> row_id x \<Longrightarrow> store_execution x db = Inr (x, db\<lparr>gx_executions := gx_executions db @ [x]\<rparr>)"
  by (auto simp: store_execution_def repo_create_def map_err_def)

lemma answered_sel [simp]:
  "row_id (answered resp d x) = row_id x" "ex_organization_id (answered resp d x) = ex_organization_id x"
  "ex_connection_id (answered resp d x) = ex_connection_id x" "ex_usage_event_id (answered resp d x) = ex_usage_event_id x"
  "ex_estimated_cost (answered resp d x) = ex_estimated_cost x" "ex_status (answered resp d x) = X_SUCCEEDED"
  "ex_prompt_tokens (answered resp d x) = ud_prompt_tokens d" "ex_completion_tokens (answered resp d x) = ud_completion_tokens d"
  "ex_total_tokens (answered resp d x) = ud_total_tokens d"
  by (simp_all add: answered_def)

lemma with_cost_sel [simp]:
  "row_id (with_cost e cost x) = row_id x" "ex_organization_id (with_cost e cost x) = ex_organization_id x"
  "ex_connection_id (with_cost e cost x) = ex_connection_id x" "ex_usage_event_id (with_cost e cost x) = Some (row_id e)"
  "ex_estimated_cost (with_cost e cost x) = (case cost of None \<Rightarrow> ex_estimated_cost x | Some (a, _) \<Rightarrow> Some a)"
  "ex_currency (with_cost e cost x) = (case cost of None \<Rightarrow> ex_currency x | Some (_, c) \<Rightarrow> c)"
  "ex_status (with_cost e cost x) = ex_status x" "ex_prompt_tokens (with_cost e cost x) = ex_prompt_tokens x"
  "ex_completion_tokens (with_cost e cost x) = ex_completion_tokens x" "ex_total_tokens (with_cost e cost x) = ex_total_tokens x"
  by (simp_all add: with_cost_def Let_def split: option.splits)

lemma playground_event_sel [simp]:
  "row_id (playground_event env now i org c project model d j) = i"
  "ue_organization_id (playground_event env now i org c project model d j) = org"
  "ue_connection_id (playground_event env now i org c project model d j) = Some (row_id c)"
  "ue_project_id (playground_event env now i org c project model d j) = project"
  "ue_timestamp (playground_event env now i org c project model d j) = now"
  "ue_request_id (playground_event env now i org c project model d j) = PLAYGROUND_KEY @ en_uuid env j"
  "ue_request_count (playground_event env now i org c project model d j) = 1"
  "ue_prompt_tokens (playground_event env now i org c project model d j) = ud_prompt_tokens d"
  "ue_completion_tokens (playground_event env now i org c project model d j) = ud_completion_tokens d"
  "ue_total_tokens (playground_event env now i org c project model d j) = ud_total_tokens d"
  by (simp_all add: playground_event_def)

lemma cost_record_sel [simp]:
  "row_id (playground_cost_record now i e d r) = i" "cr_usage_event_id (playground_cost_record now i e d r) = row_id e"
  "cr_organization_id (playground_cost_record now i e d r) = ue_organization_id e"
  "cr_currency (playground_cost_record now i e d r) = cost_currency r"
  "cr_total_cost (playground_cost_record now i e d r) = total_cost r" "cr_usage_date (playground_cost_record now i e d r) = d"
  "row_deleted_at (playground_cost_record now i e d r) = None"
  by (simp_all add: playground_cost_record_def)

text \<open>The state in which an execution has drawn its own identifier.\<close>

definition begun :: "(ident \<Rightarrow> string) \<Rightarrow> execution \<Rightarrow> playground_db \<Rightarrow> bool" where
  "begun uuid x db \<longleftrightarrow> play_inv uuid db \<and> row_id x < gx_next_id db
     \<and> (\<forall>e\<in>set (db_events db). ue_request_id e \<noteq> PLAYGROUND_KEY @ uuid (row_id x))
     \<and> (\<forall>y\<in>set (gx_executions db). row_id y \<noteq> row_id x)
     \<and> ex_usage_event_id x = None \<and> ex_estimated_cost x = None"

lemma draw_inv: "play_inv uuid db \<Longrightarrow> play_inv uuid (db\<lparr>gx_next_id := gx_next_id db + 1\<rparr>)"
  by (fastforce simp: play_inv_def)

lemma store_step:
  assumes "play_inv uuid db" and "row_id y < gx_next_id db" and "store_execution y db = Inr (x, db')"
  shows "play_inv uuid db' \<and> x = y \<and> db' = db\<lparr>gx_executions := gx_executions db @ [y]\<rparr>"
  using assms(1,2) store_execution_ok [OF assms(3)] by (auto simp: play_inv_def)

lemma finish_step:
  assumes b: "begun (en_uuid (gv_accounts env)) x0 db" and uuid: "inj (en_uuid (gv_accounts env))"
    and res: "finish_execution env now org c p resp x0 db = Inr (x, db')"
    and x0: "ex_organization_id x0 = org" "ex_connection_id x0 = row_id c"
  shows "play_inv (en_uuid (gv_accounts env)) db' \<and> db_accounts db' = db_accounts db \<and> db_runs db' = db_runs db
    \<and> execution_adds org now p x db db' \<and> ex_status x = X_SUCCEEDED"
proof -
  let ?uuid = "en_uuid (gv_accounts env)" and ?n = "gx_next_id db"
  define usage where "usage = (case rs_usage resp of None \<Rightarrow> no_usage | Some d \<Rightarrow> d)"
  define model where "model = (if rs_model_id resp = [] then pt_model_id p else rs_model_id resp)"
  define y where "y = answered resp usage x0"
  define e where "e = playground_event (gv_accounts env) now ?n org c (pt_project_id p) model usage (row_id x0)"
  define db1 where "db1 = db\<lparr>gx_next_id := ?n + 1\<rparr>"
  have inv: "play_inv ?uuid db" and n: "row_id x0 < ?n"
    and key: "\<forall>e\<in>set (db_events db). ue_request_id e \<noteq> PLAYGROUND_KEY @ ?uuid (row_id x0)"
    and x0': "ex_usage_event_id x0 = None" "ex_estimated_cost x0 = None"
    using b unfolding begun_def by blast+
  note e_sel = playground_event_sel [of "gv_accounts env" now ?n org c "pt_project_id p" model usage "row_id x0", folded e_def]
  have rec: "record_usage env now org c (pt_project_id p) model usage (row_id x0) db
      = (if gv_accepts env e then (Some e, db1\<lparr>db_events := db_events db @ [e]\<rparr>) else (None, db1))"
    using record_usage_fresh [OF inv n key] by (simp add: Let_def e_def db1_def)
  have fin: "finish_execution env now org c p resp x0 db =
      (if gv_accepts env e
       then and_then (cost_for_event env now e (db1\<lparr>db_events := db_events db @ [e]\<rparr>)) (\<lambda>(cost, d). store_execution (with_cost e cost y) d)
       else store_execution y db1)"
    by (simp add: finish_execution_def usage_def [symmetric] model_def [symmetric] y_def rec)
  have inv1: "play_inv ?uuid db1" unfolding db1_def by (rule draw_inv [OF inv])
  show ?thesis
  proof (cases "gv_accepts env e")
    case False
    with res fin have st: "store_execution y db1 = Inr (x, db')" by simp
    have below: "row_id y < gx_next_id db1" using n by (simp add: y_def db1_def)
    have inv': "play_inv ?uuid db'" and x: "x = y" and db': "db' = db1\<lparr>gx_executions := gx_executions db1 @ [y]\<rparr>"
      using store_step [OF inv1 below st] by blast+
    have "execution_adds org now p x db db'"
      unfolding x db' using x0 x0' by (simp add: execution_adds_def same_usage_def y_def db1_def)
    with inv' show ?thesis by (simp add: x db' y_def db1_def)
  next
    case True
    define db2 where "db2 = db1\<lparr>db_events := db_events db @ [e]\<rparr>"
    have inv2: "play_inv ?uuid db2"
      using inv1 n by (auto simp: play_inv_def db2_def db1_def e_sel inj_eq [OF uuid])
    obtain cost d where cost: "cost_for_event env now e db2 = Inr (cost, d)"
      and st: "store_execution (with_cost e cost y) d = Inr (x, db')"
      using res True unfolding fin db2_def by (auto simp: and_then_Inr_iff)
    have "\<forall>r\<in>set (db_costs db2). row_id r < gx_next_id db2 \<and> cr_usage_event_id r \<noteq> row_id e"
      using inv by (auto simp: play_inv_def db2_def db1_def e_sel)
    note cf = cost_for_event_fresh [OF this, of env now, unfolded cost]
    show ?thesis
    proof (cases cost)
      case None
      with cf have d: "d = db2" by (auto split: sum.splits pricing_error.splits)
      have below: "row_id (with_cost e cost y) < gx_next_id d" using n by (simp add: y_def d db2_def db1_def)
      have inv': "play_inv ?uuid db'" and x: "x = with_cost e cost y"
        and db': "db' = d\<lparr>gx_executions := gx_executions d @ [with_cost e cost y]\<rparr>"
        using store_step [OF inv2 [folded d] below st] by blast+
      have "adds_usage org now p x db db' e"
        unfolding x db' using None x0 x0' by (simp add: adds_usage_def e_sel y_def d db2_def db1_def)
      moreover have "gx_executions db' = gx_executions db @ [x]" "ex_organization_id x = org" "ex_status x = X_SUCCEEDED"
          "ex_usage_event_id x \<noteq> None" "db_accounts db' = db_accounts db" "db_runs db' = db_runs db"
        using x0 by (simp_all add: x db' y_def d db2_def db1_def)
      ultimately show ?thesis using inv' unfolding execution_adds_def by auto
    next
      case (Some ac)
      then obtain r where r: "cost = Some (total_cost r, cost_currency r)"
        and d: "d = db2\<lparr>gx_next_id := gx_next_id db2 + 1,
            db_costs := db_costs db2 @ [playground_cost_record now (gx_next_id db2) e (timestamp_date (ue_timestamp e)) r]\<rparr>"
        using cf by (auto split: sum.splits pricing_error.splits)
      have inv3: "play_inv ?uuid d"
        using inv2 by (fastforce simp: play_inv_def d e_sel db2_def db1_def)
      have below: "row_id (with_cost e cost y) < gx_next_id d" using n by (simp add: y_def d db2_def db1_def)
      have inv': "play_inv ?uuid db'" and x: "x = with_cost e cost y"
        and db': "db' = d\<lparr>gx_executions := gx_executions d @ [with_cost e cost y]\<rparr>"
        using store_step [OF inv3 below st] by blast+
      have "adds_usage org now p x db db' e"
        unfolding x db' using r x0 x0' by (simp add: adds_usage_def e_sel y_def d db2_def db1_def)
      moreover have "gx_executions db' = gx_executions db @ [x]" "ex_organization_id x = org" "ex_status x = X_SUCCEEDED"
          "ex_usage_event_id x \<noteq> None" "db_accounts db' = db_accounts db" "db_runs db' = db_runs db"
        using x0 by (simp_all add: x db' y_def d db2_def db1_def)
      ultimately show ?thesis using inv' unfolding execution_adds_def by auto
    qed
  qed
qed

lemma execute_step:
  assumes inv: "play_inv (en_uuid (gv_accounts env)) db" and uuid: "inj (en_uuid (gv_accounts env))"
    and res: "fst (execute env now org u c p grp db) = Inr (x, db')"
  shows "play_inv (en_uuid (gv_accounts env)) db' \<and> db_accounts db' = db_accounts db \<and> db_runs db' = db_runs db
    \<and> execution_adds org now p x db db' \<and> (ex_status x = X_SUCCEEDED \<longleftrightarrow> is_ok (fst (run_prompt env c p)))"
proof -
  let ?n = "gx_next_id db" and ?uuid = "en_uuid (gv_accounts env)"
  define db1 where "db1 = db\<lparr>gx_next_id := ?n + 1\<rparr>"
  define x0 where "x0 = (blank_execution now ?n org u c p grp)\<lparr>ex_latency_ms := Some (gv_latency env ?n)\<rparr>"
  have x0: "row_id x0 = ?n" "ex_organization_id x0 = org" "ex_connection_id x0 = row_id c" "ex_status x0 = X_FAILED"
    "ex_usage_event_id x0 = None" "ex_estimated_cost x0 = None"
    by (simp_all add: x0_def blank_execution_def)
  have inv1: "play_inv ?uuid db1" unfolding db1_def by (rule draw_inv [OF inv])
  show ?thesis
  proof (cases "fst (run_prompt env c p)")
    case (Inl f)
    obtain m where "store_execution (x0\<lparr>ex_error_message := Some m\<rparr>) db1 = Inr (x, db')"
      using res Inl by (auto simp: execute_def draw_execution_id_def split_def Let_def x0_def db1_def)
    moreover have "row_id (x0\<lparr>ex_error_message := Some m\<rparr>) < gx_next_id db1" by (simp add: x0 db1_def)
    ultimately show ?thesis
      using store_step [OF inv1] Inl x0 by (fastforce simp: execution_adds_def same_usage_def db1_def)
  next
    case (Inr resp)
    then have "finish_execution env now org c p resp x0 db1 = Inr (x, db')"
      using res by (simp add: execute_def draw_execution_id_def split_def Let_def x0_def db1_def)
    moreover have "begun ?uuid x0 db1"
      using inv inv1 x0 by (fastforce simp: begun_def db1_def play_inv_def)
    ultimately have "play_inv ?uuid db' \<and> db_accounts db' = db_accounts db1 \<and> db_runs db' = db_runs db1
        \<and> execution_adds org now p x db1 db' \<and> ex_status x = X_SUCCEEDED"
      using finish_step uuid x0 by blast
    moreover have "execution_adds org now p x db1 db' = execution_adds org now p x db db'"
    proof -
      have "adds_usage org now p x db1 db' = adds_usage org now p x db db'"
        unfolding db1_def by (rule ext) (rule adds_usage_drawn)
      then show ?thesis by (cases "ex_usage_event_id x") (simp_all add: execution_adds_def same_usage_def db1_def)
    qed
    ultimately show ?thesis using Inr by (simp add: db1_def)
  qed
qed

section \<open>Spending\<close>

lemma spend_snoc:
  assumes "cr_organization_id r = org" and "row_deleted_at r = None" and "s \<le> cr_usage_date r" and "cr_usage_date r \<le> e"
  shows "period_spend org s e no_filter cur (rows @ [r])
    = period_spend org s e no_filter cur rows + (if cr_currency r = cur then cr_total_cost r else 0)"
  using assms by (simp add: period_spend_def period_rows_def dimension_filters_def no_filter_def)

definition shown_cost :: "string \<Rightarrow> execution \<Rightarrow> rat" where
  "shown_cost cur x = (case ex_estimated_cost x of None \<Rightarrow> 0 | Some c \<Rightarrow> if ex_currency x = cur then c else 0)"

lemma execution_spends:
  assumes "execution_adds org now p x db db'" and "s \<le> timestamp_date now" and "timestamp_date now \<le> e"
  shows "period_spend org s e no_filter cur (db_costs db')
    = period_spend org s e no_filter cur (db_costs db) + shown_cost cur x"
proof (cases "ex_status x = X_SUCCEEDED \<and> ex_usage_event_id x \<noteq> None")
  case True
  with assms(1) obtain ev where a: "adds_usage org now p x db db' ev" unfolding execution_adds_def by auto
  show ?thesis
  proof (cases "ex_estimated_cost x")
    case None
    with a show ?thesis by (simp add: adds_usage_def shown_cost_def)
  next
    case (Some c)
    with a obtain r where r: "db_costs db' = db_costs db @ [r]" "cr_total_cost r = c" "cr_currency r = ex_currency x"
      "cr_organization_id r = org" "cr_usage_date r = timestamp_date now" "row_deleted_at r = None"
      unfolding adds_usage_def by auto
    with assms(2,3) Some show ?thesis by (simp add: spend_snoc shown_cost_def)
  qed
next
  case False
  with assms(1) have "same_usage db db'" "ex_estimated_cost x = None" unfolding execution_adds_def by auto
  then show ?thesis by (simp add: same_usage_def shown_cost_def)
qed

lemma budgets_after_sel [simp]:
  "db_events (evaluate_budgets_after env now org db) = db_events db" "db_costs (evaluate_budgets_after env now org db) = db_costs db"
  "gx_executions (evaluate_budgets_after env now org db) = gx_executions db"
  "gx_next_id (evaluate_budgets_after env now org db) = gx_next_id db"
  by (simp_all add: evaluate_budgets_after_def Let_def split_def)

lemma execution_adds_after [simp]:
  "execution_adds org now p x db (evaluate_budgets_after env now' org' db') = execution_adds org now p x db db'"
proof -
  have "adds_usage org now p x db (evaluate_budgets_after env now' org' db') = adds_usage org now p x db db'"
    by (rule ext, cases "ex_estimated_cost x") (simp_all add: adds_usage_def)
  then show ?thesis by (cases "ex_usage_event_id x") (simp_all add: execution_adds_def same_usage_def)
qed

lemma play_inv_after [simp]: "play_inv uuid (evaluate_budgets_after env now org db) = play_inv uuid db"
  by (simp add: play_inv_def)

lemma playground_caller_ok:
  "playground_caller env rq org db = Inr u \<Longrightarrow>
     \<exists>m. require_permission PROVIDER_READ (gv_accounts env) rq org (db_accounts db) = Inr m"
  by (auto simp: playground_caller_def play_http_def map_err_def and_then_Inr_iff split: sum.splits)

lemma playground_connection_ok:
  "playground_connection org i db = Inr c \<Longrightarrow>
     c \<in> set (ac_connections (db_accounts db)) \<and> row_id c = i \<and> row_deleted_at c = None \<and> pc_organization_id c = org"
  by (auto simp: playground_connection_def and_then_Inr_iff dest: repo_get_mem split: if_splits)


section \<open>Comparisons\<close>

text \<open>Prices with ten decimals for at most \<open>n\<close> tokens, and providers that report at most \<open>n\<close>: the engine then fails
  on nothing but a missing price, and an execution on fresh identifiers is stored.\<close>

definition price_bounded :: "int \<Rightarrow> rat option \<Rightarrow> bool" where
  "price_bounded n price \<longleftrightarrow> (\<exists>k. price = Some (of_int k / 10 ^ 10) \<and> 0 \<le> k \<and> n * k \<le> 10 ^ 27)"

definition prices_bounded :: "int \<Rightarrow> model_pricing \<Rightarrow> bool" where
  "prices_bounded n p \<longleftrightarrow> price_bounded n (mp_prompt_token_price p) \<and> price_bounded n (mp_completion_token_price p)
     \<and> (mp_cached_token_price p = None \<or> price_bounded n (mp_cached_token_price p))"

definition usage_bounded :: "int \<Rightarrow> usage_data \<Rightarrow> bool" where
  "usage_bounded n u \<longleftrightarrow> ud_prompt_tokens u \<in> {0..n} \<and> ud_completion_tokens u \<in> {0..n}
     \<and> (case ud_cached_tokens u of None \<Rightarrow> True | Some k \<Rightarrow> k \<in> {0..n})"

definition pricing_safe :: "'k play_env \<Rightarrow> bool" where
  "pricing_safe env \<longleftrightarrow> (\<exists>n\<ge>0. (\<forall>p\<in>set (gv_pricing env). prices_bounded n p)
     \<and> (\<forall>cf rp resp u. gv_complete env cf rp = Inr resp \<longrightarrow> rs_usage resp = Some u \<longrightarrow> usage_bounded n u))"

lemma token_cost_bounded:
  assumes "price_bounded n price" and "k \<in> {0..n}"
  shows "\<exists>a. token_cost k price = Inr (of_int a / 10 ^ 8) \<and> 0 \<le> a \<and> a \<le> 10 ^ 26"
proof -
  obtain q where q: "price = Some (of_int q / 10 ^ 10)" "0 \<le> q" "n * q \<le> 10 ^ 27"
    using assms(1) unfolding price_bounded_def by blast
  have "k * q \<le> n * q" using assms(2) q(2) by (intro mult_right_mono) simp_all
  then have "k * q \<le> 10 ^ 27" using q(3) by linarith
  with token_cost_ok [of k q] q assms(2) show ?thesis by auto
qed

lemma calculate_cost_bounded:
  assumes p: "prices_bounded n p" and k: "a \<in> {0..n}" "b \<in> {0..n}" "case c of None \<Rightarrow> True | Some k \<Rightarrow> k \<in> {0..n}"
  shows "\<exists>r. calculate_cost p a b c = Inr r"
proof -
  obtain x where x: "token_cost a (mp_prompt_token_price p) = Inr (of_int x / 10 ^ 8)" "0 \<le> x" "x \<le> 10 ^ 26"
    using token_cost_bounded p k(1) unfolding prices_bounded_def by blast
  obtain y where y: "token_cost b (mp_completion_token_price p) = Inr (of_int y / 10 ^ 8)" "0 \<le> y" "y \<le> 10 ^ 26"
    using token_cost_bounded p k(2) unfolding prices_bounded_def by blast
  obtain o' z where z: "(case (c, mp_cached_token_price p) of
        (Some n, Some price) \<Rightarrow> and_then (token_cost n (Some price)) (\<lambda>x. Inr (Some x)) | _ \<Rightarrow> Inr None) = Inr o'"
      "(case o' of None \<Rightarrow> 0 | Some x \<Rightarrow> x) = rat_of_int z / 10 ^ 8" "0 \<le> z" "z \<le> 10 ^ 26"
  proof (cases "c = None \<or> mp_cached_token_price p = None")
    case True
    then show ?thesis using that [of None 0] by (cases c; cases "mp_cached_token_price p") auto
  next
    case False
    then obtain m q where m: "c = Some m" "mp_cached_token_price p = Some q" by auto
    then have "price_bounded n (Some q)" and "m \<in> {0..n}" using p k(3) by (simp_all add: prices_bounded_def)
    from token_cost_bounded [OF this] m show ?thesis using that by fastforce
  qed
  show ?thesis
    unfolding calculate_cost_def x(1) y(1) z(1) and_then.simps z(2) total_of_grid [OF x(2,3) y(2,3) z(3,4)] by blast
qed

lemma get_pricing_mem: "get_pricing_for_event v m d rows = Inr p \<Longrightarrow> p \<in> set rows"
  by (auto simp: get_pricing_for_event_def get_for_date_def active_query_def split: option.splits dest!: scalar_first_Some)

lemma event_cost_total:
  assumes "\<forall>p\<in>set (gv_pricing env). prices_bounded n p" and "usage_bounded n u"
    and "ue_prompt_tokens e = ud_prompt_tokens u" "ue_completion_tokens e = ud_completion_tokens u"
      "ue_cached_tokens e = ud_cached_tokens u"
  shows "event_cost env e = Inl PricingNotFound \<or> (\<exists>r. event_cost env e = Inr r)"
proof (cases "get_pricing_for_event (ue_provider e) (ue_model e) (timestamp_date (ue_timestamp e)) (gv_pricing env)")
  case (Inl err)
  then have "err = PricingNotFound" by (auto simp: get_pricing_for_event_def split: option.splits)
  with Inl show ?thesis by (simp add: event_cost_def calculate_event_cost_def)
next
  case (Inr p)
  have "prices_bounded n p" using assms(1) get_pricing_mem [OF Inr] by blast
  from calculate_cost_bounded [OF this] assms(2-5) Inr show ?thesis
    by (simp add: event_cost_def calculate_event_cost_def usage_bounded_def)
qed

lemma cost_for_event_total:
  assumes "event_cost env e = Inl PricingNotFound \<or> (\<exists>r. event_cost env e = Inr r)"
    and "\<forall>r\<in>set (db_costs db). row_id r < gx_next_id db \<and> cr_usage_event_id r \<noteq> row_id e"
  shows "\<exists>cost d. cost_for_event env now e db = Inr (cost, d) \<and> gx_executions d = gx_executions db"
  using assms(1) unfolding cost_for_event_fresh [OF assms(2)] by auto

lemma finish_total:
  assumes b: "begun (en_uuid (gv_accounts env)) x0 db" and safe: "pricing_safe env"
    and resp: "gv_complete env cf rp = Inr resp"
  shows "\<exists>x db'. finish_execution env now org c p resp x0 db = Inr (x, db')"
proof -
  define usage where "usage = (case rs_usage resp of None \<Rightarrow> no_usage | Some d \<Rightarrow> d)"
  define model where "model = (if rs_model_id resp = [] then pt_model_id p else rs_model_id resp)"
  define e where "e = playground_event (gv_accounts env) now (gx_next_id db) org c (pt_project_id p) model usage (row_id x0)"
  define db1 where "db1 = db\<lparr>gx_next_id := gx_next_id db + 1\<rparr>"
  have inv: "play_inv (en_uuid (gv_accounts env)) db" and lt: "row_id x0 < gx_next_id db"
    and key: "\<forall>e\<in>set (db_events db). ue_request_id e \<noteq> PLAYGROUND_KEY @ en_uuid (gv_accounts env) (row_id x0)"
    and free: "\<forall>y\<in>set (gx_executions db). row_id y \<noteq> row_id x0"
    using b unfolding begun_def by blast+
  have rec: "record_usage env now org c (pt_project_id p) model usage (row_id x0) db
      = (if gv_accepts env e then (Some e, db1\<lparr>db_events := db_events db @ [e]\<rparr>) else (None, db1))"
    using record_usage_fresh [OF inv lt key] by (simp add: Let_def e_def db1_def)
  have pre: "\<forall>r\<in>set (db_costs (db1\<lparr>db_events := db_events db @ [e]\<rparr>)).
      row_id r < gx_next_id (db1\<lparr>db_events := db_events db @ [e]\<rparr>) \<and> cr_usage_event_id r \<noteq> row_id e"
    using inv by (auto simp: play_inv_def db1_def e_def)
  obtain n where n: "0 \<le> n" "\<forall>p\<in>set (gv_pricing env). prices_bounded n p" "rs_usage resp = Some u \<Longrightarrow> usage_bounded n u" for u
    using safe resp unfolding pricing_safe_def by metis
  have "usage_bounded n usage"
    using n(1,3) by (cases "rs_usage resp") (simp_all add: usage_def no_usage_def usage_bounded_def)
  from event_cost_total [OF n(2) this, of e] have "event_cost env e = Inl PricingNotFound \<or> (\<exists>r. event_cost env e = Inr r)"
    by (simp add: e_def playground_event_def)
  from cost_for_event_total [OF this pre, where now = now]
  obtain cost d where cost: "cost_for_event env now e (db1\<lparr>db_events := db_events db @ [e]\<rparr>) = Inr (cost, d)"
    and "gx_executions d = gx_executions (db1\<lparr>db_events := db_events db @ [e]\<rparr>)"
    by blast
  then have d: "gx_executions d = gx_executions db" by (simp add: db1_def)
  have "store_execution y db1 = Inr (y, db1\<lparr>gx_executions := gx_executions db @ [y]\<rparr>)"
    and "store_execution y d = Inr (y, d\<lparr>gx_executions := gx_executions db @ [y]\<rparr>)" if "row_id y = row_id x0" for y
    using store_execution_fresh [of db1 y] store_execution_fresh [of d y] free that by (simp_all add: d db1_def)
  with cost show ?thesis
    by (simp add: finish_execution_def usage_def [symmetric] model_def [symmetric] rec)
qed

lemma map_sum_Inr: "map_sum f id s = Inr x \<longleftrightarrow> s = Inr x"
  by (cases s) simp_all

lemma execute_total:
  assumes inv: "play_inv (en_uuid (gv_accounts env)) db" and safe: "pricing_safe env"
  shows "\<exists>x db'. fst (execute env now org u c p grp db) = Inr (x, db')"
proof -
  define db1 where "db1 = db\<lparr>gx_next_id := gx_next_id db + 1\<rparr>"
  define x0 where "x0 = (blank_execution now (gx_next_id db) org u c p grp)\<lparr>ex_latency_ms := Some (gv_latency env (gx_next_id db))\<rparr>"
  have x0: "row_id x0 = gx_next_id db" "ex_usage_event_id x0 = None" "ex_estimated_cost x0 = None"
    by (simp_all add: x0_def blank_execution_def)
  have b: "begun (en_uuid (gv_accounts env)) x0 db1"
    using inv draw_inv [OF inv] x0 by (fastforce simp: begun_def db1_def play_inv_def)
  have free: "\<forall>y\<in>set (gx_executions db1). row_id y \<noteq> row_id x0" using b unfolding begun_def by blast
  show ?thesis
  proof (cases "fst (run_prompt env c p)")
    case (Inl f)
    then obtain m where "fst (execute env now org u c p grp db) = store_execution (x0\<lparr>ex_error_message := Some m\<rparr>) db1"
      by (auto simp: execute_def draw_execution_id_def split_def Let_def x0_def db1_def)
    moreover have "\<forall>y\<in>set (gx_executions db1). row_id y \<noteq> row_id (x0\<lparr>ex_error_message := Some m\<rparr>)" using free by simp
    ultimately show ?thesis using store_execution_fresh by metis
  next
    case (Inr resp)
    then obtain cf where "gv_complete env cf (request_of p) = Inr resp"
      by (auto simp: run_prompt_def map_sum_Inr split: sum.splits)
    from finish_total [OF b safe this, of now org c p] Inr show ?thesis
      by (simp add: execute_def draw_execution_id_def split_def Let_def x0_def db1_def)
  qed
qed

text \<open>A target that gets an answer from its provider: it has a model, a connection of the organization, a readable
  credential and an accepted configuration.\<close>

definition target_model :: "'k play_env \<Rightarrow> comparison \<Rightarrow> ident \<Rightarrow> string" where
  "target_model env body t = (case map_of (cp_model_ids body) (en_uuid (gv_accounts env) t) of None \<Rightarrow> [] | Some m \<Rightarrow> m)"

definition reaches_provider :: "'k play_env \<Rightarrow> provider_connection \<Rightarrow> bool" where
  "reaches_provider env c \<longleftrightarrow>
     (case credential_of (gv_cipher env) (gv_encryption env) c of
        Inl _ \<Rightarrow> False
      | Inr key \<Rightarrow> is_ok (build_provider_config (gv_urlparse env) (pc_provider_type c) key (pc_base_url c)))"

definition target_ready :: "'k play_env \<Rightarrow> ident \<Rightarrow> comparison \<Rightarrow> playground_db \<Rightarrow> ident \<Rightarrow> bool" where
  "target_ready env org body db t \<longleftrightarrow> target_model env body t \<noteq> []
     \<and> (case playground_connection org t db of Inl _ \<Rightarrow> False | Inr c \<Rightarrow> reaches_provider env c)"

lemma reaches_provider_calls: "reaches_provider env c \<Longrightarrow> length (snd (run_prompt env c p)) = 1"
  by (auto simp: reaches_provider_def run_prompt_def is_ok_iff split: sum.splits)

lemma execute_calls: "snd (execute env now org u c p grp db) = snd (run_prompt env c p)"
  by (simp add: execute_def draw_execution_id_def Let_def split_def)

lemma playground_connection_accounts:
  "db_accounts db' = db_accounts db \<Longrightarrow> playground_connection org i db' = playground_connection org i db"
  by (simp add: playground_connection_def)

lemma compare_prefix:
  assumes "inj (en_uuid (gv_accounts env))" and "pricing_safe env"
    and "play_inv (en_uuid (gv_accounts env)) db" and "\<forall>t\<in>set ts. target_ready env org body db t"
  shows "\<exists>cs db1. length cs = length ts \<and> db_accounts db1 = db_accounts db
    \<and> snd (compare_targets env now org u body g (ts @ rest) db) = cs @ snd (compare_targets env now org u body g rest db1)
    \<and> (\<forall>e. fst (compare_targets env now org u body g rest db1) = Inl e \<longrightarrow>
          fst (compare_targets env now org u body g (ts @ rest) db) = Inl e)"
  using assms(3,4)
proof (induction ts arbitrary: db)
  case Nil
  show ?case by (rule exI [of _ "[]"], rule exI [of _ db]) simp
next
  case (Cons t ts)
  define m where "m = target_model env body t"
  have m: "m \<noteq> []" and ready: "\<exists>c. playground_connection org t db = Inr c \<and> reaches_provider env c"
    using Cons.prems(2) by (auto simp: target_ready_def m_def split: sum.splits)
  then obtain c where c: "playground_connection org t db = Inr c" "reaches_provider env c" by blast
  let ?p = "(cp_prompt body)\<lparr>pt_model_id := m\<rparr>"
  obtain x db1 where x: "fst (execute env now org u c ?p (Some g) db) = Inr (x, db1)"
    using execute_total [OF Cons.prems(1) assms(2)] by blast
  note st = execute_step [OF Cons.prems(1) assms(1) x]
  have "target_ready env org body db1 t'" if "t' \<in> set ts" for t'
    using that Cons.prems(2) playground_connection_accounts [of db1 db] st by (simp add: target_ready_def)
  with Cons.IH [of db1] st obtain cs db2 where ih: "length cs = length ts" "db_accounts db2 = db_accounts db1"
    "snd (compare_targets env now org u body g (ts @ rest) db1) = cs @ snd (compare_targets env now org u body g rest db2)"
    "\<forall>e. fst (compare_targets env now org u body g rest db2) = Inl e \<longrightarrow>
       fst (compare_targets env now org u body g (ts @ rest) db1) = Inl e"
    by blast
  have step: "compare_targets env now org u body g ((t # ts) @ rest) db =
      (and_then (fst (compare_targets env now org u body g (ts @ rest) db1)) (\<lambda>(xs, db2). Inr (x # xs, db2)),
       snd (run_prompt env c ?p) @ snd (compare_targets env now org u body g (ts @ rest) db1))"
    using m c(1) x execute_calls [of env now org u c ?p "Some g" db]
    by (simp add: target_model_def [symmetric] m_def [symmetric] play_http_def map_err_def split_def Let_def)
  show ?case
  proof (rule exI [of _ "snd (run_prompt env c ?p) @ cs"], rule exI [of _ db2], intro conjI allI impI)
    show "length (snd (run_prompt env c ?p) @ cs) = length (t # ts)"
      using ih(1) reaches_provider_calls [OF c(2)] by simp
    show "db_accounts db2 = db_accounts db" using ih(2) st by simp
    show "snd (compare_targets env now org u body g ((t # ts) @ rest) db)
        = (snd (run_prompt env c ?p) @ cs) @ snd (compare_targets env now org u body g rest db2)"
      unfolding step using ih(3) by simp
    fix e assume "fst (compare_targets env now org u body g rest db2) = Inl e"
    with ih(4) show "fst (compare_targets env now org u body g ((t # ts) @ rest) db) = Inl e" unfolding step by simp
  qed
qed

text \<open>A comparison that names a target without a model, or with a connection of another organization, fails only
  when the loop reaches it: the providers of all earlier targets have been called by then, once each, while the
  request ends in an error, so that its transaction is rolled back and neither their usage nor their executions are
  recorded.\<close>

theorem cut_comparison_loses_usage:
  assumes "inj (en_uuid (gv_accounts env))" and "pricing_safe env"
    and "play_inv (en_uuid (gv_accounts env)) db" and "playground_caller env rq org db = Inr u"
    and "cp_targets body = ts @ t # ts'" and "\<forall>t\<in>set ts. target_ready env org body db t"
    and "target_model env body t = [] \<or> playground_connection org t db = Inl err"
  shows "\<exists>e calls. compare_playground env rq org body db = (Inl e, calls) \<and> length calls = length ts"
proof -
  define db0 where "db0 = db\<lparr>gx_next_id := gx_next_id db + 1\<rparr>"
  have acc: "db_accounts db0 = db_accounts db" by (simp add: db0_def)
  have inv: "play_inv (en_uuid (gv_accounts env)) db0" unfolding db0_def by (rule draw_inv [OF assms(3)])
  have "\<forall>t\<in>set ts. target_ready env org body db0 t"
    using assms(6) playground_connection_accounts [OF acc] by (simp add: target_ready_def)
  from compare_prefix [OF assms(1,2) inv this, of "rq_now rq" "row_id u" "gx_next_id db" "t # ts'"]
  obtain cs db1 where p: "length cs = length ts" "db_accounts db1 = db_accounts db0"
    "snd (compare_targets env (rq_now rq) org (row_id u) body (gx_next_id db) (ts @ t # ts') db0)
       = cs @ snd (compare_targets env (rq_now rq) org (row_id u) body (gx_next_id db) (t # ts') db1)"
    "\<forall>e. fst (compare_targets env (rq_now rq) org (row_id u) body (gx_next_id db) (t # ts') db1) = Inl e \<longrightarrow>
       fst (compare_targets env (rq_now rq) org (row_id u) body (gx_next_id db) (ts @ t # ts') db0) = Inl e"
    by blast
  have "playground_connection org t db1 = playground_connection org t db"
    using p(2) acc by (intro playground_connection_accounts) simp
  with assms(7) have "\<exists>e. compare_targets env (rq_now rq) org (row_id u) body (gx_next_id db) (t # ts') db1 = (Inl e, [])"
    by (cases "target_model env body t = []") (simp_all add: target_model_def [symmetric] play_http_def map_err_def Let_def)
  then obtain e where e: "compare_targets env (rq_now rq) org (row_id u) body (gx_next_id db) (t # ts') db1 = (Inl e, [])" by blast
  have "fst (compare_targets env (rq_now rq) org (row_id u) body (gx_next_id db) (ts @ t # ts') db0) = Inl e"
    and "snd (compare_targets env (rq_now rq) org (row_id u) body (gx_next_id db) (ts @ t # ts') db0) = cs"
    using p(3,4) e by simp_all
  then show ?thesis
    using p(1) assms(4,5) by (simp add: compare_playground_def draw_execution_id_def db0_def split_def Let_def)
qed

section \<open>Examples\<close>

definition play_db :: playground_db where
  "play_db =
     \<lparr>db_accounts = demo\<lparr>ac_connections := [(sample_connection 5 OPENAI)\<lparr>pc_organization_id := 10\<rparr>, sample_connection 6 OPENAI]\<rparr>,
      db_costs = [(sample_record 1 5)\<lparr>cr_organization_id := 10\<rparr>], db_events = [], db_runs = [], gx_executions = [], gx_next_id = 40\<rparr>"

definition play_demo :: "bool play_env" where
  "play_demo =
     \<lparr>gv_accounts = demo_env, gv_cipher = toy_cipher, gv_encryption = encryption_init True None, gv_urlparse = \<lambda>_. None,
      gv_complete = (\<lambda>_ rp. Inr \<lparr>rs_model_id = rp_model_id rp, rs_content = ''hello'',
        rs_usage = Some \<lparr>ud_prompt_tokens = 4, ud_completion_tokens = 2, ud_total_tokens = 6, ud_cached_tokens = None\<rparr>\<rparr>),
      gv_error_text = \<lambda>_. [], gv_latency = \<lambda>_. 12, gv_accepts = \<lambda>_. True,
      gv_pricing = [sample_price 1 ''1'' 100 None], gv_texts = sample_texts, gv_alert_ids = []\<rparr>"

definition sample_prompt :: play_prompt where
  "sample_prompt = \<lparr>pt_model_id = ''gpt'', pt_project_id = None, pt_system_prompt = None, pt_user_prompt = ''hi'',
     pt_temperature = None, pt_top_p = None, pt_max_tokens = Some 9\<rparr>"

lemma play_demo_sel [simp]: "gv_accounts play_demo = demo_env" "gv_pricing play_demo = [sample_price 1 ''1'' 100 None]"
  by (simp_all add: play_demo_def)

lemma demo_uuid: "inj (en_uuid demo_env)"
  by (auto simp: demo_env_def inj_def dest: arg_cong [where f = length])

lemma play_db_inv: "play_inv (en_uuid demo_env) play_db"
  by (simp add: play_inv_def play_db_def sample_record_def)

lemma sample_connection_sel: "row_id (sample_connection i v) = i"
  by (simp add: sample_connection_def)

lemma play_demo_caller: "playground_caller play_demo (demo_request 2) 10 play_db = Inr (demo_user 2 ''adam'' ''Adam'')"
  by code_simp

lemma play_demo_connection: "playground_connection 10 5 play_db = Inr ((sample_connection 5 OPENAI)\<lparr>pc_organization_id := 10\<rparr>)"
  by code_simp

lemma play_demo_prompt:
  "run_prompt play_demo ((sample_connection 5 OPENAI)\<lparr>pc_organization_id := 10\<rparr>) sample_prompt
    = (Inr \<lparr>rs_model_id = ''gpt'', rs_content = ''hello'',
        rs_usage = Some \<lparr>ud_prompt_tokens = 4, ud_completion_tokens = 2, ud_total_tokens = 6, ud_cached_tokens = None\<rparr>\<rparr>,
       [(\<lparr>cf_provider_type = OPENAI, cf_api_key = None, cf_base_url = None\<rparr>, request_of sample_prompt)])"
  by (simp add: run_prompt_def play_demo_def credential_of_def sample_connection_def build_provider_config_def make_config_def
      request_of_def sample_prompt_def)

lemma play_demo_safe: "pricing_safe play_demo"
proof -
  have "price_bounded 10 (Some (25 / 10 ^ 7))" "price_bounded 10 (Some (1 / 10 ^ 5))"
    unfolding price_bounded_def by (rule exI [of _ 25000], simp) (rule exI [of _ 100000], simp)
  then have "prices_bounded 10 (sample_price 1 ''1'' 100 None)"
    by (simp add: prices_bounded_def sample_price_def)
  then show ?thesis
    unfolding pricing_safe_def by (intro exI [of _ 10]) (auto simp: play_demo_def usage_bounded_def)
qed


definition play_comparison :: comparison where
  "play_comparison = \<lparr>cp_targets = [5, 6], cp_model_ids = [(replicate 5 (CHR ''i''), ''gpt''), (replicate 6 (CHR ''i''), ''gpt'')],
     cp_prompt = sample_prompt\<rparr>"

theorem cut_comparison_loses_usage_witness:
  "\<exists>e calls. compare_playground play_demo (demo_request 2) 10 play_comparison play_db = (Inl e, calls) \<and> length calls = 1"
proof -
  have "target_ready play_demo 10 play_comparison play_db 5" by code_simp
  moreover have "playground_connection 10 6 play_db = Inl (Http 404 ''Connection not found'')" by code_simp
  ultimately show ?thesis
    using cut_comparison_loses_usage [of play_demo play_db "demo_request 2" 10 "demo_user 2 ''adam'' ''Adam''" play_comparison
        "[5]" 6 "[]" "Http 404 ''Connection not found''"]
      play_db_inv demo_uuid play_demo_safe play_demo_caller
    by (simp add: play_comparison_def)
qed

end
