(* ===== verification/Spec2Isabelle.thy ===== *)
theory Spec2Isabelle
  imports Sdk_Worker Realtime_Laws Pricing Alert_Rules Budgets Rate_Limits Scheduler Auth_Api_Laws Ingestion_Laws Agent_Laws Provider_Usage Dashboard_Laws Playground_Laws
begin

text \<open>
  AI-FinOps (Costorah) records what an organization spends on AI providers: client programs, a monitoring
  agent and a synchronisation with the providers report usage, the back end prices it, budgets and alerts watch
  the cost, and a realtime gateway streams what happens. This development models the Python parts that carry
  that logic, as executable functions on explicit states. Paths below are under \<open>src/\<close>.

  Parts and theories.

  \<^item> Foundations. \<open>Prelude\<close>: names (times in microseconds or rational seconds, results as sums), string and list
    functions of Python, lemmas for all theories. \<open>Json\<close>, \<open>Web_Text\<close>: decoded JSON with the Python operations on
    it, \<open>json.dumps\<close>, Base 64, percent encoding. \<open>Decimals\<close>: \<open>decimal\<close> with 28 digits and half-even rounding.
    \<open>Repository\<close>: \<open>backend/app/repositories/base_repository.py\<close> (soft deletion, cursors, pages) over tables as lists
    of rows.
  \<^item> \<open>Interfaces\<close>: the contracts between components as locales: a retry schedule (\<open>backoff_schedule\<close>), a bounded
    queue (\<open>bounded_fifo\<close>), an event store (\<open>event_store\<close>) and a sliding window (\<open>window_limiter\<close>). They are
    interpreted on the SDK's retry schedule, the login lock, the agent's retry policy and the retry policy of the
    HTTP client; the queues of the SDK, of the agent and of a realtime connection; the SQLite queue of the SDK and
    the event store of the agent; the limiters of logins, e-mails and connections.
  \<^item> Reporting. \<open>Sdk_Breaker\<close>, \<open>Sdk_Queue\<close>, \<open>Sdk_Worker\<close>: \<open>sdk/python/costorah/reliability/\<close>, the delivery pipeline
    of the SDK; the worker is a step function over submissions, passes, request starts and replies, so that any
    interleaving of its threads is a list of steps. \<open>Agent_Data\<close>, \<open>Agent\<close>, \<open>Agent_Laws\<close>: \<open>monitoring-agent/\<close>:
    configuration, key store, collectors, memory queue, durable store, sender and scheduler, with the two loops as
    a step relation that refines an abstract outbox. \<open>Ingestion\<close>, \<open>Ingestion_Laws\<close>: the endpoint they report to
    (\<open>services/usage_ingestion_service.py\<close>, \<open>api/v1/ingest.py\<close>), usage records and daily summaries.
  \<^item> Synchronisation. \<open>Connections\<close>: encrypted credentials, configurations with their SSRF guard, health.
    \<open>Provider_Http\<close>, \<open>Provider_Usage\<close>: errors, retries, the request loop, normalizers and the adapters with a usage
    API. \<open>Usage_Collect\<close>: \<open>usage/service.py\<close>, its validator, checkpoints and runs. \<open>Scheduler\<close>: the fleet of
    synchronisation schedulers with their Redis locks.
  \<^item> Cost. \<open>Pricing\<close>: the catalogue of prices and the cost of an event. \<open>Cost_Records\<close>: cost records and their
    breakdowns. \<open>Budgets\<close>: periods, spend, health and the alerts of the thresholds. \<open>Alerts\<close>, \<open>Alert_Rules\<close>:
    deduplication, suppression, life cycle, conditions, preferences, dispatch.
  \<^item> Accounts. \<open>Identity\<close>: users, sessions, tokens, organizations, memberships, invitations, API keys. \<open>Access\<close>,
    \<open>Access_Control\<close>: permissions and the handlers of organizations, invitations and keys, with any sequence of
    requests as a run. \<open>Rate_Limits\<close>: \<open>auth/rate_limit.py\<close>, \<open>realtime/rate_limit.py\<close>. \<open>Auth\<close>, \<open>Auth_Laws\<close>:
    \<open>auth/service.py\<close>. \<open>Auth_Api\<close>, \<open>Auth_Api_Laws\<close>: the routes of \<open>api/v1/auth.py\<close> with their limits, cookies and
    status codes, and the exchange with Google (\<open>auth/google_oauth.py\<close>).
  \<^item> Reading. \<open>Dashboard\<close>, \<open>Dashboard_Laws\<close>: \<open>analytics/service.py\<close>, \<open>dashboard/service.py\<close> and their routes:
    overview, calendar series, breakdowns, key figures, activity and budget summary over the tables of the others.
  \<^item> \<open>Playground\<close>, \<open>Playground_Laws\<close>: \<open>services/playground_service.py\<close> and \<open>api/v1/playground.py\<close>: prompts sent to
    a connection, whose usage and cost go into the same tables.
  \<^item> \<open>Realtime\<close>, \<open>Realtime_Laws\<close>: \<open>backend/app/realtime/\<close> and \<open>api/v1/realtime.py\<close>: the event bus with its replay
    buffer, the connection manager and its dispatch loop, authentication of a connection, the streams.

  How they interact. The agent and the SDK deliver to ingestion, which prices an event (\<open>Pricing\<close>), stores its cost
  (\<open>Cost_Records\<close>) and evaluates budgets and alerts. The scheduler synchronises the connections of an
  organization through the adapters into \<open>Usage_Collect\<close>. Every handler starts with the caller (\<open>Access\<close>) and its
  alerts go through \<open>fire\<close>, whose events the realtime bus carries to the connections of the organization.

  What the lemmas show. Each component has a well-formedness or counting invariant kept by every operation, the
  behaviour of its operations on each branch, and the contract it gives its clients; the properties (marked by
  an identifier) state what the whole component promises: no event leaves a persistent queue before its own
  request is answered, the agent implements its outbox, paging shows every row once, prices of a model never
  overlap, a cost is the sum of its rounded parts, an open alert is unique per key, the periods of a budget tile
  the calendar, an organization keeps an owner, every request is authorised, a Google callback needs the browser
  that started it, a connection receives exactly the events of its organization, a dashboard
  shows the data of its organization only, a prompt adds to the spending what is shown with it. Some properties state a defect of the code as it behaves: a rejected
  probe wedges the worker, one unreadable answer loses a batch of the agent, an outage of a provider skips its
  usage, buckets are read as items, an idle event stream closes, a weekly series adds currencies, a comparison cut
  short loses the usage of its first prompts.

  Conventions. Code that is not in the repository is a parameter: serializers and gzip, hashes and ciphers, signed
  tokens, the Redis client, the HTTP transport, the endpoints of providers and of Google. Clock readings are
  arguments; fresh identifiers and random draws are arguments or come from a counter of the state. SQL statements
  are list functions on the rows of a table; a request is one transaction on its tables, an error gives them back
  unchanged (the e-mails of such a request included, which the code sends last), and what lives outside the
  database, such as a limiter, is returned on every path. Column length limits are not modelled. Exceptions are
  the left values of a sum. Two loops take fuel: the pages of a collection (more fuel than the measure of its
  first cursor suffices, and it may run for ever when the cursors do not advance) and the search for a free slug
  (one more than the rows of the table suffices).

  Not modelled: the web front ends, migrations, the validation of request bodies by Pydantic where no validator of
  the repository is involved, model catalogues and chat completion of the adapters, e-mail templates,
  instrumentation wrappers of third-party clients, offline database tools, settings, logging and metrics registries: they either only call libraries or format data.
\<close>

section \<open>Properties of components together\<close>

text \<open>One answer of the OpenAI usage API: a time bucket with a result.\<close>

definition bucket_answer :: "int \<Rightarrow> int \<Rightarrow> string \<Rightarrow> int \<Rightarrow> int \<Rightarrow> int \<Rightarrow> json" where
  "bucket_answer start fin model inp out requests =
     Js_dict [(''data'', Js_list [Js_dict [(''start_time'', Js_int start), (''end_time'', Js_int fin),
       (''results'', Js_list [Js_dict [(''model'', Js_str model), (''input_tokens'', Js_int inp),
          (''output_tokens'', Js_int out), (''num_model_requests'', Js_int requests)]])]])]"

text \<open>C13: the monitoring agent and the back end read the same endpoint differently. On an answer made of time
  buckets the agent's collector reports the tokens of every result under its model; the adapter of the back end
  takes each bucket for an item and imports one request of an unknown model without tokens, so usage imported
  by synchronisation and usage reported by the agent cannot both be right.\<close>

theorem usage_readings_disagree:
  assumes "0 < start" and "start < 253402300800" and "0 < fin" and "fin < 253402300800"
  shows "(\<exists>e. bucket_events (normalize_openai sha repr) (bucket_answer start fin model inp out requests) = Inr [e]
      \<and> nv_model e = model \<and> nv_input_tokens e = inp \<and> nv_output_tokens e = out \<and> nv_total_tokens e = Some (inp + out))
    \<and> (\<exists>x. openai_get_usage (openai_normalize sha1 repr now)
        (\<lambda>q. Inr (bucket_answer start fin model inp out requests)) (Inr key) t t' None limit
        = Inr \<lparr>up_events = [x], up_next_cursor = None, up_has_more = False\<rparr>
      \<and> ne_model x = ''unknown'' \<and> ne_total_tokens x = 0 \<and> ne_request_count x = 1)"
proof -
  let ?r = "[(''model'', Js_str model), (''input_tokens'', Js_int inp), (''output_tokens'', Js_int out),
    (''num_model_requests'', Js_int requests)]"
  let ?b = "[(''start_time'', Js_int start), (''end_time'', Js_int fin), (''results'', Js_list [Js_dict ?r])]"
  have "\<exists>e. normalize_openai sha repr (Js_dict ?b) (Js_dict ?r) = Inr e
      \<and> nv_model e = model \<and> nv_input_tokens e = inp \<and> nv_output_tokens e = out \<and> nv_total_tokens e = Some (inp + out)"
    using assms by (simp add: normalize_openai_def as_str_def from_timestamp_int)
  moreover have "bucket_events (normalize_openai sha repr) (bucket_answer start fin model inp out requests)
      = and_then (normalize_openai sha repr (Js_dict ?b) (Js_dict ?r)) (\<lambda>e. Inr [e])"
    by (cases "normalize_openai sha repr (Js_dict ?b) (Js_dict ?r)") (simp_all add: bucket_events_def bucket_answer_def)
  moreover have "\<exists>x. openai_normalize sha1 repr now (Js_dict ?b) = Inr x
      \<and> ne_model x = ''unknown'' \<and> ne_total_tokens x = 0 \<and> ne_request_count x = 1"
    using assms by (subst keyless_item_normalized [where start = start]) simp_all
  ultimately show ?thesis
    by (auto simp: openai_get_usage_def map_err_def page_of_def items_of_def bucket_answer_def cursor_field_def)
qed

theorem usage_readings_disagree_witness:
  "\<exists>e. bucket_events (normalize_openai (\<lambda>s. s) (\<lambda>x. [])) (bucket_answer 60 120 ''gpt-4o'' 1000 500 3) = Inr [e]
     \<and> nv_total_tokens e = Some 1500"
  using usage_readings_disagree [where start = 60 and fin = 120 and sha = "\<lambda>s. s" and repr = "\<lambda>x. []"
      and model = "''gpt-4o''" and inp = 1000 and out = 500 and requests = 3 and ?sha1.0 = "\<lambda>s. s" and now = 0
      and key = "''k''" and t = 0 and t' = 0 and limit = 100]
  by auto

end
